(* ===== verification/HS_Prelude.thy ===== *)
theory HS_Prelude
  imports Complex_Main "HOL-Library.Sublist" "HOL-Library.Char_ord" "HOL-Library.List_Lexorder"
begin

text \<open>
  The shared base of the development: the Python string and list operations the modules under
  \<open>src/app\<close> use, and the lemmas about them that several components share.

  A Python \<open>str\<close> is a \<open>string\<close>, a list of code points below 256 (Latin-1). Every operation
  below is Python's on that range, white space and digits beyond ASCII included; a code point
  above 255 is outside the model. An exception is a value on the left of a sum.
\<close>

named_theorems str_simps \<open>unfolding the string operations on concrete text\<close>

type_synonym 'e fallible_unit = "'e + unit"
type_synonym datetime = int \<comment> \<open>an aware UTC datetime, in microseconds since the epoch\<close>

definition second :: int where "second = 1000000"
definition day :: int where "day = 24 * 60 * 60 * second"

subsection \<open>Sums as results\<close>

fun bind_res :: "'e + 'a \<Rightarrow> ('a \<Rightarrow> 'e + 'b) \<Rightarrow> 'e + 'b" where
  "bind_res (Inl e) f = Inl e"
| "bind_res (Inr x) f = f x"

fun map_err :: "('e \<Rightarrow> 'f) \<Rightarrow> 'e + 'a \<Rightarrow> 'f + 'a" where
  "map_err g (Inl e) = Inl (g e)"
| "map_err g (Inr x) = Inr x"

lemma bind_res_Inr: "bind_res r f = Inr y \<longleftrightarrow> (\<exists>x. r = Inr x \<and> f x = Inr y)"
  by (cases r) auto

lemma bind_res_Inl: "bind_res r f = Inl e \<longleftrightarrow> r = Inl e \<or> (\<exists>x. r = Inr x \<and> f x = Inl e)"
  by (cases r) auto

lemma map_err_Inr [simp]: "map_err g r = Inr y \<longleftrightarrow> r = Inr y"
  by (cases r) auto

subsection \<open>Characters\<close>

text \<open>\<open>str.isspace\<close> on one character, as \<open>str.strip()\<close> and \<open>str.split()\<close> use it.\<close>

definition py_space :: "char \<Rightarrow> bool" where
  "py_space c \<longleftrightarrow> (of_char c :: nat) \<in> {9, 10, 11, 12, 13, 28, 29, 30, 31, 32, 133, 160}"

text \<open>\<open>str.isdigit\<close> holds of the superscripts 1, 2 and 3 too, which \<open>int()\<close> refuses.\<close>

definition ascii_digit :: "char \<Rightarrow> bool" where
  "ascii_digit c \<longleftrightarrow> 48 \<le> (of_char c :: nat) \<and> (of_char c :: nat) \<le> 57"

definition py_digit :: "char \<Rightarrow> bool" where
  "py_digit c \<longleftrightarrow> ascii_digit c \<or> (of_char c :: nat) \<in> {178, 179, 185}"

definition lower_char :: "char \<Rightarrow> char" where
  "lower_char c =
     (let n = (of_char c :: nat)
      in if (65 \<le> n \<and> n \<le> 90) \<or> (192 \<le> n \<and> n \<le> 222 \<and> n \<noteq> 215)
         then char_of (n + 32) else c)"

definition upper_ascii :: "char \<Rightarrow> char" where
  "upper_ascii c =
     (let n = (of_char c :: nat) in if 97 \<le> n \<and> n \<le> 122 then char_of (n - 32) else c)"

definition py_lower :: "string \<Rightarrow> string" where
  "py_lower s = map lower_char s"

lemma length_py_lower [simp]: "length (py_lower s) = length s"
  by (simp add: py_lower_def)

lemma py_lower_Nil [simp]: "py_lower s = [] \<longleftrightarrow> s = []"
  by (simp add: py_lower_def)

subsection \<open>Trimming\<close>

definition rstrip_if :: "('a \<Rightarrow> bool) \<Rightarrow> 'a list \<Rightarrow> 'a list" where
  "rstrip_if P s = rev (dropWhile P (rev s))"

definition strip_if :: "('a \<Rightarrow> bool) \<Rightarrow> 'a list \<Rightarrow> 'a list" where
  "strip_if P s = rstrip_if P (dropWhile P s)"

definition py_strip :: "string \<Rightarrow> string" where
  "py_strip s = strip_if py_space s"

definition strip_slash :: "string \<Rightarrow> string" where
  "strip_slash s = strip_if (\<lambda>c. c = CHR ''/'') s"

definition rstrip_slash :: "string \<Rightarrow> string" where
  "rstrip_slash s = rstrip_if (\<lambda>c. c = CHR ''/'') s"

lemma rstrip_if_Nil [simp]: "rstrip_if P [] = []"
  by (simp add: rstrip_if_def)

lemma set_rstrip_if: "set (rstrip_if P s) \<subseteq> set s"
  by (auto simp: rstrip_if_def dest: set_dropWhileD)

lemma set_strip_if: "set (strip_if P s) \<subseteq> set s"
  using set_rstrip_if [of P "dropWhile P s"] by (auto simp: strip_if_def dest: set_dropWhileD)

lemma rstrip_if_last: "rstrip_if P s \<noteq> [] \<Longrightarrow> \<not> P (last (rstrip_if P s))"
  by (simp add: rstrip_if_def last_rev hd_dropWhile)

lemma rstrip_if_prefix: "prefix (rstrip_if P s) s"
  unfolding rstrip_if_def by (metis rev_rev_ident suffix_dropWhile suffix_to_prefix)

lemma strip_if_last: "strip_if P s \<noteq> [] \<Longrightarrow> \<not> P (last (strip_if P s))"
  by (simp add: strip_if_def rstrip_if_last)

lemma strip_if_hd:
  assumes "strip_if P s \<noteq> []"
  shows "\<not> P (hd (strip_if P s))"
proof -
  obtain ys where ys: "dropWhile P s = strip_if P s @ ys"
    using rstrip_if_prefix [of P "dropWhile P s"] by (auto simp: strip_if_def prefix_def)
  then have "dropWhile P s \<noteq> []" using assms by auto
  then have "\<not> P (hd (dropWhile P s))" by (rule hd_dropWhile)
  then show ?thesis using ys assms by simp
qed

lemma rstrip_if_id: "s = [] \<or> \<not> P (last s) \<Longrightarrow> rstrip_if P s = s"
  by (cases s rule: rev_cases) (auto simp: rstrip_if_def)

lemma strip_if_id: "s = [] \<or> \<not> P (hd s) \<and> \<not> P (last s) \<Longrightarrow> strip_if P s = s"
  by (cases s) (auto simp: strip_if_def rstrip_if_id)

lemma strip_if_idem [simp]: "strip_if P (strip_if P s) = strip_if P s"
  by (rule strip_if_id) (use strip_if_hd strip_if_last in blast)

lemma strip_if_all: "\<forall>c \<in> set s. P c \<Longrightarrow> strip_if P s = []"
proof -
  assume "\<forall>c \<in> set s. P c"
  then have "dropWhile P s = []" by simp
  then show "strip_if P s = []" by (simp only: strip_if_def rstrip_if_Nil)
qed

subsection \<open>Splitting and joining\<close>

text \<open>\<open>s.split(c)\<close> with a one character separator: always at least one piece.\<close>

fun split_on :: "'a \<Rightarrow> 'a list \<Rightarrow> 'a list list" where
  "split_on c [] = [[]]"
| "split_on c (x # xs) =
     (if x = c then [] # split_on c xs
      else (case split_on c xs of [] \<Rightarrow> [[x]] | p # ps \<Rightarrow> (x # p) # ps))"

text \<open>\<open>sep.join(parts)\<close>.\<close>

fun join_with :: "'a list \<Rightarrow> 'a list list \<Rightarrow> 'a list" where
  "join_with sep [] = []"
| "join_with sep [p] = p"
| "join_with sep (p # q # ps) = p @ sep @ join_with sep (q # ps)"

lemma split_on_not_Nil [simp]: "split_on c xs \<noteq> []"
  by (induction xs) (auto split: list.splits)

lemma split_on_pieces: "p \<in> set (split_on c xs) \<Longrightarrow> c \<notin> set p"
proof (induction xs arbitrary: p)
  case (Cons x xs)
  then show ?case by (cases "split_on c xs") (auto split: if_splits)
qed simp

lemma set_split_on_all: "\<forall>p \<in> set (split_on c xs). set p \<subseteq> set xs"
proof (induction xs)
  case (Cons x xs)
  then show ?case by (cases "split_on c xs") auto
qed simp

lemma set_split_on: "p \<in> set (split_on c xs) \<Longrightarrow> y \<in> set p \<Longrightarrow> y \<in> set xs"
  using set_split_on_all by fastforce

lemma join_split_on: "join_with [c] (split_on c xs) = xs"
proof (induction xs)
  case (Cons x xs)
  obtain p ps where ps: "split_on c xs = p # ps" by (cases "split_on c xs") auto
  with Cons show ?case by (cases ps) auto
qed simp

lemma split_on_single: "c \<notin> set p \<Longrightarrow> split_on c p = [p]"
  by (induction p) auto

lemma split_on_append: "c \<notin> set p \<Longrightarrow> split_on c (p @ c # xs) = p # split_on c xs"
  by (induction p) auto

lemma split_join_with:
  "ps \<noteq> [] \<Longrightarrow> \<forall>p \<in> set ps. c \<notin> set p \<Longrightarrow> split_on c (join_with [c] ps) = ps"
  by (induction "[c]" ps rule: join_with.induct) (auto simp: split_on_single split_on_append)

lemma join_with_Nil [simp]: "join_with sep ps = [] \<longleftrightarrow> ps = [] \<or> ps = [[]] \<or> sep = [] \<and> (\<forall>p \<in> set ps. p = [])"
  by (induction sep ps rule: join_with.induct) auto

lemma set_join_with: "set (join_with sep ps) \<subseteq> set sep \<union> (\<Union>p \<in> set ps. set p)"
  by (induction sep ps rule: join_with.induct) auto

lemma split_on_snoc_sep: "split_on c (xs @ [c]) = split_on c xs @ [[]]"
proof (induction xs)
  case (Cons x xs)
  then show ?case by (cases "split_on c xs") auto
qed simp

lemma pieces_dropWhile:
  "filter (\<lambda>p. p \<noteq> []) (split_on c (dropWhile (\<lambda>x. x = c) xs)) = filter (\<lambda>p. p \<noteq> []) (split_on c xs)"
  by (induction xs) auto

lemma pieces_rstrip:
  "filter (\<lambda>p. p \<noteq> []) (split_on c (rstrip_if (\<lambda>x. x = c) xs)) = filter (\<lambda>p. p \<noteq> []) (split_on c xs)"
proof (induction xs rule: rev_induct)
  case (snoc x xs)
  then show ?case by (cases "x = c") (auto simp: rstrip_if_def split_on_snoc_sep)
qed simp

lemma pieces_strip:
  "filter (\<lambda>p. p \<noteq> []) (split_on c (strip_if (\<lambda>x. x = c) xs)) = filter (\<lambda>p. p \<noteq> []) (split_on c xs)"
  by (simp add: strip_if_def pieces_rstrip pieces_dropWhile)

lemma pieces_strip_mem: "p \<noteq> [] \<Longrightarrow> p \<in> set (split_on c (strip_if (\<lambda>x. x = c) xs)) \<longleftrightarrow> p \<in> set (split_on c xs)"
  using arg_cong [OF pieces_strip [of c xs], of set] by auto

lemma split_on_join_append:
  "split_on c (a @ c # b) = split_on c a @ split_on c b"
proof (induction a)
  case (Cons x a)
  then show ?case by (cases "split_on c a") (auto split: list.splits)
qed simp

text \<open>\<open>s.splitlines()\<close>: the boundaries are line feed, carriage return (one boundary with a
  line feed after it), vertical tab, form feed, the separators 28 to 30 and next line. The
  piece after the last boundary counts only when it is not empty.\<close>

definition line_break :: "char \<Rightarrow> bool" where
  "line_break c \<longleftrightarrow> (of_char c :: nat) \<in> {10, 11, 12, 13, 28, 29, 30, 133}"

fun splitlines_acc :: "string \<Rightarrow> string \<Rightarrow> string list" where
  "splitlines_acc acc [] = (if acc = [] then [] else [rev acc])"
| "splitlines_acc acc (c # cs) =
     (if c = CHR 0x0D \<and> cs \<noteq> [] \<and> hd cs = CHR 0x0A then rev acc # splitlines_acc [] (tl cs)
      else if line_break c then rev acc # splitlines_acc [] cs
      else splitlines_acc (c # acc) cs)"

definition py_splitlines :: "string \<Rightarrow> string list" where
  "py_splitlines s = splitlines_acc [] s"

text \<open>\<open>s.split()\<close>: the maximal runs without white space.\<close>

fun words_acc :: "string \<Rightarrow> string \<Rightarrow> string list" where
  "words_acc acc [] = (if acc = [] then [] else [rev acc])"
| "words_acc acc (c # cs) =
     (if py_space c then (if acc = [] then words_acc [] cs else rev acc # words_acc [] cs)
      else words_acc (c # acc) cs)"

definition py_split :: "string \<Rightarrow> string list" where
  "py_split s = words_acc [] s"

lemma splitlines_acc_pieces:
  "\<forall>c \<in> set acc. \<not> line_break c \<Longrightarrow> \<forall>l \<in> set (splitlines_acc acc s). \<forall>c \<in> set l. \<not> line_break c"
proof (induction acc s rule: splitlines_acc.induct)
  case (1 acc)
  then show ?case by simp
next
  case (2 acc c cs)
  consider (crlf) "c = CHR 0x0D \<and> cs \<noteq> [] \<and> hd cs = CHR 0x0A"
    | (brk) "\<not> (c = CHR 0x0D \<and> cs \<noteq> [] \<and> hd cs = CHR 0x0A)" "line_break c"
    | (other) "\<not> (c = CHR 0x0D \<and> cs \<noteq> [] \<and> hd cs = CHR 0x0A)" "\<not> line_break c"
    by blast
  then show ?case
  proof cases
    case crlf
    then have eq: "splitlines_acc acc (c # cs) = rev acc # splitlines_acc [] (tl cs)"
      by simp
    show ?thesis unfolding eq using "2.IH"(1) [OF crlf] "2.prems" by simp
  next
    case brk
    then have eq: "splitlines_acc acc (c # cs) = rev acc # splitlines_acc [] cs"
      by (simp only: splitlines_acc.simps if_False if_True)
    show ?thesis unfolding eq using "2.IH"(2) [OF brk] "2.prems" by simp
  next
    case other
    then have eq: "splitlines_acc acc (c # cs) = splitlines_acc (c # acc) cs"
      by (simp only: splitlines_acc.simps if_False)
    show ?thesis unfolding eq using "2.IH"(3) [OF other] "2.prems" other(2) by simp
  qed
qed

lemma py_splitlines_no_break: "l \<in> set (py_splitlines s) \<Longrightarrow> c \<in> set l \<Longrightarrow> \<not> line_break c"
  unfolding py_splitlines_def using splitlines_acc_pieces [of "[]" s] by auto

subsection \<open>Substrings\<close>

text \<open>\<open>old in s\<close> and \<open>s.replace(old, new)\<close>, leftmost and without overlaps, for a
  non-empty \<open>old\<close> (the code never replaces the empty string).\<close>

fun contains :: "'a list \<Rightarrow> 'a list \<Rightarrow> bool" where
  "contains old [] = (old = [])"
| "contains old (c # cs) = (prefix old (c # cs) \<or> contains old cs)"

function replace_all :: "'a list \<Rightarrow> 'a list \<Rightarrow> 'a list \<Rightarrow> 'a list" where
  "replace_all old new [] = []"
| "replace_all old new (c # cs) =
     (if old \<noteq> [] \<and> prefix old (c # cs)
      then new @ replace_all old new (drop (length old) (c # cs))
      else c # replace_all old new cs)"
  by pat_completeness auto
termination
  by (relation "measure (\<lambda>(old, new, s). length s)") auto

lemma contains_iff_sublist: "contains old s \<longleftrightarrow> sublist old s"
  by (induction s) (auto simp: sublist_Cons_right)

lemma replace_all_id: "\<not> sublist old s \<Longrightarrow> replace_all old new s = s"
  by (induction s) (auto simp: sublist_Cons_right)

subsection \<open>Numbers as text\<close>

fun str_nat :: "nat \<Rightarrow> string" where
  "str_nat n = (if n < 10 then [char_of (48 + n)] else str_nat (n div 10) @ [char_of (48 + n mod 10)])"

declare str_nat.simps [simp del]

definition str_int :: "int \<Rightarrow> string" where
  "str_int i = (if i < 0 then CHR ''-'' # str_nat (nat (- i)) else str_nat (nat i))"

text \<open>The same digits by division of integers, which is what evaluation uses.\<close>

function int_digits :: "int \<Rightarrow> string" where
  "int_digits i = (if i < 10 then [char_of (48 + nat i)] else int_digits (i div 10) @ [char_of (48 + nat (i mod 10))])"
  by pat_completeness auto
termination by (relation "measure nat") auto

declare int_digits.simps [simp del]

lemma int_digits_nat: "int_digits (int n) = str_nat n"
proof (induction n rule: str_nat.induct)
  case (1 n)
  have d: "int n div 10 = int (n div 10)" by presburger
  have m: "nat (int n mod 10) = n mod 10" by (simp add: nat_mod_distrib)
  show ?case
    by (subst int_digits.simps, subst str_nat.simps) (use 1 in \<open>simp only: d m, simp\<close>)
qed

lemma str_nat_code [code]: "str_nat n = int_digits (int n)"
  by (simp add: int_digits_nat)

lemma str_int_code [code]: "str_int i = (if i < 0 then CHR ''-'' # int_digits (- i) else int_digits i)"
proof (cases "i < 0")
  case True
  then show ?thesis using int_digits_nat [of "nat (- i)"] by (simp add: str_int_def)
next
  case False
  then show ?thesis using int_digits_nat [of "nat i"] by (simp add: str_int_def)
qed

definition digit_val :: "char \<Rightarrow> nat" where
  "digit_val c = (of_char c :: nat) - 48"

definition nat_of_digits :: "string \<Rightarrow> nat" where
  "nat_of_digits s = foldl (\<lambda>n c. 10 * n + digit_val c) 0 s"

text \<open>\<open>int(s)\<close> on a string \<open>s.isdigit()\<close> accepted: None where \<open>int\<close> raises ValueError.\<close>

definition isdigit :: "string \<Rightarrow> bool" where
  "isdigit s \<longleftrightarrow> s \<noteq> [] \<and> list_all py_digit s"

definition int_of_str :: "string \<Rightarrow> nat option" where
  "int_of_str s = (if s \<noteq> [] \<and> list_all ascii_digit s then Some (nat_of_digits s) else None)"

lemma str_nat_not_Nil [simp]: "str_nat n \<noteq> []"
  by (subst str_nat.simps) auto

lemma of_char_digit [simp]: "d < 10 \<Longrightarrow> of_char (char_of (48 + d) :: char) = (48 + d :: nat)"
  by (simp add: take_bit_nat_eq_self)

lemma str_nat_digits: "list_all ascii_digit (str_nat n)"
proof (induction n rule: str_nat.induct)
  case (1 n)
  show ?case
    using "1.IH" by (subst str_nat.simps) (auto simp: ascii_digit_def list_all_iff)
qed

lemma nat_of_digits_snoc: "nat_of_digits (s @ [c]) = 10 * nat_of_digits s + digit_val c"
  by (simp add: nat_of_digits_def)

lemma nat_of_digits_str_nat [simp]: "nat_of_digits (str_nat n) = n"
proof (induction n rule: str_nat.induct)
  case (1 n)
  show ?case
  proof (cases "n < 10")
    case True
    then show ?thesis
      by (subst str_nat.simps) (simp add: nat_of_digits_def digit_val_def take_bit_nat_eq_self)
  next
    case False
    then have "nat_of_digits (str_nat n) = 10 * nat_of_digits (str_nat (n div 10)) + n mod 10"
      by (subst str_nat.simps) (simp add: nat_of_digits_snoc digit_val_def)
    with "1.IH" [OF False] show ?thesis by simp
  qed
qed

lemma int_of_str_str_nat [simp]: "int_of_str (str_nat n) = Some n"
  by (simp add: int_of_str_def str_nat_digits)

lemma str_nat_inj: "str_nat m = str_nat n \<longleftrightarrow> m = n"
  by (metis nat_of_digits_str_nat)

lemma str_nat_char: "c \<in> set (str_nat n) \<Longrightarrow> ascii_digit c"
  using str_nat_digits [of n] by (auto simp: list_all_iff)

lemma str_nat_no_slash: "CHR ''/'' \<notin> set (str_nat n)"
  using str_nat_char [of "CHR ''/''" n] by (auto simp: ascii_digit_def)

subsection \<open>Insertion ordered collections\<close>

text \<open>\<open>list(dict.fromkeys(xs))\<close>: the first occurrence of each element, in order.\<close>

fun dedup_acc :: "'a list \<Rightarrow> 'a list \<Rightarrow> 'a list" where
  "dedup_acc seen [] = []"
| "dedup_acc seen (x # xs) =
     (if x \<in> set seen then dedup_acc seen xs else x # dedup_acc (x # seen) xs)"

definition py_fromkeys :: "'a list \<Rightarrow> 'a list" where
  "py_fromkeys xs = dedup_acc [] xs"

lemma set_dedup_acc: "set (dedup_acc seen xs) = set xs - set seen"
  by (induction seen xs rule: dedup_acc.induct) auto

lemma distinct_dedup_acc: "distinct (dedup_acc seen xs)"
  by (induction seen xs rule: dedup_acc.induct) (auto simp: set_dedup_acc)

lemma set_py_fromkeys [simp]: "set (py_fromkeys xs) = set xs"
  by (simp add: py_fromkeys_def set_dedup_acc)

lemma distinct_py_fromkeys [simp]: "distinct (py_fromkeys xs)"
  by (simp add: py_fromkeys_def distinct_dedup_acc)

text \<open>A dict that keeps its insertion order, as an association list: \<open>d[k] = v\<close> keeps the place of
  a key it already has.\<close>

fun dict_put :: "'k \<Rightarrow> 'v \<Rightarrow> ('k \<times> 'v) list \<Rightarrow> ('k \<times> 'v) list" where
  "dict_put k v [] = [(k, v)]"
| "dict_put k v ((k', v') # d) = (if k = k' then (k, v) # d else (k', v') # dict_put k v d)"

definition dict_del :: "'k \<Rightarrow> ('k \<times> 'v) list \<Rightarrow> ('k \<times> 'v) list" where
  "dict_del k d = filter (\<lambda>p. fst p \<noteq> k) d"

lemma map_of_dict_put: "map_of (dict_put k v d) = (map_of d)(k \<mapsto> v)"
  by (induction k v d rule: dict_put.induct) (auto simp: fun_eq_iff)

lemma map_of_dict_del: "map_of (dict_del k d) = (map_of d)(k := None)"
  by (induction d) (auto simp: dict_del_def fun_eq_iff)

lemma keys_dict_put: "fst ` set (dict_put k v d) = insert k (fst ` set d)"
  by (induction k v d rule: dict_put.induct) auto

lemma keys_dict_del: "fst ` set (dict_del k d) = fst ` set d - {k}"
  by (auto simp: dict_del_def)

lemma distinct_dict_put: "distinct (map fst d) \<Longrightarrow> distinct (map fst (dict_put k v d))"
proof (induction k v d rule: dict_put.induct)
  case (2 k v k' v' d)
  then show ?case using keys_dict_put [of k v d] by (auto simp: image_iff)
qed simp

lemma distinct_dict_del: "distinct (map fst d) \<Longrightarrow> distinct (map fst (dict_del k d))"
  by (induction d) (auto simp: dict_del_def)

lemma length_dict_put: "length (dict_put k v d) = (if k \<in> fst ` set d then length d else Suc (length d))"
  by (induction k v d rule: dict_put.induct) auto

text \<open>A property of every value of a dict, kept by the two updates.\<close>

definition all_vals :: "('v \<Rightarrow> bool) \<Rightarrow> ('k \<times> 'v) list \<Rightarrow> bool" where
  "all_vals P d \<longleftrightarrow> (\<forall>k v. map_of d k = Some v \<longrightarrow> P v)"

lemma all_valsD: "all_vals P d \<Longrightarrow> map_of d k = Some v \<Longrightarrow> P v"
  by (simp add: all_vals_def)

lemma all_vals_Nil [simp]: "all_vals P []"
  by (simp add: all_vals_def)

lemma all_vals_put: "all_vals P d \<Longrightarrow> P v \<Longrightarrow> all_vals P (dict_put k v d)"
  by (simp add: all_vals_def map_of_dict_put)

lemma all_vals_del: "all_vals P d \<Longrightarrow> all_vals P (dict_del k d)"
  by (simp add: all_vals_def map_of_dict_del)

end
