(* ===== verification/Models.thy ===== *)
theory Models
  imports HS_Prelude
begin

text \<open>
  The data model: \<open>app/models/job.py\<close>, \<open>connection.py\<close>, \<open>credential.py\<close>,
  \<open>login_attempt.py\<close>, \<open>filter_preset.py\<close>, \<open>user.py\<close>. A table row is a record whose
  fields carry the columns' names with a prefix for the table; a \<open>StrEnum\<close> is a datatype with
  its members in the source's order; a nullable column is an option. JSON columns are values of
  \<open>json\<close>, which also stands for what \<open>json.loads\<close> returns (a Python bool is an int there, so
  the readers below say which of the two they accept).
\<close>

subsection \<open>JSON values\<close>

datatype json =
    JNull
  | JBool bool
  | JInt int
  | JFloat rat
  | JStr string
  | JArr "json list"
  | JObj "(string \<times> json) list"

text \<open>\<open>dict.get\<close> on a decoded object: a repeated key keeps its last value, as \<open>json.loads\<close>
  does.\<close>

definition jget :: "(string \<times> json) list \<Rightarrow> string \<Rightarrow> json option" where
  "jget d k = map_of (rev d) k"

text \<open>Python's truth value of a decoded value.\<close>

fun truthy :: "json \<Rightarrow> bool" where
  "truthy JNull = False"
| "truthy (JBool b) = b"
| "truthy (JInt i) = (i \<noteq> 0)"
| "truthy (JFloat r) = (r \<noteq> 0)"
| "truthy (JStr s) = (s \<noteq> [])"
| "truthy (JArr xs) = (xs \<noteq> [])"
| "truthy (JObj d) = (d \<noteq> [])"

subsection \<open>Enumerations\<close>

datatype engine = EngRclone

datatype direction = SourceToDest | DestToSource | Bidirectional

datatype delete_mode = DelNone | DelDelete | DelArchive

datatype archive_layout = TimestampedDir | SuffixLayout

datatype compare_mode = MtimeSize | CompareChecksum | SizeOnly

datatype conflict_resolve =
  CRNewer | CROlder | CRLarger | CRSmaller | CRPath1 | CRPath2 | CRNone

datatype notify_on = NotifyNever | NotifyFailure | NotifyAlways

datatype run_trigger = TrigManual | TrigSchedule | TrigApi

datatype run_mode = DryRun | Live

datatype run_status = Queued | Running | Success | Failed | Cancelled | Skipped

datatype change_action = ActNew | ActUpdated | ActDeleted | ActArchived | ActUnchanged
  | ActConflict | ActError

datatype change_side = SideSource | SideDest

datatype connection_type = CtLocal | CtSftp | CtFtp | CtFtps | CtSmb | CtRcloneRemote

datatype rclone_mode = RmInline | RmImported

datatype credential_kind = CkPassword | CkSshKey | CkSmbNtlm | CkBackendSecret

datatype attempt_scope = ScopeUsername | ScopeAddress

fun conflict_value :: "conflict_resolve \<Rightarrow> string" where
  "conflict_value CRNewer = ''newer''"
| "conflict_value CROlder = ''older''"
| "conflict_value CRLarger = ''larger''"
| "conflict_value CRSmaller = ''smaller''"
| "conflict_value CRPath1 = ''path1''"
| "conflict_value CRPath2 = ''path2''"
| "conflict_value CRNone = ''none''"

fun side_value :: "change_side \<Rightarrow> string" where
  "side_value SideSource = ''source''"
| "side_value SideDest = ''dest''"

fun status_value :: "run_status \<Rightarrow> string" where
  "status_value Queued = ''queued''"
| "status_value Running = ''running''"
| "status_value Success = ''success''"
| "status_value Failed = ''failed''"
| "status_value Cancelled = ''cancelled''"
| "status_value Skipped = ''skipped''"

fun mode_value :: "run_mode \<Rightarrow> string" where
  "mode_value DryRun = ''dry_run''"
| "mode_value Live = ''live''"

fun trigger_value :: "run_trigger \<Rightarrow> string" where
  "trigger_value TrigManual = ''manual''"
| "trigger_value TrigSchedule = ''schedule''"
| "trigger_value TrigApi = ''api''"

lemma side_value_inj: "side_value a = side_value b \<longleftrightarrow> a = b"
  by (cases a; cases b) auto

lemma status_value_inj: "status_value a = status_value b \<longleftrightarrow> a = b"
  by (cases a; cases b) auto

text \<open>The order \<open>sorted\<close> uses on sides is that of their values: \<open>dest\<close> before \<open>source\<close>.\<close>

instantiation change_side :: linorder
begin

definition less_eq_change_side :: "change_side \<Rightarrow> change_side \<Rightarrow> bool" where
  "less_eq_change_side a b \<longleftrightarrow> a = b \<or> a = SideDest"

definition less_change_side :: "change_side \<Rightarrow> change_side \<Rightarrow> bool" where
  "less_change_side a b \<longleftrightarrow> a = SideDest \<and> b = SideSource"

instance
proof
  fix x y :: change_side
  show "(x < y) = (x \<le> y \<and> \<not> y \<le> x)"
    by (cases x; cases y) (auto simp: less_eq_change_side_def less_change_side_def)
  show "x \<le> y \<or> y \<le> x"
    by (cases x; cases y) (auto simp: less_eq_change_side_def)
qed (auto simp: less_eq_change_side_def)

end

lemma side_order: "a \<le> b \<longleftrightarrow> side_value a \<le> side_value b"
  by (cases a; cases b) (auto simp: less_eq_change_side_def)

subsection \<open>Credentials, connections, presets\<close>

record credential =
  cred_id :: nat
  cred_name :: string
  cred_kind :: credential_kind
  secret_ciphertext :: string
  key_passphrase_ciphertext :: "string option"
  is_obscured :: bool

record connection =
  conn_id :: nat
  conn_name :: string
  conn_type :: connection_type
  conn_host :: "string option"
  conn_port :: "nat option"
  conn_share :: "string option"
  base_path :: string
  conn_username :: "string option"
  conn_credential :: "credential option"
  extra_opts :: "(string \<times> json) list"
  conn_rclone_mode :: "rclone_mode option"
  rclone_remote_name :: "string option"
  rclone_backend_type :: "string option"
  conn_capabilities :: "json option"
  capabilities_probed_at :: "datetime option"
  sentinel_file :: "string option"
  host_keys :: "string option"
  host_keys_trusted :: bool
  last_test_at :: "datetime option"
  last_test_ok :: "bool option"
  last_test_error :: "string option"

record filter_preset =
  preset_id :: nat
  preset_name :: string
  preset_builtin :: bool
  preset_exclude :: "string list"
  preset_include :: "string list"

subsection \<open>Jobs\<close>

record job_filters =
  flt_include :: "string list"
  flt_exclude :: "string list"
  flt_min_size :: "string option"
  flt_max_age :: "string option"

record job =
  job_id :: nat
  job_name :: string
  job_enabled :: bool
  source_connection :: connection
  source_path :: string
  dest_connection :: connection
  dest_path :: string
  job_engine :: engine
  job_direction :: direction
  job_delete_mode :: delete_mode
  job_archive_base :: "string option"
  job_archive_layout :: archive_layout
  archive_retention_days :: "int option"
  job_filters_of :: job_filters
  job_filter_presets :: "filter_preset list"
  job_compare_mode :: compare_mode
  modify_window :: string
  job_transfers :: "nat option"
  job_checkers :: "nat option"
  job_bwlimit :: "string option"
  max_delete_pct :: int
  job_conflict_resolve :: conflict_resolve
  schedule_cron :: "string option"
  job_timezone :: string
  timeout_seconds :: "int option"
  continuous :: bool
  continuous_interval_seconds :: int
  continuous_idle_interval_seconds :: int
  quiet_period_seconds :: int
  last_checked_at :: "datetime option"
  job_notify_on :: notify_on
  bisync_initialized :: bool
  check_access :: bool

subsection \<open>Runs and their changes\<close>

record job_run =
  run_id :: nat
  run_job_id :: nat
  run_trigger_of :: run_trigger
  is_resync :: bool
  forced_max_delete :: "int option"
  archive_dirs :: "(change_side \<times> string) list"
  run_mode_of :: run_mode
  run_status_of :: run_status
  started_at :: "datetime option"
  finished_at :: "datetime option"
  run_exit_code :: "int option"
  files_transferred :: int
  files_deleted :: int
  files_archived :: int
  bytes_transferred :: int
  errors_count :: int
  log_path :: "string option"
  run_summary :: "(string \<times> json) list option"
  command_redacted :: "string option"
  skip_reason :: "string option"

record job_run_change =
  chg_run_id :: nat
  chg_action :: change_action
  chg_side :: change_side
  chg_path :: string
  chg_size :: "int option"
  peak_speed_bps :: "rat option"
  chg_mtime :: "datetime option"
  chg_message :: "string option"

text \<open>The partial unique index of \<open>job_run\<close> ranges over these statuses.\<close>

definition active_status :: "run_status \<Rightarrow> bool" where
  "active_status s \<longleftrightarrow> s \<in> {Queued, Running}"

definition terminal_status :: "run_status \<Rightarrow> bool" where
  "terminal_status s \<longleftrightarrow> s \<in> {Success, Failed, Cancelled, Skipped}"

lemma active_or_terminal: "active_status s \<longleftrightarrow> \<not> terminal_status s"
  by (cases s) (auto simp: active_status_def terminal_status_def)

lemma active_status_simps [simp]:
  "active_status Queued" "active_status Running" "\<not> active_status Success"
  "\<not> active_status Failed" "\<not> active_status Cancelled" "\<not> active_status Skipped"
  by (auto simp: active_status_def)

lemma terminal_status_simps [simp]:
  "\<not> terminal_status Queued" "\<not> terminal_status Running" "terminal_status Success"
  "terminal_status Failed" "terminal_status Cancelled" "terminal_status Skipped"
  by (auto simp: terminal_status_def)

record login_attempt =
  att_scope :: attempt_scope
  att_value :: string
  attempted_at :: datetime

datatype user_role = RoleAdmin

record user =
  user_id :: nat
  username :: string
  password_hash :: string
  user_role_of :: user_role
  must_change_password :: bool
  user_created_at :: datetime
  last_login_at :: "datetime option"

subsection \<open>Concrete values\<close>

text \<open>One SFTP connection and one job on it, with the defaults of the columns; the concrete inputs
  the theorems are instantiated at are updates of these.\<close>

definition sample_connection :: connection where
  "sample_connection =
     \<lparr>conn_id = 1, conn_name = ''nas'', conn_type = CtSftp, conn_host = Some ''nas.lan'',
      conn_port = Some 22, conn_share = None, base_path = ''/srv/media'', conn_username = Some ''gee'',
      conn_credential = None, extra_opts = [], conn_rclone_mode = None, rclone_remote_name = None,
      rclone_backend_type = None, conn_capabilities = None, capabilities_probed_at = None,
      sentinel_file = None, host_keys = None, host_keys_trusted = False, last_test_at = None,
      last_test_ok = None, last_test_error = None\<rparr>"

definition sample_job :: job where
  "sample_job =
     \<lparr>job_id = 1, job_name = ''Media/Backup'', job_enabled = True,
      source_connection = sample_connection, source_path = ''in'',
      dest_connection = sample_connection, dest_path = ''out'',
      job_engine = EngRclone, job_direction = SourceToDest, job_delete_mode = DelArchive,
      job_archive_base = None, job_archive_layout = TimestampedDir, archive_retention_days = None,
      job_filters_of = \<lparr>flt_include = [], flt_exclude = [], flt_min_size = None, flt_max_age = None\<rparr>,
      job_filter_presets = [], job_compare_mode = MtimeSize, modify_window = ''1s'',
      job_transfers = None, job_checkers = None, job_bwlimit = None, max_delete_pct = 20,
      job_conflict_resolve = CRNewer, schedule_cron = None, job_timezone = ''UTC'',
      timeout_seconds = None, continuous = False, continuous_interval_seconds = 60,
      continuous_idle_interval_seconds = 900, quiet_period_seconds = 0, last_checked_at = None,
      job_notify_on = NotifyFailure, bisync_initialized = False, check_access = False\<rparr>"

end
