(* ===== verification/Crypto.thy ===== *)
theory Crypto
  imports Models
begin

text \<open>
  \<open>app/crypto.py\<close>, the \<open>Redactor\<close>: the backstop that masks the secrets of an operation in its
  output, its argument list and its environment. The key handling and the \<open>SecretBox\<close> rest on
  the \<open>cryptography\<close> package and enter the other theories as the parameter \<open>decrypt\<close>.

  The locale \<open>masking\<close> states what a client of a redactor relies on; it is interpreted on the
  redactor of the code below.
\<close>

definition REDACTED :: string where
  "REDACTED = ''***REDACTED***''"

definition MIN_REDACTABLE_LENGTH :: nat where
  "MIN_REDACTABLE_LENGTH = 4"

text \<open>
  \<open>Redactor.__init__\<close>: the values of at least four characters, each once, the longest first.
  Python leaves the order of equally long values to the set; here it is the order of arrival,
  and no lemma depends on it.
\<close>

definition redactor_values :: "string list \<Rightarrow> string list" where
  "redactor_values values =
     rev (sort_key length (rev (py_fromkeys (filter (\<lambda>v. v \<noteq> [] \<and> MIN_REDACTABLE_LENGTH \<le> length v) values))))"

definition redact :: "string list \<Rightarrow> string \<Rightarrow> string" where
  "redact values text = fold (\<lambda>v t. replace_all v REDACTED t) (redactor_values values) text"

definition redact_argv :: "string list \<Rightarrow> string list \<Rightarrow> string list" where
  "redact_argv values argv = map (redact values) argv"

definition sensitive_words :: "string list" where
  "sensitive_words =
     [''PASS'', ''PASSWORD'', ''SECRET'', ''TOKEN'', ''KEY_PEM'', ''KEY_FILE_PASS'', ''CREDENTIAL'']"

text \<open>\<open>_SENSITIVE_ENV_RE.search(name)\<close>, an alternation of words searched without case.\<close>

definition sensitive_env :: "string \<Rightarrow> bool" where
  "sensitive_env name \<longleftrightarrow> (\<exists>w \<in> set sensitive_words. contains w (map upper_ascii name))"

definition redact_env :: "string list \<Rightarrow> (string \<times> string) list \<Rightarrow> (string \<times> string) list" where
  "redact_env values env =
     map (\<lambda>(name, value). (name, if sensitive_env name then REDACTED else redact values value)) env"

definition redacted_command_line :: "string list \<Rightarrow> string list \<Rightarrow> string" where
  "redacted_command_line values argv = join_with '' '' (redact_argv values argv)"

subsection \<open>What one replacement does\<close>

lemma set_redactor_values:
  "v \<in> set (redactor_values values) \<longleftrightarrow> v \<in> set values \<and> MIN_REDACTABLE_LENGTH \<le> length v"
  by (auto simp: redactor_values_def MIN_REDACTABLE_LENGTH_def)

lemma redactor_values_longest_first:
  "sorted_wrt (\<lambda>v w. length w \<le> length v) (redactor_values values)"
  unfolding redactor_values_def
  using sorted_sort_key [of length]
  by (simp add: sorted_wrt_rev sorted_map)

lemma replace_prefix:
  assumes "CHR ''*'' \<notin> set v" and "prefix v (replace_all w REDACTED s)"
  shows "prefix v s"
  using assms
proof (induction s arbitrary: v rule: length_induct)
  case (1 s)
  show ?case
  proof (cases s)
    case Nil
    with "1.prems" show ?thesis by simp
  next
    case (Cons c cs)
    show ?thesis
    proof (cases "w \<noteq> [] \<and> prefix w (c # cs)")
      case True
      with "1.prems" Cons have "prefix v (REDACTED @ replace_all w REDACTED (drop (length w) (c # cs)))"
        by simp
      with "1.prems"(1) have "v = []" by (cases v) (auto simp: REDACTED_def)
      then show ?thesis by simp
    next
      case False
      with "1.prems"(2) Cons have p: "prefix v (c # replace_all w REDACTED cs)" by auto
      show ?thesis
      proof (cases v)
        case (Cons d v')
        with p "1.prems"(1) \<open>s = c # cs\<close> "1.IH" [rule_format, of cs v'] show ?thesis by simp
      qed simp
    qed
  qed
qed

lemma sublist_masked:
  assumes star: "CHR ''*'' \<notin> set v" and out: "\<not> sublist v REDACTED"
    and sub: "sublist v (REDACTED @ t)"
  shows "sublist v t"
proof -
  have nil: "v1 = []" if "suffix v1 REDACTED" "v = v1 @ v2" for v1 v2
  proof (rule ccontr)
    assume "v1 \<noteq> []"
    with that(1) have "last v1 = last REDACTED" by (metis last_appendR suffix_def)
    then have "last v1 = CHR ''*''" by (simp add: REDACTED_def)
    with \<open>v1 \<noteq> []\<close> have "CHR ''*'' \<in> set v1" by (metis last_in_set)
    with that(2) star show False by simp
  qed
  from sub out consider "sublist v t"
    | v1 v2 where "v = v1 @ v2" "suffix v1 REDACTED" "prefix v2 t"
    by (auto simp: sublist_append)
  then show ?thesis
  proof cases
    case 2
    then show ?thesis using nil [OF 2(2,1)] by auto
  qed
qed

lemma replace_no_new:
  assumes "CHR ''*'' \<notin> set v" and "\<not> sublist v REDACTED" and "sublist v (replace_all w REDACTED s)"
  shows "sublist v s"
  using assms(3)
proof (induction s rule: length_induct)
  case (1 s)
  show ?case
  proof (cases s)
    case Nil
    with "1.prems" show ?thesis by simp
  next
    case (Cons c cs)
    show ?thesis
    proof (cases "w \<noteq> [] \<and> prefix w (c # cs)")
      case True
      let ?rest = "drop (length w) (c # cs)"
      from True "1.prems" Cons have "sublist v (REDACTED @ replace_all w REDACTED ?rest)" by simp
      then have "sublist v (replace_all w REDACTED ?rest)"
        by (rule sublist_masked [OF assms(1,2)])
      moreover have "length ?rest < length s" using True Cons by (cases w) auto
      ultimately have "sublist v ?rest" using "1.IH" by blast
      then show ?thesis using Cons by (metis sublist_drop sublist_order.order_trans)
    next
      case False
      with "1.prems" Cons have "sublist v (c # replace_all w REDACTED cs)" by auto
      then consider "prefix v (replace_all w REDACTED (c # cs))" | "sublist v (replace_all w REDACTED cs)"
        using False by (auto simp: sublist_Cons_right)
      then show ?thesis
      proof cases
        case 1
        then show ?thesis using replace_prefix [OF assms(1)] Cons by blast
      next
        case 2
        then show ?thesis using "1.IH" Cons by (simp add: sublist_Cons_right)
      qed
    qed
  qed
qed

lemma replace_removes:
  assumes "CHR ''*'' \<notin> set v" and "\<not> sublist v REDACTED"
  shows "\<not> sublist v (replace_all v REDACTED s)"
proof (induction s rule: length_induct)
  case (1 s)
  have v: "v \<noteq> []" using assms(2) by auto
  show ?case
  proof (cases s)
    case Nil
    with v show ?thesis by simp
  next
    case (Cons c cs)
    show ?thesis
    proof (cases "prefix v (c # cs)")
      case True
      let ?rest = "drop (length v) (c # cs)"
      have "length ?rest < length s" using v Cons by (cases v) auto
      with "1.IH" have "\<not> sublist v (replace_all v REDACTED ?rest)" by blast
      then have "\<not> sublist v (REDACTED @ replace_all v REDACTED ?rest)"
        using sublist_masked [OF assms] by blast
      with True v Cons show ?thesis by simp
    next
      case False
      then have eq: "replace_all v REDACTED s = c # replace_all v REDACTED cs" using Cons by simp
      have "\<not> prefix v (replace_all v REDACTED s)"
        using replace_prefix [OF assms(1), of v s] False Cons by blast
      moreover have "\<not> sublist v (replace_all v REDACTED cs)" using "1.IH" Cons by simp
      ultimately show ?thesis by (simp add: eq sublist_Cons_right)
    qed
  qed
qed

lemma fold_replace_no_new:
  assumes "CHR ''*'' \<notin> set v" and "\<not> sublist v REDACTED"
  shows "sublist v (fold (\<lambda>w t. replace_all w REDACTED t) ws s) \<Longrightarrow> sublist v s"
proof (induction ws arbitrary: s)
  case (Cons w ws)
  from Cons.prems have "sublist v (replace_all w REDACTED s)" by (simp add: Cons.IH)
  then show ?case by (rule replace_no_new [OF assms])
qed simp

lemma fold_replace_removes:
  assumes "CHR ''*'' \<notin> set v" and "\<not> sublist v REDACTED" and "v \<in> set ws"
  shows "\<not> sublist v (fold (\<lambda>w t. replace_all w REDACTED t) ws s)"
  using assms(3)
proof (induction ws arbitrary: s)
  case (Cons w ws)
  show ?case
  proof (cases "v \<in> set ws")
    case True
    then show ?thesis using Cons.IH by simp
  next
    case False
    with Cons.prems have "w = v" by simp
    then show ?thesis
      using fold_replace_no_new [OF assms(1,2)] replace_removes [OF assms(1,2), of s] by auto
  qed
qed simp

subsection \<open>The interface of a redactor\<close>

text \<open>
  What the callers rely on: a secret the redactor covers does not occur in a redacted text.
  The client lemmas are the ones the process layer needs.
\<close>

locale masking =
  fixes mask :: "string \<Rightarrow> string" and covered :: "string \<Rightarrow> bool"
  assumes hides: "covered v \<Longrightarrow> \<not> sublist v (mask s)"
begin

lemma hides_argv: "covered v \<Longrightarrow> a \<in> set (map mask argv) \<Longrightarrow> \<not> sublist v a"
  using hides by auto

lemma hides_lines: "covered v \<Longrightarrow> \<not> (\<exists>l \<in> set (map mask ls). sublist v l)"
  using hides by auto

end

text \<open>
  What the redactor of the code covers: the values it was built from that are long enough, have
  no star and do not occur in the word REDACTED. The last two are needed, since the mask itself
  is made of these characters.
\<close>

definition redactable :: "string list \<Rightarrow> string \<Rightarrow> bool" where
  "redactable values v \<longleftrightarrow>
     v \<in> set values \<and> MIN_REDACTABLE_LENGTH \<le> length v \<and> CHR ''*'' \<notin> set v \<and> \<not> sublist v REDACTED"

lemma redact_hides: "redactable values v \<Longrightarrow> \<not> sublist v (redact values s)"
  unfolding redact_def redactable_def
  by (intro fold_replace_removes) (auto simp: set_redactor_values)

interpretation box: masking "redact values" "redactable values"
  by unfold_locales (rule redact_hides)

text \<open>C19. Redaction is complete: after \<open>Redactor.redact\<close>, no secret the redactor was built from
  occurs anywhere in the text, provided the secret has at least four characters, no star and is
  not a piece of the word REDACTED. Masking one secret never uncovers another one.\<close>

theorem redact_no_leak:
  "redactable values v \<Longrightarrow> \<not> sublist v (redact values s)"
  by (rule box.hides)

theorem redact_no_leak_witness:
  "\<not> sublist ''hunter22'' (redact [''hunter22'', ''hunt''] ''pw=hunter22;x'')"
  by (rule redact_no_leak)
    (simp add: redactable_def MIN_REDACTABLE_LENGTH_def REDACTED_def sublist_code)

text \<open>The condition on the star is needed: the mask of one occurrence can complete another one.\<close>

lemma redact_star_leaks:
  "sublist ''abc*'' (redact [''abc*''] ''abcabc*'')"
  by (simp add: redact_def redactor_values_def py_fromkeys_def MIN_REDACTABLE_LENGTH_def
      REDACTED_def sublist_code)

text \<open>A secret with a line break never matches inside one line, so a redactor applied line by
  line leaves every line as it is.\<close>

lemma redact_multiline_secret:
  assumes "\<forall>v \<in> set values. CHR 0x0A \<in> set v" and "CHR 0x0A \<notin> set line"
  shows "redact values line = line"
proof -
  have "fold (\<lambda>w t. replace_all w REDACTED t) ws line = line"
    if "\<forall>v \<in> set ws. CHR 0x0A \<in> set v" for ws
    using that
  proof (induction ws)
    case (Cons w ws)
    then have "\<not> sublist w line" using assms(2) by (meson list.set_intros(1) set_mono_sublist subsetD)
    then show ?case using Cons by (simp add: replace_all_id)
  qed simp
  then show ?thesis using assms(1) by (simp add: redact_def set_redactor_values)
qed

end
