(* ===== verification/Process.thy ===== *)
theory Process
  imports Crypto
begin

text \<open>
  \<open>app/engines/process.py\<close>: running an external command to completion (\<open>run\<close>), streaming one
  (\<open>stream\<close>, \<open>lines\<close>, \<open>terminate\<close>) and reading its outcome.

  The command itself is not under \<open>src/\<close>. What \<open>subprocess\<close> reports of it is a value of
  \<open>raw_outcome\<close>, one constructor for each way \<open>subprocess.run\<close> returns or raises; how the
  process reacts to the two signals is a value of \<open>child\<close>.
\<close>

datatype raw_outcome =
    Completed int string string
  | TimeoutExpired string string
  | FileNotFound
  | OsError string

record command_result =
  argv_redacted :: "string list"
  exit_code :: int
  res_stdout :: string
  res_stderr :: string
  timed_out :: bool

definition MAX_CAPTURE_CHARS :: nat where
  "MAX_CAPTURE_CHARS = 512 * 1024"

definition truncation_note :: string where
  "truncation_note = CHR 0x0A # ''[output truncated]''"

definition truncate_output :: "string \<Rightarrow> string" where
  "truncate_output text =
     (if length text \<le> MAX_CAPTURE_CHARS then text
      else take MAX_CAPTURE_CHARS text @ truncation_note)"

definition result_ok :: "command_result \<Rightarrow> bool" where
  "result_ok r \<longleftrightarrow> exit_code r = 0 \<and> \<not> timed_out r"

definition command_line :: "command_result \<Rightarrow> string" where
  "command_line r = join_with '' '' (argv_redacted r)"

text \<open>\<open>argv_list[0]\<close>: the callers never pass an empty list, which would raise IndexError.\<close>

definition run_command :: "string list \<Rightarrow> string list \<Rightarrow> raw_outcome \<Rightarrow> command_result" where
  "run_command secrets argv outcome =
     (case outcome of
        Completed code out err \<Rightarrow>
          \<lparr>argv_redacted = redact_argv secrets argv, exit_code = code,
           res_stdout = redact secrets (truncate_output out),
           res_stderr = redact secrets (truncate_output err), timed_out = False\<rparr>
      | TimeoutExpired out err \<Rightarrow>
          \<lparr>argv_redacted = redact_argv secrets argv, exit_code = 124,
           res_stdout = redact secrets (truncate_output out),
           res_stderr = redact secrets (truncate_output err), timed_out = True\<rparr>
      | FileNotFound \<Rightarrow>
          \<lparr>argv_redacted = redact_argv secrets argv, exit_code = 127, res_stdout = [],
           res_stderr = hd argv @ '' was not found on PATH.'', timed_out = False\<rparr>
      | OsError e \<Rightarrow>
          \<lparr>argv_redacted = redact_argv secrets argv, exit_code = 126, res_stdout = [],
           res_stderr = hd argv @ '' could not be started: '' @ e, timed_out = False\<rparr>)"

definition nonblank_lines :: "string \<Rightarrow> string list" where
  "nonblank_lines text = filter (\<lambda>l. l \<noteq> []) (map py_strip (py_splitlines text))"

definition failure_summary :: "command_result \<Rightarrow> string" where
  "failure_summary r =
     (if timed_out r then ''The command did not finish within its time limit.''
      else if nonblank_lines (res_stderr r) \<noteq> [] then last (nonblank_lines (res_stderr r))
      else if py_strip (res_stdout r) \<noteq> [] then last (py_splitlines (py_strip (res_stdout r)))
      else ''The command failed with exit code '' @ str_int (exit_code r) @ '' and no output.'')"

subsection \<open>Streaming and signals\<close>

text \<open>\<open>StreamingProcess.lines\<close>: each raw line without its line feed, redacted on its own.\<close>

definition stream_lines :: "string list \<Rightarrow> string list \<Rightarrow> string list" where
  "stream_lines secrets raw = map (\<lambda>l. redact secrets (rstrip_if (\<lambda>c. c = CHR 0x0A) l)) raw"

datatype child =
    Exited                      \<comment> \<open>\<open>poll()\<close> returns a code\<close>
  | StopsOnTerm nat             \<comment> \<open>stops so many seconds after SIGTERM\<close>
  | IgnoresTerm                 \<comment> \<open>only SIGKILL stops it\<close>

datatype signal = SIGTERM | SIGKILL

definition terminate :: "nat \<Rightarrow> child \<Rightarrow> signal list \<times> child" where
  "terminate grace_seconds c =
     (case c of
        Exited \<Rightarrow> ([], Exited)
      | StopsOnTerm n \<Rightarrow> (if n \<le> grace_seconds then ([SIGTERM], Exited) else ([SIGTERM, SIGKILL], Exited))
      | IgnoresTerm \<Rightarrow> ([SIGTERM, SIGKILL], Exited))"

definition GRACE_SECONDS :: nat where "GRACE_SECONDS = 10"

subsection \<open>Lemmas\<close>

lemma truncate_output_bound:
  "length (truncate_output text) \<le> MAX_CAPTURE_CHARS + length truncation_note"
  by (simp add: truncate_output_def)

lemma truncate_output_short: "length text \<le> MAX_CAPTURE_CHARS \<Longrightarrow> truncate_output text = text"
  by (simp add: truncate_output_def)

lemma run_command_ok:
  "result_ok (run_command secrets argv outcome) \<longleftrightarrow> (\<exists>out err. outcome = Completed 0 out err)"
  by (auto simp: run_command_def result_ok_def split: raw_outcome.splits)

lemma run_without_secrets:
  "length out \<le> 1000 \<Longrightarrow> res_stdout (run_command [] argv (Completed code out err)) = out"
  by (simp add: run_command_def truncate_output_def MAX_CAPTURE_CHARS_def redact_def redactor_values_def py_fromkeys_def)

text \<open>What a stored command shows: no covered secret in any argument, nor in the output of a
  command that ran.\<close>

lemma run_command_hides:
  assumes "redactable secrets v"
  shows "\<forall>a \<in> set (argv_redacted (run_command secrets argv outcome)). \<not> sublist v a"
    and "\<not> sublist v (hd argv) \<Longrightarrow> \<not> sublist v (res_stdout (run_command secrets argv outcome))"
proof -
  show "\<forall>a \<in> set (argv_redacted (run_command secrets argv outcome)). \<not> sublist v a"
    using box.hides_argv [OF assms]
    by (auto simp: run_command_def redact_argv_def split: raw_outcome.splits)
  have "v \<noteq> []" using assms by (auto simp: redactable_def MIN_REDACTABLE_LENGTH_def)
  then show "\<not> sublist v (res_stdout (run_command secrets argv outcome))"
    using redact_hides [OF assms] by (auto simp: run_command_def split: raw_outcome.splits)
qed

lemma nonblank_lines_not_Nil: "l \<in> set (nonblank_lines text) \<Longrightarrow> l \<noteq> []"
  by (simp add: nonblank_lines_def)

lemma terminate_ends: "snd (terminate g c) = Exited"
  by (auto simp: terminate_def split: child.splits)

lemma terminate_signals:
  "SIGKILL \<in> set (fst (terminate g c)) \<longleftrightarrow> c = IgnoresTerm \<or> (\<exists>n. c = StopsOnTerm n \<and> g < n)"
  by (auto simp: terminate_def split: child.splits)

text \<open>Cancellation: \<open>terminate\<close> sends nothing to a process that has exited, otherwise SIGTERM
  first and SIGKILL only when the process outlives the ten seconds of grace, and the process has
  stopped when it returns.\<close>

lemma terminate_escalates:
  "snd (terminate GRACE_SECONDS c) = Exited \<and>
   (fst (terminate GRACE_SECONDS c) =
      (if c = Exited then [] else
       if c = IgnoresTerm \<or> (\<exists>n > 10. c = StopsOnTerm n) then [SIGTERM, SIGKILL] else [SIGTERM]))"
  by (auto simp: terminate_def GRACE_SECONDS_def split: child.splits)

end
