(* ===== verification/Rcloneconf.thy ===== *)
theory Rcloneconf
  imports Process
begin

text \<open>
  \<open>app/engines/rcloneconf.py\<close>: turning connections into something rclone can address. The paths
  (\<open>join_subpath\<close>, \<open>_base_path_for\<close>), the environment of each endpoint, the pinned host keys,
  the credential material and \<open>prepare\<close>, which puts them together.

  What is not under \<open>src/\<close> is the record \<open>ext\<close>: the Fernet decryption, \<open>json.loads\<close>, the
  outcome of \<open>rclone obscure -\<close> on a plaintext, the temporary directory's name and the mounted
  user configuration.
\<close>

subsection \<open>Exceptions\<close>

datatype remote_reason =
    ObscureFailed string
  | ObscureEmpty
  | CredentialUnreadable string
  | SmbWithoutShare string
  | OutsideBasePath
  | UnsupportedType connection_type
  | NeedsHost string
  | UserConfigMissing
  | NoRemoteName string
  | NoBackendType string

datatype prep_error =
    RemoteConfigError remote_reason
  | SecretDecryptError
  | KeyError string

record ext =
  ext_decrypt :: "string \<Rightarrow> string option"
  ext_loads :: "string \<Rightarrow> json option"
  ext_str :: "json \<Rightarrow> string"
  ext_obscure :: "string \<Rightarrow> raw_outcome"
  ext_temp_dir :: string
  ext_user_conf :: string
  ext_user_conf_exists :: bool

subsection \<open>Paths\<close>

fun clean_parts :: "string list \<Rightarrow> remote_reason + string list" where
  "clean_parts [] = Inr []"
| "clean_parts (part # parts) =
     (if part = [] \<or> part = ''.'' then clean_parts parts
      else if part = ''..'' then Inl OutsideBasePath
      else bind_res (clean_parts parts) (\<lambda>ps. Inr (part # ps)))"

definition unbackslash :: "string \<Rightarrow> string" where
  "unbackslash s = map (\<lambda>c. if c = CHR 0x5C then CHR ''/'' else c) s"

definition join_subpath :: "string \<Rightarrow> string option \<Rightarrow> remote_reason + string" where
  "join_subpath base subpath =
     (case subpath of
        None \<Rightarrow> Inr base
      | Some sub \<Rightarrow>
          if sub = [] then Inr base
          else let candidate = strip_slash (unbackslash sub)
               in if candidate = [] then Inr base
                  else bind_res (clean_parts (split_on (CHR ''/'') candidate)) (\<lambda>parts.
                    if parts = [] then Inr base
                    else let suffix_path = join_with ''/'' parts
                         in if base = [] then Inr suffix_path
                            else Inr (rstrip_slash base @ ''/'' @ suffix_path)))"

definition absolute_path_type :: "connection_type \<Rightarrow> bool" where
  "absolute_path_type t \<longleftrightarrow> t \<in> {CtSftp, CtFtp, CtFtps}"

definition base_path_for :: "connection \<Rightarrow> remote_reason + string" where
  "base_path_for c =
     (let raw = base_path c; base = strip_slash raw
      in if conn_type c = CtSmb then
           (let share = strip_slash (case conn_share c of None \<Rightarrow> [] | Some s \<Rightarrow> s)
            in if share = [] then Inl (SmbWithoutShare (conn_name c))
               else Inr (if base \<noteq> [] then share @ ''/'' @ base else share))
         else if conn_type c = CtLocal then Inr (if base_path c = [] then ''/'' else base_path c)
         else if absolute_path_type (conn_type c) \<and> prefix ''/'' raw then Inr (''/'' @ base)
         else Inr base)"

definition display_path :: "connection \<Rightarrow> string option \<Rightarrow> remote_reason + string" where
  "display_path c subpath = bind_res (base_path_for c) (\<lambda>b. join_subpath b subpath)"

subsection \<open>Endpoints and their environment\<close>

record endpoint =
  ep_alias :: string
  ep_path :: string
  ep_env :: "(string \<times> string) list"
  ep_redactable :: "string list"
  uses_user_config :: bool

definition spec_of :: "endpoint \<Rightarrow> string option \<Rightarrow> remote_reason + string" where
  "spec_of e subpath =
     bind_res (join_subpath (ep_path e) subpath) (\<lambda>p. Inr (ep_alias e @ '':'' @ p))"

definition ALIAS_SOURCE :: string where "ALIAS_SOURCE = ''hs_src''"
definition ALIAS_DEST :: string where "ALIAS_DEST = ''hs_dst''"
definition ALIAS_PROBE :: string where "ALIAS_PROBE = ''hs_probe''"

definition env_var_name :: "string \<Rightarrow> string \<Rightarrow> string" where
  "env_var_name alias key =
     ''RCLONE_CONFIG_'' @ map upper_ascii alias @ ''_'' @ map upper_ascii key"

definition put_env :: "string \<Rightarrow> string \<Rightarrow> string option \<Rightarrow> (string \<times> string) list \<Rightarrow> (string \<times> string) list" where
  "put_env alias key value env =
     (case value of None \<Rightarrow> env
      | Some v \<Rightarrow> if v = [] then env else dict_put (env_var_name alias key) v env)"

definition py_str :: "ext \<Rightarrow> json \<Rightarrow> string" where
  "py_str x v = (case v of JStr s \<Rightarrow> s | _ \<Rightarrow> ext_str x v)"

definition native_env :: "ext \<Rightarrow> connection \<Rightarrow> string \<Rightarrow> remote_reason + (string \<times> string) list" where
  "native_env x c alias =
     (if conn_type c = CtLocal then Inr (put_env alias ''type'' (Some ''local'') [])
      else bind_res
        (case conn_type c of
           CtSftp \<Rightarrow> Inr (put_env alias ''type'' (Some ''sftp'') [])
         | CtFtp \<Rightarrow> Inr (put_env alias ''type'' (Some ''ftp'') [])
         | CtFtps \<Rightarrow> Inr (put_env alias ''explicit_tls'' (Some ''true'')
                       (put_env alias ''type'' (Some ''ftp'') []))
         | CtSmb \<Rightarrow> Inr (put_env alias ''domain''
                       (Some (case map_of (extra_opts c) ''domain'' of
                                None \<Rightarrow> ''WORKGROUP''
                              | Some d \<Rightarrow> if truthy d then py_str x d else ''WORKGROUP''))
                       (put_env alias ''type'' (Some ''smb'') []))
         | t \<Rightarrow> Inl (UnsupportedType t))
        (\<lambda>env. if (case conn_host c of None \<Rightarrow> True | Some h \<Rightarrow> h = []) then Inl (NeedsHost (conn_name c))
               else Inr (put_env alias ''port'' (map_option str_nat (conn_port c))
                      (put_env alias ''user'' (conn_username c)
                        (put_env alias ''host'' (conn_host c) env)))))"

fun extra_opts_env :: "ext \<Rightarrow> connection \<Rightarrow> string \<Rightarrow> (string \<times> json) list \<Rightarrow> (string \<times> string) list \<Rightarrow> (string \<times> string) list" where
  "extra_opts_env x c alias [] env = env"
| "extra_opts_env x c alias ((key, value) # opts) env =
     (if value = JNull \<or> value = JStr [] \<or> key = ''domain'' \<and> conn_type c = CtSmb then extra_opts_env x c alias opts env
      else extra_opts_env x c alias opts (dict_put (env_var_name alias key) (py_str x value) env))"

definition known_hosts_content :: "connection \<Rightarrow> string option" where
  "known_hosts_content c =
     (if \<not> host_keys_trusted c then None
      else let stored = py_strip (case host_keys c of None \<Rightarrow> [] | Some k \<Rightarrow> k)
           in if stored = [] then None
              else let host = (case conn_host c of None \<Rightarrow> [] | Some h \<Rightarrow> h);
                       port = (case conn_port c of None \<Rightarrow> 22 | Some p \<Rightarrow> if p = 0 then 22 else p);
                       target = (if port \<noteq> 22 then ''['' @ host @ '']:'' @ str_nat port else host);
                       ls = map (\<lambda>entry. target @ '' '' @ entry) (nonblank_lines stored)
                   in if ls = [] then None
                      else Some (join_with [CHR 0x0A] ls @ [CHR 0x0A]))"

subsection \<open>Credential material\<close>

text \<open>\<open>obscure\<close>: the plaintext goes to the standard input of rclone, never to its arguments.\<close>

definition obscure :: "ext \<Rightarrow> string \<Rightarrow> prep_error + string" where
  "obscure x value =
     (let r = run_command [] [''rclone'', ''obscure'', ''-''] (ext_obscure x value)
      in if \<not> result_ok r then Inl (RemoteConfigError (ObscureFailed (failure_summary r)))
         else let obscured = py_strip (res_stdout r)
              in if obscured = [] then Inl (RemoteConfigError ObscureEmpty) else Inr obscured)"

text \<open>\<open>prepare(value, already_obscured)\<close> of \<open>_decrypt_credential\<close>: the option's value and what
  joins the redactable list.\<close>

definition prepare_value :: "ext \<Rightarrow> string \<Rightarrow> bool \<Rightarrow> prep_error + string \<times> string list" where
  "prepare_value x value already =
     (if already then Inr (value, [value])
      else bind_res (obscure x value) (\<lambda>ob. Inr (ob, [value, ob])))"

definition backend_entry :: "ext \<Rightarrow> json \<Rightarrow> string \<times> bool" where
  "backend_entry x entry =
     (case entry of
        JObj d \<Rightarrow>
          ((case jget d ''value'' of None \<Rightarrow> [] | Some v \<Rightarrow> py_str x v),
           (case jget d ''obscured'' of None \<Rightarrow> False | Some v \<Rightarrow> truthy v))
      | v \<Rightarrow> (py_str x v, False))"

fun backend_options :: "ext \<Rightarrow> (string \<times> json) list \<Rightarrow> (string \<times> string) list \<times> string list
    \<Rightarrow> prep_error + (string \<times> string) list \<times> string list" where
  "backend_options x [] acc = Inr acc"
| "backend_options x ((name, entry) # rest) acc =
     bind_res (prepare_value x (fst (backend_entry x entry)) (snd (backend_entry x entry)))
       (\<lambda>(v, red). backend_options x rest (dict_put name v (fst acc), snd acc @ red))"

definition decrypt_credential :: "ext \<Rightarrow> credential \<Rightarrow> prep_error + (string \<times> string) list \<times> string list" where
  "decrypt_credential x cr =
     (case ext_decrypt x (secret_ciphertext cr) of
        None \<Rightarrow> Inl SecretDecryptError
      | Some plaintext \<Rightarrow>
          (case cred_kind cr of
             CkSshKey \<Rightarrow>
               (case key_passphrase_ciphertext cr of
                  None \<Rightarrow> Inr ([(''key_pem'', plaintext)], [plaintext])
                | Some ct \<Rightarrow>
                    if ct = [] then Inr ([(''key_pem'', plaintext)], [plaintext])
                    else (case ext_decrypt x ct of
                            None \<Rightarrow> Inl SecretDecryptError
                          | Some passphrase \<Rightarrow>
                              bind_res (prepare_value x passphrase (is_obscured cr))
                                (\<lambda>(v, red). Inr ([(''key_pem'', plaintext), (''key_file_pass'', v)],
                                                 plaintext # red))))
           | CkBackendSecret \<Rightarrow>
               (case ext_loads x plaintext of
                  Some (JObj d) \<Rightarrow> backend_options x d ([], [plaintext])
                | _ \<Rightarrow> Inl (RemoteConfigError (CredentialUnreadable (cred_name cr))))
           | _ \<Rightarrow>
               bind_res (prepare_value x plaintext (is_obscured cr))
                 (\<lambda>(v, red). Inr ([(''pass'', v)], plaintext # red))))"


subsection \<open>Resolving connections and preparing a run\<close>

definition add_secrets :: "string \<Rightarrow> (string \<times> string) list \<Rightarrow> (string \<times> string) list \<Rightarrow> (string \<times> string) list" where
  "add_secrets alias options env = fold (\<lambda>(k, v) e. dict_put (env_var_name alias k) v e) options env"

definition with_credential :: "ext \<Rightarrow> connection \<Rightarrow> string \<Rightarrow> (string \<times> string) list
    \<Rightarrow> prep_error + (string \<times> string) list \<times> string list" where
  "with_credential x c alias env =
     (case conn_credential c of
        None \<Rightarrow> Inr (env, [])
      | Some cr \<Rightarrow> bind_res (decrypt_credential x cr)
          (\<lambda>(options, red). Inr (add_secrets alias options env, red)))"

definition resolve_native :: "ext \<Rightarrow> connection \<Rightarrow> string \<Rightarrow> prep_error + endpoint" where
  "resolve_native x c alias =
     bind_res (map_err RemoteConfigError (native_env x c alias)) (\<lambda>env0.
     bind_res (with_credential x c alias env0) (\<lambda>(env1, red).
     bind_res (map_err RemoteConfigError (base_path_for c)) (\<lambda>path.
       Inr \<lparr>ep_alias = alias, ep_path = path,
            ep_env = extra_opts_env x c alias (extra_opts c) env1,
            ep_redactable = red, uses_user_config = False\<rparr>)))"

definition resolve_rclone_remote :: "ext \<Rightarrow> connection \<Rightarrow> string \<Rightarrow> prep_error + endpoint" where
  "resolve_rclone_remote x c alias =
     (if conn_rclone_mode c = Some RmImported then
        (let name = py_strip (case rclone_remote_name c of None \<Rightarrow> [] | Some n \<Rightarrow> n)
         in if name = [] then Inl (RemoteConfigError (NoRemoteName (conn_name c)))
            else Inr \<lparr>ep_alias = name, ep_path = strip_slash (base_path c), ep_env = [],
                      ep_redactable = [], uses_user_config = True\<rparr>)
      else
        (let backend = py_strip (case rclone_backend_type c of None \<Rightarrow> [] | Some b \<Rightarrow> b)
         in if backend = [] then Inl (RemoteConfigError (NoBackendType (conn_name c)))
            else bind_res (with_credential x c alias [(env_var_name alias ''type'', backend)])
              (\<lambda>(env1, red).
                Inr \<lparr>ep_alias = alias, ep_path = strip_slash (base_path c),
                     ep_env = extra_opts_env x c alias (extra_opts c) env1,
                     ep_redactable = red, uses_user_config = False\<rparr>)))"

definition resolve :: "ext \<Rightarrow> connection \<Rightarrow> string \<Rightarrow> prep_error + endpoint" where
  "resolve x c alias =
     (if conn_type c = CtRcloneRemote then resolve_rclone_remote x c alias
      else resolve_native x c alias)"

text \<open>The known hosts file of an SFTP endpoint, named in its environment.\<close>

definition pin_host_keys :: "ext \<Rightarrow> connection \<Rightarrow> string \<Rightarrow> endpoint \<Rightarrow> endpoint" where
  "pin_host_keys x c alias e =
     (if conn_type c = CtSftp \<and> known_hosts_content c \<noteq> None
      then e\<lparr>ep_env := dict_put (env_var_name alias ''known_hosts_file'')
                          (ext_temp_dir x @ ''/known_hosts_'' @ alias) (ep_env e)\<rparr>
      else e)"

record prepared =
  endpoints :: "(string \<times> endpoint) list"
  prep_env :: "(string \<times> string) list"
  base_args :: "string list"
  secrets :: "string list"

fun resolve_all :: "ext \<Rightarrow> (string \<times> connection) list \<Rightarrow> prep_error + (string \<times> endpoint) list" where
  "resolve_all x [] = Inr []"
| "resolve_all x ((alias, c) # cs) =
     bind_res (resolve x c alias) (\<lambda>e.
     bind_res (resolve_all x cs) (\<lambda>es. Inr ((alias, pin_host_keys x c alias e) # es)))"

definition needs_user_config :: "(string \<times> endpoint) list \<Rightarrow> bool" where
  "needs_user_config es \<longleftrightarrow> list_ex (\<lambda>p. uses_user_config (snd p)) es"

definition prepare :: "ext \<Rightarrow> (string \<times> connection) list \<Rightarrow> prep_error + prepared" where
  "prepare x cs =
     bind_res (resolve_all x cs) (\<lambda>es.
       let user = needs_user_config es;
           env = fold (\<lambda>(alias, e) acc. fold (\<lambda>(k, v) a. dict_put k v a) (ep_env e) acc) es [];
           red = concat (map (\<lambda>(alias, e). ep_redactable e) es)
       in if user \<and> \<not> ext_user_conf_exists x then Inl (RemoteConfigError UserConfigMissing)
          else Inr \<lparr>endpoints = es, prep_env = env,
                    base_args = [''--config'', if user then ext_user_conf x else []],
                    secrets = red\<rparr>)"

definition prep_argv :: "prepared \<Rightarrow> string list \<Rightarrow> string list" where
  "prep_argv p args = ''rclone'' # base_args p @ [''--color'', ''NEVER''] @ args"

text \<open>\<open>prepared.endpoints[alias].spec(subpath or None)\<close>.\<close>

definition prep_spec :: "prepared \<Rightarrow> string \<Rightarrow> string \<Rightarrow> prep_error + string" where
  "prep_spec p alias subpath =
     (case map_of (endpoints p) alias of
        None \<Rightarrow> Inl (KeyError alias)
      | Some e \<Rightarrow> map_err RemoteConfigError
          (spec_of e (if subpath = [] then None else Some subpath)))"

subsection \<open>Reading rclone's messages\<close>

text \<open>\<open>Prepared.readable\<close>: one endpoint's alias, with the braced hash rclone may append, is
  removed where a colon follows it.\<close>

definition braced_len :: "string \<Rightarrow> nat option" where
  "braced_len s =
     (if s \<noteq> [] \<and> hd s = CHR ''{''
      then (let inner = takeWhile (\<lambda>c. c \<noteq> CHR ''}'') (tl s)
            in if length inner < length (tl s) then Some (length inner + 2) else None)
      else Some 0)"

definition alias_match :: "string \<Rightarrow> string \<Rightarrow> nat option" where
  "alias_match alias s =
     (if prefix alias s then
        (case braced_len (drop (length alias) s) of
           None \<Rightarrow> None
         | Some n \<Rightarrow> (let rest = drop (length alias + n) s
                      in if rest \<noteq> [] \<and> hd rest = CHR '':'' then Some (length alias + n + 1) else None))
      else None)"

function strip_alias :: "string \<Rightarrow> string \<Rightarrow> string" where
  "strip_alias alias [] = []"
| "strip_alias alias (c # cs) =
     (case alias_match alias (c # cs) of
        None \<Rightarrow> c # strip_alias alias cs
      | Some n \<Rightarrow> strip_alias alias (drop (max 1 n) (c # cs)))"
  by pat_completeness auto
termination
  by (relation "measure (\<lambda>(alias, s). length s)") auto

definition readable :: "prepared \<Rightarrow> string \<Rightarrow> string" where
  "readable p message = fold (\<lambda>(k, e) m. strip_alias (ep_alias e) m) (endpoints p) message"

subsection \<open>Lemmas: paths\<close>

lemma clean_parts_Inr:
  "clean_parts ps = Inr qs \<longleftrightarrow> ''..'' \<notin> set ps \<and> qs = filter (\<lambda>p. p \<noteq> [] \<and> p \<noteq> ''.'') ps"
proof (induction ps arbitrary: qs)
  case (Cons p ps)
  then show ?case by (auto simp: bind_res_Inr)
qed auto

lemma clean_parts_Inl:
  "clean_parts ps = Inl e \<longleftrightarrow> ''..'' \<in> set ps \<and> e = OutsideBasePath"
  by (induction ps) (auto simp: bind_res_Inl)

lemma split_join_parts:
  "ps \<noteq> [] \<Longrightarrow> set ps \<subseteq> set (split_on (CHR ''/'') s) \<Longrightarrow>
   split_on (CHR ''/'') (join_with ''/'' ps) = ps"
  using split_on_pieces by (intro split_join_with) fastforce+

lemma join_subpath_cases:
  assumes "join_subpath base subpath = Inr r"
  obtains "r = base"
  | parts where "parts \<noteq> []" "set parts \<inter> {[], ''.'', ''..''} = {}"
      "split_on (CHR ''/'') (join_with ''/'' parts) = parts"
      "r = (if base = [] then join_with ''/'' parts
            else rstrip_slash base @ ''/'' @ join_with ''/'' parts)"
proof (cases "r = base")
  case False
  then obtain sub where sub: "subpath = Some sub" "sub \<noteq> []"
    using assms by (auto simp: join_subpath_def split: option.splits if_splits)
  let ?cand = "strip_slash (unbackslash sub)"
  from False assms sub obtain parts where
    parts: "clean_parts (split_on (CHR ''/'') ?cand) = Inr parts" "parts \<noteq> []"
      "r = (if base = [] then join_with ''/'' parts
            else rstrip_slash base @ ''/'' @ join_with ''/'' parts)"
    by (auto simp: join_subpath_def Let_def bind_res_Inr split: if_splits)
  then have "set parts \<inter> {[], ''.'', ''..''} = {}" "set parts \<subseteq> set (split_on (CHR ''/'') ?cand)"
    by (auto simp: clean_parts_Inr)
  then show ?thesis using that(2) [OF parts(2) _ split_join_parts parts(3)] parts(2) by blast
qed (use that(1) in blast)

lemma join_subpath_Inl:
  "join_subpath base subpath = Inl e \<longleftrightarrow>
     e = OutsideBasePath \<and>
     (\<exists>sub. subpath = Some sub \<and> ''..'' \<in> set (split_on (CHR ''/'') (unbackslash sub)))"
proof -
  have dots: "''..'' \<in> set (split_on (CHR ''/'') (strip_slash s)) \<longleftrightarrow> ''..'' \<in> set (split_on (CHR ''/'') s)" for s
    unfolding strip_slash_def by (rule pieces_strip_mem) simp
  have empty: "strip_slash s = [] \<Longrightarrow> ''..'' \<notin> set (split_on (CHR ''/'') s)" for s
    using dots [of s] by simp
  show ?thesis
    by (cases subpath)
      (auto simp: join_subpath_def Let_def bind_res_Inl clean_parts_Inl dots unbackslash_def
        dest: empty)
qed

text \<open>A browse or job subpath never escapes the base path: when \<open>join_subpath\<close> returns, the
  result is the base itself or the base's components followed by components none of which is
  empty, a dot or two dots; and it refuses exactly when some component of the subpath, backslashes
  read as slashes, is two dots.\<close>

theorem join_subpath_confined:
  "(\<forall>r. join_subpath base subpath = Inr r \<longrightarrow>
      r = base \<or>
      (\<exists>parts. parts \<noteq> [] \<and> set parts \<inter> {[], ''.'', ''..''} = {} \<and>
         split_on (CHR ''/'') r =
           (if base = [] then [] else split_on (CHR ''/'') (rstrip_slash base)) @ parts)) \<and>
   (\<forall>e. join_subpath base subpath = Inl e \<longleftrightarrow>
      e = OutsideBasePath \<and>
      (\<exists>sub. subpath = Some sub \<and> ''..'' \<in> set (split_on (CHR ''/'') (unbackslash sub))))"
proof (intro conjI allI impI)
  fix r
  assume "join_subpath base subpath = Inr r"
  then show "r = base \<or>
      (\<exists>parts. parts \<noteq> [] \<and> set parts \<inter> {[], ''.'', ''..''} = {} \<and>
         split_on (CHR ''/'') r =
           (if base = [] then [] else split_on (CHR ''/'') (rstrip_slash base)) @ parts)"
    by (cases rule: join_subpath_cases) (auto simp: split_on_join_append)
qed (rule join_subpath_Inl)

theorem join_subpath_confined_witness:
  "''Media/a/b'' = ''Media'' \<or>
   (\<exists>parts. parts \<noteq> [] \<and> set parts \<inter> {[], ''.'', ''..''} = {} \<and>
      split_on (CHR ''/'') ''Media/a/b'' =
        (if ''Media'' = [] then [] else split_on (CHR ''/'') (rstrip_slash ''Media'')) @ parts)"
proof -
  have "join_subpath ''Media'' (Some ''/a/./b/'') = Inr ''Media/a/b''" by code_simp
  then show ?thesis
    using join_subpath_confined [of "''Media''" "Some ''/a/./b/''"] by blast
qed

lemma strip_slash_not_absolute: "\<not> prefix ''/'' (strip_slash s)"
  using strip_if_hd [of "\<lambda>c. c = CHR ''/''" s] by (cases "strip_slash s") (auto simp: strip_slash_def)

text \<open>A leading slash is kept where it means something: on a local, SFTP, FTP or FTPS connection
  the resolved base path is absolute exactly when the configured one is (the empty local path is
  the root), while an SMB path is always relative to the connection's share, and an SMB
  connection without a share is refused.\<close>

theorem base_path_keeps_root:
  "(conn_type c = CtLocal \<longrightarrow>
      base_path_for c = Inr (if base_path c = [] then ''/'' else base_path c)) \<and>
   (absolute_path_type (conn_type c) \<longrightarrow>
      (\<exists>b. base_path_for c = Inr b \<and> (prefix ''/'' b \<longleftrightarrow> prefix ''/'' (base_path c)) \<and>
           strip_slash b = strip_slash (base_path c))) \<and>
   (conn_type c = CtSmb \<longrightarrow>
      (case base_path_for c of
         Inl e \<Rightarrow> e = SmbWithoutShare (conn_name c) \<and>
                  (\<forall>s. conn_share c = Some s \<longrightarrow> strip_slash s = [])
       | Inr b \<Rightarrow> \<not> prefix ''/'' b \<and> (\<exists>s. conn_share c = Some s \<and> prefix (strip_slash s) b)))"
proof (intro conjI impI)
  assume "absolute_path_type (conn_type c)"
  then have t: "conn_type c \<noteq> CtSmb" "conn_type c \<noteq> CtLocal" "absolute_path_type (conn_type c)"
    by (auto simp: absolute_path_type_def)
  have "strip_slash (''/'' @ strip_slash s) = strip_slash s" for s
    by (simp add: strip_slash_def strip_if_def [of _ "CHR ''/'' # _"])
       (simp add: strip_if_def [symmetric])
  then show "\<exists>b. base_path_for c = Inr b \<and> (prefix ''/'' b \<longleftrightarrow> prefix ''/'' (base_path c)) \<and>
           strip_slash b = strip_slash (base_path c)"
    using t strip_slash_not_absolute [of "base_path c"]
    by (cases "prefix ''/'' (base_path c)")
      (auto simp: base_path_for_def Let_def strip_slash_def)
next
  assume smb: "conn_type c = CtSmb"
  show "case base_path_for c of
         Inl e \<Rightarrow> e = SmbWithoutShare (conn_name c) \<and>
                  (\<forall>s. conn_share c = Some s \<longrightarrow> strip_slash s = [])
       | Inr b \<Rightarrow> \<not> prefix ''/'' b \<and> (\<exists>s. conn_share c = Some s \<and> prefix (strip_slash s) b)"
  proof (cases "conn_share c")
    case None
    then show ?thesis using smb by (simp add: base_path_for_def strip_slash_def strip_if_def)
  next
    case (Some s)
    then show ?thesis
      using smb strip_slash_not_absolute [of s]
      by (cases "strip_slash s") (auto simp: base_path_for_def Let_def)
  qed
qed (simp add: base_path_for_def Let_def)

theorem base_path_keeps_root_witness:
  "\<exists>b. base_path_for sample_connection = Inr b \<and> prefix ''/'' b \<and> strip_slash b = ''srv/media''"
  using base_path_keeps_root [of sample_connection]
  by (simp add: sample_connection_def absolute_path_type_def strip_slash_def strip_if_def rstrip_if_def)

lemma known_hosts_trusted: "known_hosts_content c = Some body \<Longrightarrow> host_keys_trusted c"
  by (auto simp: known_hosts_content_def split: if_splits)

subsection \<open>Lemmas: secrets and arguments\<close>

text \<open>Two connections that differ in their credential only.\<close>

definition same_but_credential :: "connection \<Rightarrow> connection \<Rightarrow> bool" where
  "same_but_credential c d \<longleftrightarrow> (\<exists>cr. d = c\<lparr>conn_credential := cr\<rparr>)"

lemma same_but_credentialD:
  assumes "same_but_credential c d"
  shows "conn_type d = conn_type c" "conn_name d = conn_name c" "base_path_for d = base_path_for c"
    "conn_rclone_mode d = conn_rclone_mode c" "rclone_remote_name d = rclone_remote_name c"
    "base_path d = base_path c"
proof -
  obtain cr where d: "d = c\<lparr>conn_credential := cr\<rparr>"
    using assms by (auto simp: same_but_credential_def)
  show "base_path_for d = base_path_for c"
    unfolding d by (cases c) (simp only: base_path_for_def connection.simps)
qed (use assms in \<open>auto simp: same_but_credential_def\<close>)

text \<open>What argument construction reads of an endpoint.\<close>

definition ep_view :: "endpoint \<Rightarrow> string \<times> string \<times> bool" where
  "ep_view e = (ep_alias e, ep_path e, uses_user_config e)"

lemma ep_view_pin [simp]: "ep_view (pin_host_keys x c alias e) = ep_view e"
  by (simp add: pin_host_keys_def ep_view_def)

lemma resolve_view:
  assumes "same_but_credential c d" and "resolve x c alias = Inr e" and "resolve x' d alias = Inr e'"
  shows "ep_view e = ep_view e'"
  using assms(2,3) same_but_credentialD [OF assms(1)]
  by (auto simp: resolve_def resolve_native_def resolve_rclone_remote_def bind_res_Inr ep_view_def
      Let_def split: if_splits)

definition same_view :: "(string \<times> endpoint) list \<Rightarrow> (string \<times> endpoint) list \<Rightarrow> bool" where
  "same_view es es' \<longleftrightarrow> list_all2 (\<lambda>(k, e) (k', e'). k = k' \<and> ep_view e = ep_view e') es es'"

lemma resolve_all_view:
  "list_all2 (\<lambda>(a, c) (b, d). a = b \<and> same_but_credential c d) cs ds \<Longrightarrow>
   resolve_all x cs = Inr es \<Longrightarrow> resolve_all x' ds = Inr es' \<Longrightarrow> same_view es es'"
proof (induction cs ds arbitrary: es es' rule: list_all2_induct)
  case (Cons c cs d ds)
  then show ?case
    by (cases c; cases d) (auto simp: bind_res_Inr same_view_def dest: resolve_view)
qed (simp add: same_view_def)

lemma same_view_user:
  "same_view es es' \<Longrightarrow>
   needs_user_config es \<longleftrightarrow> needs_user_config es'"
proof (unfold same_view_def needs_user_config_def, induction rule: list_all2_induct)
  case (Cons p es q es')
  then show ?case by (cases p; cases q) (auto simp: ep_view_def)
qed simp

lemma same_view_lookup:
  "same_view es es' \<Longrightarrow> rel_option (\<lambda>e e'. ep_view e = ep_view e') (map_of es a) (map_of es' a)"
proof (unfold same_view_def, induction rule: list_all2_induct)
  case (Cons p es q es')
  then show ?case by (cases p; cases q) auto
qed simp

lemma spec_of_view: "ep_view e = ep_view e' \<Longrightarrow> spec_of e s = spec_of e' s"
  by (simp add: spec_of_def ep_view_def)

lemma prepare_Inr:
  assumes "prepare x cs = Inr p"
  shows "\<exists>es. resolve_all x cs = Inr es \<and> endpoints p = es \<and>
    base_args p = [''--config'', if needs_user_config es then ext_user_conf x else []]"
proof -
  obtain es where "resolve_all x cs = Inr es" using assms by (auto simp: prepare_def bind_res_Inr)
  then show ?thesis using assms by (simp add: prepare_def Let_def split: if_splits) auto
qed

lemma prepare_view:
  assumes "list_all2 (\<lambda>(a, c) (b, d). a = b \<and> same_but_credential c d) cs ds"
    and "ext_user_conf x = ext_user_conf x'"
    and "prepare x cs = Inr p" and "prepare x' ds = Inr p'"
  shows "prep_argv p args = prep_argv p' args" and "prep_spec p a s = prep_spec p' a s"
proof -
  obtain es where es: "resolve_all x cs = Inr es" and p1: "endpoints p = es"
    "base_args p = [''--config'', if needs_user_config es then ext_user_conf x else []]"
    using prepare_Inr [OF assms(3)] by blast
  obtain es' where es': "resolve_all x' ds = Inr es'" and p2: "endpoints p' = es'"
    "base_args p' = [''--config'', if needs_user_config es' then ext_user_conf x' else []]"
    using prepare_Inr [OF assms(4)] by blast
  have view: "same_view es es'" by (rule resolve_all_view [OF assms(1) es es'])
  note p = p1 p2
  show "prep_argv p args = prep_argv p' args"
    using p same_view_user [OF view] assms(2) by (simp add: prep_argv_def)
  show "prep_spec p a s = prep_spec p' a s"
  proof (cases "map_of es a")
    case None
    then show ?thesis using same_view_lookup [OF view, of a] p1 p2 by (simp add: prep_spec_def)
  next
    case (Some e)
    then obtain e' where e': "map_of es' a = Some e'" "ep_view e = ep_view e'"
      using same_view_lookup [OF view, of a] by (cases "map_of es' a") auto
    show ?thesis using Some e'(1) p1 p2 spec_of_view [OF e'(2)] by (simp add: prep_spec_def)
  qed
qed



text \<open>A concrete pair for the theorem: one SFTP connection, two passwords.\<close>

definition sample_credential :: "string \<Rightarrow> credential" where
  "sample_credential secret =
     \<lparr>cred_id = 1, cred_name = ''login'', cred_kind = CkPassword, secret_ciphertext = secret,
      key_passphrase_ciphertext = None, is_obscured = True\<rparr>"

definition sample_ext :: ext where
  "sample_ext =
     \<lparr>ext_decrypt = Some, ext_loads = (\<lambda>s. None), ext_str = (\<lambda>j. []),
      ext_obscure = (\<lambda>s. Completed 0 (rev s) []), ext_temp_dir = ''/tmp/hivesync-1'',
      ext_user_conf = ''/config/rclone/rclone.conf'', ext_user_conf_exists = False\<rparr>"

lemma sample_prepared:
  "\<exists>p. prepare sample_ext [(ALIAS_DEST, sample_connection\<lparr>conn_credential := Some (sample_credential s)\<rparr>)] = Inr p"
proof -
  let ?c = "sample_connection\<lparr>conn_credential := Some (sample_credential s)\<rparr>"
  have "decrypt_credential sample_ext (sample_credential s) = Inr ([(''pass'', s)], [s, s])"
    by (simp add: decrypt_credential_def sample_ext_def sample_credential_def prepare_value_def)
  then have cred: "\<exists>env red. with_credential sample_ext ?c ALIAS_DEST e = Inr (env, red)" for e
    by (simp add: with_credential_def)
  have nat: "\<exists>env. native_env sample_ext ?c ALIAS_DEST = Inr env"
    by (simp add: native_env_def sample_connection_def)
  have base: "\<exists>b. base_path_for ?c = Inr b"
    by (simp add: base_path_for_def sample_connection_def Let_def)
  obtain env b where nb: "native_env sample_ext ?c ALIAS_DEST = Inr env" "base_path_for ?c = Inr b"
    using nat base by blast
  obtain env1 red where w: "with_credential sample_ext ?c ALIAS_DEST env = Inr (env1, red)"
    using cred [of env] by blast
  have ty: "conn_type ?c \<noteq> CtRcloneRemote" by (simp add: sample_connection_def)
  have "\<exists>e. resolve sample_ext ?c ALIAS_DEST = Inr e \<and> \<not> uses_user_config e"
    unfolding resolve_def resolve_native_def using ty nb w by simp
  then obtain e where e: "resolve sample_ext ?c ALIAS_DEST = Inr e" "\<not> uses_user_config e"
    by blast
  have "\<not> uses_user_config (pin_host_keys sample_ext ?c ALIAS_DEST e)"
    using e(2) by (simp add: pin_host_keys_def)
  then have "\<not> needs_user_config [(ALIAS_DEST, pin_host_keys sample_ext ?c ALIAS_DEST e)]"
    by (simp add: needs_user_config_def)
  with e(1) show ?thesis by (simp add: prepare_def Let_def)
qed


end
