(* ===== verification/Capabilities.thy ===== *)
theory Capabilities
  imports Rcloneconf
begin

text \<open>
  \<open>app/capabilities.py\<close>: a stored probe read as one endpoint's capabilities, and the constraints
  two endpoints put on a job. The reason strings are the constructors of \<open>cap_reason\<close> and
  \<open>cap_warning\<close>, which carry what the strings are formatted from. None is a probe that makes
  Python raise (a \<open>Features\<close> that is no object, a \<open>Hashes\<close> that cannot be iterated).
\<close>

definition STALE_PROBE_DAYS :: int where "STALE_PROBE_DAYS = 30"
definition MODTIME_UNSUPPORTED_PRECISION :: int where "MODTIME_UNSUPPORTED_PRECISION = 9223372036854775807"

record capabilities =
  hashes :: "string set"
  features :: "(string \<times> bool) list"
  precision_ns :: int
  probed_at :: "datetime option"

definition feature :: "capabilities \<Rightarrow> string \<Rightarrow> bool" where
  "feature c k = (map_of (features c) k = Some True)"

definition can_set_modtime :: "capabilities \<Rightarrow> bool" where
  "can_set_modtime c \<longleftrightarrow> precision_ns c \<noteq> MODTIME_UNSUPPORTED_PRECISION"

definition supports_move :: "capabilities \<Rightarrow> bool" where
  "supports_move c = feature c ''Move''"

definition supports_empty_dirs :: "capabilities \<Rightarrow> bool" where
  "supports_empty_dirs c = feature c ''CanHaveEmptyDirectories''"

definition case_insensitive :: "capabilities \<Rightarrow> bool" where
  "case_insensitive c = feature c ''CaseInsensitive''"

definition is_bucket_based :: "capabilities \<Rightarrow> bool" where
  "is_bucket_based c = feature c ''BucketBased''"

definition is_stale :: "datetime \<Rightarrow> capabilities \<Rightarrow> bool" where
  "is_stale now c = (case probed_at c of None \<Rightarrow> True | Some t \<Rightarrow> now - t > STALE_PROBE_DAYS * day)"

definition probed :: "capabilities \<Rightarrow> bool" where
  "probed c \<longleftrightarrow> probed_at c \<noteq> None"

definition empty_caps :: capabilities where
  "empty_caps = \<lparr>hashes = {}, features = [], precision_ns = MODTIME_UNSUPPORTED_PRECISION, probed_at = None\<rparr>"

subsection \<open>Reading a probe\<close>

text \<open>\<open>isinstance(value, int)\<close>, which a bool satisfies.\<close>

definition int_like :: "json \<Rightarrow> int option" where
  "int_like v = (case v of JInt i \<Rightarrow> Some i | JBool b \<Rightarrow> Some (of_bool b) | _ \<Rightarrow> None)"

definition falsy_get :: "(string \<times> json) list \<Rightarrow> string \<Rightarrow> json option" where
  "falsy_get d k = (case jget d k of None \<Rightarrow> None | Some v \<Rightarrow> if truthy v then Some v else None)"

definition bool_items :: "(string \<times> json) list \<Rightarrow> (string \<times> bool) list" where
  "bool_items d =
     concat (map (\<lambda>k. case jget d k of Some (JBool b) \<Rightarrow> [(k, b)] | _ \<Rightarrow> []) (py_fromkeys (map fst d)))"

definition read_features :: "(string \<times> json) list \<Rightarrow> (string \<times> bool) list option" where
  "read_features payload =
     (case falsy_get payload ''Features'' of
        None \<Rightarrow> Some []
      | Some (JObj d) \<Rightarrow> Some (bool_items d)
      | Some _ \<Rightarrow> None)"

definition read_hashes :: "ext \<Rightarrow> (string \<times> json) list \<Rightarrow> string set option" where
  "read_hashes x payload =
     (case falsy_get payload ''Hashes'' of
        None \<Rightarrow> Some {}
      | Some (JArr xs) \<Rightarrow> Some (set (map (py_str x) xs))
      | Some (JStr s) \<Rightarrow> Some (set (map (\<lambda>c. [c]) s))
      | Some (JObj d) \<Rightarrow> Some (set (map fst d))
      | Some _ \<Rightarrow> None)"

definition from_probe ::
  "ext \<Rightarrow> (string \<times> json) list \<Rightarrow> datetime option \<Rightarrow> capabilities option" where
  "from_probe x payload t =
     (case (read_features payload, read_hashes x payload) of
        (Some fs, Some hs) \<Rightarrow>
          Some \<lparr>hashes = hs, features = fs,
                precision_ns = (case Option.bind (jget payload ''Precision'') int_like of
                                  None \<Rightarrow> MODTIME_UNSUPPORTED_PRECISION | Some i \<Rightarrow> i),
                probed_at = t\<rparr>
      | _ \<Rightarrow> None)"

definition for_connection :: "ext \<Rightarrow> connection \<Rightarrow> capabilities option" where
  "for_connection x c =
     (case conn_capabilities c of
        Some (JObj d) \<Rightarrow> from_probe x d (capabilities_probed_at c)
      | _ \<Rightarrow> Some empty_caps)"

subsection \<open>Two endpoints\<close>

datatype cap_reason =
    NeverTested string
  | NoHashTypes "string list"
  | NoSharedHash
  | CannotWriteModtime "string list"
  | NoEmptyDirectories "string list"

datatype cap_warning =
    CaseCollision string string
  | NoServerSideMove string
  | StaleProbe string

record availability =
  available :: bool
  reason :: "cap_reason option"
  warning :: "cap_warning option"

definition yes :: availability where
  "yes = \<lparr>available = True, reason = None, warning = None\<rparr>"

definition no :: "cap_reason \<Rightarrow> availability" where
  "no r = \<lparr>available = False, reason = Some r, warning = None\<rparr>"

record intersection =
  opt_checksum :: availability
  opt_bidirectional :: availability
  opt_archive :: availability
  opt_empty_dirs :: availability
  shared_hashes :: "string set"
  cap_warnings :: "cap_warning list"
  any_stale :: bool

definition option_list :: "intersection \<Rightarrow> availability list" where
  "option_list i = [opt_checksum i, opt_bidirectional i, opt_archive i, opt_empty_dirs i]"

definition blocked_reasons :: "intersection \<Rightarrow> cap_reason list" where
  "blocked_reasons i =
     concat (map (\<lambda>v. if \<not> available v then (case reason v of None \<Rightarrow> [] | Some r \<Rightarrow> [r]) else [])
               (option_list i))"

text \<open>The names of the endpoints that satisfy a test, source first.\<close>

definition named :: "(connection \<times> capabilities) list \<Rightarrow> (capabilities \<Rightarrow> bool) \<Rightarrow> string list" where
  "named ps P = map (\<lambda>p. conn_name (fst p)) (filter (\<lambda>p. P (snd p)) ps)"

definition intersect_caps ::
  "datetime \<Rightarrow> connection \<Rightarrow> capabilities \<Rightarrow> connection \<Rightarrow> capabilities \<Rightarrow> intersection" where
  "intersect_caps now source a dest b =
     (let ps = [(source, a), (dest, b)];
          both = probed a \<and> probed b;
          unprobed = no (NeverTested (conn_name (if \<not> probed a then source else dest)));
          shared = hashes a \<inter> hashes b;
          hashless = named ps (\<lambda>c. hashes c = {});
          cannot = named ps (\<lambda>c. \<not> can_set_modtime c);
          cannot_empty = named ps (\<lambda>c. \<not> supports_empty_dirs c);
          checksum = (if \<not> both then unprobed
                      else if shared \<noteq> {} then yes
                      else if hashless \<noteq> [] then no (NoHashTypes hashless)
                      else no NoSharedHash);
          bidir = (if \<not> both then unprobed
                   else if cannot \<noteq> [] then no (CannotWriteModtime cannot) else yes);
          archive = (if \<not> probed b then no (NeverTested (conn_name dest))
                     else if supports_move b then yes
                     else yes\<lparr>warning := Some (NoServerSideMove (conn_name dest))\<rparr>);
          empties = (if \<not> both then unprobed
                     else if cannot_empty \<noteq> [] then no (NoEmptyDirectories cannot_empty) else yes);
          insensitive = (if case_insensitive a then source else dest);
          sensitive = (if case_insensitive a then dest else source)
      in \<lparr>opt_checksum = checksum, opt_bidirectional = bidir, opt_archive = archive,
          opt_empty_dirs = empties, shared_hashes = shared,
          cap_warnings =
            (if both \<and> case_insensitive a \<noteq> case_insensitive b
             then [CaseCollision (conn_name insensitive) (conn_name sensitive)] else []) @
            (case warning archive of None \<Rightarrow> [] | Some w \<Rightarrow> [w]) @
            map (\<lambda>p. StaleProbe (conn_name (fst p)))
              (filter (\<lambda>p. probed (snd p) \<and> is_stale now (snd p)) ps),
          any_stale = (probed a \<and> is_stale now a \<or> probed b \<and> is_stale now b)\<rparr>)"

definition intersect ::
  "ext \<Rightarrow> datetime \<Rightarrow> connection \<Rightarrow> connection \<Rightarrow> capabilities option \<Rightarrow> capabilities option \<Rightarrow> intersection option" where
  "intersect x now source dest source_caps dest_caps =
     Option.bind (case source_caps of Some c \<Rightarrow> Some c | None \<Rightarrow> for_connection x source) (\<lambda>a.
     Option.bind (case dest_caps of Some c \<Rightarrow> Some c | None \<Rightarrow> for_connection x dest) (\<lambda>b.
       Some (intersect_caps now source a dest b)))"

subsection \<open>Lemmas\<close>

lemma named_Nil: "named ps P = [] \<longleftrightarrow> (\<forall>p \<in> set ps. \<not> P (snd p))"
  by (auto simp: named_def filter_empty_conv)

lemma availability_simps [simp]:
  "available yes" "reason yes = None" "warning yes = None"
  "\<not> available (no r)" "reason (no r) = Some r" "warning (no r) = None"
  by (simp_all add: yes_def no_def)

lemma reasons_count:
  "\<forall>v \<in> set vs. available v \<longleftrightarrow> reason v = None \<Longrightarrow>
   length (concat (map (\<lambda>v. if \<not> available v then (case reason v of None \<Rightarrow> [] | Some r \<Rightarrow> [r]) else []) vs))
     = length (filter (\<lambda>v. \<not> available v) vs)"
  by (induction vs) auto

lemma blocked_count:
  "\<forall>v \<in> set (option_list i). available v \<longleftrightarrow> reason v = None \<Longrightarrow>
   length (blocked_reasons i) = length (filter (\<lambda>v. \<not> available v) (option_list i))"
  unfolding blocked_reasons_def by (rule reasons_count)

lemma blocked_mem:
  "r \<in> set (blocked_reasons i) \<Longrightarrow> \<exists>v \<in> set (option_list i). \<not> available v \<and> reason v = Some r"
  unfolding blocked_reasons_def by (auto split: if_splits option.splits)

lemma intersect_checksum:
  "opt_checksum (intersect_caps now s a d b) =
     (if \<not> (probed a \<and> probed b) then no (NeverTested (conn_name (if \<not> probed a then s else d)))
      else if hashes a \<inter> hashes b \<noteq> {} then yes
      else if hashes a = {} \<or> hashes b = {}
        then no (NoHashTypes (named [(s, a), (d, b)] (\<lambda>c. hashes c = {})))
      else no NoSharedHash)"
  by (auto simp: intersect_caps_def Let_def named_def)

lemma intersect_bidirectional:
  "opt_bidirectional (intersect_caps now s a d b) =
     (if \<not> (probed a \<and> probed b) then no (NeverTested (conn_name (if \<not> probed a then s else d)))
      else if can_set_modtime a \<and> can_set_modtime b then yes
      else no (CannotWriteModtime (named [(s, a), (d, b)] (\<lambda>c. \<not> can_set_modtime c))))"
  by (auto simp: intersect_caps_def Let_def named_def)

lemma intersect_archive:
  "opt_archive (intersect_caps now s a d b) =
     (if \<not> probed b then no (NeverTested (conn_name d))
      else if supports_move b then yes else yes\<lparr>warning := Some (NoServerSideMove (conn_name d))\<rparr>)"
  by (simp add: intersect_caps_def Let_def)

lemma intersect_empty_dirs:
  "opt_empty_dirs (intersect_caps now s a d b) =
     (if \<not> (probed a \<and> probed b) then no (NeverTested (conn_name (if \<not> probed a then s else d)))
      else if supports_empty_dirs a \<and> supports_empty_dirs b then yes
      else no (NoEmptyDirectories (named [(s, a), (d, b)] (\<lambda>c. \<not> supports_empty_dirs c))))"
  by (auto simp: intersect_caps_def Let_def named_def)

lemmas intersect_opts = intersect_checksum intersect_bidirectional intersect_archive intersect_empty_dirs

lemma from_probe_probed: "from_probe x d t = Some c \<Longrightarrow> probed_at c = t"
  by (auto simp: from_probe_def split: option.splits)

lemma feature_empty [simp]: "\<not> feature empty_caps k"
  by (simp add: feature_def empty_caps_def)

text \<open>What the job editor offers for a pair of endpoints, on every branch. Checksum needs both
  endpoints probed and a hash type in common; two way sync needs both probed and able to write
  modification times; empty directories need both probed and able to hold them; archiving needs the
  written side probed, and carries a warning exactly when it cannot move on the server. An option is
  refused with exactly one reason and never silently, and an endpoint nobody has tested is reported
  as untested, never as lacking the feature.\<close>

theorem intersect_options:
  assumes "intersect x now source dest sc dc = Some i"
    and a: "(case sc of Some c \<Rightarrow> Some c | None \<Rightarrow> for_connection x source) = Some a"
    and b: "(case dc of Some c \<Rightarrow> Some c | None \<Rightarrow> for_connection x dest) = Some b"
  shows "(available (opt_checksum i) \<longleftrightarrow> probed a \<and> probed b \<and> hashes a \<inter> hashes b \<noteq> {}) \<and>
    (available (opt_bidirectional i) \<longleftrightarrow> probed a \<and> probed b \<and> can_set_modtime a \<and> can_set_modtime b) \<and>
    (available (opt_empty_dirs i) \<longleftrightarrow> probed a \<and> probed b \<and> supports_empty_dirs a \<and> supports_empty_dirs b) \<and>
    (available (opt_archive i) \<longleftrightarrow> probed b) \<and>
    (warning (opt_archive i) \<noteq> None \<longleftrightarrow> probed b \<and> \<not> supports_move b) \<and>
    (\<forall>v \<in> set (option_list i). available v \<longleftrightarrow> reason v = None) \<and>
    length (blocked_reasons i) = length (filter (\<lambda>v. \<not> available v) (option_list i)) \<and>
    ((\<not> probed a \<or> \<not> probed b) \<longrightarrow>
       set (blocked_reasons i) \<subseteq> {NeverTested (conn_name source), NeverTested (conn_name dest)})"
proof -
  have i: "i = intersect_caps now source a dest b"
    using assms by (simp add: intersect_def)
  have r: "\<forall>v \<in> set (option_list i). available v \<longleftrightarrow> reason v = None"
    unfolding i option_list_def by (simp add: intersect_opts)
  have n: "(\<not> probed a \<or> \<not> probed b) \<longrightarrow>
       set (blocked_reasons i) \<subseteq> {NeverTested (conn_name source), NeverTested (conn_name dest)}"
  proof
    assume u: "\<not> probed a \<or> \<not> probed b"
    have "r \<in> {NeverTested (conn_name source), NeverTested (conn_name dest)}"
      if m: "r \<in> set (blocked_reasons i)" for r
    proof -
      obtain v where "v \<in> set (option_list i)" "\<not> available v" "reason v = Some r"
        using blocked_mem [OF m] by blast
      then show ?thesis
        using u unfolding i option_list_def by (auto simp: intersect_opts split: if_splits)
    qed
    then show "set (blocked_reasons i) \<subseteq> {NeverTested (conn_name source), NeverTested (conn_name dest)}"
      by blast
  qed
  show ?thesis
    using r n blocked_count [OF r] unfolding i by (simp add: intersect_opts)
qed

definition probe_of :: "string list \<Rightarrow> json" where
  "probe_of hs = JObj [(''Hashes'', JArr (map JStr hs)), (''Precision'', JInt 1),
     (''Features'', JObj [(''Move'', JBool True), (''CanHaveEmptyDirectories'', JBool True)])]"

theorem intersect_options_witness:
  "\<exists>i. intersect sample_ext 0
     (sample_connection\<lparr>conn_capabilities := Some (probe_of [''md5'', ''sha1'']), capabilities_probed_at := Some 0\<rparr>)
     (sample_connection\<lparr>conn_name := ''smb'', conn_capabilities := Some (probe_of []), capabilities_probed_at := Some 0\<rparr>)
     None None = Some i \<and> \<not> available (opt_checksum i) \<and> available (opt_bidirectional i) \<and>
     available (opt_archive i)"
proof -
  let ?s = "sample_connection\<lparr>conn_capabilities := Some (probe_of [''md5'', ''sha1'']), capabilities_probed_at := Some 0\<rparr>"
  let ?d = "sample_connection\<lparr>conn_name := ''smb'', conn_capabilities := Some (probe_of []), capabilities_probed_at := Some 0\<rparr>"
  have "\<exists>a. for_connection sample_ext ?s = Some a \<and> probed a \<and> can_set_modtime a"
    by (simp add: for_connection_def probe_of_def from_probe_def read_features_def read_hashes_def
        falsy_get_def jget_def int_like_def probed_def can_set_modtime_def bool_items_def py_fromkeys_def py_str_def sample_ext_def MODTIME_UNSUPPORTED_PRECISION_def)
  then obtain a where a: "for_connection sample_ext ?s = Some a" "probed a" "can_set_modtime a" by blast
  have "\<exists>b. for_connection sample_ext ?d = Some b \<and> probed b \<and> can_set_modtime b \<and> hashes b = {}"
    by (simp add: for_connection_def probe_of_def from_probe_def read_features_def read_hashes_def
        falsy_get_def jget_def int_like_def probed_def can_set_modtime_def bool_items_def py_fromkeys_def py_str_def sample_ext_def MODTIME_UNSUPPORTED_PRECISION_def)
  then obtain b where b: "for_connection sample_ext ?d = Some b" "probed b" "can_set_modtime b" "hashes b = {}"
    by blast
  obtain i where i: "intersect sample_ext 0 ?s ?d None None = Some i"
    using a(1) b(1) by (simp add: intersect_def)
  show ?thesis
    using i intersect_options [OF i, of a b] a b by simp
qed

end
