(* ===== verification/Parsers.thy ===== *)
theory Parsers
  imports Capabilities
begin

text \<open>
  \<open>app/engines/parsers.py\<close>: rclone's JSON log, the category files of \<open>rclone check\<close>, the error
  summary and the progress reports. \<open>json.loads\<close> is the field \<open>ext_loads\<close> of the environment: None
  where it raises ValueError. Division of integers is exact; Python's rounds to 53 bits, which gives
  the same whole number below 2^46.
\<close>

definition SKIPPED_COPY :: string where "SKIPPED_COPY = ''copy''"
definition SKIPPED_DELETE :: string where "SKIPPED_DELETE = ''delete''"
definition SKIPPED_ARCHIVE :: string where "SKIPPED_ARCHIVE = ''move into backup dir''"
definition CHECK_EXIT_DIFFERENCES :: int where "CHECK_EXIT_DIFFERENCES = 1"

record planned_operation =
  op_path :: string
  operation :: string
  op_size :: "int option"
  replaced :: "bool option"

record dry_run_log =
  operations :: "planned_operation list"
  log_errors :: "string list"
  log_stats :: "(string \<times> json) list option"
  max_delete_hit :: bool
  peak_speeds :: "(string \<times> rat) list"

definition empty_log :: dry_run_log where
  "empty_log = \<lparr>operations = [], log_errors = [], log_stats = None, max_delete_hit = False, peak_speeds = []\<rparr>"

definition copies :: "dry_run_log \<Rightarrow> planned_operation list" where
  "copies l = filter (\<lambda>p. operation p = SKIPPED_COPY) (operations l)"

definition created :: "dry_run_log \<Rightarrow> planned_operation list" where
  "created l = filter (\<lambda>p. replaced p = Some False) (copies l)"

definition replacements :: "dry_run_log \<Rightarrow> planned_operation list" where
  "replacements l = filter (\<lambda>p. replaced p = Some True) (copies l)"

definition deletes :: "dry_run_log \<Rightarrow> planned_operation list" where
  "deletes l = filter (\<lambda>p. operation p = SKIPPED_DELETE) (operations l)"

definition archived :: "dry_run_log \<Rightarrow> planned_operation list" where
  "archived l = filter (\<lambda>p. operation p = SKIPPED_ARCHIVE) (operations l)"

definition removals :: "dry_run_log \<Rightarrow> planned_operation list" where
  "removals l = deletes l @ archived l"

subsection \<open>The log\<close>

fun json_lines :: "ext \<Rightarrow> string list \<Rightarrow> (string \<times> json) list list" where
  "json_lines x [] = []"
| "json_lines x (line # ls) =
     (if \<not> prefix ''{'' (py_strip line) then json_lines x ls
      else (case ext_loads x (py_strip line) of
              Some (JObj d) \<Rightarrow> d # json_lines x ls
            | _ \<Rightarrow> json_lines x ls))"

definition iter_json_lines :: "ext \<Rightarrow> string \<Rightarrow> (string \<times> json) list list" where
  "iter_json_lines x text = json_lines x (py_splitlines text)"

definition jstr :: "(string \<times> json) list \<Rightarrow> string \<Rightarrow> string option" where
  "jstr d k = (case jget d k of Some (JStr s) \<Rightarrow> Some s | _ \<Rightarrow> None)"

text \<open>A size is an int that is not negative; a bool passes Python's test and counts as 0 or 1.\<close>

definition size_of :: "(string \<times> json) list \<Rightarrow> int option" where
  "size_of d =
     (case Option.bind (jget d ''size'') int_like of
        Some i \<Rightarrow> if 0 \<le> i then Some i else None | None \<Rightarrow> None)"

definition THRESHOLD_MESSAGE :: string where
  "THRESHOLD_MESSAGE = ''max-delete threshold reached''"

definition error_detail :: "string option \<Rightarrow> string \<Rightarrow> string" where
  "error_detail obj message =
     py_strip (case obj of Some p \<Rightarrow> if p \<noteq> [] then p @ '': '' @ message else message | None \<Rightarrow> message)"

definition log_line :: "dry_run_log \<Rightarrow> (string \<times> json) list \<Rightarrow> dry_run_log" where
  "log_line l d =
     (case (jstr d ''skipped'', jstr d ''object'') of
        (Some skipped, Some (c # cs)) \<Rightarrow>
          l\<lparr>operations := operations l @
              [\<lparr>op_path = c # cs, operation = skipped, op_size = size_of d, replaced = None\<rparr>]\<rparr>
      | (_, obj) \<Rightarrow>
          (let l1 = (case jget d ''stats'' of Some (JObj s) \<Rightarrow> l\<lparr>log_stats := Some s\<rparr> | _ \<Rightarrow> l)
           in case (jstr d ''level'' = Some ''error'', jstr d ''msg'') of
                (True, Some message) \<Rightarrow>
                  l1\<lparr>max_delete_hit := (max_delete_hit l1 \<or> contains THRESHOLD_MESSAGE message),
                     log_errors := log_errors l1 @ [error_detail obj message]\<rparr>
              | _ \<Rightarrow> l1))"

definition parse_dry_run :: "ext \<Rightarrow> string \<Rightarrow> dry_run_log" where
  "parse_dry_run x text = foldl log_line empty_log (iter_json_lines x text)"

subsection \<open>Presence\<close>

record presence_report =
  missing_on_dest :: "string set"
  missing_on_source :: "string set"
  differing :: "string set"
  matching :: "string set"
  errored :: "string set"

definition present_on_source :: "presence_report \<Rightarrow> string set" where
  "present_on_source p = matching p \<union> differing p \<union> missing_on_dest p"

definition present_on_dest :: "presence_report \<Rightarrow> string set" where
  "present_on_dest p = matching p \<union> differing p \<union> missing_on_source p"

definition presence_dest_count :: "presence_report \<Rightarrow> nat" where
  "presence_dest_count p = card (present_on_dest p)"

text \<open>A category file: None when it was not written.\<close>

definition read_paths :: "string option \<Rightarrow> string set" where
  "read_paths file = (case file of None \<Rightarrow> {} | Some text \<Rightarrow> set (nonblank_lines text))"

definition parse_presence :: "(string \<Rightarrow> string option) \<Rightarrow> string \<Rightarrow> string \<Rightarrow> string \<Rightarrow> string \<Rightarrow> string \<Rightarrow> presence_report" where
  "parse_presence files md ms df mt er =
     \<lparr>missing_on_dest = read_paths (files md), missing_on_source = read_paths (files ms),
      differing = read_paths (files df), matching = read_paths (files mt), errored = read_paths (files er)\<rparr>"

subsection \<open>Errors\<close>

definition more_errors :: "nat \<Rightarrow> string" where
  "more_errors n = ''and '' @ str_nat n @ '' more errors''"

definition summarise_errors :: "nat \<Rightarrow> string list \<Rightarrow> string list" where
  "summarise_errors limit lines =
     (let collected = py_fromkeys (filter (\<lambda>l. l \<noteq> []) lines)
      in if length collected \<le> limit then collected
         else take limit collected @ [more_errors (length collected - limit)])"

definition ERROR_LIMIT :: nat where "ERROR_LIMIT = 20"

subsection \<open>Progress\<close>

record file_progress =
  fp_name :: string
  fp_bytes_done :: int
  fp_size :: int
  fp_percentage :: int
  fp_speed :: rat
  fp_eta :: "int option"

record transfer_stats =
  bytes_done :: int
  total_bytes :: int
  speed :: rat
  eta_seconds :: "int option"
  elapsed_seconds :: rat
  stat_errors :: int
  checks :: int
  total_checks :: int
  transfers :: int
  total_transfers :: int
  transferring :: "file_progress list"

text \<open>\<open>int(a / b)\<close> truncates toward zero; \<open>b\<close> is positive here.\<close>

definition percentage :: "transfer_stats \<Rightarrow> int" where
  "percentage s =
     (if total_bytes s \<le> 0 then 0
      else min 100 (if 0 \<le> bytes_done s then bytes_done s * 100 div total_bytes s
                    else - ((- bytes_done s) * 100 div total_bytes s)))"

definition jint :: "(string \<times> json) list \<Rightarrow> string \<Rightarrow> int" where
  "jint d k = (case jget d k of Some (JInt i) \<Rightarrow> i | _ \<Rightarrow> 0)"

definition jint_opt :: "(string \<times> json) list \<Rightarrow> string \<Rightarrow> int option" where
  "jint_opt d k = (case jget d k of Some (JInt i) \<Rightarrow> Some i | _ \<Rightarrow> None)"

definition jfloat :: "(string \<times> json) list \<Rightarrow> string \<Rightarrow> rat" where
  "jfloat d k = (case jget d k of Some (JInt i) \<Rightarrow> of_int i | Some (JFloat r) \<Rightarrow> r | _ \<Rightarrow> 0)"

fun file_progress_of :: "ext \<Rightarrow> json \<Rightarrow> file_progress list" where
  "file_progress_of x (JObj d) =
     [\<lparr>fp_name = (case jget d ''name'' of None \<Rightarrow> [] | Some v \<Rightarrow> py_str x v), fp_bytes_done = jint d ''bytes'',
       fp_size = jint d ''size'', fp_percentage = jint d ''percentage'', fp_speed = jfloat d ''speed'',
       fp_eta = jint_opt d ''eta''\<rparr>]"
| "file_progress_of x _ = []"

definition parse_stats :: "ext \<Rightarrow> (string \<times> json) list \<Rightarrow> transfer_stats" where
  "parse_stats x d =
     \<lparr>bytes_done = jint d ''bytes'', total_bytes = jint d ''totalBytes'', speed = jfloat d ''speed'',
      eta_seconds = jint_opt d ''eta'', elapsed_seconds = jfloat d ''elapsedTime'',
      stat_errors = jint d ''errors'', checks = jint d ''checks'', total_checks = jint d ''totalChecks'',
      transfers = jint d ''transfers'', total_transfers = jint d ''totalTransfers'',
      transferring = (case jget d ''transferring'' of
                        Some (JArr es) \<Rightarrow> concat (map (file_progress_of x) es) | _ \<Rightarrow> [])\<rparr>"

subsection \<open>Lemmas\<close>

lemma percentage_le: "percentage s \<le> 100"
  by (simp add: percentage_def)

lemma percentage_nonneg: "0 \<le> bytes_done s \<Longrightarrow> 0 \<le> percentage s"
  by (simp add: percentage_def pos_imp_zdiv_nonneg_iff)

lemma length_summarise_errors: "length (summarise_errors limit lines) \<le> limit + 1"
  by (simp add: summarise_errors_def Let_def)

lemma finite_read_paths [simp]: "finite (read_paths f)"
  by (simp add: read_paths_def split: option.splits)

lemma read_paths_nonempty: "p \<in> read_paths f \<Longrightarrow> p \<noteq> []"
  by (auto simp: read_paths_def nonblank_lines_def split: option.splits)

text \<open>A line that is no JSON object leaves the log as it is: the lines of the text are read one by
  one, and what one line adds does not depend on the others.\<close>

lemma json_lines_append: "json_lines x (a @ b) = json_lines x a @ json_lines x b"
  by (induction a) (auto split: option.splits json.splits)

lemma json_lines_skip: "ext_loads x (py_strip l) = None \<Longrightarrow> json_lines x (a @ l # b) = json_lines x (a @ b)"
  by (simp add: json_lines_append)

definition op_of :: "(string \<times> json) list \<Rightarrow> planned_operation option" where
  "op_of d =
     (case (jstr d ''skipped'', jstr d ''object'') of
        (Some skipped, Some (c # cs)) \<Rightarrow>
          Some \<lparr>op_path = c # cs, operation = skipped, op_size = size_of d, replaced = None\<rparr>
      | _ \<Rightarrow> None)"

lemma log_line_op: "op_of d = Some p \<Longrightarrow> log_line l d = l\<lparr>operations := operations l @ [p]\<rparr>"
  by (auto simp: op_of_def log_line_def split: option.splits list.splits)

lemma log_line_other:
  "op_of d = None \<Longrightarrow> operations (log_line l d) = operations l \<and>
     (max_delete_hit (log_line l d) \<longleftrightarrow> max_delete_hit l \<or>
        jstr d ''level'' = Some ''error'' \<and> (\<exists>m. jstr d ''msg'' = Some m \<and> sublist THRESHOLD_MESSAGE m))"
  by (auto simp: op_of_def log_line_def Let_def contains_iff_sublist
      split: option.splits list.splits json.splits bool.splits)

definition threshold_line :: "(string \<times> json) list \<Rightarrow> bool" where
  "threshold_line d \<longleftrightarrow> op_of d = None \<and> jstr d ''level'' = Some ''error'' \<and>
     (\<exists>m. jstr d ''msg'' = Some m \<and> sublist THRESHOLD_MESSAGE m)"

lemma foldl_log_line:
  "operations (foldl log_line l ds) = operations l @ List.map_filter op_of ds \<and>
   (max_delete_hit (foldl log_line l ds) \<longleftrightarrow> max_delete_hit l \<or> (\<exists>d \<in> set ds. threshold_line d))"
proof (induction ds arbitrary: l)
  case (Cons d ds)
  show ?case
  proof (cases "op_of d")
    case None
    then show ?thesis
      using Cons log_line_other [of d l] by (auto simp: List.map_filter_simps threshold_line_def)
  next
    case (Some p)
    then show ?thesis
      using Cons log_line_op [OF Some, of l] by (simp add: List.map_filter_simps threshold_line_def)
  qed
qed (simp add: List.map_filter_simps)

text \<open>Reading a planning log is a homomorphism over its lines: the operations are those of the
  lines in order, one for each object with a \<open>skipped\<close> string and a path, whatever unreadable text
  rclone interleaves; a line that cannot be decoded can be inserted anywhere without changing the
  result; and the plan is marked as truncated exactly when some line is an error that reports the
  delete threshold.\<close>

theorem parse_dry_run_lines:
  "operations (parse_dry_run x text) = List.map_filter op_of (iter_json_lines x text) \<and>
   (max_delete_hit (parse_dry_run x text) \<longleftrightarrow> (\<exists>d \<in> set (iter_json_lines x text). threshold_line d)) \<and>
   (\<forall>a l b. py_splitlines text = a @ l # b \<longrightarrow> ext_loads x (py_strip l) = None \<longrightarrow>
      parse_dry_run x text = foldl log_line empty_log (json_lines x (a @ b)))"
  using foldl_log_line [of empty_log "iter_json_lines x text"]
  by (auto simp: parse_dry_run_def empty_log_def iter_json_lines_def json_lines_skip)

definition sample_loads :: "string \<Rightarrow> json option" where
  "sample_loads s =
     (if s = ''{1}'' then Some (JObj [(''skipped'', JStr ''copy''), (''object'', JStr ''a.txt''), (''size'', JInt 14)])
      else if s = ''{2}'' then Some (JObj [(''level'', JStr ''error''), (''msg'', JStr ''max-delete threshold reached'')])
      else None)"

theorem parse_dry_run_lines_witness:
  "let l = parse_dry_run (sample_ext\<lparr>ext_loads := sample_loads\<rparr>) (''{1}'' @ [CHR 0x0A] @ ''noise'' @ [CHR 0x0A] @ ''{2}'')
   in map op_path (operations l) = [''a.txt''] \<and> max_delete_hit l"
proof -
  let ?x = "sample_ext\<lparr>ext_loads := sample_loads\<rparr>"
  let ?t = "''{1}'' @ [CHR 0x0A] @ ''noise'' @ [CHR 0x0A] @ ''{2}''"
  have "iter_json_lines ?x ?t =
      [[(''skipped'', JStr ''copy''), (''object'', JStr ''a.txt''), (''size'', JInt 14)],
       [(''level'', JStr ''error''), (''msg'', JStr ''max-delete threshold reached'')]]"
    by (simp add: iter_json_lines_def py_splitlines_def line_break_def py_strip_def py_space_def
        strip_if_def rstrip_if_def sample_loads_def)
  then show ?thesis
    using parse_dry_run_lines [of ?x ?t]
    by (simp add: op_of_def threshold_line_def jstr_def jget_def List.map_filter_simps THRESHOLD_MESSAGE_def)
qed

text \<open>The error list stored for a run is bounded: at most the limit and one line that counts the
  rest, no error twice and none empty, every kept line is one of the run's errors in its order, and
  short lists lose nothing.\<close>

lemma summarise_errors_bounded:
  "let r = summarise_errors limit lines; distinct_errors = py_fromkeys (filter (\<lambda>l. l \<noteq> []) lines)
   in length r \<le> limit + 1 \<and> prefix (take limit r) distinct_errors \<and>
      (r = distinct_errors \<or>
       limit < length distinct_errors \<and> r = take limit distinct_errors @ [more_errors (length distinct_errors - limit)]) \<and>
      set distinct_errors = set lines - {[]} \<and> distinct distinct_errors"
  by (auto simp: summarise_errors_def Let_def take_is_prefix)

end
