(* ===== verification/Events.thy ===== *)
theory Events
  imports Parsers
begin

text \<open>
  \<open>app/jobs/events.py\<close>: the broker that fans a run's output out to its watchers, and the recorder of
  live progress. A channel is one subscriber's queue, None its end sentinel. Every operation is one
  step: the code takes its lock around each access of the shared dictionaries, a run has a single
  publisher, and what another thread can do between the locked parts is take an event off a queue,
  which is the step \<open>channel_get\<close>.
\<close>

datatype event_kind = EvLine | EvStatus | EvDone | EvStats | EvPing

record run_event =
  ev_kind :: event_kind
  ev_text :: string
  ev_data :: "(string \<times> json) list"

definition QUEUE_SIZE :: nat where "QUEUE_SIZE = 500"
definition FINISHED_MEMORY :: nat where "FINISHED_MEMORY = 500"
definition BACKLOG_LIMIT :: nat where "BACKLOG_LIMIT = 200"
definition SAMPLE_MEMORY :: nat where "SAMPLE_MEMORY = 60 * 60 div 5"

record channel =
  ch_id :: nat
  ch_queue :: "run_event option list"

record run_broker =
  subscribers :: "(nat \<times> channel list) list"
  backlog :: "(nat \<times> run_event list) list"
  latest_stats :: "(nat \<times> run_event) list"
  finished :: "nat list"

definition empty_broker :: run_broker where
  "empty_broker = \<lparr>subscribers = [], backlog = [], latest_stats = [], finished = []\<rparr>"

definition get_list :: "nat \<Rightarrow> (nat \<times> 'a list) list \<Rightarrow> 'a list" where
  "get_list k d = (case map_of d k of None \<Rightarrow> [] | Some xs \<Rightarrow> xs)"

subsection \<open>Buffers\<close>

text \<open>\<open>put_nowait\<close>, and on \<open>queue.Full\<close> one \<open>get_nowait\<close> and one more try.\<close>

definition queue_put :: "'a \<Rightarrow> 'a list \<Rightarrow> 'a list" where
  "queue_put e q = (if length q < QUEUE_SIZE then q @ [e] else tl q @ [e])"

definition backlog_put :: "run_event \<Rightarrow> run_event list \<Rightarrow> run_event list" where
  "backlog_put e b =
     (let b' = b @ [e] in if length b' > BACKLOG_LIMIT then drop (length b' - BACKLOG_LIMIT) b' else b')"

text \<open>\<open>deque(maxlen=...)\<close>\<close>

definition deque_append :: "nat \<Rightarrow> 'a \<Rightarrow> 'a list \<Rightarrow> 'a list" where
  "deque_append maxlen e q = (if length q < maxlen then q @ [e] else drop (Suc (length q) - maxlen) (q @ [e]))"

text \<open>What the three have in common: a buffer that holds at most \<open>cap\<close> elements and drops the oldest
  to take a new one.\<close>

locale bounded_buffer =
  fixes cap :: nat and push :: "'a \<Rightarrow> 'a list \<Rightarrow> 'a list"
  assumes cap_pos: "0 < cap"
    and push_last: "length b \<le> cap \<Longrightarrow> push e b = drop (Suc (length b) - cap) (b @ [e])"
begin

lemma push_bounded: "length b \<le> cap \<Longrightarrow> length (push e b) \<le> cap"
  by (simp add: push_last)

lemma push_newest: "length b \<le> cap \<Longrightarrow> push e b \<noteq> [] \<and> last (push e b) = e"
  using cap_pos by (simp add: push_last)

lemma set_push: "length b \<le> cap \<Longrightarrow> set (push e b) \<subseteq> insert e (set b)"
  by (auto simp: push_last dest: in_set_dropD)

lemma foldl_push:
  "length b \<le> cap \<Longrightarrow> foldl (\<lambda>q e. push e q) b es = drop (length b + length es - cap) (b @ es)"
proof (induction es arbitrary: b)
  case (Cons e es)
  have "foldl (\<lambda>q e. push e q) b (e # es) = drop (length (push e b) + length es - cap) (push e b @ es)"
    using Cons push_bounded by simp
  also have "\<dots> = drop (length b + length (e # es) - cap) (b @ e # es)"
  proof (cases "length b < cap")
    case True
    then show ?thesis using Cons.prems by (simp add: push_last)
  next
    case False
    then have "length b = cap" using Cons.prems by simp
    moreover have "b \<noteq> []" using cap_pos calculation by auto
    ultimately show ?thesis using cap_pos by (cases b) (auto simp: push_last)
  qed
  finally show ?case .
qed simp

lemma keeps_latest: "foldl (\<lambda>q e. push e q) [] es = drop (length es - cap) es"
  using foldl_push [of "[]" es] by simp

end

interpretation queue_buffer: bounded_buffer QUEUE_SIZE queue_put
proof
  show "0 < QUEUE_SIZE" by (simp add: QUEUE_SIZE_def)
  fix b :: "'a list" and e
  show "length b \<le> QUEUE_SIZE \<Longrightarrow> queue_put e b = drop (Suc (length b) - QUEUE_SIZE) (b @ [e])"
    by (cases b) (auto simp: queue_put_def QUEUE_SIZE_def Suc_diff_le)
qed

interpretation backlog_buffer: bounded_buffer BACKLOG_LIMIT backlog_put
  by unfold_locales (auto simp: backlog_put_def BACKLOG_LIMIT_def Let_def)

interpretation sample_buffer: bounded_buffer SAMPLE_MEMORY "deque_append SAMPLE_MEMORY"
  by unfold_locales (auto simp: deque_append_def SAMPLE_MEMORY_def)

subsection \<open>The broker\<close>

definition publish :: "nat \<Rightarrow> run_event \<Rightarrow> run_broker \<Rightarrow> run_broker" where
  "publish r e b =
     (let b1 = (if ev_kind e = EvStats then b\<lparr>latest_stats := dict_put r e (latest_stats b)\<rparr>
                else b\<lparr>backlog := dict_put r (backlog_put e (get_list r (backlog b))) (backlog b)\<rparr>)
      in if get_list r (subscribers b1) = [] then b1
         else b1\<lparr>subscribers := dict_put r
                 (map (\<lambda>c. c\<lparr>ch_queue := queue_put (Some e) (ch_queue c)\<rparr>) (get_list r (subscribers b1)))
                 (subscribers b1)\<rparr>)"

definition put_sentinel :: "channel \<Rightarrow> channel" where
  "put_sentinel c = (if length (ch_queue c) < QUEUE_SIZE then c\<lparr>ch_queue := ch_queue c @ [None]\<rparr> else c)"

definition remember :: "nat \<Rightarrow> nat list \<Rightarrow> nat list" where
  "remember r fs =
     (let fs' = (if r \<in> set fs then fs else fs @ [r]) in drop (length fs' - FINISHED_MEMORY) fs')"

definition finish :: "nat \<Rightarrow> run_broker \<Rightarrow> run_broker" where
  "finish r b =
     (let b1 = (if get_list r (subscribers b) = [] then b
                else b\<lparr>subscribers := dict_put r (map put_sentinel (get_list r (subscribers b))) (subscribers b)\<rparr>)
      in b1\<lparr>backlog := dict_del r (backlog b1), latest_stats := dict_del r (latest_stats b1),
            finished := remember r (finished b1)\<rparr>)"

definition backlog_for :: "nat \<Rightarrow> run_broker \<Rightarrow> run_event list" where
  "backlog_for r b = get_list r (backlog b)"

text \<open>The locked part of \<open>subscribe\<close>: what is replayed, and whether a channel was registered. The
  channel's number stands for its identity.\<close>

definition subscribe :: "nat \<Rightarrow> nat \<Rightarrow> run_broker \<Rightarrow> run_event list \<times> bool \<times> run_broker" where
  "subscribe ch r b =
     (if r \<in> set (finished b) then (get_list r (backlog b), False, b)
      else (get_list r (backlog b) @ (case map_of (latest_stats b) r of None \<Rightarrow> [] | Some e \<Rightarrow> [e]), True,
            b\<lparr>subscribers := dict_put r (get_list r (subscribers b) @ [\<lparr>ch_id = ch, ch_queue = []\<rparr>])
                              (subscribers b)\<rparr>))"

definition ping :: run_event where
  "ping = \<lparr>ev_kind = EvPing, ev_text = [], ev_data = []\<rparr>"

text \<open>One turn of the reading loop: a heartbeat when nothing came for fifteen seconds, None at the
  end sentinel, otherwise the event.\<close>

definition channel_get :: "channel \<Rightarrow> run_event option \<times> channel" where
  "channel_get c =
     (case ch_queue c of
        [] \<Rightarrow> (Some ping, c)
      | e # q \<Rightarrow> (e, c\<lparr>ch_queue := q\<rparr>))"

definition unsubscribe :: "nat \<Rightarrow> nat \<Rightarrow> run_broker \<Rightarrow> run_broker" where
  "unsubscribe ch r b =
     (case map_of (subscribers b) r of
        None \<Rightarrow> b
      | Some cs \<Rightarrow>
          (let cs' = filter (\<lambda>c. ch_id c \<noteq> ch) cs
           in if cs' = [] then b\<lparr>subscribers := dict_del r (subscribers b)\<rparr>
              else b\<lparr>subscribers := dict_put r cs' (subscribers b)\<rparr>))"

definition take_event :: "nat \<Rightarrow> nat \<Rightarrow> run_broker \<Rightarrow> run_broker" where
  "take_event ch r b =
     (case map_of (subscribers b) r of
        None \<Rightarrow> b
      | Some cs \<Rightarrow>
          b\<lparr>subscribers := dict_put r (map (\<lambda>c. if ch_id c = ch then snd (channel_get c) else c) cs)
                           (subscribers b)\<rparr>)"

text \<open>Everything that can happen to the broker.\<close>

inductive broker_step :: "run_broker \<Rightarrow> run_broker \<Rightarrow> bool" where
  publishes: "broker_step b (publish r e b)"
| finishes: "broker_step b (finish r b)"
| subscribes: "broker_step b (snd (snd (subscribe ch r b)))"
| takes: "broker_step b (take_event ch r b)"
| leaves: "broker_step b (unsubscribe ch r b)"

inductive broker_reachable :: "run_broker \<Rightarrow> bool" where
  start: "broker_reachable empty_broker"
| step: "broker_reachable b \<Longrightarrow> broker_step b b' \<Longrightarrow> broker_reachable b'"

inductive_cases broker_stepE: "broker_step b b'"

subsection \<open>Live progress\<close>

record activity =
  act_latest :: "(nat \<times> transfer_stats) list"
  act_samples :: "(datetime \<times> rat) list"
  session_bytes :: int
  session_max_speed :: rat
  counted_bytes :: "(nat \<times> int) list"

definition empty_activity :: activity where
  "empty_activity = \<lparr>act_latest = [], act_samples = [], session_bytes = 0, session_max_speed = 0, counted_bytes = []\<rparr>"

definition total_speed :: "(nat \<times> transfer_stats) list \<Rightarrow> rat" where
  "total_speed d = sum_list (map (\<lambda>e. speed (snd e)) d)"

definition get_int :: "nat \<Rightarrow> (nat \<times> int) list \<Rightarrow> int" where
  "get_int k d = (case map_of d k of None \<Rightarrow> 0 | Some n \<Rightarrow> n)"

definition record_stats :: "datetime \<Rightarrow> nat \<Rightarrow> transfer_stats \<Rightarrow> activity \<Rightarrow> activity" where
  "record_stats t r s a =
     (let latest = dict_put r s (act_latest a);
          previous = get_int r (counted_bytes a);
          total = total_speed latest
      in a\<lparr>act_latest := latest,
           session_bytes := session_bytes a + (if bytes_done s \<ge> previous then bytes_done s - previous else 0),
           counted_bytes := dict_put r (bytes_done s) (counted_bytes a),
           session_max_speed := max (session_max_speed a) total,
           act_samples := deque_append SAMPLE_MEMORY (t, total) (act_samples a)\<rparr>)"

definition forget :: "datetime \<Rightarrow> nat \<Rightarrow> activity \<Rightarrow> activity" where
  "forget t r a =
     (let latest = dict_del r (act_latest a);
          a1 = a\<lparr>act_latest := latest, counted_bytes := dict_del r (counted_bytes a),
                 act_samples := deque_append SAMPLE_MEMORY (t, total_speed latest) (act_samples a)\<rparr>
      in if latest = [] then a1\<lparr>session_bytes := 0, session_max_speed := 0, counted_bytes := []\<rparr> else a1)"

definition samples_since :: "datetime \<Rightarrow> activity \<Rightarrow> (datetime \<times> rat) list" where
  "samples_since cutoff a = filter (\<lambda>s. fst s \<ge> cutoff) (act_samples a)"

definition reset_session :: "activity \<Rightarrow> activity" where
  "reset_session a =
     a\<lparr>session_bytes := 0, session_max_speed := 0,
       counted_bytes := map (\<lambda>e. (fst e, bytes_done (snd e))) (act_latest a)\<rparr>"

subsection \<open>Lemmas: the broker\<close>

definition queues_ok :: "channel list \<Rightarrow> bool" where
  "queues_ok cs \<longleftrightarrow> (\<forall>c \<in> set cs. length (ch_queue c) \<le> QUEUE_SIZE)"

definition backlog_ok :: "run_event list \<Rightarrow> bool" where
  "backlog_ok es \<longleftrightarrow> length es \<le> BACKLOG_LIMIT \<and> (\<forall>e \<in> set es. ev_kind e \<noteq> EvStats)"

definition broker_ok :: "run_broker \<Rightarrow> bool" where
  "broker_ok b \<longleftrightarrow> all_vals queues_ok (subscribers b) \<and> all_vals backlog_ok (backlog b) \<and>
     all_vals (\<lambda>e. ev_kind e = EvStats) (latest_stats b) \<and>
     length (finished b) \<le> FINISHED_MEMORY \<and> distinct (finished b)"

lemma get_list_dict_put: "get_list k (dict_put k' v d) = (if k = k' then v else get_list k d)"
  by (simp add: get_list_def map_of_dict_put)

lemma get_list_all: "all_vals P d \<Longrightarrow> P [] \<Longrightarrow> P (get_list r d)"
  by (auto simp: get_list_def dest: all_valsD split: option.splits)

lemma get_list_subs: "broker_ok b \<Longrightarrow> queues_ok (get_list r (subscribers b))"
  using get_list_all [of queues_ok] by (simp add: broker_ok_def queues_ok_def [of "[]"])

lemma get_list_backlog: "broker_ok b \<Longrightarrow> backlog_ok (get_list r (backlog b))"
  using get_list_all [of backlog_ok] by (simp add: broker_ok_def backlog_ok_def [of "[]"])

lemma remember_ok: "distinct fs \<Longrightarrow> length (remember r fs) \<le> FINISHED_MEMORY \<and> distinct (remember r fs)"
  by (auto simp: remember_def Let_def)

lemma queues_put: "queues_ok cs \<Longrightarrow> queues_ok (map (\<lambda>c. c\<lparr>ch_queue := queue_put e (ch_queue c)\<rparr>) cs)"
  by (auto simp: queues_ok_def intro!: queue_buffer.push_bounded)

lemma backlog_ok_put: "backlog_ok es \<Longrightarrow> ev_kind e \<noteq> EvStats \<Longrightarrow> backlog_ok (backlog_put e es)"
  using backlog_buffer.push_bounded [of es e] backlog_buffer.set_push [of es e]
  unfolding backlog_ok_def by blast

lemma publish_ok: "broker_ok b \<Longrightarrow> broker_ok (publish r e b)"
  using get_list_subs [of b r] get_list_backlog [of b r]
  by (auto simp: publish_def Let_def broker_ok_def intro!: all_vals_put queues_put backlog_ok_put)

lemma put_sentinel_ok: "queues_ok cs \<Longrightarrow> queues_ok (map put_sentinel cs)"
  by (auto simp: queues_ok_def put_sentinel_def)

lemma finish_ok: "broker_ok b \<Longrightarrow> broker_ok (finish r b)"
  using remember_ok [of "finished b" r] get_list_subs [of b r]
  by (auto simp: finish_def Let_def broker_ok_def intro!: all_vals_put all_vals_del put_sentinel_ok)

lemma subscribe_ok: "broker_ok b \<Longrightarrow> broker_ok (snd (snd (subscribe ch r b)))"
  using get_list_subs [of b r]
  by (auto simp: subscribe_def broker_ok_def queues_ok_def intro!: all_vals_put)

lemma channel_get_shorter: "length (ch_queue (snd (channel_get c))) \<le> length (ch_queue c)"
  by (cases "ch_queue c") (auto simp: channel_get_def)

lemma queues_take: "queues_ok cs \<Longrightarrow> queues_ok (map (\<lambda>c. if ch_id c = ch then snd (channel_get c) else c) cs)"
  by (auto simp: queues_ok_def intro: order_trans [OF channel_get_shorter])

lemma take_event_ok: "broker_ok b \<Longrightarrow> broker_ok (take_event ch r b)"
  by (auto simp: take_event_def broker_ok_def split: option.splits intro!: all_vals_put queues_take
      dest: all_valsD)

lemma queues_filter: "queues_ok cs \<Longrightarrow> queues_ok (filter P cs)"
  by (simp add: queues_ok_def)

lemma unsubscribe_ok: "broker_ok b \<Longrightarrow> broker_ok (unsubscribe ch r b)"
  by (auto simp: unsubscribe_def broker_ok_def Let_def split: option.splits
      intro!: all_vals_put all_vals_del queues_filter dest: all_valsD)

lemma broker_step_ok: "broker_step b b' \<Longrightarrow> broker_ok b \<Longrightarrow> broker_ok b'"
  by (erule broker_stepE) (simp_all add: publish_ok finish_ok subscribe_ok take_event_ok unsubscribe_ok)

lemma broker_reachable_ok: "broker_reachable b \<Longrightarrow> broker_ok b"
proof (induction rule: broker_reachable.induct)
  case start
  show ?case by (simp add: broker_ok_def empty_broker_def)
qed (use broker_step_ok in blast)

text \<open>Whatever threads publish, finish, read, join and leave, in whatever order, the broker stays
  bounded: no queue holds more than 500 events, no backlog more than 200, at most 500 finished runs
  are remembered, each once; and no progress record ever enters a backlog, so progress cannot push
  out the log lines.\<close>

theorem broker_bounded:
  assumes "broker_reachable b"
  shows "(\<forall>r cs c. map_of (subscribers b) r = Some cs \<and> c \<in> set cs \<longrightarrow> length (ch_queue c) \<le> 500) \<and>
    (\<forall>r es. map_of (backlog b) r = Some es \<longrightarrow> length es \<le> 200 \<and> (\<forall>e \<in> set es. ev_kind e \<noteq> EvStats)) \<and>
    length (finished b) \<le> 500 \<and> distinct (finished b)"
  using broker_reachable_ok [OF assms]
  by (auto simp: broker_ok_def all_vals_def queues_ok_def backlog_ok_def QUEUE_SIZE_def BACKLOG_LIMIT_def
      FINISHED_MEMORY_def)

definition line_event :: "string \<Rightarrow> run_event" where
  "line_event s = \<lparr>ev_kind = EvLine, ev_text = s, ev_data = []\<rparr>"

theorem broker_bounded_witness:
  "length (finished (finish 7 (publish 7 (line_event ''x'') (snd (snd (subscribe 0 7 empty_broker)))))) \<le> 500"
proof -
  have "broker_reachable (finish 7 (publish 7 (line_event ''x'') (snd (snd (subscribe 0 7 empty_broker)))))"
    by (rule broker_reachable.step [OF broker_reachable.step [OF broker_reachable.step [OF broker_reachable.start]]])
      (rule subscribes publishes finishes)+
  then show ?thesis using broker_bounded by blast
qed

lemma publish_backlog:
  "get_list r (backlog (publish r e b)) =
     (if ev_kind e = EvStats then get_list r (backlog b) else backlog_put e (get_list r (backlog b)))"
  by (simp add: publish_def Let_def get_list_dict_put)

lemma publish_stats:
  "map_of (latest_stats (publish r e b)) r = (if ev_kind e = EvStats then Some e else map_of (latest_stats b) r)"
  by (simp add: publish_def Let_def map_of_dict_put)

lemma publish_finished [simp]: "finished (publish r e b) = finished b"
  by (simp add: publish_def Let_def)

lemma publish_queues:
  "get_list r (subscribers (publish r e b)) =
     map (\<lambda>c. c\<lparr>ch_queue := queue_put (Some e) (ch_queue c)\<rparr>) (get_list r (subscribers b))"
  by (simp add: publish_def Let_def get_list_dict_put)

definition publish_all :: "nat \<Rightarrow> run_event list \<Rightarrow> run_broker \<Rightarrow> run_broker" where
  "publish_all r es b = foldl (\<lambda>b e. publish r e b) b es"

lemma publish_all_backlog:
  "get_list r (backlog (publish_all r es b)) =
     foldl (\<lambda>q e. backlog_put e q) (get_list r (backlog b)) (filter (\<lambda>e. ev_kind e \<noteq> EvStats) es)"
  unfolding publish_all_def by (induction es arbitrary: b) (auto simp: publish_backlog)

lemma publish_all_stats:
  "map_of (latest_stats (publish_all r es b)) r =
     (case filter (\<lambda>e. ev_kind e = EvStats) es of [] \<Rightarrow> map_of (latest_stats b) r | ss \<Rightarrow> Some (last ss))"
  unfolding publish_all_def by (induction es arbitrary: b) (auto simp: publish_stats split: list.splits)

lemma publish_all_finished [simp]: "finished (publish_all r es b) = finished b"
  unfolding publish_all_def by (induction es arbitrary: b) auto

lemma publish_all_queues:
  "get_list r (subscribers (publish_all r es b)) =
     map (\<lambda>c. c\<lparr>ch_queue := foldl (\<lambda>q e. queue_put e q) (ch_queue c) (map Some es)\<rparr>) (get_list r (subscribers b))"
  unfolding publish_all_def by (induction es arbitrary: b) (auto simp: publish_queues comp_def)

text \<open>A watcher that joins a run in progress misses nothing it can still be shown. It is first
  handed the last 200 lines published before it came, in order and without progress records, then the
  latest progress record if there was one; afterwards its queue holds what was published since, in
  order, cut to the newest 500 if it never reads. The joining is refused exactly for a finished run.\<close>

theorem subscribe_replays:
  assumes fresh: "get_list r (backlog b) = []" "map_of (latest_stats b) r = None"
      "get_list r (subscribers b) = []" "r \<notin> set (finished b)"
  shows "let b1 = publish_all r es b; (replay, open, b2) = subscribe ch r b1; b3 = publish_all r later b2;
      lines = filter (\<lambda>e. ev_kind e \<noteq> EvStats) es; stats = filter (\<lambda>e. ev_kind e = EvStats) es
    in open \<and> replay = drop (length lines - 200) lines @ (if stats = [] then [] else [last stats]) \<and>
       map ch_queue (get_list r (subscribers b3)) = [drop (length later - 500) (map Some later)]"
proof -
  have lines: "get_list r (backlog (publish_all r es b)) =
      drop (length (filter (\<lambda>e. ev_kind e \<noteq> EvStats) es) - 200) (filter (\<lambda>e. ev_kind e \<noteq> EvStats) es)"
    unfolding publish_all_backlog fresh(1) backlog_buffer.keeps_latest by (simp add: BACKLOG_LIMIT_def)
  have queue: "foldl (\<lambda>q e. queue_put e q) [] (map Some later) = drop (length later - 500) (map Some later)"
    for later :: "run_event list"
    unfolding queue_buffer.keeps_latest by (simp add: QUEUE_SIZE_def)
  have none: "get_list r (subscribers (publish_all r es b)) = []"
    by (simp add: publish_all_queues fresh)
  show ?thesis
    using fresh(4)
    by (simp add: Let_def subscribe_def lines publish_all_stats fresh(2) publish_all_queues
        get_list_dict_put none fresh(3) queue split: list.splits)
qed

theorem subscribe_replays_witness:
  "fst (subscribe 0 7 (publish_all 7 [line_event ''a'', line_event ''b''] empty_broker)) =
     [line_event ''a'', line_event ''b'']"
  using subscribe_replays [of 7 empty_broker "[line_event ''a'', line_event ''b'']" 0 "[]"]
  by (simp add: empty_broker_def get_list_def line_event_def Let_def split: prod.splits)

lemma remember_mem: "distinct fs \<Longrightarrow> length fs \<le> FINISHED_MEMORY \<Longrightarrow> r \<in> set (remember r fs)"
proof (cases "r \<in> set fs")
  case False
  assume "length fs \<le> FINISHED_MEMORY"
  then have "remember r fs = drop (Suc (length fs) - FINISHED_MEMORY) fs @ [r]"
    using False by (simp add: remember_def FINISHED_MEMORY_def)
  then show ?thesis by simp
qed (simp add: remember_def)

lemma finish_queues:
  "get_list r (subscribers (finish r b)) = map put_sentinel (get_list r (subscribers b))"
  by (simp add: finish_def Let_def get_list_dict_put)

text \<open>A subscriber whose queue is full when the run ends gets no sentinel: it reads its 500 events
  and then waits, with a heartbeat every fifteen seconds, for an end that never comes.\<close>

lemma finish_misses_full_queue:
  "c \<in> set (get_list r (subscribers b)) \<Longrightarrow> length (ch_queue c) = 500 \<Longrightarrow> None \<notin> set (ch_queue c) \<Longrightarrow>
     c \<in> set (get_list r (subscribers (finish r b))) \<and> put_sentinel c = c"
  by (auto simp: finish_queues put_sentinel_def QUEUE_SIZE_def image_iff)

text \<open>When a run ends every watcher whose queue has room finds the end sentinel behind the events
  it has not read, a watcher with a full queue is left as it was, the backlog is released, and whoever
  comes afterwards is turned away at once instead of waiting for a signal already given, whatever was
  published or finished before.\<close>

theorem finish_releases:
  assumes "broker_reachable b"
  shows "get_list r (subscribers (finish r b)) =
      map (\<lambda>c. if length (ch_queue c) < 500 then c\<lparr>ch_queue := ch_queue c @ [None]\<rparr> else c)
        (get_list r (subscribers b)) \<and>
    backlog_for r (finish r b) = [] \<and> subscribe ch r (finish r b) = ([], False, finish r b)"
proof -
  have "distinct (finished b)" "length (finished b) \<le> FINISHED_MEMORY"
    using broker_reachable_ok [OF assms] by (auto simp: broker_ok_def)
  then have mem: "r \<in> set (finished (finish r b))"
    using remember_mem by (simp add: finish_def Let_def)
  have none: "get_list r (backlog (finish r b)) = []"
    by (simp add: finish_def Let_def get_list_def map_of_dict_del)
  have "put_sentinel = (\<lambda>c. if length (ch_queue c) < 500 then c\<lparr>ch_queue := ch_queue c @ [None]\<rparr> else c)"
    by (simp add: fun_eq_iff put_sentinel_def QUEUE_SIZE_def)
  then show ?thesis
    using mem none by (simp add: finish_queues backlog_for_def subscribe_def)
qed

theorem finish_releases_witness:
  "map ch_queue (get_list 7 (subscribers (finish 7 (snd (snd (subscribe 0 7 empty_broker)))))) = [[None]]"
proof -
  have "broker_reachable (snd (snd (subscribe 0 7 empty_broker)))"
    by (rule broker_reachable.step [OF broker_reachable.start subscribes])
  from finish_releases [OF this, of 7]
  show ?thesis by (simp add: subscribe_def empty_broker_def get_list_def)
qed

subsection \<open>Lemmas: progress\<close>

text \<open>A sequence of records, each a time, a run and its progress, in which no run goes backwards.\<close>

fun forward :: "(nat \<Rightarrow> int) \<Rightarrow> (datetime \<times> nat \<times> transfer_stats) list \<Rightarrow> bool" where
  "forward low [] = True"
| "forward low ((t, r, s) # rs) = (low r \<le> bytes_done s \<and> forward (low(r := bytes_done s)) rs)"

fun final_bytes :: "(nat \<Rightarrow> int) \<Rightarrow> (datetime \<times> nat \<times> transfer_stats) list \<Rightarrow> nat \<Rightarrow> int" where
  "final_bytes low [] = low"
| "final_bytes low ((t, r, s) # rs) = final_bytes (low(r := bytes_done s)) rs"

definition record_all :: "(datetime \<times> nat \<times> transfer_stats) list \<Rightarrow> activity \<Rightarrow> activity" where
  "record_all rs a = foldl (\<lambda>a (t, r, s). record_stats t r s a) a rs"

definition counted_of :: "activity \<Rightarrow> nat \<Rightarrow> int" where
  "counted_of a r = get_int r (counted_bytes a)"

lemma counted_record: "counted_of (record_stats t r s a) = (counted_of a)(r := bytes_done s)"
  by (auto simp: counted_of_def record_stats_def Let_def get_int_def map_of_dict_put)

lemma record_all_session:
  assumes "forward (counted_of a) rs" "finite R" "\<forall>(t, r, s) \<in> set rs. r \<in> R"
  shows "session_bytes (record_all rs a) + (\<Sum>r\<in>R. counted_of a r) =
     session_bytes a + (\<Sum>r\<in>R. final_bytes (counted_of a) rs r)"
  using assms
proof (induction rs arbitrary: a)
  case (Cons e rs)
  obtain t r s where e: "e = (t, r, s)" by (cases e) auto
  let ?a = "record_stats t r s a"
  have r: "r \<in> R" using Cons.prems e by simp
  have "forward (counted_of ?a) rs" "\<forall>(t, r, s) \<in> set rs. r \<in> R"
    using Cons.prems e by (simp_all add: counted_record)
  then have "session_bytes (record_all rs ?a) + (\<Sum>x\<in>R. counted_of ?a x) =
      session_bytes ?a + (\<Sum>x\<in>R. final_bytes (counted_of ?a) rs x)"
    using Cons.IH [of ?a] Cons.prems(2) by blast
  moreover have "session_bytes ?a = session_bytes a + bytes_done s - counted_of a r"
    using Cons.prems e by (simp add: record_stats_def Let_def counted_of_def)
  moreover have "(\<Sum>x\<in>R. counted_of ?a x) = (\<Sum>x\<in>R. counted_of a x) - counted_of a r + bytes_done s"
    using r Cons.prems(2) by (simp add: counted_record sum.remove [of R r])
  ultimately show ?case by (simp add: e record_all_def counted_record)
qed (simp add: record_all_def)

lemma record_all_samples: "length (act_samples a) \<le> SAMPLE_MEMORY \<Longrightarrow> length (act_samples (record_all rs a)) \<le> SAMPLE_MEMORY"
proof (induction rs arbitrary: a)
  case (Cons e rs)
  obtain t r s where e: "e = (t, r, s)" by (cases e) auto
  have "length (act_samples (record_stats t r s a)) \<le> SAMPLE_MEMORY"
    using Cons.prems sample_buffer.push_bounded by (simp add: record_stats_def Let_def)
  then show ?case using Cons.IH by (simp add: e record_all_def)
qed (simp add: record_all_def)

text \<open>The session total counts every byte once. From idle, for any interleaving of the progress
  of any runs in which no run goes backwards, the session bytes are the sum over the runs of their
  last reported figure, however often each reported; the chart keeps at most 720 points; and when the
  last run is forgotten the session returns to zero.\<close>

theorem session_counts_once:
  assumes "forward (\<lambda>r. 0) rs" and "finite R" and "\<forall>(t, r, s) \<in> set rs. r \<in> R"
  shows "session_bytes (record_all rs empty_activity) = (\<Sum>r\<in>R. final_bytes (\<lambda>r. 0) rs r) \<and>
    length (act_samples (record_all rs empty_activity)) \<le> 720 \<and>
    (\<forall>a t r. dict_del r (act_latest a) = [] \<longrightarrow>
       session_bytes (forget t r a) = 0 \<and> session_max_speed (forget t r a) = 0 \<and> counted_bytes (forget t r a) = [])"
proof -
  have "counted_of empty_activity = (\<lambda>r. 0)"
    by (simp add: fun_eq_iff counted_of_def empty_activity_def get_int_def)
  then have "session_bytes (record_all rs empty_activity) = (\<Sum>r\<in>R. final_bytes (\<lambda>r. 0) rs r)"
    using record_all_session [of empty_activity rs R] assms by (simp add: empty_activity_def)
  moreover have "length (act_samples (record_all rs empty_activity)) \<le> 720"
    using record_all_samples [of empty_activity rs] by (simp add: empty_activity_def SAMPLE_MEMORY_def)
  ultimately show ?thesis by (simp add: forget_def Let_def)
qed

definition stats_with :: "int \<Rightarrow> transfer_stats" where
  "stats_with n = \<lparr>bytes_done = n, total_bytes = 100, speed = 1, eta_seconds = None, elapsed_seconds = 0,
     stat_errors = 0, checks = 0, total_checks = 0, transfers = 0, total_transfers = 0, transferring = []\<rparr>"

theorem session_counts_once_witness:
  "session_bytes (record_all [(0, 1, stats_with 10), (1, 2, stats_with 7), (2, 1, stats_with 30)] empty_activity) = 37"
  using session_counts_once [of "[(0, 1, stats_with 10), (1, 2, stats_with 7), (2, 1, stats_with 30)]" "{1, 2}"]
  by (simp add: stats_with_def)

end
