(* ===== verification/Runs.thy ===== *)
theory Runs
  imports Events
begin

text \<open>
  The rows every part of HiveSync shares, and the operations that start, cancel and release runs:
  \<open>create_run\<close> and \<open>latest_runs\<close> of \<open>app/jobs/planner.py\<close>, the run endpoints of \<open>app/api/jobs.py\<close> and
  the force endpoint of \<open>app/web\<close>, \<open>_release_interrupted_runs\<close> of \<open>app/main.py\<close>, \<open>_fire\<close> and
  \<open>_record_skip\<close> of \<open>app/jobs/scheduler.py\<close>, and the two \<open>cancel\<close>. The store is the tables, with the
  constraints \<open>app/models\<close> declares and \<open>app/db.py\<close> switches on: a statement is None where SQLite
  raises, because of the partial unique index over active runs, a foreign key, or a row that is gone.
  A new row gets one more than the largest id, which is what SQLite does without AUTOINCREMENT.
\<close>

record store =
  db_jobs :: "job list"
  db_runs :: "job_run list"
  db_changes :: "job_run_change list"

record world =
  db :: store
  brk :: run_broker
  act :: activity
  live_queue :: "nat list"
  plan_queue :: "nat list"
  procs :: "nat list"
  signalled :: "nat list"
  log_files :: "(string \<times> string list) list"
  launched :: "(nat \<times> string list) list"   \<comment> \<open>the processes \<open>process.stream\<close> started, oldest first\<close>

subsection \<open>Statements\<close>

definition find_run :: "store \<Rightarrow> nat \<Rightarrow> job_run option" where
  "find_run st i = List.find (\<lambda>r. run_id r = i) (db_runs st)"

definition find_job :: "store \<Rightarrow> nat \<Rightarrow> job option" where
  "find_job st i = List.find (\<lambda>j. job_id j = i) (db_jobs st)"

definition active_runs :: "store \<Rightarrow> nat \<Rightarrow> job_run list" where
  "active_runs st j = filter (\<lambda>r. run_job_id r = j \<and> active_status (run_status_of r)) (db_runs st)"

definition next_run_id :: "store \<Rightarrow> nat" where
  "next_run_id st = Suc (foldr (\<lambda>r m. max (run_id r) m) (db_runs st) 0)"

definition insert_run :: "job_run \<Rightarrow> store \<Rightarrow> store option" where
  "insert_run r st =
     (if active_status (run_status_of r) \<and> active_runs st (run_job_id r) \<noteq> [] then None
      else if find_job st (run_job_id r) = None then None
      else Some (st\<lparr>db_runs := db_runs st @ [r\<lparr>run_id := next_run_id st\<rparr>]\<rparr>))"

definition write_run :: "job_run \<Rightarrow> store \<Rightarrow> store option" where
  "write_run r st =
     (if find_run st (run_id r) = None then None
      else if active_status (run_status_of r) \<and>
          list_ex (\<lambda>q. run_id q \<noteq> run_id r) (active_runs st (run_job_id r)) then None
      else Some (st\<lparr>db_runs := map (\<lambda>q. if run_id q = run_id r then r else q) (db_runs st)\<rparr>))"

definition delete_run :: "nat \<Rightarrow> store \<Rightarrow> store" where
  "delete_run i st =
     st\<lparr>db_runs := filter (\<lambda>r. run_id r \<noteq> i) (db_runs st),
        db_changes := filter (\<lambda>c. chg_run_id c \<noteq> i) (db_changes st)\<rparr>"

definition insert_changes :: "job_run_change list \<Rightarrow> store \<Rightarrow> store" where
  "insert_changes cs st = st\<lparr>db_changes := db_changes st @ cs\<rparr>"

definition write_job :: "job \<Rightarrow> store \<Rightarrow> store" where
  "write_job j st = st\<lparr>db_jobs := map (\<lambda>k. if job_id k = job_id j then j else k) (db_jobs st)\<rparr>"

text \<open>An update of the columns of one job row.\<close>

definition amend_job :: "nat \<Rightarrow> (job \<Rightarrow> job) \<Rightarrow> store \<Rightarrow> store" where
  "amend_job i f st = st\<lparr>db_jobs := map (\<lambda>k. if job_id k = i then f k else k) (db_jobs st)\<rparr>"

text \<open>Deleting a job deletes its runs, and their changes with them.\<close>

definition delete_job_row :: "nat \<Rightarrow> store \<Rightarrow> store" where
  "delete_job_row i st =
     (let gone = map run_id (filter (\<lambda>r. run_job_id r = i) (db_runs st))
      in st\<lparr>db_jobs := filter (\<lambda>j. job_id j \<noteq> i) (db_jobs st),
            db_runs := filter (\<lambda>r. run_job_id r \<noteq> i) (db_runs st),
            db_changes := filter (\<lambda>c. chg_run_id c \<notin> set gone) (db_changes st)\<rparr>)"

subsection \<open>Starting a run\<close>

definition new_run :: "nat \<Rightarrow> run_trigger \<Rightarrow> run_mode \<Rightarrow> run_status \<Rightarrow> job_run" where
  "new_run j t m s =
     \<lparr>run_id = 0, run_job_id = j, run_trigger_of = t, is_resync = False, forced_max_delete = None,
      archive_dirs = [], run_mode_of = m, run_status_of = s, started_at = None, finished_at = None,
      run_exit_code = None, files_transferred = 0, files_deleted = 0, files_archived = 0,
      bytes_transferred = 0, errors_count = 0, log_path = None, run_summary = None,
      command_redacted = None, skip_reason = None\<rparr>"

text \<open>None is \<open>RunConflict\<close>.\<close>

definition create_run :: "nat \<Rightarrow> run_trigger \<Rightarrow> run_mode \<Rightarrow> store \<Rightarrow> (nat \<times> store) option" where
  "create_run j t m st =
     map_option (\<lambda>st'. (next_run_id st, st')) (insert_run (new_run j t m Queued) st)"

definition latest_runs :: "nat \<Rightarrow> nat \<Rightarrow> store \<Rightarrow> job_run list" where
  "latest_runs limit j st =
     take limit (rev (sort_key run_id (filter (\<lambda>r. run_job_id r = j) (db_runs st))))"

text \<open>An update of a row that was just read and whose index key does not change.\<close>

definition amend_run :: "nat \<Rightarrow> (job_run \<Rightarrow> job_run) \<Rightarrow> store \<Rightarrow> store" where
  "amend_run i f st = st\<lparr>db_runs := map (\<lambda>r. if run_id r = i then f r else r) (db_runs st)\<rparr>"

text \<open>The endpoints: Inl is the status code of the HTTPException.\<close>

definition run_job :: "nat \<Rightarrow> run_mode \<Rightarrow> world \<Rightarrow> nat + (nat \<times> world)" where
  "run_job j m w =
     (if find_job (db w) j = None then Inl 404
      else (case create_run j TrigApi m (db w) of
              None \<Rightarrow> Inl 409
            | Some (i, st) \<Rightarrow>
                Inr (i, if m = Live then w\<lparr>db := st, live_queue := live_queue w @ [i]\<rparr>
                        else w\<lparr>db := st, plan_queue := plan_queue w @ [i]\<rparr>)))"

definition resync_job :: "nat \<Rightarrow> world \<Rightarrow> nat + (nat \<times> world)" where
  "resync_job j w =
     (case find_job (db w) j of
        None \<Rightarrow> Inl 404
      | Some job \<Rightarrow>
          if job_direction job \<noteq> Bidirectional then Inl 400
          else (case create_run j TrigApi Live (db w) of
                  None \<Rightarrow> Inl 409
                | Some (i, st) \<Rightarrow>
                    Inr (i, w\<lparr>db := amend_run i (\<lambda>r. r\<lparr>is_resync := True\<rparr>) st,
                              live_queue := live_queue w @ [i]\<rparr>)))"

text \<open>\<open>LiveRunner.cancel\<close>: the signal reaches a process only if one is registered.\<close>

definition cancel_process :: "nat \<Rightarrow> world \<Rightarrow> bool \<times> world" where
  "cancel_process i w =
     (if i \<in> set (procs w) then (True, w\<lparr>signalled := signalled w @ [i]\<rparr>) else (False, w))"

definition cancel_run :: "nat \<Rightarrow> world \<Rightarrow> nat + world" where
  "cancel_run i w =
     (case find_run (db w) i of
        None \<Rightarrow> Inl 404
      | Some r \<Rightarrow>
          if run_status_of r \<notin> {Queued, Running} then Inl 409
          else Inr (snd (cancel_process i
                 (w\<lparr>db := amend_run i (\<lambda>r. r\<lparr>run_status_of := Cancelled\<rparr>) (db w)\<rparr>))))"

text \<open>The force endpoint: the approval is the number the refusal stored. The redirects are the run
  shown next.\<close>

definition approved_deletions :: "job_run \<Rightarrow> int option" where
  "approved_deletions r =
     (case run_summary r of None \<Rightarrow> None
      | Some d \<Rightarrow> Option.bind (jget d ''refused_deletions'') int_like)"

definition force_run :: "nat \<Rightarrow> world \<Rightarrow> nat option \<times> world" where
  "force_run i w =
     (case find_run (db w) i of
        None \<Rightarrow> (None, w)
      | Some refused \<Rightarrow>
          (case (find_job (db w) (run_job_id refused), approved_deletions refused) of
             (Some job, Some n) \<Rightarrow>
               (case create_run (job_id job) TrigManual Live (db w) of
                  None \<Rightarrow> (Some i, w)
                | Some (k, st) \<Rightarrow>
                    (Some k, w\<lparr>db := amend_run k (\<lambda>r. r\<lparr>forced_max_delete := Some n\<rparr>) st,
                               live_queue := live_queue w @ [k]\<rparr>))
           | _ \<Rightarrow> (Some i, w)))"

definition record_skip :: "datetime \<Rightarrow> nat \<Rightarrow> string \<Rightarrow> store \<Rightarrow> store option" where
  "record_skip t j why st =
     insert_run ((new_run j TrigSchedule Live Skipped)\<lparr>started_at := Some t, finished_at := Some t,
                   skip_reason := Some why\<rparr>) st"

definition SKIP_REASON :: string where
  "SKIP_REASON = ''A previous run was still in progress.''"

text \<open>\<open>JobScheduler._fire\<close>; an exception is logged and the session dropped.\<close>

definition fire :: "datetime \<Rightarrow> nat \<Rightarrow> world \<Rightarrow> world" where
  "fire t j w =
     (case find_job (db w) j of
        None \<Rightarrow> w
      | Some job \<Rightarrow>
          if \<not> job_enabled job then w
          else (case create_run j TrigSchedule Live (db w) of
                  None \<Rightarrow> (case record_skip t j SKIP_REASON (db w) of None \<Rightarrow> w | Some st \<Rightarrow> w\<lparr>db := st\<rparr>)
                | Some (i, st) \<Rightarrow> w\<lparr>db := st, live_queue := live_queue w @ [i]\<rparr>))"

text \<open>\<open>_release_interrupted_runs\<close>, at startup.\<close>

definition interrupted_summary :: "(string \<times> json) list" where
  "interrupted_summary =
     [(''error'', JStr (''This run was interrupted by a restart, so how much of it '' @
        ''completed is unknown. Check the destination, then run it again.''))]"

definition release_run :: "datetime \<Rightarrow> job_run \<Rightarrow> job_run" where
  "release_run t r =
     (if run_status_of r \<in> {Queued, Running}
      then r\<lparr>run_status_of := Failed, finished_at := Some t, errors_count := max (errors_count r) 1,
             run_summary := Some interrupted_summary\<rparr>
      else r)"

definition release_interrupted_runs :: "datetime \<Rightarrow> store \<Rightarrow> store" where
  "release_interrupted_runs t st = st\<lparr>db_runs := map (release_run t) (db_runs st)\<rparr>"

text \<open>The delete endpoint of a job; the scheduler is told by the caller.\<close>

definition delete_job :: "nat \<Rightarrow> world \<Rightarrow> nat + world" where
  "delete_job j w =
     (if find_job (db w) j = None then Inl 404 else Inr (w\<lparr>db := delete_job_row j (db w)\<rparr>))"

subsection \<open>Invariant\<close>

definition store_ok :: "store \<Rightarrow> bool" where
  "store_ok st \<longleftrightarrow>
     distinct (map run_id (db_runs st)) \<and>
     (\<forall>j. length (active_runs st j) \<le> 1) \<and>
     (\<forall>r \<in> set (db_runs st). run_job_id r \<in> job_id ` set (db_jobs st)) \<and>
     (\<forall>c \<in> set (db_changes st). chg_run_id c \<in> run_id ` set (db_runs st))"

lemma find_run_Some: "find_run st i = Some r \<Longrightarrow> r \<in> set (db_runs st) \<and> run_id r = i"
  by (auto simp: find_run_def find_Some_iff)

lemma find_run_None: "find_run st i = None \<longleftrightarrow> i \<notin> run_id ` set (db_runs st)"
  by (auto simp: find_run_def find_None_iff)

lemma find_job_Some: "find_job st i = Some j \<Longrightarrow> j \<in> set (db_jobs st) \<and> job_id j = i"
  by (auto simp: find_job_def find_Some_iff)

lemma find_job_None: "find_job st i = None \<longleftrightarrow> i \<notin> job_id ` set (db_jobs st)"
  by (auto simp: find_job_def find_None_iff)

lemma run_id_le_max: "r \<in> set rs \<Longrightarrow> run_id r \<le> foldr (\<lambda>r m. max (run_id r) m) rs 0"
  by (induction rs) auto

lemma next_run_id_fresh: "next_run_id st \<notin> run_id ` set (db_runs st)"
  using run_id_le_max [of _ "db_runs st"] by (fastforce simp: next_run_id_def)

lemma insert_run_Some:
  "insert_run r st = Some st' \<longleftrightarrow>
     (active_status (run_status_of r) \<longrightarrow> active_runs st (run_job_id r) = []) \<and>
     run_job_id r \<in> job_id ` set (db_jobs st) \<and>
     st' = st\<lparr>db_runs := db_runs st @ [r\<lparr>run_id := next_run_id st\<rparr>]\<rparr>"
  by (auto simp: insert_run_def find_job_None split: if_splits)

lemma insert_run_ok: "store_ok st \<Longrightarrow> insert_run r st = Some st' \<Longrightarrow> store_ok st'"
proof -
  assume ok: "store_ok st" and ins: "insert_run r st = Some st'"
  have st': "st' = st\<lparr>db_runs := db_runs st @ [r\<lparr>run_id := next_run_id st\<rparr>]\<rparr>"
    and free: "active_status (run_status_of r) \<longrightarrow> active_runs st (run_job_id r) = []"
    and job: "run_job_id r \<in> job_id ` set (db_jobs st)"
    using ins by (simp_all add: insert_run_Some)
  have act: "active_runs st' j = active_runs st j @
      (if run_job_id r = j \<and> active_status (run_status_of r) then [r\<lparr>run_id := next_run_id st\<rparr>] else [])" for j
    by (simp add: st' active_runs_def)
  have "length (active_runs st' j) \<le> 1" for j
    using ok free unfolding act store_ok_def by (cases "run_job_id r = j") auto
  moreover have "distinct (map run_id (db_runs st'))"
    using ok next_run_id_fresh [of st] by (simp add: st' store_ok_def)
  ultimately show ?thesis
    using ok job unfolding store_ok_def by (auto simp: st')
qed

lemma filter_length_mono: "(\<And>x. x \<in> set xs \<Longrightarrow> P x \<Longrightarrow> Q x) \<Longrightarrow> length (filter P xs) \<le> length (filter Q xs)"
  by (induction xs) auto

lemma filter_one_id:
  "distinct (map run_id rs) \<Longrightarrow> (\<And>x. x \<in> set rs \<Longrightarrow> P x \<Longrightarrow> run_id x = i) \<Longrightarrow> length (filter P rs) \<le> 1"
proof (induction rs)
  case (Cons r rs)
  show ?case
  proof (cases "P r")
    case True
    then have "run_id r = i" using Cons.prems by simp
    moreover have "run_id r \<notin> run_id ` set rs" using Cons.prems(1) by simp
    ultimately have "\<not> P x" if "x \<in> set rs" for x
      using Cons.prems(2) [of x] that by (metis image_eqI list.set_intros(2))
    then have "filter P rs = []" by (simp add: filter_empty_conv)
    then show ?thesis by simp
  qed (use Cons in simp)
qed simp

text \<open>Rewriting rows in place: whatever keeps ids and jobs, and revives no row, keeps the invariant.\<close>

lemma map_runs_ok:
  assumes ok: "store_ok st" and key: "\<And>r. run_id (g r) = run_id r \<and> run_job_id (g r) = run_job_id r"
    and act: "\<And>j. length (filter (\<lambda>r. run_job_id r = j \<and> active_status (run_status_of (g r))) (db_runs st)) \<le> 1"
  shows "store_ok (st\<lparr>db_runs := map g (db_runs st)\<rparr>)"
proof -
  have "active_runs (st\<lparr>db_runs := map g (db_runs st)\<rparr>) j =
      map g (filter (\<lambda>r. run_job_id r = j \<and> active_status (run_status_of (g r))) (db_runs st))" for j
    by (simp add: active_runs_def filter_map comp_def key)
  then show ?thesis
    using ok act unfolding store_ok_def by (auto simp: key comp_def image_image)
qed

lemma quiet_map_ok:
  assumes ok: "store_ok st" and key: "\<And>r. run_id (g r) = run_id r \<and> run_job_id (g r) = run_job_id r"
    and act: "\<And>r. active_status (run_status_of (g r)) \<Longrightarrow> active_status (run_status_of r)"
  shows "store_ok (st\<lparr>db_runs := map g (db_runs st)\<rparr>)"
proof (rule map_runs_ok [OF ok key])
  fix j
  have "length (filter (\<lambda>r. run_job_id r = j \<and> active_status (run_status_of (g r))) (db_runs st))
      \<le> length (active_runs st j)"
    unfolding active_runs_def by (rule filter_length_mono) (use act in auto)
  then show "length (filter (\<lambda>r. run_job_id r = j \<and> active_status (run_status_of (g r))) (db_runs st)) \<le> 1"
    using ok le_trans unfolding store_ok_def by blast
qed

lemma amend_run_ok:
  assumes "store_ok st" "\<And>r. run_id (f r) = run_id r \<and> run_job_id (f r) = run_job_id r"
    and "\<And>r. active_status (run_status_of (f r)) \<Longrightarrow> active_status (run_status_of r)"
  shows "store_ok (amend_run i f st)"
  unfolding amend_run_def by (rule quiet_map_ok) (use assms in \<open>auto split: if_splits\<close>)

lemma write_run_ok:
  assumes ok: "store_ok st" and w: "write_run r st = Some st'"
    and q: "find_run st (run_id r) = Some q" "run_job_id r = run_job_id q"
  shows "store_ok st'"
proof -
  let ?g = "\<lambda>x. if run_id x = run_id r then r else x"
  have st': "st' = st\<lparr>db_runs := map ?g (db_runs st)\<rparr>"
    and lone: "active_status (run_status_of r) \<Longrightarrow> \<forall>x \<in> set (active_runs st (run_job_id r)). run_id x = run_id r"
    using w by (auto simp: write_run_def list_ex_iff split: if_splits)
  have dist: "distinct (map run_id (db_runs st))" and one: "length (active_runs st j) \<le> 1" for j
    using ok by (auto simp: store_ok_def)
  have qm: "q \<in> set (db_runs st)" "run_id q = run_id r" using find_run_Some [OF q(1)] by auto
  have same: "x \<in> set (db_runs st) \<Longrightarrow> run_id x = run_id r \<Longrightarrow> x = q" for x
    using dist qm by (auto simp: distinct_map inj_on_def)
  define h where "h = (\<lambda>x. if x = q then r else x)"
  have gh: "map ?g (db_runs st) = map h (db_runs st)"
  proof (rule map_cong [OF refl])
    fix x assume "x \<in> set (db_runs st)"
    then have "run_id x = run_id r \<longleftrightarrow> x = q" using same [of x] qm(2) by blast
    then show "?g x = h x" by (simp only: h_def)
  qed
  have "store_ok (st\<lparr>db_runs := map h (db_runs st)\<rparr>)"
  proof (rule map_runs_ok [OF ok])
    show "run_id (h x) = run_id x \<and> run_job_id (h x) = run_job_id x" for x
      using q qm by (simp add: h_def)
    show "length (filter (\<lambda>x. run_job_id x = j \<and> active_status (run_status_of (h x))) (db_runs st)) \<le> 1" for j
    proof (cases "active_status (run_status_of r) \<and> j = run_job_id r")
      case True
      have "run_id x = run_id r"
        if x: "x \<in> set (db_runs st)" "run_job_id x = j \<and> active_status (run_status_of (h x))" for x
      proof (cases "x = q")
        case False
        then have "x \<in> set (active_runs st (run_job_id r))"
          using x True by (simp add: h_def active_runs_def)
        then show ?thesis using lone True by blast
      qed (use qm in simp)
      then show ?thesis by (rule filter_one_id [OF dist])
    next
      case False
      have "length (filter (\<lambda>x. run_job_id x = j \<and> active_status (run_status_of (h x))) (db_runs st)) \<le>
          length (active_runs st j)"
        unfolding active_runs_def by (rule filter_length_mono) (use False q in \<open>auto simp: h_def split: if_splits\<close>)
      then show ?thesis using one [of j] by simp
    qed
  qed
  then show ?thesis by (simp only: st' gh)
qed

lemma delete_run_ok: "store_ok st \<Longrightarrow> store_ok (delete_run i st)"
proof -
  assume ok: "store_ok st"
  have "length (active_runs (delete_run i st) j) \<le> length (active_runs st j)" for j
    unfolding active_runs_def delete_run_def
    by (simp add: conj_commute) (rule filter_length_mono, auto)
  then have "length (active_runs (delete_run i st) j) \<le> 1" for j
    using ok le_trans unfolding store_ok_def by blast
  then show ?thesis
    using ok unfolding store_ok_def by (auto simp: delete_run_def distinct_map_filter image_iff)
qed

lemma delete_job_row_ok: "store_ok st \<Longrightarrow> store_ok (delete_job_row i st)"
proof -
  assume ok: "store_ok st"
  have "length (active_runs (delete_job_row i st) j) \<le> length (active_runs st j)" for j
    unfolding active_runs_def delete_job_row_def Let_def
    by (simp add: conj_commute) (rule filter_length_mono, auto)
  then have "length (active_runs (delete_job_row i st) j) \<le> 1" for j
    using ok le_trans unfolding store_ok_def by blast
  moreover have "chg_run_id c \<in> run_id ` set (db_runs (delete_job_row i st))"
    if c: "c \<in> set (db_changes (delete_job_row i st))" for c
  proof -
    have "chg_run_id c \<in> run_id ` set (db_runs st)"
      using c ok by (auto simp: delete_job_row_def Let_def store_ok_def)
    then show ?thesis using c by (auto simp: delete_job_row_def Let_def)
  qed
  moreover have "run_job_id r \<in> job_id ` set (db_jobs (delete_job_row i st))"
    if "r \<in> set (db_runs (delete_job_row i st))" for r
    using that ok by (fastforce simp: delete_job_row_def Let_def store_ok_def)
  moreover have "distinct (map run_id (db_runs (delete_job_row i st)))"
    using ok by (simp add: delete_job_row_def Let_def store_ok_def distinct_map_filter)
  ultimately show ?thesis unfolding store_ok_def by blast
qed

lemma insert_changes_ok:
  "store_ok st \<Longrightarrow> \<forall>c \<in> set cs. chg_run_id c \<in> run_id ` set (db_runs st) \<Longrightarrow> store_ok (insert_changes cs st)"
  by (auto simp: store_ok_def insert_changes_def active_runs_def)

lemma write_job_ok: "store_ok st \<Longrightarrow> store_ok (write_job j st)"
proof -
  assume ok: "store_ok st"
  have "map job_id (db_jobs (write_job j st)) = map job_id (db_jobs st)"
    by (simp add: write_job_def)
  then have "job_id ` set (db_jobs (write_job j st)) = job_id ` set (db_jobs st)"
    by (metis set_map)
  then show ?thesis
    using ok unfolding store_ok_def by (simp add: active_runs_def) (simp add: write_job_def)
qed

lemma amend_job_ok: "store_ok st \<Longrightarrow> (\<And>k. job_id (f k) = job_id k) \<Longrightarrow> store_ok (amend_job i f st)"
proof -
  assume ok: "store_ok st" and f: "\<And>k. job_id (f k) = job_id k"
  have "map job_id (db_jobs (amend_job i f st)) = map job_id (db_jobs st)"
    by (simp add: amend_job_def f)
  then have "job_id ` set (db_jobs (amend_job i f st)) = job_id ` set (db_jobs st)"
    by (metis set_map)
  then show ?thesis
    using ok unfolding store_ok_def by (simp add: active_runs_def) (simp add: amend_job_def)
qed

lemma release_run_ok: "store_ok st \<Longrightarrow> store_ok (release_interrupted_runs t st)"
  unfolding release_interrupted_runs_def by (rule quiet_map_ok) (auto simp: release_run_def active_status_def split: if_splits)

lemma create_run_ok: "store_ok st \<Longrightarrow> create_run j t m st = Some (i, st') \<Longrightarrow> store_ok st'"
  by (auto simp: create_run_def intro: insert_run_ok)

lemma record_skip_ok: "store_ok st \<Longrightarrow> record_skip t j why st = Some st' \<Longrightarrow> store_ok st'"
  unfolding record_skip_def by (rule insert_run_ok)

lemma fire_ok: "store_ok (db w) \<Longrightarrow> store_ok (db (fire t j w))"
  by (auto simp: fire_def intro: create_run_ok record_skip_ok split: option.splits)

lemma cancel_run_ok: "store_ok (db w) \<Longrightarrow> cancel_run i w = Inr w' \<Longrightarrow> store_ok (db w')"
  by (auto simp: cancel_run_def cancel_process_def intro!: amend_run_ok split: option.splits if_splits)

lemma run_job_ok: "store_ok (db w) \<Longrightarrow> run_job j m w = Inr (i, w') \<Longrightarrow> store_ok (db w')"
  by (auto simp: run_job_def intro: create_run_ok split: option.splits if_splits)

lemma resync_job_ok: "store_ok (db w) \<Longrightarrow> resync_job j w = Inr (i, w') \<Longrightarrow> store_ok (db w')"
  by (auto simp: resync_job_def intro!: amend_run_ok intro: create_run_ok split: option.splits if_splits)

lemma force_run_ok: "store_ok (db w) \<Longrightarrow> store_ok (db (snd (force_run i w)))"
  by (auto simp: force_run_def intro!: amend_run_ok intro: create_run_ok split: option.splits)

lemma delete_job_ok: "store_ok (db w) \<Longrightarrow> delete_job j w = Inr w' \<Longrightarrow> store_ok (db w')"
  by (auto simp: delete_job_def intro: delete_job_row_ok split: if_splits)

subsection \<open>The contract of starting a run\<close>

text \<open>A burst of triggers, refusals being ignored the way the watcher and the scheduler ignore them.\<close>

fun trigger_all :: "(nat \<Rightarrow> 's \<Rightarrow> (nat \<times> 's) option) \<Rightarrow> nat list \<Rightarrow> 's \<Rightarrow> 's" where
  "trigger_all create [] s = s"
| "trigger_all create (j # js) s =
     (case create j s of None \<Rightarrow> trigger_all create js s | Some (i, s') \<Rightarrow> trigger_all create js s')"

locale run_store =
  fixes ok :: "'s \<Rightarrow> bool" and known :: "'s \<Rightarrow> nat \<Rightarrow> bool" and active :: "'s \<Rightarrow> nat \<Rightarrow> nat"
    and create :: "nat \<Rightarrow> 's \<Rightarrow> (nat \<times> 's) option"
  assumes refuses: "create j s = None \<longleftrightarrow> active s j \<noteq> 0 \<or> \<not> known s j"
    and starts: "create j s = Some (i, s') \<Longrightarrow> active s' j = 1"
    and others: "create j s = Some (i, s') \<Longrightarrow> k \<noteq> j \<Longrightarrow> active s' k = active s k"
    and keeps: "create j s = Some (i, s') \<Longrightarrow> known s' k = known s k"
    and keeps_ok: "ok s \<Longrightarrow> create j s = Some (i, s') \<Longrightarrow> ok s'"
begin

lemma burst:
  "active (trigger_all create js s) j =
     (if j \<in> set js \<and> known s j \<and> active s j = 0 then 1 else active s j)"
proof (induction js arbitrary: s)
  case (Cons k js)
  show ?case
  proof (cases "create k s")
    case None
    then show ?thesis using Cons.IH [of s] refuses [of k s] by auto
  next
    case (Some p)
    obtain i s' where p: "create k s = Some (i, s')" using Some by (cases p) auto
    have "active s k = 0 \<and> known s k" using refuses [of k s] p by auto
    then show ?thesis
      using Cons.IH [of s'] p starts [OF p] others [OF p, of j] keeps [OF p, of j]
      by (cases "j = k") auto
  qed
qed simp

lemma burst_ok: "ok s \<Longrightarrow> ok (trigger_all create js s)"
proof (induction js arbitrary: s)
  case (Cons k js)
  then show ?case using keeps_ok by (auto split: option.splits)
qed simp

lemma single: "\<forall>k. active s k \<le> 1 \<Longrightarrow> active (trigger_all create js s) j \<le> 1"
  using burst by simp

end

lemma create_run_Some:
  "create_run j t m st = Some (i, st') \<longleftrightarrow>
     active_runs st j = [] \<and> j \<in> job_id ` set (db_jobs st) \<and> i = next_run_id st \<and>
     st' = st\<lparr>db_runs := db_runs st @ [(new_run j t m Queued)\<lparr>run_id := i\<rparr>]\<rparr>"
  by (auto simp: create_run_def insert_run_Some new_run_def)

lemma create_run_None:
  "create_run j t m st = None \<longleftrightarrow> active_runs st j \<noteq> [] \<or> j \<notin> job_id ` set (db_jobs st)"
  by (auto simp: create_run_def insert_run_def find_job_None new_run_def)

interpretation db: run_store store_ok "\<lambda>st j. j \<in> job_id ` set (db_jobs st)"
  "\<lambda>st j. length (active_runs st j)" "\<lambda>j. create_run j t m"
proof
  fix j st i st' k
  show "create_run j t m st = None \<longleftrightarrow> length (active_runs st j) \<noteq> 0 \<or> j \<notin> job_id ` set (db_jobs st)"
    by (simp add: create_run_None)
  assume c: "create_run j t m st = Some (i, st')"
  then show "length (active_runs st' j) = 1"
    by (auto simp: create_run_Some active_runs_def new_run_def)
  show "k \<noteq> j \<Longrightarrow> length (active_runs st' k) = length (active_runs st k)"
    using c by (auto simp: create_run_Some active_runs_def new_run_def)
  show "(k \<in> job_id ` set (db_jobs st')) = (k \<in> job_id ` set (db_jobs st))"
    using c by (auto simp: create_run_Some)
  show "store_ok st \<Longrightarrow> store_ok st'" using c create_run_ok by blast
qed

text \<open>However many triggers arrive for however many jobs, in any order, each existing job that was
  idle and was triggered has exactly one active run afterwards, and every other job has the runs it
  had: a trigger that collides is refused and starts nothing.\<close>

theorem triggers_start_one_run:
  "length (active_runs (trigger_all (\<lambda>j. create_run j t m) js st) j) =
     (if j \<in> set js \<and> j \<in> job_id ` set (db_jobs st) \<and> active_runs st j = [] then 1
      else length (active_runs st j))"
  using db.burst [of t m js st j] by simp

subsection \<open>Reachable stores\<close>

text \<open>Everything that writes runs: the endpoints, the scheduler, a restart, the deletion of a job or
  of a run, an edited job, and a commit of a row the runner loaded before.\<close>

inductive world_step :: "world \<Rightarrow> world \<Rightarrow> bool" where
  api_run: "run_job j m w = Inr (i, w') \<Longrightarrow> world_step w w'"
| api_resync: "resync_job j w = Inr (i, w') \<Longrightarrow> world_step w w'"
| api_cancel: "cancel_run i w = Inr w' \<Longrightarrow> world_step w w'"
| api_force: "world_step w (snd (force_run i w))"
| api_delete_job: "delete_job j w = Inr w' \<Longrightarrow> world_step w w'"
| schedule_fires: "world_step w (fire t j w)"
| restart: "world_step w (w\<lparr>db := release_interrupted_runs t (db w)\<rparr>)"
| commits: "find_run (db w) (run_id r) = Some q \<Longrightarrow> run_job_id r = run_job_id q \<Longrightarrow>
    write_run r (db w) = Some st \<Longrightarrow> world_step w (w\<lparr>db := st\<rparr>)"
| drops_run: "world_step w (w\<lparr>db := delete_run i (db w)\<rparr>)"
| adds_changes: "\<forall>c \<in> set cs. chg_run_id c \<in> run_id ` set (db_runs (db w)) \<Longrightarrow>
    world_step w (w\<lparr>db := insert_changes cs (db w)\<rparr>)"
| edits_job: "world_step w (w\<lparr>db := write_job j (db w)\<rparr>)"

inductive world_reachable :: "world \<Rightarrow> bool" where
  install: "db_runs (db w) = [] \<Longrightarrow> db_changes (db w) = [] \<Longrightarrow> world_reachable w"
| step: "world_reachable w \<Longrightarrow> world_step w w' \<Longrightarrow> world_reachable w'"

inductive_cases world_stepE: "world_step w w'"

lemma world_step_ok: "world_step w w' \<Longrightarrow> store_ok (db w) \<Longrightarrow> store_ok (db w')"
  by (erule world_stepE)
    (auto intro: run_job_ok resync_job_ok cancel_run_ok force_run_ok delete_job_ok fire_ok release_run_ok
      write_run_ok delete_run_ok insert_changes_ok write_job_ok)

lemma world_reachable_ok: "world_reachable w \<Longrightarrow> store_ok (db w)"
proof (induction rule: world_reachable.induct)
  case (install w)
  then show ?case by (simp add: store_ok_def active_runs_def)
qed (use world_step_ok in blast)

text \<open>C2. Invariant of the whole application: in every state reached by any sequence of requests,
  scheduled fires, runner commits, restarts and deletions, no job has two queued or running runs, run
  ids are unique, every run belongs to a job and every recorded change to a run.\<close>

theorem one_active_run_per_job:
  assumes "world_reachable w"
  shows "length (filter (\<lambda>r. run_job_id r = j \<and> run_status_of r \<in> {Queued, Running}) (db_runs (db w))) \<le> 1 \<and>
    distinct (map run_id (db_runs (db w))) \<and>
    (\<forall>r \<in> set (db_runs (db w)). \<exists>k \<in> set (db_jobs (db w)). job_id k = run_job_id r) \<and>
    (\<forall>c \<in> set (db_changes (db w)). \<exists>r \<in> set (db_runs (db w)). run_id r = chg_run_id c)"
proof -
  have "store_ok (db w)" using assms by (rule world_reachable_ok)
  then show ?thesis
    unfolding store_ok_def active_runs_def active_status_def by (auto simp: image_iff) metis+
qed

definition sample_world :: world where
  "sample_world =
     \<lparr>db = \<lparr>db_jobs = [sample_job], db_runs = [], db_changes = []\<rparr>, brk = empty_broker, act = empty_activity,
      live_queue = [], plan_queue = [], procs = [], signalled = [], log_files = [], launched = []\<rparr>"

theorem one_active_run_per_job_witness:
  "length (filter (\<lambda>r. run_job_id r = 1 \<and> run_status_of r \<in> {Queued, Running})
     (db_runs (db (fire 5 1 (fire 0 1 sample_world))))) \<le> 1"
proof -
  have "world_reachable sample_world" by (rule install) (simp_all add: sample_world_def)
  then have "world_reachable (fire 5 1 (fire 0 1 sample_world))"
    using world_reachable.step schedule_fires by metis
  then show ?thesis using one_active_run_per_job by blast
qed

text \<open>A scheduled fire never queues behind a run and never vanishes. For an enabled job it starts
  a live run and hands it to the runner when the job is idle; otherwise the job's active runs stay as
  they are, nothing is submitted, and the history gains exactly one skipped run that says why. A job
  that is disabled or gone changes nothing.\<close>

theorem fire_starts_or_records:
  "(case find_job (db w) j of
      None \<Rightarrow> fire t j w = w
    | Some job \<Rightarrow>
        if \<not> job_enabled job then fire t j w = w
        else if active_runs (db w) j = []
        then live_queue (fire t j w) = live_queue w @ [next_run_id (db w)] \<and>
             (\<exists>r. db_runs (db (fire t j w)) = db_runs (db w) @ [r] \<and> run_id r = next_run_id (db w) \<and>
                run_job_id r = j \<and> run_status_of r = Queued \<and> run_mode_of r = Live \<and> run_trigger_of r = TrigSchedule)
        else live_queue (fire t j w) = live_queue w \<and>
             active_runs (db (fire t j w)) j = active_runs (db w) j \<and>
             (\<exists>r. db_runs (db (fire t j w)) = db_runs (db w) @ [r] \<and> run_status_of r = Skipped \<and>
                run_job_id r = j \<and> skip_reason r = Some SKIP_REASON))"
proof (cases "find_job (db w) j")
  case (Some job)
  have known: "j \<in> job_id ` set (db_jobs (db w))" using find_job_Some [OF Some] by auto
  show ?thesis
  proof (cases "active_runs (db w) j = []")
    case True
    then have "\<exists>st. create_run j TrigSchedule Live (db w) = Some (next_run_id (db w), st) \<and>
        st = db w\<lparr>db_runs := db_runs (db w) @ [(new_run j TrigSchedule Live Queued)\<lparr>run_id := next_run_id (db w)\<rparr>]\<rparr>"
      using known by (simp add: create_run_Some)
    then show ?thesis using Some True by (auto simp: fire_def new_run_def)
  next
    case False
    then have "create_run j TrigSchedule Live (db w) = None" by (simp add: create_run_None)
    let ?r = "(new_run j TrigSchedule Live Skipped)\<lparr>started_at := Some t, finished_at := Some t,
      skip_reason := Some SKIP_REASON, run_id := next_run_id (db w)\<rparr>"
    have "record_skip t j SKIP_REASON (db w) = Some (db w\<lparr>db_runs := db_runs (db w) @ [?r]\<rparr>)"
      unfolding record_skip_def insert_run_Some using known by (simp add: new_run_def)
    then have f: "fire t j w = (if job_enabled job then w\<lparr>db := db w\<lparr>db_runs := db_runs (db w) @ [?r]\<rparr>\<rparr> else w)"
      using Some \<open>create_run j TrigSchedule Live (db w) = None\<close> by (simp add: fire_def)
    have "active_runs (db w\<lparr>db_runs := db_runs (db w) @ [?r]\<rparr>) j = active_runs (db w) j"
      by (simp add: active_runs_def new_run_def)
    then show ?thesis
      unfolding f using Some False by (auto simp: new_run_def)
  qed
qed (simp add: fire_def)

theorem fire_starts_or_records_witness:
  "live_queue (fire 0 1 sample_world) = [1]"
  using fire_starts_or_records [where w = sample_world and j = 1 and t = 0]
  by (simp add: sample_world_def find_job_def sample_job_def active_runs_def next_run_id_def)

text \<open>A restart frees every job: after the release no run is active, so every job that exists can
  be started again; each interrupted run is kept as a failure with an error and a finishing time, and
  finished runs are untouched.\<close>

theorem restart_releases:
  "(\<forall>r \<in> set (db_runs (release_interrupted_runs t st)). run_status_of r \<notin> {Queued, Running}) \<and>
   (create_run j trig m (release_interrupted_runs t st) = None \<longleftrightarrow> find_job st j = None) \<and>
   list_all2 (\<lambda>r r'. run_id r' = run_id r \<and>
       (if run_status_of r \<in> {Queued, Running}
        then run_status_of r' = Failed \<and> finished_at r' = Some t \<and> errors_count r' \<ge> 1 \<and>
             files_transferred r' = files_transferred r
        else r' = r))
     (db_runs st) (db_runs (release_interrupted_runs t st))"
proof (intro conjI)
  show none: "\<forall>r \<in> set (db_runs (release_interrupted_runs t st)). run_status_of r \<notin> {Queued, Running}"
    by (auto simp: release_interrupted_runs_def release_run_def)
  then have "active_runs (release_interrupted_runs t st) j = []"
    by (auto simp: active_runs_def active_status_def filter_empty_conv)
  then show "create_run j trig m (release_interrupted_runs t st) = None \<longleftrightarrow> find_job st j = None"
    by (simp add: create_run_None find_job_None release_interrupted_runs_def)
  show "list_all2 (\<lambda>r r'. run_id r' = run_id r \<and>
       (if run_status_of r \<in> {Queued, Running}
        then run_status_of r' = Failed \<and> finished_at r' = Some t \<and> errors_count r' \<ge> 1 \<and>
             files_transferred r' = files_transferred r
        else r' = r))
     (db_runs st) (db_runs (release_interrupted_runs t st))"
    by (auto simp: release_interrupted_runs_def list_all2_conv_all_nth release_run_def)
qed

theorem restart_releases_witness:
  "create_run 1 TrigApi Live (release_interrupted_runs 9 (db (fire 0 1 sample_world))) \<noteq> None"
proof -
  have "find_job (db (fire 0 1 sample_world)) 1 \<noteq> None"
    by (simp add: fire_def sample_world_def find_job_def sample_job_def create_run_def insert_run_def new_run_def
        active_runs_def)
  moreover have "create_run 1 TrigApi Live (release_interrupted_runs 9 (db (fire 0 1 sample_world))) = None \<longleftrightarrow>
      find_job (db (fire 0 1 sample_world)) 1 = None"
    using restart_releases [of 9 "db (fire 0 1 sample_world)" 1 TrigApi Live] by blast
  ultimately show ?thesis by simp
qed

end
