(* ===== verification/Clock.thy ===== *)
theory Clock
  imports HS_Prelude
begin

text \<open>
  The part of \<open>datetime\<close> the modules use: a UTC datetime is a number of microseconds, its civil
  date is computed with the proleptic Gregorian calendar, and \<open>strftime\<close> with the format
  \<open>%Y-%m-%dT%H-%M-%SZ\<close> gives the stamp of a run's archive directory. Years before 1000 are
  outside the model (glibc does not pad them).
\<close>

definition civil_of_days :: "int \<Rightarrow> int \<times> int \<times> int" where
  "civil_of_days days =
     (let z = days + 719468;
          era = z div 146097;
          doe = z mod 146097;
          yoe = (doe - doe div 1460 + doe div 36524 - doe div 146096) div 365;
          doy = doe - (365 * yoe + yoe div 4 - yoe div 100);
          mp = (5 * doy + 2) div 153;
          d = doy - (153 * mp + 2) div 5 + 1;
          m = (if mp < 10 then mp + 3 else mp - 9)
      in (yoe + era * 400 + (if m \<le> 2 then 1 else 0), m, d))"

fun pad_left :: "nat \<Rightarrow> string \<Rightarrow> string" where
  "pad_left n s = replicate (n - length s) (CHR ''0'') @ s"

definition pad2 :: "int \<Rightarrow> string" where
  "pad2 i = pad_left 2 (str_nat (nat i))"

definition pad4 :: "int \<Rightarrow> string" where
  "pad4 i = pad_left 4 (str_nat (nat i))"

definition stamp_of :: "datetime \<Rightarrow> string" where
  "stamp_of t =
     (let secs = t div second; days = secs div 86400; s = secs mod 86400;
          (y, m, d) = civil_of_days days
      in pad4 y @ ''-'' @ pad2 m @ ''-'' @ pad2 d @ ''T'' @ pad2 (s div 3600) @ ''-'' @
         pad2 (s div 60 mod 60) @ ''-'' @ pad2 (s mod 60) @ ''Z'')"

lemma stamp_of_example: "stamp_of (1753000000 * second) = ''2025-07-20T08-26-40Z''"
  by code_simp

lemma stamp_no_slash: "CHR ''/'' \<notin> set (stamp_of t)"
  using str_nat_no_slash
  by (auto simp: stamp_of_def pad2_def pad4_def Let_def split: prod.splits)

lemma stamp_no_colon: "CHR '':'' \<notin> set (stamp_of t)"
proof -
  have "CHR '':'' \<notin> set (str_nat n)" for n
    using str_nat_char [of "CHR '':''" n] by (auto simp: ascii_digit_def)
  then show ?thesis
    by (auto simp: stamp_of_def pad2_def pad4_def Let_def split: prod.splits)
qed

end
