(* ===== verification/Archive.thy ===== *)
theory Archive
  imports Rcloneconf Clock
begin

text \<open>
  \<open>app/jobs/archive.py\<close>: where a removed file goes instead of away. The slug of a job name, the
  split of \<open>remote:path\<close>, the default archive base, whether an archive lies inside the synced
  tree and the exclude that makes it possible, the checks at save time, and the plan of one run.
\<close>

definition ARCHIVE_SUFFIX :: string where "ARCHIVE_SUFFIX = ''.hivesync-archive''"
definition CHILD_ARCHIVE_NAME :: string where "CHILD_ARCHIVE_NAME = ''.hivesync-archive''"

datatype archive_reason =
    DifferentConnection string string
  | DifferentShare string string
  | ArchiveIsDestination

subsection \<open>Slugs\<close>

definition ascii_alnum :: "char \<Rightarrow> bool" where
  "ascii_alnum c \<longleftrightarrow>
     (let n = (of_char c :: nat)
      in 48 \<le> n \<and> n \<le> 57 \<or> 65 \<le> n \<and> n \<le> 90 \<or> 97 \<le> n \<and> n \<le> 122)"

definition slug_char :: "char \<Rightarrow> bool" where
  "slug_char c \<longleftrightarrow> ascii_alnum c \<or> c \<in> {CHR ''.'', CHR ''_'', CHR ''-''}"

text \<open>\<open>re.sub\<close> of a character class repeated at least \<open>k\<close> times by a dash.\<close>

function sub_runs :: "(char \<Rightarrow> bool) \<Rightarrow> nat \<Rightarrow> string \<Rightarrow> string" where
  "sub_runs P k [] = []"
| "sub_runs P k (c # cs) =
     (if P c
      then (if k \<le> Suc (length (takeWhile P cs)) then ''-'' else c # takeWhile P cs)
           @ sub_runs P k (dropWhile P cs)
      else c # sub_runs P k cs)"
  by pat_completeness auto
termination
  by (relation "measure (\<lambda>(P, k, s). length s)") (auto simp: le_imp_less_Suc length_dropWhile_le)

definition slugify :: "string \<Rightarrow> string" where
  "slugify name =
     (let cleaned = sub_runs (\<lambda>c. \<not> slug_char c) 1 (py_strip name);
          no_dots = sub_runs (\<lambda>c. c = CHR ''.'') 2 cleaned;
          trimmed = strip_if (\<lambda>c. c = CHR ''-'' \<or> c = CHR ''.'') (sub_runs (\<lambda>c. c = CHR ''-'') 2 no_dots)
      in if py_lower trimmed = [] then ''job'' else py_lower trimmed)"

subsection \<open>Remote and path\<close>

definition remote_char :: "char \<Rightarrow> bool" where
  "remote_char c \<longleftrightarrow> ascii_alnum c \<or> c \<in> {CHR ''_'', CHR ''.'', CHR ''-''}"

text \<open>The regular expression's dot does not match a line feed, and its end matches before a last
  one.\<close>

definition split_remote :: "string \<Rightarrow> string \<times> string" where
  "split_remote spec =
     (let remote = takeWhile remote_char spec; rest = dropWhile remote_char spec
      in if 2 \<le> length remote \<and> rest \<noteq> [] \<and> hd rest = CHR '':'' then
           (if CHR 0x0A \<notin> set (tl rest) then (remote, tl rest)
            else if CHR 0x0A \<notin> set (butlast (tl rest)) then (remote, butlast (tl rest))
            else ([], spec))
         else ([], spec))"

definition strip_remote :: "string \<Rightarrow> string" where
  "strip_remote spec = snd (split_remote spec)"

definition remote_prefix :: "string \<Rightarrow> string" where
  "remote_prefix remote = (if remote = [] then [] else remote @ '':'')"

definition default_base :: "string \<Rightarrow> string" where
  "default_base destination =
     (let (remote, path) = split_remote destination;
          absolute = prefix ''/'' path;
          trimmed = strip_slash path;
          pre = remote_prefix remote
      in if trimmed = [] then
           (if absolute then pre @ ''/'' @ CHILD_ARCHIVE_NAME else pre @ CHILD_ARCHIVE_NAME)
         else if \<not> absolute \<and> length (split_on (CHR ''/'') trimmed) = 1 then
           pre @ trimmed @ ''/'' @ CHILD_ARCHIVE_NAME
         else if absolute then pre @ ''/'' @ trimmed @ ARCHIVE_SUFFIX
         else pre @ trimmed @ ARCHIVE_SUFFIX)"

definition qualify :: "string \<Rightarrow> string \<Rightarrow> string" where
  "qualify archive_base destination =
     (let remote = fst (split_remote destination); base_remote = fst (split_remote archive_base)
      in if remote \<noteq> [] \<and> base_remote = [] then remote @ '':'' @ archive_base else archive_base)"

definition is_inside :: "string \<Rightarrow> string \<Rightarrow> bool" where
  "is_inside archive_base destination =
     (let (archive_remote, archive_path) = split_remote archive_base;
          (dest_remote, dest_path) = split_remote destination;
          archive_norm = strip_slash archive_path; dest_norm = strip_slash dest_path
      in if archive_remote \<noteq> dest_remote then False
         else if dest_norm = [] then archive_norm \<noteq> []
         else archive_norm = dest_norm \<or> prefix (dest_norm @ ''/'') archive_norm)"

definition exclude_for :: "string \<Rightarrow> string \<Rightarrow> archive_reason + string option" where
  "exclude_for archive_base destination =
     (if \<not> is_inside archive_base destination then Inr None
      else
        (let archive_path = snd (split_remote archive_base); dest_path = snd (split_remote destination);
             relative = strip_slash archive_path; pre = strip_slash dest_path;
             rel2 = (if pre \<noteq> [] \<and> relative = pre then []
                     else if pre \<noteq> [] \<and> prefix (pre @ ''/'') relative then drop (length pre + 1) relative
                     else relative);
             rel3 = strip_slash rel2
         in if rel3 = [] then Inl ArchiveIsDestination
            else Inr (Some (''/'' @ rel3 @ ''/**''))))"

definition share_of :: "string \<Rightarrow> string" where
  "share_of path = (if strip_slash path = [] then [] else hd (split_on (CHR ''/'') (strip_slash path)))"

definition validate :: "string \<Rightarrow> string \<Rightarrow> archive_reason + unit" where
  "validate destination archive_base =
     (let (archive_remote, archive_path) = split_remote archive_base;
          (dest_remote, dest_path) = split_remote destination
      in if archive_remote \<noteq> dest_remote then Inl (DifferentConnection dest_remote archive_remote)
         else if archive_remote \<noteq> [] \<and> share_of archive_path \<noteq> share_of dest_path
           then Inl (DifferentShare (share_of dest_path) (share_of archive_path))
         else if is_inside archive_base destination
           then bind_res (exclude_for archive_base destination) (\<lambda>_. Inr ())
         else Inr ())"

subsection \<open>The plan of a run\<close>

record archive_plan =
  plan_base :: string
  backup_dir :: string
  plan_exclude :: "string option"
  plan_suffix :: "string option"
  inside_destination :: bool

definition plan_for :: "job \<Rightarrow> string \<Rightarrow> datetime \<Rightarrow> archive_reason + archive_plan" where
  "plan_for j destination now =
     (let chosen = py_strip (case job_archive_base j of None \<Rightarrow> [] | Some b \<Rightarrow> b);
          base = (if chosen \<noteq> [] then qualify chosen destination else default_base destination)
      in bind_res (validate destination base) (\<lambda>_.
         bind_res (exclude_for base destination) (\<lambda>excl.
           if job_archive_layout j = SuffixLayout
           then Inr \<lparr>plan_base = base, backup_dir = base, plan_exclude = excl,
                     plan_suffix = Some (''.'' @ stamp_of now), inside_destination = (excl \<noteq> None)\<rparr>
           else Inr \<lparr>plan_base = base,
                     backup_dir = rstrip_slash base @ ''/'' @ slugify (job_name j) @ ''/'' @ stamp_of now,
                     plan_exclude = excl, plan_suffix = None,
                     inside_destination = (excl \<noteq> None)\<rparr>)))"

definition sync_args :: "archive_plan \<Rightarrow> string list" where
  "sync_args p =
     (case plan_exclude p of None \<Rightarrow> [] | Some e \<Rightarrow> [''--exclude'', e]) @
     [''--backup-dir'', backup_dir p] @
     (case plan_suffix p of None \<Rightarrow> [] | Some s \<Rightarrow> [''--suffix'', s, ''--suffix-keep-extension''])"

definition bisync_args :: "archive_plan \<Rightarrow> archive_plan \<Rightarrow> string list" where
  "bisync_args p1 p2 =
     (case plan_exclude p1 of None \<Rightarrow> [] | Some e \<Rightarrow> [''--exclude'', e]) @
     (case plan_exclude p2 of None \<Rightarrow> [] | Some e \<Rightarrow> [''--exclude'', e]) @
     [''--backup-dir1'', backup_dir p1, ''--backup-dir2'', backup_dir p2] @
     (case plan_suffix p1 of None \<Rightarrow> [] | Some s \<Rightarrow> [''--suffix'', s, ''--suffix-keep-extension''])"

subsection \<open>What a slug may hold\<close>

definition slug_out :: "char \<Rightarrow> bool" where
  "slug_out c \<longleftrightarrow> slug_char c \<and> \<not> (65 \<le> (of_char c :: nat) \<and> (of_char c :: nat) \<le> 90)"

definition no_pair :: "char \<Rightarrow> string \<Rightarrow> bool" where
  "no_pair c s \<longleftrightarrow> successively (\<lambda>x y. \<not> (x = c \<and> y = c)) s"

definition slug_safe :: "string \<Rightarrow> bool" where
  "slug_safe s \<longleftrightarrow>
     s \<noteq> [] \<and> list_all slug_out s \<and> no_pair (CHR ''.'') s \<and> no_pair (CHR ''-'') s \<and>
     hd s \<notin> {CHR ''-'', CHR ''.''} \<and> last s \<notin> {CHR ''-'', CHR ''.''}"

lemma set_sub_runs: "set (sub_runs P k s) \<subseteq> insert (CHR ''-'') (set s)"
  by (induction P k s rule: sub_runs.induct) (auto dest: set_takeWhileD set_dropWhileD split: if_splits)

lemma sub_runs_one: "x \<in> set (sub_runs P 1 s) \<Longrightarrow> x = CHR ''-'' \<or> \<not> P x"
  by (induction P "1::nat" s rule: sub_runs.induct) (auto split: if_splits)

lemma sub_runs_id: "\<forall>x \<in> set s. \<not> P x \<Longrightarrow> sub_runs P k s = s"
  by (induction s) auto

lemma hd_sub_runs:
  "s \<noteq> [] \<Longrightarrow> sub_runs P k s \<noteq> [] \<and>
     (hd (sub_runs P k s) = hd s \<or> P (hd s) \<and> hd (sub_runs P k s) = CHR ''-'')"
  by (cases s) auto

lemma no_pair_Cons: "no_pair c (x # s) \<longleftrightarrow> \<not> (x = c \<and> s \<noteq> [] \<and> hd s = c) \<and> no_pair c s"
  by (cases s) (auto simp: no_pair_def)

lemma no_pair_Nil [simp]: "no_pair c []"
  by (simp add: no_pair_def)

lemma no_pair_append: "no_pair c (a @ b) \<Longrightarrow> no_pair c a \<and> no_pair c b"
  by (simp add: no_pair_def successively_append_iff)

lemma no_pair_strip_if: "no_pair c s \<Longrightarrow> no_pair c (strip_if P s)"
proof -
  assume a: "no_pair c s"
  have "no_pair c (dropWhile P s)"
    using a no_pair_append [of c "takeWhile P s" "dropWhile P s"] by simp
  moreover obtain t where "dropWhile P s = rstrip_if P (dropWhile P s) @ t"
    using rstrip_if_prefix [of P "dropWhile P s"] unfolding prefix_def by blast
  ultimately show ?thesis
    unfolding strip_if_def using no_pair_append [of c "rstrip_if P (dropWhile P s)" t] by argo
qed

text \<open>Collapsing the runs of one character leaves no two of it in a row, and makes no pair of
  another character that was not there before.\<close>

lemma sub_runs_no_pair:
  assumes "c = d \<or> no_pair d s" "d = CHR ''-'' \<longrightarrow> c = d" 
  shows "no_pair d (sub_runs (\<lambda>x. x = c) 2 s)"
  using assms
proof (induction "\<lambda>x. x = c" "2::nat" s rule: sub_runs.induct)
  case (2 x xs)
  let ?P = "\<lambda>x. x = c" and ?r = "dropWhile (\<lambda>x. x = c) xs"
  have tl: "c = d \<or> no_pair d ?r"
    using 2(3) no_pair_append [of d "takeWhile ?P xs" ?r] by (auto simp: no_pair_Cons)
  have hdr: "?r \<noteq> [] \<Longrightarrow> hd ?r \<noteq> c" by (rule hd_dropWhile)
  show ?case
  proof (cases "x = c")
    case True
    note IH = 2(1) [OF True tl 2(4)]
    have tw: "takeWhile ?P xs = replicate (length (takeWhile ?P xs)) c"
      by (rule replicate_eqI) (auto dest: set_takeWhileD)
    then have short: "\<not> 2 \<le> Suc (length (takeWhile ?P xs)) \<Longrightarrow> takeWhile ?P xs = []"
      by (cases "takeWhile ?P xs") auto
    have h: "sub_runs ?P 2 ?r \<noteq> [] \<longrightarrow> hd (sub_runs ?P 2 ?r) \<noteq> c"
      using hd_sub_runs [of ?r ?P 2] hdr by (cases "?r = []") (simp_all only: sub_runs.simps, auto)
    consider "2 \<le> Suc (length (takeWhile ?P xs))" | "takeWhile ?P xs = []" using short by auto
    then show ?thesis
    proof cases
      case 1
      have "sub_runs ?P 2 (x # xs) = CHR ''-'' # sub_runs ?P 2 ?r"
        using 1 True by (subst sub_runs.simps) simp
      then show ?thesis using IH h 2(4) by (simp only: no_pair_Cons) blast
    next
      case 2
      have "sub_runs ?P 2 (x # xs) = x # sub_runs ?P 2 ?r"
        using 2 True by (subst sub_runs.simps) simp
      moreover have "?r = xs" using 2 by (metis append_Nil takeWhile_dropWhile_id)
      moreover have "c = d \<Longrightarrow> \<not> (x = d \<and> sub_runs ?P 2 ?r \<noteq> [] \<and> hd (sub_runs ?P 2 ?r) = d)"
        using h by auto
      moreover have "c \<noteq> d \<Longrightarrow> x \<noteq> d" using True by blast
      ultimately show ?thesis using IH by (metis no_pair_Cons)
    qed
  next
    case False
    have "c = d \<or> no_pair d xs" using 2(3) by (auto simp: no_pair_Cons)
    note IH = 2(2) [OF False this 2(4)]
    show ?thesis
    proof (cases "xs = []")
      case nonempty: False
      then show ?thesis using False IH 2(3,4) hd_sub_runs [OF nonempty, of ?P 2]
        by (auto simp: no_pair_Cons)
    qed (use False in \<open>simp add: no_pair_Cons\<close>)
  qed
qed simp

lemma slug_out_lower: "slug_char c \<Longrightarrow> slug_out (lower_char c)"
proof -
  assume c: "slug_char c"
  show ?thesis
  proof (cases "65 \<le> (of_char c :: nat) \<and> (of_char c :: nat) \<le> 90")
    case True
    then have "(of_char (lower_char c) :: nat) = of_char c + 32"
      by (simp add: lower_char_def take_bit_nat_eq_self)
    then show ?thesis using True by (simp add: slug_out_def slug_char_def ascii_alnum_def)
  next
    case False
    have "\<not> 192 \<le> (of_char c :: nat)"
      using c by (auto simp: slug_char_def ascii_alnum_def Let_def)
    then have "lower_char c = c" using False by (auto simp: lower_char_def Let_def)
    then show ?thesis using c False by (auto simp: slug_out_def)
  qed
qed

lemma lower_char_mark: "slug_char c \<Longrightarrow> d \<in> {CHR ''-'', CHR ''.''} \<Longrightarrow> lower_char c = d \<longleftrightarrow> c = d"
proof -
  assume c: "slug_char c" and d: "d \<in> {CHR ''-'', CHR ''.''}"
  show ?thesis
  proof (cases "65 \<le> (of_char c :: nat) \<and> (of_char c :: nat) \<le> 90")
    case True
    then have "(of_char (lower_char c) :: nat) = of_char c + 32"
      by (simp add: lower_char_def take_bit_nat_eq_self)
    then have "(of_char (lower_char c) :: nat) \<noteq> of_char d" "(of_char c :: nat) \<noteq> of_char d"
      using True d by auto
    then show ?thesis by metis
  next
    case False
    have "\<not> 192 \<le> (of_char c :: nat)"
      using c by (auto simp: slug_char_def ascii_alnum_def Let_def)
    then have "lower_char c = c" using False by (auto simp: lower_char_def Let_def)
    then show ?thesis by simp
  qed
qed

lemma lower_char_out: "slug_out c \<Longrightarrow> lower_char c = c"
  by (auto simp: slug_out_def slug_char_def ascii_alnum_def lower_char_def Let_def)

lemma no_pair_lower:
  "\<forall>c \<in> set s. slug_char c \<Longrightarrow> d \<in> {CHR ''-'', CHR ''.''} \<Longrightarrow> no_pair d (py_lower s) \<longleftrightarrow> no_pair d s"
proof (induction s)
  case (Cons c s)
  have "s \<noteq> [] \<Longrightarrow> lower_char (hd s) = d \<longleftrightarrow> hd s = d"
    using Cons.prems lower_char_mark by (metis hd_in_set list.set_intros(2))
  moreover have "s \<noteq> [] \<Longrightarrow> hd (py_lower s) = lower_char (hd s)"
    by (cases s) (auto simp: py_lower_def)
  moreover have "lower_char c = d \<longleftrightarrow> c = d" using Cons.prems lower_char_mark by simp
  moreover have "py_lower (c # s) = lower_char c # py_lower s" by (simp add: py_lower_def)
  moreover have "no_pair d (py_lower s) = no_pair d s"
    using Cons.IH Cons.prems by simp
  ultimately show ?case using py_lower_Nil [of s] by (simp only: no_pair_Cons) metis
qed (simp add: py_lower_def)

lemma slug_safe_job: "slug_safe ''job''"
  by (simp add: slug_safe_def slug_out_def slug_char_def ascii_alnum_def no_pair_Cons)

definition slug_mark :: "char \<Rightarrow> bool" where
  "slug_mark c \<longleftrightarrow> c = CHR ''-'' \<or> c = CHR ''.''"

lemma slug_safe_lower:
  assumes chars: "\<forall>x \<in> set t. slug_char x"
    and np: "no_pair (CHR ''.'') t" "no_pair (CHR ''-'') t"
    and ends: "t \<noteq> []" "\<not> slug_mark (hd t)" "\<not> slug_mark (last t)"
  shows "slug_safe (py_lower t)"
proof -
  have "hd t \<in> set t" "last t \<in> set t" using ends(1) by simp_all
  then have "slug_char (hd t)" "slug_char (last t)" using chars by blast+
  then have "lower_char (hd t) \<notin> {CHR ''-'', CHR ''.''}" "lower_char (last t) \<notin> {CHR ''-'', CHR ''.''}"
    using lower_char_mark [of "hd t"] lower_char_mark [of "last t"] ends(2,3) by (auto simp: slug_mark_def)
  moreover have "\<forall>x \<in> set (py_lower t). slug_out x"
    using chars slug_out_lower by (auto simp: py_lower_def)
  moreover have "no_pair (CHR ''.'') (py_lower t)" "no_pair (CHR ''-'') (py_lower t)"
    using np by (simp_all add: no_pair_lower [OF chars])
  ultimately show ?thesis
    using ends(1) by (simp add: slug_safe_def list_all_iff) (simp add: py_lower_def hd_map last_map)
qed

lemma slug_safe_slugify: "slug_safe (slugify name)"
proof -
  define a where "a = sub_runs (\<lambda>c. \<not> slug_char c) 1 (py_strip name)"
  define b where "b = sub_runs (\<lambda>c. c = CHR ''.'') 2 a"
  define c where "c = sub_runs (\<lambda>c. c = CHR ''-'') 2 b"
  have dash: "slug_char (CHR ''-'')" by (simp add: slug_char_def)
  have "\<forall>x \<in> set a. slug_char x" unfolding a_def using sub_runs_one dash by blast
  moreover have "set c \<subseteq> insert (CHR ''-'') (set a)"
    unfolding c_def b_def
    using set_sub_runs [of "\<lambda>c. c = CHR ''-''" 2 b] set_sub_runs [of "\<lambda>c. c = CHR ''.''" 2 a]
    unfolding b_def by fast
  ultimately have chars: "\<forall>x \<in> set (strip_if slug_mark c). slug_char x"
    using dash set_strip_if [of slug_mark c] by fast
  have "no_pair (CHR ''.'') b" unfolding b_def by (rule sub_runs_no_pair) auto
  then have dots: "no_pair (CHR ''.'') c" unfolding c_def by (intro sub_runs_no_pair) auto
  have dashes: "no_pair (CHR ''-'') c" unfolding c_def by (rule sub_runs_no_pair) auto
  have eq: "slugify name =
      (if strip_if slug_mark c = [] then ''job'' else py_lower (strip_if slug_mark c))"
    by (simp only: slugify_def Let_def py_lower_Nil a_def [symmetric] b_def [symmetric]
        c_def [symmetric] slug_mark_def [abs_def, symmetric])
  show ?thesis
  proof (cases "strip_if slug_mark c = []")
    case False
    show ?thesis unfolding eq if_not_P [OF False]
      by (rule slug_safe_lower [OF chars no_pair_strip_if [OF dots] no_pair_strip_if [OF dashes] False
            strip_if_hd [OF False] strip_if_last [OF False]])
  next
    case True
    show ?thesis unfolding eq if_P [OF True] by (rule slug_safe_job)
  qed
qed

lemma sub_runs_no_pair_id: "no_pair c s \<Longrightarrow> sub_runs (\<lambda>x. x = c) 2 s = s"
proof (induction s)
  case (Cons x s)
  then have IH: "sub_runs (\<lambda>x. x = c) 2 s = s" by (simp add: no_pair_Cons)
  show ?case
  proof (cases "x = c")
    case True
    then have "s = [] \<or> hd s \<noteq> c" using Cons.prems by (auto simp: no_pair_Cons)
    then have "takeWhile (\<lambda>x. x = c) s = []" "dropWhile (\<lambda>x. x = c) s = s" by (cases s; simp)+
    then show ?thesis using IH True by simp
  qed (use IH in simp)
qed simp

lemma slugify_fixed: "slug_safe s \<Longrightarrow> slugify s = s"
proof -
  assume s: "slug_safe s"
  have out: "\<forall>c \<in> set s. slug_out c" using s by (simp add: slug_safe_def list_all_iff)
  then have nsp: "\<forall>c \<in> set s. \<not> py_space c \<and> slug_char c"
    by (auto simp: slug_out_def slug_char_def ascii_alnum_def py_space_def Let_def)
  have "py_strip s = s" unfolding py_strip_def
    by (rule strip_if_id) (use nsp s in \<open>auto simp: slug_safe_def\<close>)
  moreover have "sub_runs (\<lambda>c. \<not> slug_char c) 1 s = s" using nsp by (intro sub_runs_id) auto
  moreover have "sub_runs (\<lambda>c. c = CHR ''.'') 2 s = s" "sub_runs (\<lambda>c. c = CHR ''-'') 2 s = s"
    using s by (auto simp: slug_safe_def intro: sub_runs_no_pair_id)
  moreover have "strip_if (\<lambda>c. c = CHR ''-'' \<or> c = CHR ''.'') s = s"
    by (rule strip_if_id) (use s in \<open>auto simp: slug_safe_def\<close>)
  moreover have "py_lower s = s" using out lower_char_out by (simp add: py_lower_def map_idI)
  ultimately show ?thesis using s by (simp add: slugify_def slug_safe_def)
qed

lemma slugify_safe_chars: "slugify name \<noteq> [] \<and> CHR ''/'' \<notin> set (slugify name)"
  using slug_safe_slugify [of name]
  by (auto simp: slug_safe_def list_all_iff slug_out_def slug_char_def ascii_alnum_def)

text \<open>The slug of any job name whatever is safe to join as one path element: it is not empty,
  holds only lower case letters, digits, dots, underscores and dashes, so no separator, never two
  dots in a row, so neither dot directory, and neither begins nor ends with a dot or a dash. A slug
  is its own slug, so the directory of a job can be computed again from it.\<close>

theorem slugify_safe:
  "slug_safe (slugify name) \<and> slugify (slugify name) = slugify name \<and> CHR ''/'' \<notin> set (slugify name)"
  using slug_safe_slugify slugify_fixed slugify_safe_chars by simp

subsection \<open>Reading remotes back\<close>

definition remote_name :: "string \<Rightarrow> bool" where
  "remote_name r \<longleftrightarrow> 2 \<le> length r \<and> list_all remote_char r"

lemma colon_not_remote: "\<not> remote_char (CHR '':'')"
  by (simp add: remote_char_def ascii_alnum_def)

lemma split_remote_join:
  assumes "remote_name r" "CHR 0x0A \<notin> set p"
  shows "split_remote (r @ CHR '':'' # p) = (r, p)"
proof -
  have "\<forall>c \<in> set r. remote_char c" using assms by (simp add: remote_name_def list_all_iff)
  then have "takeWhile remote_char (r @ CHR '':'' # p) = r" "dropWhile remote_char (r @ CHR '':'' # p) = CHR '':'' # p"
    using colon_not_remote by (simp_all add: takeWhile_append dropWhile_append)
  then show ?thesis using assms by (simp add: split_remote_def remote_name_def Let_def)
qed

lemma strip_slash_simps [simp]: "strip_slash [] = []" "strip_slash (CHR ''/'' # s) = strip_slash s"
  by (simp_all add: strip_slash_def strip_if_def)

lemma strip_slash_ends: "strip_slash s \<noteq> [] \<Longrightarrow> hd (strip_slash s) \<noteq> CHR ''/'' \<and> last (strip_slash s) \<noteq> CHR ''/''"
  unfolding strip_slash_def using strip_if_hd strip_if_last by blast

lemma strip_slash_id: "s = [] \<or> hd s \<noteq> CHR ''/'' \<and> last s \<noteq> CHR ''/'' \<Longrightarrow> strip_slash s = s"
  unfolding strip_slash_def by (rule strip_if_id)

lemma strip_slash_append:
  assumes "strip_slash p = [] \<or> q \<noteq> []" "q = [] \<or> hd q \<noteq> CHR ''/'' \<or> strip_slash p \<noteq> []" "q = [] \<or> last q \<noteq> CHR ''/''"
  shows "strip_slash (strip_slash p @ q) = strip_slash p @ q"
  by (rule strip_slash_id) (use assms strip_slash_ends [of p] in \<open>auto simp: hd_append\<close>)

subsection \<open>The default base\<close>

lemma hd_split_append:
  "c \<in> set t \<Longrightarrow> hd (split_on c (t @ s)) = hd (split_on c t)"
proof (induction t)
  case (Cons x t)
  show ?case
  proof (cases "x = c")
    case False
    then have "hd (split_on c (t @ s)) = hd (split_on c t)" using Cons by simp
    then show ?thesis using False by (cases "split_on c (t @ s)"; cases "split_on c t") auto
  qed simp
qed simp

lemma length_split_on: "length (split_on c s) = Suc 0 \<longleftrightarrow> c \<notin> set s"
proof (induction s)
  case (Cons x s)
  then show ?case by (cases "split_on c s") auto
qed simp

definition default_path :: "string \<Rightarrow> string" where
  "default_path p =
     (let t = strip_slash p; a = prefix ''/'' p
      in if t = [] then (if a then ''/'' else []) @ CHILD_ARCHIVE_NAME
         else if \<not> a \<and> CHR ''/'' \<notin> set t then t @ ''/'' @ CHILD_ARCHIVE_NAME
         else (if a then ''/'' else []) @ t @ ARCHIVE_SUFFIX)"

lemma default_base_remote:
  assumes "remote_name r" "CHR 0x0A \<notin> set p"
  shows "default_base (r @ CHR '':'' # p) = r @ CHR '':'' # default_path p"
  using assms
  by (simp add: default_base_def default_path_def split_remote_join remote_prefix_def length_split_on
      Let_def remote_name_def cong: if_cong) (auto simp: remote_name_def)

lemma default_path_nl: "CHR 0x0A \<notin> set p \<Longrightarrow> CHR 0x0A \<notin> set (default_path p)"
  using set_strip_if [of "\<lambda>c. c = CHR ''/''" p]
  by (auto simp: default_path_def Let_def CHILD_ARCHIVE_NAME_def ARCHIVE_SUFFIX_def strip_slash_def)

lemma strip_default_path:
  "strip_slash (default_path p) =
     (let t = strip_slash p
      in if t = [] then CHILD_ARCHIVE_NAME
         else if \<not> prefix ''/'' p \<and> CHR ''/'' \<notin> set t then t @ ''/'' @ CHILD_ARCHIVE_NAME
         else t @ ARCHIVE_SUFFIX)"
proof -
  have a: "strip_slash CHILD_ARCHIVE_NAME = CHILD_ARCHIVE_NAME"
    by (rule strip_slash_id) (simp add: CHILD_ARCHIVE_NAME_def)
  have b: "strip_slash p \<noteq> [] \<Longrightarrow>
      strip_slash (strip_slash p @ ''/'' @ CHILD_ARCHIVE_NAME) = strip_slash p @ ''/'' @ CHILD_ARCHIVE_NAME"
    by (rule strip_slash_append) (auto simp: CHILD_ARCHIVE_NAME_def)
  have c: "strip_slash p \<noteq> [] \<Longrightarrow>
      strip_slash (strip_slash p @ ARCHIVE_SUFFIX) = strip_slash p @ ARCHIVE_SUFFIX"
    by (rule strip_slash_append) (auto simp: ARCHIVE_SUFFIX_def)
  show ?thesis
    using a b c unfolding default_path_def Let_def by simp
qed

lemma share_of_append:
  "strip_slash p \<noteq> [] \<Longrightarrow> share_of p = (if CHR ''/'' \<in> set (strip_slash p) then hd (split_on (CHR ''/'') (strip_slash p)) else strip_slash p)"
  by (simp add: share_of_def split_on_single)

lemma default_inside:
  assumes "remote_name r" "CHR 0x0A \<notin> set p"
  shows "is_inside (r @ CHR '':'' # default_path p) (r @ CHR '':'' # p) \<longleftrightarrow>
    strip_slash p = [] \<or> \<not> prefix ''/'' p \<and> CHR ''/'' \<notin> set (strip_slash p)"
proof -
  have s: "ARCHIVE_SUFFIX \<noteq> [] \<and> hd ARCHIVE_SUFFIX \<noteq> CHR ''/''" by (simp add: ARCHIVE_SUFFIX_def)
  then have "\<not> prefix (t @ ''/'') (t @ ARCHIVE_SUFFIX)" for t by (simp add: ARCHIVE_SUFFIX_def)
  then show ?thesis
    using s assms default_path_nl [OF assms(2)]
    by (auto simp: is_inside_def split_remote_join strip_default_path Let_def CHILD_ARCHIVE_NAME_def)
qed

lemma default_share:
  "share_of (default_path p) =
     (let t = strip_slash p
      in if t = [] then CHILD_ARCHIVE_NAME
         else if CHR ''/'' \<in> set t then hd (split_on (CHR ''/'') t)
         else if prefix ''/'' p then t @ ARCHIVE_SUFFIX else t)"
proof -
  have n: "CHR ''/'' \<notin> set CHILD_ARCHIVE_NAME" "CHR ''/'' \<notin> set ARCHIVE_SUFFIX"
    by (simp_all add: CHILD_ARCHIVE_NAME_def ARCHIVE_SUFFIX_def)
  have h: "CHR ''/'' \<notin> set t \<Longrightarrow> hd (split_on (CHR ''/'') (t @ CHR ''/'' # q)) = t" for t q
    by (simp add: split_on_append)
  show ?thesis
    unfolding share_of_def strip_default_path
    using n by (auto simp: Let_def split_on_single split_on_append hd_split_append CHILD_ARCHIVE_NAME_def)
qed

lemma default_validate:
  assumes "remote_name r" "CHR 0x0A \<notin> set p"
  shows "validate (r @ CHR '':'' # p) (r @ CHR '':'' # default_path p) =
    (if share_of (default_path p) \<noteq> share_of p
     then Inl (DifferentShare (share_of p) (share_of (default_path p)))
     else if is_inside (r @ CHR '':'' # default_path p) (r @ CHR '':'' # p)
     then bind_res (exclude_for (r @ CHR '':'' # default_path p) (r @ CHR '':'' # p)) (\<lambda>_. Inr ())
     else Inr ())"
  using assms default_path_nl [OF assms(2)]
  by (auto simp: validate_def split_remote_join remote_name_def)

lemma default_exclude:
  assumes "remote_name r" "CHR 0x0A \<notin> set p"
  shows "strip_slash p \<noteq> [] \<Longrightarrow>
    exclude_for (r @ CHR '':'' # default_path p) (r @ CHR '':'' # p) =
      (if \<not> prefix ''/'' p \<and> CHR ''/'' \<notin> set (strip_slash p)
       then Inr (Some (''/'' @ CHILD_ARCHIVE_NAME @ ''/**'')) else Inr None)"
proof -
  assume t: "strip_slash p \<noteq> []"
  have c: "strip_slash CHILD_ARCHIVE_NAME = CHILD_ARCHIVE_NAME" "CHILD_ARCHIVE_NAME \<noteq> []"
    using strip_slash_id [of CHILD_ARCHIVE_NAME] by (simp_all add: CHILD_ARCHIVE_NAME_def)
  show ?thesis
    using t c assms default_path_nl [OF assms(2)] default_inside [OF assms]
    by (auto simp: exclude_for_def split_remote_join strip_default_path Let_def)
qed

text \<open>The archive HiveSync picks by itself, checked by its own rules, for every destination
  \<open>remote:path\<close>. A path of two components or more gets a sibling and needs no exclude; a single
  relative component (a share or a bucket) gets a child directory and exactly the exclude that keeps
  it out of the synced tree; the root of a remote and a top level absolute directory are refused,
  because the name of the sibling is then read as another share.\<close>

theorem default_archive_outcome:
  assumes "remote_name r" "CHR 0x0A \<notin> set p"
  shows "let d = r @ CHR '':'' # p; t = strip_slash p; base = default_base d
    in if t = [] \<or> prefix ''/'' p \<and> CHR ''/'' \<notin> set t
       then validate d base = Inl (DifferentShare t (t @ ARCHIVE_SUFFIX))
       else validate d base = Inr () \<and>
            (if CHR ''/'' \<in> set t
             then base = r @ CHR '':'' # (if prefix ''/'' p then ''/'' else []) @ t @ ARCHIVE_SUFFIX \<and>
                  exclude_for base d = Inr None
             else base = r @ CHR '':'' # t @ ''/'' @ CHILD_ARCHIVE_NAME \<and>
                  exclude_for base d = Inr (Some (''/'' @ CHILD_ARCHIVE_NAME @ ''/**'')))"
proof -
  let ?d = "r @ CHR '':'' # p" and ?t = "strip_slash p"
  have base: "default_base ?d = r @ CHR '':'' # default_path p" by (rule default_base_remote [OF assms])
  have share: "share_of p = (if ?t = [] then [] else if CHR ''/'' \<in> set ?t then hd (split_on (CHR ''/'') ?t) else ?t)"
    by (simp add: share_of_def split_on_single)
  have suf: "t @ ARCHIVE_SUFFIX \<noteq> t" "CHILD_ARCHIVE_NAME = ARCHIVE_SUFFIX" "ARCHIVE_SUFFIX \<noteq> []" for t
    by (simp_all add: ARCHIVE_SUFFIX_def CHILD_ARCHIVE_NAME_def)
  consider (bad) "?t = [] \<or> prefix ''/'' p \<and> CHR ''/'' \<notin> set ?t"
    | (sibling) "?t \<noteq> []" "CHR ''/'' \<in> set ?t"
    | (child) "?t \<noteq> []" "\<not> prefix ''/'' p" "CHR ''/'' \<notin> set ?t" by blast
  then show ?thesis
  proof cases
    case bad
    then have "validate ?d (default_base ?d) = Inl (DifferentShare ?t (?t @ ARCHIVE_SUFFIX))"
      unfolding base default_validate [OF assms] share default_share by (auto simp: Let_def suf)
    then show ?thesis using bad by (simp only: Let_def if_True)
  next
    case sibling
    then have "share_of (default_path p) = share_of p" by (simp add: share default_share)
    then have "validate ?d (default_base ?d) = Inr ()"
      using sibling default_exclude [OF assms] by (simp add: base default_validate [OF assms])
    then show ?thesis
      using sibling default_exclude [OF assms] by (auto simp: Let_def base default_path_def)
  next
    case child
    then have "share_of (default_path p) = share_of p" by (simp add: share default_share)
    then have "validate ?d (default_base ?d) = Inr ()"
      using child default_exclude [OF assms] by (simp add: base default_validate [OF assms])
    then show ?thesis
      using child default_exclude [OF assms] by (simp add: Let_def base default_path_def)
  qed
qed

theorem default_archive_outcome_witness:
  "validate ''hs_dst:/data'' (default_base ''hs_dst:/data'') =
     Inl (DifferentShare ''data'' ''data.hivesync-archive'')"
  using default_archive_outcome [of "''hs_dst''" "''/data''"]
  by (simp add: remote_name_def remote_char_def ascii_alnum_def strip_slash_def strip_if_def rstrip_if_def
      ARCHIVE_SUFFIX_def Let_def)

subsection \<open>The plan of a run\<close>

definition comps :: "string \<Rightarrow> string list" where
  "comps p = filter (\<lambda>c. c \<noteq> []) (split_on (CHR ''/'') p)"

lemma comps_strip [simp]: "comps (strip_slash p) = comps p"
  by (simp add: comps_def strip_slash_def pieces_strip)

lemma comps_append: "comps (a @ CHR ''/'' # b) = comps a @ comps b"
  by (simp add: comps_def split_on_join_append)

lemma comps_Nil [simp]: "comps [] = []"
  by (simp add: comps_def)

lemma comps_single: "CHR ''/'' \<notin> set p \<Longrightarrow> p \<noteq> [] \<Longrightarrow> comps p = [p]"
  by (simp add: comps_def split_on_single)

lemma exclude_for_inside:
  "exclude_for b d = Inr x \<Longrightarrow> is_inside b d \<longleftrightarrow> x \<noteq> None"
  by (cases "split_remote b"; cases "split_remote d"; cases "is_inside b d")
    (auto simp: exclude_for_def Let_def split: if_splits)

lemma exclude_names_archive:
  assumes "exclude_for b d = Inr (Some e)"
  shows "\<exists>rel. e = ''/'' @ rel @ ''/**'' \<and> rel \<noteq> [] \<and>
    comps (strip_remote b) = comps (strip_remote d) @ comps rel"
proof -
  obtain ar ap where b: "split_remote b = (ar, ap)" by fastforce
  obtain dr dp where d: "split_remote d = (dr, dp)" by fastforce
  let ?a = "strip_slash ap" and ?p = "strip_slash dp"
  have ins: "is_inside b d" using assms by (auto simp: exclude_for_def split: if_splits)
  define rel where "rel = (if ?p \<noteq> [] \<and> ?a = ?p then []
                           else if ?p \<noteq> [] \<and> prefix (?p @ ''/'') ?a then drop (length ?p + 1) ?a else ?a)"
  have e: "e = ''/'' @ strip_slash rel @ ''/**''" "strip_slash rel \<noteq> []"
    using assms ins unfolding exclude_for_def b d rel_def by (auto simp: Let_def split: if_splits)
  have "comps ap = comps dp @ comps rel"
  proof (cases "?p = []")
    case True
    then have "comps dp = []" by (metis comps_Nil comps_strip)
    then show ?thesis using True by (simp add: rel_def)
  next
    case False
    have "?a \<noteq> ?p" using e(2) False by (auto simp: rel_def)
    then have "prefix (?p @ ''/'') ?a"
      using ins False by (auto simp: is_inside_def b d Let_def split: if_splits)
    then obtain t where t: "?a = ?p @ CHR ''/'' # t" by (auto simp: prefix_def)
    then have "rel = t" using False by (simp add: rel_def)
    then show ?thesis using t comps_append [of ?p t] comps_strip by metis
  qed
  then show ?thesis using e b d by (intro exI [of _ "strip_slash rel"]) (simp add: strip_remote_def)
qed

lemma validate_ok:
  assumes "validate d b = Inr ()"
  shows "fst (split_remote b) = fst (split_remote d)"
    "fst (split_remote b) \<noteq> [] \<longrightarrow> share_of (strip_remote b) = share_of (strip_remote d)"
  using assms by (auto simp: validate_def strip_remote_def split: prod.splits if_splits)

text \<open>C18. Whatever archive base the operator typed or the default gave, a plan that is accepted
  keeps the archive on the connection and the share of the side being changed; it carries an exclude
  exactly when the archive lies inside the synced tree, and that exclude, read by path components,
  names the archive and nothing above it; the timestamped layout appends to the base two components,
  the slug of the job and the stamp of the run, so that no job name can move it elsewhere.\<close>

theorem plan_for_confined:
  assumes "plan_for j destination now = Inr p"
  shows "fst (split_remote (plan_base p)) = fst (split_remote destination) \<and>
    (fst (split_remote destination) \<noteq> [] \<longrightarrow>
       share_of (strip_remote (plan_base p)) = share_of (strip_remote destination)) \<and>
    inside_destination p = is_inside (plan_base p) destination \<and>
    inside_destination p = (plan_exclude p \<noteq> None) \<and>
    (\<forall>e. plan_exclude p = Some e \<longrightarrow>
       (\<exists>rel. e = ''/'' @ rel @ ''/**'' \<and> rel \<noteq> [] \<and>
          comps (strip_remote (plan_base p)) = comps (strip_remote destination) @ comps rel)) \<and>
    (if job_archive_layout j = SuffixLayout
     then backup_dir p = plan_base p \<and> plan_suffix p = Some (''.'' @ stamp_of now)
     else comps (backup_dir p) = comps (plan_base p) @ [slugify (job_name j), stamp_of now] \<and>
          plan_suffix p = None)"
proof -
  let ?b = "plan_base p"
  have v: "validate destination ?b = Inr ()" and e: "exclude_for ?b destination = Inr (plan_exclude p)"
    and i: "inside_destination p = (plan_exclude p \<noteq> None)"
    and l: "if job_archive_layout j = SuffixLayout
       then backup_dir p = ?b \<and> plan_suffix p = Some (''.'' @ stamp_of now)
       else backup_dir p = rstrip_slash ?b @ ''/'' @ slugify (job_name j) @ ''/'' @ stamp_of now \<and> plan_suffix p = None"
    using assms by (auto simp: plan_for_def Let_def bind_res_Inr split: if_splits)
  have ins: "is_inside ?b destination \<longleftrightarrow> plan_exclude p \<noteq> None"
    using e exclude_for_inside [of ?b destination] by simp
  have slug: "comps (slugify (job_name j)) = [slugify (job_name j)]"
    using slugify_safe_chars [of "job_name j"] by (intro comps_single) auto
  have stamp: "comps (stamp_of now) = [stamp_of now]"
    using stamp_no_slash by (intro comps_single) (auto simp: stamp_of_def Let_def split: prod.splits)
  have base: "comps (rstrip_slash ?b) = comps ?b"
    by (simp add: comps_def rstrip_slash_def pieces_rstrip)
  show ?thesis
    using validate_ok [OF v] i ins l e exclude_names_archive [of ?b destination]
    by (auto simp: comps_append slug stamp base)
qed

theorem plan_for_confined_witness:
  "\<exists>p. plan_for sample_job ''hs_dst:/srv/media'' 0 = Inr p \<and> plan_exclude p = None \<and>
     comps (backup_dir p) = [''hs_dst:'', ''srv'', ''media.hivesync-archive'', slugify ''Media/Backup'', stamp_of 0]"
proof -
  obtain p where p: "plan_for sample_job ''hs_dst:/srv/media'' 0 = Inr p" "plan_exclude p = None"
    "plan_base p = ''hs_dst:/srv/media.hivesync-archive''"
    by (simp add: plan_for_def sample_job_def py_strip_def default_base_def split_remote_def remote_char_def
        ascii_alnum_def strip_slash_def strip_if_def rstrip_if_def remote_prefix_def ARCHIVE_SUFFIX_def
        validate_def share_of_def is_inside_def exclude_for_def Let_def)
  show ?thesis
    using p plan_for_confined [OF p(1)] by (simp add: comps_def sample_job_def)
qed

end
