(* ===== verification/Engine.thy ===== *)
theory Engine
  imports Parsers Archive
begin

text \<open>
  \<open>app/engines/base.py\<close> and \<open>app/engines/rclone.py\<close>: a plan, the flags of a one way job, the
  command of a live sync, and the two planning passes. rclone itself is a parameter: \<open>rc_run\<close> gives
  what a process with an environment and an argv did, \<open>rc_files\<close> the category files it left. Each
  planning function returns the argvs it ran next to its result.
\<close>

subsection \<open>Plans\<close>

datatype plan_warning =
    BrakeExceeded int int int int      \<comment> \<open>deletions, percentage, files, limit\<close>
  | SizeOnlyBlind
  | Untested "string list"
  | NoHashInCommon
  | PlanTruncated
  | NotCompared nat
  | RefusedByRclone string
  | CountsDisagree int nat           \<comment> \<open>rclone's total, changes named\<close>

record planned_change =
  pc_action :: change_action
  pc_path :: string
  pc_size :: "int option"
  pc_message :: "string option"
  pc_side :: "change_side option"

record plan =
  plan_changes :: "planned_change list"
  unchanged_count :: int
  bytes_to_transfer :: int
  plan_dest_count :: int
  plan_errors :: "string list"
  plan_warnings :: "plan_warning list"
  plan_commands :: "string list"
  plan_truncated :: bool

definition empty_plan :: plan where
  "empty_plan = \<lparr>plan_changes = [], unchanged_count = 0, bytes_to_transfer = 0, plan_dest_count = 0,
     plan_errors = [], plan_warnings = [], plan_commands = [], plan_truncated = False\<rparr>"

definition count_action :: "plan \<Rightarrow> change_action \<Rightarrow> nat" where
  "count_action p a = length (filter (\<lambda>c. pc_action c = a) (plan_changes p))"

definition new_count :: "plan \<Rightarrow> nat" where "new_count p = count_action p ActNew"
definition updated_count :: "plan \<Rightarrow> nat" where "updated_count p = count_action p ActUpdated"
definition deleted_count :: "plan \<Rightarrow> nat" where "deleted_count p = count_action p ActDeleted"
definition error_count :: "plan \<Rightarrow> nat" where
  "error_count p = length (plan_errors p) + count_action p ActError"

datatype engine_reason =
    WrongEngine
  | LiveNotHere
  | ChecksumWithoutHash
  | CompareFailed string
  | PlanFailed string
  | Remote remote_reason
  | NotBidirectional
  | NoFirstSync string
  | ListingsLost string

text \<open>What leaves an engine: its own error, an exception it does not catch from the preparation of
  the endpoints, or a TypeError from an unreadable probe.\<close>

datatype plan_error =
    EngineError engine_reason
  | Uncaught prep_error
  | ProbeTypeError

record rclone_ext =
  rc_run :: "(string \<times> string) list \<Rightarrow> string list \<Rightarrow> raw_outcome"
  rc_files :: "string list \<Rightarrow> string \<Rightarrow> string option"
  rc_workdir :: string

subsection \<open>Flags\<close>

definition PLANNING_MAX_DELETE :: int where "PLANNING_MAX_DELETE = 1000000000"

definition operation_for :: "job \<Rightarrow> string" where
  "operation_for j = (if job_delete_mode j = DelNone then ''copy'' else ''sync'')"

definition endpoints_for :: "job \<Rightarrow> connection \<times> connection" where
  "endpoints_for j =
     (if job_direction j = DestToSource then (dest_connection j, source_connection j)
      else (source_connection j, dest_connection j))"

definition paths_for :: "job \<Rightarrow> string \<times> string" where
  "paths_for j =
     (if job_direction j = DestToSource then (dest_path j, source_path j)
      else (source_path j, dest_path j))"

definition endpoints_and_paths :: "job \<Rightarrow> connection \<times> connection \<times> string \<times> string" where
  "endpoints_and_paths j =
     (let (s, d) = endpoints_for j; (r, w) = paths_for j in (s, d, r, w))"

definition rule_args :: "string \<Rightarrow> string list \<Rightarrow> string list" where
  "rule_args flag rules =
     concat (map (\<lambda>r. if py_strip r \<noteq> [] then [flag, py_strip r] else []) rules)"

definition given :: "string \<Rightarrow> string option \<Rightarrow> string list" where
  "given flag v = (case v of Some s \<Rightarrow> if s \<noteq> [] then [flag, s] else [] | None \<Rightarrow> [])"

definition filter_args :: "job \<Rightarrow> string list" where
  "filter_args j =
     (let f = job_filters_of j
      in rule_args ''--include'' (flt_include f) @
         concat (map (\<lambda>p. rule_args ''--exclude'' (preset_exclude p)) (job_filter_presets j)) @
         rule_args ''--exclude'' (flt_exclude f) @
         given ''--min-size'' (flt_min_size f) @ given ''--max-age'' (flt_max_age f))"

definition window_args :: "job \<Rightarrow> string list" where
  "window_args j = given ''--modify-window'' (Some (modify_window j))"

definition comparison_args :: "ext \<Rightarrow> job \<Rightarrow> plan_error + string list" where
  "comparison_args x j =
     (case job_compare_mode j of
        CompareChecksum \<Rightarrow>
          (case (for_connection x (source_connection j), for_connection x (dest_connection j)) of
             (Some a, Some b) \<Rightarrow>
               if hashes a \<inter> hashes b = {} then Inl (EngineError ChecksumWithoutHash)
               else Inr (''--checksum'' # window_args j)
           | _ \<Rightarrow> Inl ProbeTypeError)
      | SizeOnly \<Rightarrow> Inr (''--size-only'' # window_args j)
      | MtimeSize \<Rightarrow> Inr (window_args j))"

definition number_arg :: "string \<Rightarrow> nat option \<Rightarrow> string list" where
  "number_arg flag v = (case v of Some n \<Rightarrow> if n \<noteq> 0 then [flag, str_nat n] else [] | None \<Rightarrow> [])"

definition performance_args :: "job \<Rightarrow> string list" where
  "performance_args j =
     number_arg ''--transfers'' (job_transfers j) @ number_arg ''--checkers'' (job_checkers j) @
     given ''--bwlimit'' (job_bwlimit j)"

definition quiet_period_args :: "job \<Rightarrow> string list" where
  "quiet_period_args j =
     (if quiet_period_seconds j \<le> 0 then []
      else [''--min-age'', str_int (quiet_period_seconds j) @ ''s''])"

text \<open>\<open>math.ceil(count * pct / 100)\<close>, exact while the product is below 2^46.\<close>

definition resolve_max_delete :: "int \<Rightarrow> int \<Rightarrow> int" where
  "resolve_max_delete pct dest_file_count =
     (if dest_file_count \<le> 0 then 1 else max 1 (- ((- (dest_file_count * pct)) div 100)))"

definition build_sync_command ::
  "ext \<Rightarrow> job \<Rightarrow> prepared \<Rightarrow> string \<Rightarrow> string \<Rightarrow> int \<Rightarrow> string list \<Rightarrow> plan_error + string list" where
  "build_sync_command x j p src dst max_delete archive =
     bind_res (comparison_args x j) (\<lambda>cmp.
       Inr (prep_argv p
         ([operation_for j, src, dst, ''--use-json-log'', ''-v'', ''--stats'', ''5s'', ''--stats-one-line'',
           ''--max-delete'', str_int max_delete] @ archive @ cmp @ filter_args j @
          performance_args j @ quiet_period_args j)))"

definition side_for :: "job \<Rightarrow> change_side" where
  "side_for j = (if job_direction j = DestToSource then SideSource else SideDest)"

subsection \<open>Planning\<close>

definition by_path :: "planned_operation list \<Rightarrow> (string \<times> planned_operation) list" where
  "by_path ops = sort_key fst (fold (\<lambda>p d. dict_put (op_path p) p d) ops [])"

definition not_compared_message :: string where
  "not_compared_message = ''This file could not be compared.''"

definition size_or_0 :: "int option \<Rightarrow> int" where
  "size_or_0 s = (case s of None \<Rightarrow> 0 | Some n \<Rightarrow> n)"

definition copy_change :: "presence_report \<Rightarrow> string \<times> planned_operation \<Rightarrow> planned_change" where
  "copy_change pr e =
     \<lparr>pc_action = (if fst e \<in> missing_on_dest pr then ActNew else ActUpdated), pc_path = fst e,
      pc_size = op_size (snd e), pc_message = None, pc_side = None\<rparr>"

definition delete_change :: "string \<times> planned_operation \<Rightarrow> planned_change" where
  "delete_change e =
     \<lparr>pc_action = ActDeleted, pc_path = fst e, pc_size = op_size (snd e), pc_message = None, pc_side = None\<rparr>"

definition error_change :: "string \<Rightarrow> planned_change" where
  "error_change path =
     \<lparr>pc_action = ActError, pc_path = path, pc_size = None, pc_message = Some not_compared_message,
      pc_side = None\<rparr>"

definition reconcile :: "plan \<Rightarrow> presence_report \<Rightarrow> dry_run_log \<Rightarrow> plan" where
  "reconcile plan pr dry =
     (let would_copy = by_path (copies dry); would_delete = by_path (removals dry)
      in plan\<lparr>plan_changes := plan_changes plan @ map (copy_change pr) would_copy @
                map delete_change would_delete @ map error_change (sorted_list_of_set (errored pr)),
              bytes_to_transfer := bytes_to_transfer plan + sum_list (map (\<lambda>e. size_or_0 (op_size (snd e))) would_copy),
              unchanged_count := int (card (present_on_source pr - set (map fst would_copy))),
              plan_dest_count := int (presence_dest_count pr),
              plan_errors := summarise_errors ERROR_LIMIT (log_errors dry),
              plan_truncated := max_delete_hit dry\<rparr>)"

definition add_warnings ::
  "ext \<Rightarrow> plan \<Rightarrow> job \<Rightarrow> presence_report \<Rightarrow> connection \<Rightarrow> connection \<Rightarrow> plan_error + plan" where
  "add_warnings x plan j pr s d =
     (let threshold = resolve_max_delete (max_delete_pct j) (plan_dest_count plan)
      in case (for_connection x s, for_connection x d) of
           (Some a, Some b) \<Rightarrow>
             Inr (plan\<lparr>plan_warnings := plan_warnings plan @
               (if int (deleted_count plan) > threshold
                then [BrakeExceeded (int (deleted_count plan)) (max_delete_pct j) (plan_dest_count plan) threshold]
                else []) @
               (if job_compare_mode j = SizeOnly then [SizeOnlyBlind]
                else if \<not> probed a \<or> \<not> probed b
                  then [Untested (named [(s, a), (d, b)] (\<lambda>c. \<not> probed c))]
                else if hashes a \<inter> hashes b = {} then [NoHashInCommon] else []) @
               (if plan_truncated plan then [PlanTruncated] else []) @
               (if errored pr \<noteq> {} then [NotCompared (card (errored pr))] else [])\<rparr>)
         | _ \<Rightarrow> Inl ProbeTypeError)"

definition category :: "rclone_ext \<Rightarrow> string \<Rightarrow> string" where
  "category rc name = rc_workdir rc @ ''/'' @ name"

definition check_args :: "rclone_ext \<Rightarrow> string \<Rightarrow> string \<Rightarrow> string list" where
  "check_args rc src dst =
     [''check'', src, dst, ''--size-only'',
      ''--missing-on-dst'', category rc ''missing_on_dst'', ''--missing-on-src'', category rc ''missing_on_src'',
      ''--differ'', category rc ''differ'', ''--match'', category rc ''match'',
      ''--error'', category rc ''error'']"

definition plan_sync_args :: "job \<Rightarrow> string \<Rightarrow> string \<Rightarrow> string list" where
  "plan_sync_args j src dst =
     [operation_for j, src, dst, ''--dry-run'', ''--use-json-log'', ''-v'', ''--max-delete'', str_int PLANNING_MAX_DELETE]"

definition run_phases ::
  "ext \<Rightarrow> rclone_ext \<Rightarrow> job \<Rightarrow> prepared \<Rightarrow> string \<Rightarrow> string \<Rightarrow> connection \<Rightarrow> connection
    \<Rightarrow> string list list \<times> (plan_error + plan)" where
  "run_phases x rc j p src dst s d =
     (let shared = filter_args j @ performance_args j @ quiet_period_args j;
          check_argv = prep_argv p (check_args rc src dst @ shared);
          check = run_command (secrets p) check_argv (rc_run rc (prep_env p) check_argv)
      in if \<not> result_ok check \<and> exit_code check \<noteq> CHECK_EXIT_DIFFERENCES
         then ([check_argv], Inl (EngineError (CompareFailed (failure_summary check))))
         else
           (let pr = parse_presence (rc_files rc check_argv) (category rc ''missing_on_dst'')
                       (category rc ''missing_on_src'') (category rc ''differ'') (category rc ''match'')
                       (category rc ''error'')
            in case comparison_args x j of
                 Inl e \<Rightarrow> ([check_argv], Inl e)
               | Inr cmp \<Rightarrow>
                   (let sync_argv = prep_argv p (plan_sync_args j src dst @ cmp @ shared);
                        sync = run_command (secrets p) sync_argv (rc_run rc (prep_env p) sync_argv);
                        dry = parse_dry_run x (res_stdout sync @ CHR 0x0A # res_stderr sync)
                    in ([check_argv, sync_argv],
                        if \<not> result_ok sync \<and> operations dry = [] \<and> log_errors dry = []
                        then Inl (EngineError (PlanFailed (failure_summary sync)))
                        else add_warnings x
                          (reconcile (empty_plan\<lparr>plan_commands := [command_line check, command_line sync]\<rparr>) pr dry)
                          j pr s d))))"

text \<open>\<open>except RemoteConfigError as exc: raise EngineError\<close>.\<close>

fun engine_catch :: "prep_error \<Rightarrow> plan_error" where
  "engine_catch (RemoteConfigError r) = EngineError (Remote r)"
| "engine_catch e = Uncaught e"

definition rclone_plan :: "ext \<Rightarrow> rclone_ext \<Rightarrow> job \<Rightarrow> string list list \<times> (plan_error + plan)" where
  "rclone_plan x rc j =
     (if job_direction j = Bidirectional then ([], Inl (EngineError WrongEngine))
      else
        (let (s, d) = endpoints_for j; (read_path, write_path) = paths_for j
         in case prepare x [(ALIAS_SOURCE, s), (ALIAS_DEST, d)] of
              Inl e \<Rightarrow> ([], Inl (engine_catch e))
            | Inr p \<Rightarrow>
                (case bind_res (prep_spec p ALIAS_SOURCE read_path) (\<lambda>a.
                        bind_res (prep_spec p ALIAS_DEST write_path) (\<lambda>b. Inr (a, b))) of
                   Inl e \<Rightarrow> ([], Inl (engine_catch e))
                 | Inr (src, dst) \<Rightarrow> run_phases x rc j p src dst s d)))"

definition rclone_execute :: "job \<Rightarrow> plan_error + plan" where
  "rclone_execute j = Inl (EngineError LiveNotHere)"

subsection \<open>Lemmas: the brake\<close>

lemma neg_div_100: "(- a) div 100 * 100 + (- a) mod 100 = - (a::int)" "0 \<le> (- a) mod (100::int)"
  "(- a) mod 100 < (100::int)"
  by simp_all

lemma ceil_div_le: "d \<le> - ((- a) div 100) \<longleftrightarrow> (d - 1) * 100 < (a::int)"
proof -
  obtain q r where q: "(- a) div 100 = q" "a = - (q * 100) - r" "0 \<le> r" "r < 100"
    using neg_div_100 [of a] by (metis add_diff_cancel_left' diff_minus_eq_add minus_diff_eq verit_minus_simplify(4))
  show ?thesis unfolding q(1) using q(2-4) by auto
qed

lemma ceil_div_mono: "a \<le> b \<Longrightarrow> - ((- a) div 100) \<le> - ((- b) div (100::int))"
  using neg_div_100 [of a] neg_div_100 [of b] by linarith

lemma ceil_div_bound: "a \<le> n * 100 \<Longrightarrow> - ((- a) div 100) \<le> (n::int)"
  using neg_div_100 [of a] by linarith

text \<open>C26. The delete brake as rclone receives it. The count is never below one, so a small tree can
  still lose one file; beyond the first deletion it admits exactly those numbers whose predecessor is
  below the job's percentage of the destination, so it is the percentage rounded up; with a
  percentage up to 100 it never exceeds the number of files, and a larger tree or percentage never
  lowers it.\<close>

theorem resolve_max_delete_brake:
  fixes pct files d :: int
  assumes "0 \<le> pct"
  shows "1 \<le> resolve_max_delete pct files \<and>
    (1 \<le> d \<longrightarrow> 0 < files \<longrightarrow>
       (d \<le> resolve_max_delete pct files \<longleftrightarrow> d = 1 \<or> (d - 1) * 100 < files * pct)) \<and>
    (pct \<le> 100 \<longrightarrow> 1 \<le> files \<longrightarrow> resolve_max_delete pct files \<le> files) \<and>
    (files \<le> files' \<longrightarrow> pct \<le> pct' \<longrightarrow> resolve_max_delete pct files \<le> resolve_max_delete pct' files')"
proof (intro conjI impI)
  show "1 \<le> resolve_max_delete pct files" by (simp add: resolve_max_delete_def)
next
  assume "1 \<le> d" "0 < files"
  then show "d \<le> resolve_max_delete pct files \<longleftrightarrow> d = 1 \<or> (d - 1) * 100 < files * pct"
    using ceil_div_le [of d "files * pct"] by (auto simp: resolve_max_delete_def max_def)
next
  assume "pct \<le> 100" "1 \<le> files"
  then have "files * pct \<le> files * 100" by simp
  then have "- ((- (files * pct)) div 100) \<le> files" by (rule ceil_div_bound)
  then show "resolve_max_delete pct files \<le> files"
    using \<open>1 \<le> files\<close> by (simp add: resolve_max_delete_def)
next
  assume "files \<le> files'" "pct \<le> pct'"
  then have "0 < files \<Longrightarrow> files * pct \<le> files' * pct'"
    using assms by (intro mult_mono) auto
  then have "0 < files \<Longrightarrow> - ((- (files * pct)) div 100) \<le> - ((- (files' * pct')) div 100)"
    by (rule ceil_div_mono)
  then show "resolve_max_delete pct files \<le> resolve_max_delete pct' files'"
    using \<open>files \<le> files'\<close> by (auto simp: resolve_max_delete_def max_def)
qed

theorem resolve_max_delete_brake_witness:
  "resolve_max_delete 20 11 = 3 \<and> \<not> (4::int) \<le> resolve_max_delete 20 11"
  using resolve_max_delete_brake [of 20 4 11] by (simp add: resolve_max_delete_def)

subsection \<open>Lemmas: the flags\<close>

lemma bind_comparison: "comparison_args x j = Inr cmp \<Longrightarrow>
  build_sync_command x j p src dst m archive =
    Inr (prep_argv p ([operation_for j, src, dst, ''--use-json-log'', ''-v'', ''--stats'', ''5s'', ''--stats-one-line'',
           ''--max-delete'', str_int m] @ archive @ cmp @ filter_args j @ performance_args j @ quiet_period_args j))"
  by (simp add: build_sync_command_def)

text \<open>The flags a preview and a live run share, as they follow the operation and the endpoints.\<close>

definition shared_flags :: "job \<Rightarrow> string list" where
  "shared_flags j = filter_args j @ performance_args j @ quiet_period_args j"

definition plan_flags :: "ext \<Rightarrow> job \<Rightarrow> string list" where
  "plan_flags x j = (case comparison_args x j of Inl _ \<Rightarrow> [] | Inr cmp \<Rightarrow> cmp) @ shared_flags j"

lemma run_phases_trace:
  "fst (run_phases x rc j p src dst s d) \<in>
     {[prep_argv p (check_args rc src dst @ shared_flags j)],
      [prep_argv p (check_args rc src dst @ shared_flags j),
       prep_argv p (plan_sync_args j src dst @ plan_flags x j)]}"
  by (auto simp: run_phases_def Let_def shared_flags_def plan_flags_def split: sum.splits)

lemma rclone_plan_trace:
  assumes "argv \<in> set (fst (rclone_plan x rc j))"
  shows "\<exists>p src dst. argv = prep_argv p (check_args rc src dst @ shared_flags j) \<or>
    argv = prep_argv p (plan_sync_args j src dst @ plan_flags x j)"
proof -
  obtain s d r w where e: "endpoints_for j = (s, d)" "paths_for j = (r, w)"
    by (metis surj_pair)
  obtain p src dst where "argv \<in> set (fst (run_phases x rc j p src dst s d))"
    using assms by (auto simp: rclone_plan_def e split: if_splits sum.splits prod.splits)
  then show ?thesis
    using run_phases_trace [of x rc j p src dst s d] by fastforce
qed

text \<open>A command that cannot change either side: \<open>rclone check\<close>, or any operation with
  \<open>--dry-run\<close> among its flags, read from left to right after the two endpoints, the value of a
  flag that takes one being skipped.\<close>

definition valued_flags :: "string list" where
  "valued_flags = [''--workdir'', ''--max-delete'', ''--conflict-resolve'', ''--conflict-loser'', ''--stats'']"

fun reads_flag :: "string \<Rightarrow> string list \<Rightarrow> bool" where
  "reads_flag f [] = False"
| "reads_flag f [a] = (a = f)"
| "reads_flag f (a # b # as) =
     (a = f \<or> (if a \<in> set valued_flags then reads_flag f as else reads_flag f (b # as)))"

definition harmless :: "string list \<Rightarrow> bool" where
  "harmless args \<longleftrightarrow> args \<noteq> [] \<and> (hd args = ''check'' \<or> reads_flag ''--dry-run'' (drop 3 args))"

text \<open>What the planner relies on, whichever engine it selected: it only runs harmless commands, and
  a plan names every command that was run for it.\<close>

locale sync_engine =
  fixes plan_of :: "ext \<Rightarrow> rclone_ext \<Rightarrow> job \<Rightarrow> string list list \<times> (plan_error + plan)"
  assumes only_harmless: "argv \<in> set (fst (plan_of x rc j)) \<Longrightarrow> \<exists>p args. argv = prep_argv p args \<and> harmless args"
    and names_commands: "snd (plan_of x rc j) = Inr pl \<Longrightarrow>
      length (plan_commands pl) = length (fst (plan_of x rc j)) \<and> fst (plan_of x rc j) \<noteq> []"
begin

lemma never_silent: "fst (plan_of x rc j) = [] \<Longrightarrow> \<exists>e. snd (plan_of x rc j) = Inl e"
  using names_commands [of x rc j] by (cases "snd (plan_of x rc j)") auto

lemma commands_harmless: "\<forall>argv \<in> set (fst (plan_of x rc j)). \<exists>p args. argv = prep_argv p args \<and> harmless args"
  using only_harmless by blast

end

lemma add_warnings_commands: "add_warnings x q j pr s d = Inr pl \<Longrightarrow> plan_commands pl = plan_commands q"
  by (auto simp: add_warnings_def Let_def split: option.splits)

lemma reconcile_commands: "plan_commands (reconcile q pr dry) = plan_commands q"
  by (simp add: reconcile_def Let_def)

lemma run_phases_commands:
  "snd (run_phases x rc j p src dst s d) = Inr pl \<Longrightarrow>
     length (plan_commands pl) = length (fst (run_phases x rc j p src dst s d)) \<and>
     fst (run_phases x rc j p src dst s d) \<noteq> []"
  by (auto simp: run_phases_def Let_def reconcile_commands dest!: add_warnings_commands split: if_splits sum.splits)

lemma harmless_check: "harmless (check_args rc src dst @ fs)"
  by (simp add: harmless_def check_args_def)

lemma harmless_plan_sync: "harmless (plan_sync_args j src dst @ fs)"
  by (cases "fs") (simp_all add: harmless_def plan_sync_args_def)

interpretation one_way: sync_engine rclone_plan
proof
  fix argv x rc j
  assume "argv \<in> set (fst (rclone_plan x rc j))"
  then show "\<exists>p args. argv = prep_argv p args \<and> harmless args"
    using rclone_plan_trace harmless_check harmless_plan_sync by blast
next
  fix x rc j pl
  assume pl: "snd (rclone_plan x rc j) = Inr pl"
  obtain s d r w where e: "endpoints_for j = (s, d)" "paths_for j = (r, w)" by (metis surj_pair)
  obtain p src dst where "rclone_plan x rc j = run_phases x rc j p src dst s d"
    using pl by (auto simp: rclone_plan_def e split: if_splits sum.splits prod.splits)
  then show "length (plan_commands pl) = length (fst (rclone_plan x rc j)) \<and> fst (rclone_plan x rc j) \<noteq> []"
    using run_phases_commands pl by metis
qed

subsection \<open>Lemmas: reconciling\<close>

definition path_dict :: "planned_operation list \<Rightarrow> (string \<times> planned_operation) list" where
  "path_dict ops = fold (\<lambda>p d. dict_put (op_path p) p d) ops []"

lemma path_dict_fold:
  "fst ` set (fold (\<lambda>p d. dict_put (op_path p) p d) ops d0) = fst ` set d0 \<union> op_path ` set ops"
  by (induction ops arbitrary: d0) (auto simp: keys_dict_put)

lemma path_dict_distinct:
  "distinct (map fst d0) \<Longrightarrow> distinct (map fst (fold (\<lambda>p d. dict_put (op_path p) p d) ops d0))"
  by (induction ops arbitrary: d0) (auto simp: distinct_dict_put)

lemma by_path_keys: "fst ` set (by_path ops) = op_path ` set ops"
  using path_dict_fold [of ops "[]"] by (simp add: by_path_def)

lemma by_path_distinct: "distinct (map fst (by_path ops))"
proof -
  have "distinct (map fst (fold (\<lambda>p d. dict_put (op_path p) p d) ops []))"
    using path_dict_distinct [of "[]" ops] by simp
  then show ?thesis by (simp add: by_path_def distinct_map)
qed

lemma by_path_sorted: "sorted (map fst (by_path ops))"
  by (simp add: by_path_def)

lemma path_dict_member: "map_of (fold (\<lambda>p d. dict_put (op_path p) p d) ops d0) q = Some p \<Longrightarrow>
  map_of d0 q = Some p \<or> p \<in> set ops \<and> op_path p = q"
  by (induction ops arbitrary: d0) (fastforce simp: map_of_dict_put split: if_splits)+

definition paths_with :: "plan \<Rightarrow> change_action \<Rightarrow> string list" where
  "paths_with p a = map pc_path (filter (\<lambda>c. pc_action c = a) (plan_changes p))"

lemma count_paths: "count_action p a = length (paths_with p a)"
  by (simp add: count_action_def paths_with_def)

lemma paths_map:
  "map pc_path (filter (\<lambda>c. pc_action c = a) (map f xs)) =
     map (\<lambda>x. pc_path (f x)) (filter (\<lambda>x. pc_action (f x) = a) xs)"
  by (induction xs) auto

lemma change_simps:
  "pc_path (copy_change pr e) = fst e"
  "pc_action (copy_change pr e) = (if fst e \<in> missing_on_dest pr then ActNew else ActUpdated)"
  "pc_path (delete_change e) = fst e" "pc_action (delete_change e) = ActDeleted"
  "pc_path (error_change q) = q" "pc_action (error_change q) = ActError"
  by (simp_all add: copy_change_def delete_change_def error_change_def)

lemma paths_with_reconcile:
  assumes "plan_changes q = []"
  shows "paths_with (reconcile q pr dry) a =
    (case a of
       ActNew \<Rightarrow> filter (\<lambda>p. p \<in> missing_on_dest pr) (map fst (by_path (copies dry)))
     | ActUpdated \<Rightarrow> filter (\<lambda>p. p \<notin> missing_on_dest pr) (map fst (by_path (copies dry)))
     | ActDeleted \<Rightarrow> map fst (by_path (removals dry))
     | ActError \<Rightarrow> sorted_list_of_set (errored pr)
     | _ \<Rightarrow> [])"
  by (cases a)
    (simp_all add: paths_with_def reconcile_def Let_def assms paths_map change_simps filter_map comp_def)

text \<open>The preview of a one way job accounts for every file. The files listed as new are those
  rclone would copy and \<open>check\<close> misses on the destination, the updated ones those it would copy over
  an existing file, the deleted ones those it would remove by either way, each listed once and in
  order; and when every copied path was seen on the source, new, updated and unchanged files add up
  to the files of the source.\<close>

theorem reconcile_accounts:
  assumes fresh: "plan_changes q = []"
    and fin: "finite (present_on_source pr)" "finite (errored pr)"
  shows "let p = reconcile q pr dry; copied = op_path ` set (copies dry); gone = op_path ` set (removals dry)
    in set (paths_with p ActNew) = copied \<inter> missing_on_dest pr \<and>
       set (paths_with p ActUpdated) = copied - missing_on_dest pr \<and>
       set (paths_with p ActDeleted) = gone \<and> set (paths_with p ActError) = errored pr \<and>
       (\<forall>a. distinct (paths_with p a) \<and> sorted (paths_with p a)) \<and>
       deleted_count p = card gone \<and>
       (copied \<subseteq> present_on_source pr \<longrightarrow>
          int (new_count p) + int (updated_count p) + unchanged_count p = int (card (present_on_source pr)))"
proof -
  let ?p = "reconcile q pr dry"
  note pw = paths_with_reconcile [OF fresh, of pr dry]
  have all: "distinct (paths_with ?p a) \<and> sorted (paths_with ?p a)" for a
    unfolding pw using by_path_distinct by_path_sorted fin
    by (cases a) (auto intro: sorted_wrt_filter)
  have new: "set (paths_with ?p ActNew) = op_path ` set (copies dry) \<inter> missing_on_dest pr"
    and upd: "set (paths_with ?p ActUpdated) = op_path ` set (copies dry) - missing_on_dest pr"
    and del: "set (paths_with ?p ActDeleted) = op_path ` set (removals dry)"
    and err: "set (paths_with ?p ActError) = errored pr"
    using fin by_path_keys [of "copies dry"] by_path_keys [of "removals dry"] by (auto simp: pw)
  have count: "count_action ?p a = card (set (paths_with ?p a))" for a
    using all [of a] by (simp add: count_paths distinct_card)
  have unch: "unchanged_count ?p = int (card (present_on_source pr - op_path ` set (copies dry)))"
    by (simp add: reconcile_def Let_def by_path_keys)
  have "int (new_count ?p) + int (updated_count ?p) + unchanged_count ?p = int (card (present_on_source pr))"
    if sub: "op_path ` set (copies dry) \<subseteq> present_on_source pr"
  proof -
    let ?C = "op_path ` set (copies dry)"
    have "card (?C \<inter> missing_on_dest pr) + card (?C - missing_on_dest pr) = card ?C"
      by (subst card_Un_disjoint [symmetric]) (auto intro: arg_cong [of _ _ card])
    moreover have "card (present_on_source pr - ?C) + card ?C = card (present_on_source pr)"
      using card_Diff_subset [of ?C "present_on_source pr"] card_mono [OF fin(1) sub] sub by simp
    ultimately show ?thesis
      by (simp add: new_count_def updated_count_def count new upd unch)
  qed
  then show ?thesis
    using new upd del err all count [of ActDeleted] by (simp add: Let_def deleted_count_def)
qed

definition sample_presence :: presence_report where
  "sample_presence = \<lparr>missing_on_dest = {''a''}, missing_on_source = {''z''}, differing = {''b''},
     matching = {''c'', ''d''}, errored = {}\<rparr>"

definition sample_log :: dry_run_log where
  "sample_log = empty_log\<lparr>operations :=
     [\<lparr>op_path = ''b'', operation = SKIPPED_COPY, op_size = Some 3, replaced = None\<rparr>,
      \<lparr>op_path = ''a'', operation = SKIPPED_COPY, op_size = None, replaced = None\<rparr>,
      \<lparr>op_path = ''z'', operation = SKIPPED_DELETE, op_size = None, replaced = None\<rparr>]\<rparr>"

theorem reconcile_accounts_witness:
  "int (new_count (reconcile empty_plan sample_presence sample_log)) +
     int (updated_count (reconcile empty_plan sample_presence sample_log)) +
     unchanged_count (reconcile empty_plan sample_presence sample_log) = 4 \<and>
   deleted_count (reconcile empty_plan sample_presence sample_log) = 1"
  using reconcile_accounts [of empty_plan sample_presence sample_log]
  by (simp add: empty_plan_def sample_presence_def present_on_source_def Let_def copies_def removals_def
      deletes_def archived_def sample_log_def empty_log_def SKIPPED_COPY_def SKIPPED_DELETE_def SKIPPED_ARCHIVE_def)

subsection \<open>Preview and live run\<close>


definition quiet_rclone :: rclone_ext where
  "quiet_rclone = \<lparr>rc_run = (\<lambda>env argv. Completed 0 [] []), rc_files = (\<lambda>argv path. None), rc_workdir = ''/tmp/p''\<rparr>"

definition bare_prepared :: prepared where
  "bare_prepared = \<lparr>endpoints = [], prep_env = [], base_args = [''--config'', []], secrets = []\<rparr>"


text \<open>The job editor and the engine agree on checksums. For two endpoints with a stored probe and
  a time of probing, the editor offers the checksum comparison exactly when the engine, asked for it,
  adds \<open>--checksum\<close>; when it does not offer it the engine refuses to plan or run the job.\<close>

theorem checksum_gate:
  assumes i: "intersect x now (source_connection j) (dest_connection j) None None = Some i"
    and mode: "job_compare_mode j = CompareChecksum"
    and stored: "capabilities_probed_at (source_connection j) \<noteq> None"
      "capabilities_probed_at (dest_connection j) \<noteq> None"
      "\<exists>d. conn_capabilities (source_connection j) = Some (JObj d)"
      "\<exists>d. conn_capabilities (dest_connection j) = Some (JObj d)"
  shows "if available (opt_checksum i)
    then \<exists>w. comparison_args x j = Inr (''--checksum'' # w)
    else comparison_args x j = Inl (EngineError ChecksumWithoutHash)"
proof -
  obtain a b where ab: "for_connection x (source_connection j) = Some a" "for_connection x (dest_connection j) = Some b"
    and ii: "i = intersect_caps now (source_connection j) a (dest_connection j) b"
    using i by (auto simp: intersect_def bind_eq_Some_conv)
  have "probed a" "probed b"
    using ab stored by (auto simp: for_connection_def probed_def dest!: from_probe_probed)
  then show ?thesis
    by (simp add: ii intersect_checksum comparison_args_def mode ab)
qed

theorem checksum_gate_witness:
  "comparison_args sample_ext
     (sample_job\<lparr>job_compare_mode := CompareChecksum,
        source_connection := sample_connection\<lparr>conn_capabilities := Some (JObj []), capabilities_probed_at := Some 0\<rparr>,
        dest_connection := sample_connection\<lparr>conn_capabilities := Some (JObj []), capabilities_probed_at := Some 0\<rparr>\<rparr>) =
   Inl (EngineError ChecksumWithoutHash)"
proof -
  let ?c = "sample_connection\<lparr>conn_capabilities := Some (JObj []), capabilities_probed_at := Some 0\<rparr>"
  let ?j = "sample_job\<lparr>job_compare_mode := CompareChecksum, source_connection := ?c, dest_connection := ?c\<rparr>"
  have "\<exists>a. for_connection sample_ext ?c = Some a \<and> hashes a = {}"
    by (simp add: for_connection_def from_probe_def read_features_def read_hashes_def falsy_get_def jget_def)
  then obtain a where a: "for_connection sample_ext ?c = Some a" "hashes a = {}" by blast
  have c: "source_connection ?j = ?c" "dest_connection ?j = ?c" by simp_all
  have i: "intersect sample_ext 0 (source_connection ?j) (dest_connection ?j) None None =
      Some (intersect_caps 0 ?c a ?c a)"
    unfolding c by (simp add: intersect_def a)
  have "\<not> available (opt_checksum (intersect_caps 0 ?c a ?c a))"
    by (simp add: intersect_checksum a)
  then show ?thesis using checksum_gate [OF i] by simp
qed

end
