(* ===== verification/Bisync.thy ===== *)
theory Bisync
  imports Engine
begin

text \<open>
  \<open>app/engines/bisync.py\<close>: what a bidirectional dry run says, read with its two regular expressions
  (written as the deterministic matchers they are), the command of a bidirectional run, and the
  bidirectional engine's plan. \<open>settings.bisync_dir\<close> is a parameter.
\<close>

definition RESYNC_REQUIRED_MARKER :: string where
  "RESYNC_REQUIRED_MARKER = ''Must run --resync to recover''"
definition SAFETY_ABORT_MARKER :: string where
  "SAFETY_ABORT_MARKER = ''Run with --force if desired''"

subsection \<open>Matching\<close>

definition lit :: "string \<Rightarrow> string \<Rightarrow> string option" where
  "lit l s = (if prefix l s then Some (drop (length l) s) else None)"

definition spaces1 :: "string \<Rightarrow> string option" where
  "spaces1 s = (if s \<noteq> [] \<and> py_space (hd s) then Some (dropWhile py_space s) else None)"

definition digits1 :: "string \<Rightarrow> (nat \<times> string) option" where
  "digits1 s =
     (if s \<noteq> [] \<and> ascii_digit (hd s)
      then Some (nat_of_digits (takeWhile ascii_digit s), dropWhile ascii_digit s) else None)"

definition path_name :: "string \<Rightarrow> (change_side \<times> string) option" where
  "path_name s =
     (if prefix ''Path1'' s then Some (SideSource, drop 5 s)
      else if prefix ''Path2'' s then Some (SideDest, drop 5 s) else None)"

text \<open>\<open>\s+(\d+) word\<close>\<close>

definition counted :: "string \<Rightarrow> string \<Rightarrow> (nat \<times> string) option" where
  "counted word s =
     Option.bind (spaces1 s) (\<lambda>s1.
     Option.bind (digits1 s1) (\<lambda>(n, s2).
     Option.bind (lit word s2) (\<lambda>s3. Some (n, s3))))"

definition delta_at :: "string \<Rightarrow> (change_side \<times> (nat \<times> nat \<times> nat) \<times> string) option" where
  "delta_at s =
     Option.bind (path_name s) (\<lambda>(side, s1).
     Option.bind (lit '':'' s1) (\<lambda>s2.
     Option.bind (counted '' changes:'' s2) (\<lambda>(_, s3).
     Option.bind (counted '' new,'' s3) (\<lambda>(n, s4).
     Option.bind (counted '' modified,'' s4) (\<lambda>(m, s5).
     Option.bind (counted '' deleted'' s5) (\<lambda>(d, s6). Some (side, (n, m, d), s6)))))))"

text \<open>\<open>finditer\<close>: the matches from left to right, each search starting where the last match ended.\<close>

function deltas_in :: "string \<Rightarrow> (change_side \<times> (nat \<times> nat \<times> nat)) list" where
  "deltas_in [] = []"
| "deltas_in (c # cs) =
     (case delta_at (c # cs) of
        Some (side, v, rest) \<Rightarrow>
          (side, v) # deltas_in (drop (max 1 (length (c # cs) - length rest)) (c # cs))
      | None \<Rightarrow> deltas_in cs)"
  by pat_completeness auto
termination
  by (relation "measure length") auto

text \<open>The third alternative of the change pattern runs to the first dash; its last spaces are the
  separator.\<close>

definition diff_text :: "string \<Rightarrow> (string \<times> string) option" where
  "diff_text s =
     (if prefix ''File is new'' s then Some (''File is new'', drop 11 s)
      else if prefix ''File was deleted'' s then Some (''File was deleted'', drop 16 s)
      else if prefix ''File changed'' s then
        (let t = takeWhile (\<lambda>c. c \<noteq> CHR ''-'') (drop 12 s)
         in Some (''File changed'' @ rstrip_if py_space t, drop (12 + length (rstrip_if py_space t)) s))
      else None)"

definition change_at :: "string \<Rightarrow> (change_side \<times> string \<times> string) option" where
  "change_at s =
     Option.bind (lit ''-'' s) (\<lambda>s1.
     Option.bind (spaces1 s1) (\<lambda>s2.
     Option.bind (path_name s2) (\<lambda>(side, s3).
     Option.bind (spaces1 s3) (\<lambda>s4.
     Option.bind (diff_text s4) (\<lambda>(diff, s5).
     Option.bind (spaces1 s5) (\<lambda>s6.
     Option.bind (lit ''-'' s6) (\<lambda>s7.
     Option.bind (spaces1 s7) (\<lambda>s8.
       if s8 = [] then None else Some (side, diff, rstrip_if py_space s8)))))))))"

fun change_in :: "string \<Rightarrow> (change_side \<times> string \<times> string) option" where
  "change_in [] = None"
| "change_in (c # cs) = (case change_at (c # cs) of Some m \<Rightarrow> Some m | None \<Rightarrow> change_in cs)"

subsection \<open>Reading a dry run\<close>

definition message_lines :: "ext \<Rightarrow> string \<Rightarrow> string list" where
  "message_lines x raw =
     (if \<not> prefix ''{'' (py_strip raw) then [raw]
      else (case ext_loads x (py_strip raw) of
              None \<Rightarrow> [raw]
            | Some (JObj d) \<Rightarrow> (case jstr d ''msg'' of Some m \<Rightarrow> py_splitlines m | None \<Rightarrow> [])
            | Some _ \<Rightarrow> []))"

definition messages :: "ext \<Rightarrow> string \<Rightarrow> string list" where
  "messages x text = concat (map (message_lines x) (py_splitlines text))"

fun lands_on :: "change_side \<Rightarrow> change_side" where
  "lands_on SideSource = SideDest"
| "lands_on SideDest = SideSource"

definition action_for_diff :: "string \<Rightarrow> change_action" where
  "action_for_diff diff =
     (if diff = ''File is new'' then ActNew else if diff = ''File was deleted'' then ActDeleted
      else ActUpdated)"

definition change_of :: "change_side \<times> string \<times> string \<Rightarrow> planned_change" where
  "change_of m =
     (case m of (side, diff0, path) \<Rightarrow>
        let diff = py_strip diff0
        in \<lparr>pc_action = action_for_diff diff, pc_path = path, pc_size = None,
            pc_message = (if action_for_diff diff = ActUpdated then Some diff else None),
            pc_side = Some (lands_on side)\<rparr>)"

definition parse_planned_changes :: "ext \<Rightarrow> string \<Rightarrow> planned_change list" where
  "parse_planned_changes x text = map change_of (List.map_filter change_in (messages x text))"

definition workdir_for :: "string \<Rightarrow> nat \<Rightarrow> string" where
  "workdir_for dir i = dir @ ''/'' @ str_nat i"

record bisync_deltas =
  path1_new :: nat
  path1_modified :: nat
  path1_deleted :: nat
  path2_new :: nat
  path2_modified :: nat
  path2_deleted :: nat
  resync_required :: bool
  safety_abort :: "string option"

definition total_deleted :: "bisync_deltas \<Rightarrow> nat" where
  "total_deleted d = path1_deleted d + path2_deleted d"

definition total_changes :: "bisync_deltas \<Rightarrow> nat" where
  "total_changes d =
     path1_new d + path1_modified d + path1_deleted d + path2_new d + path2_modified d + path2_deleted d"

text \<open>\<open>s.split(sep, 1)[-1]\<close>\<close>

fun after_first :: "string \<Rightarrow> string \<Rightarrow> string option" where
  "after_first sep [] = (if sep = [] then Some [] else None)"
| "after_first sep (c # cs) =
     (if prefix sep (c # cs) then Some (drop (length sep) (c # cs)) else after_first sep cs)"

definition get_text :: "ext \<Rightarrow> (string \<times> json) list \<Rightarrow> string \<Rightarrow> string" where
  "get_text x d k = py_strip (case jget d k of None \<Rightarrow> [] | Some v \<Rightarrow> py_str x v)"

fun abort_in :: "ext \<Rightarrow> string list \<Rightarrow> string option" where
  "abort_in x [] = None"
| "abort_in x (line # ls) =
     (if \<not> contains SAFETY_ABORT_MARKER line then abort_in x ls
      else if prefix ''{'' (py_strip line) then
        (case ext_loads x (py_strip line) of
           Some (JObj d) \<Rightarrow>
             (if get_text x d ''object'' \<noteq> [] then Some (get_text x d ''object'' @ '': '' @ get_text x d ''msg'')
              else Some (get_text x d ''msg''))
         | _ \<Rightarrow> abort_in x ls)
      else Some (py_strip (case after_first ''ERROR :'' (py_strip line) of
                             Some rest \<Rightarrow> rest | None \<Rightarrow> py_strip line)))"

definition find_safety_abort :: "ext \<Rightarrow> string \<Rightarrow> string option" where
  "find_safety_abort x text = abort_in x (py_splitlines text)"

definition needs_resync :: "string \<Rightarrow> bool" where
  "needs_resync text = contains RESYNC_REQUIRED_MARKER text"

text \<open>The last line of a side wins.\<close>

definition side_counts :: "(change_side \<times> (nat \<times> nat \<times> nat)) list \<Rightarrow> change_side \<Rightarrow> nat \<times> nat \<times> nat" where
  "side_counts ms side = (case map_of (rev ms) side of Some v \<Rightarrow> v | None \<Rightarrow> (0, 0, 0))"

definition parse_deltas :: "ext \<Rightarrow> string \<Rightarrow> bisync_deltas" where
  "parse_deltas x text =
     (let ms = deltas_in text;
          (n1, m1, d1) = side_counts ms SideSource; (n2, m2, d2) = side_counts ms SideDest
      in \<lparr>path1_new = n1, path1_modified = m1, path1_deleted = d1, path2_new = n2, path2_modified = m2,
          path2_deleted = d2, resync_required = contains RESYNC_REQUIRED_MARKER text,
          safety_abort = find_safety_abort x text\<rparr>)"

subsection \<open>The command\<close>

definition modify_window_applies :: "job \<Rightarrow> bool" where
  "modify_window_applies j \<longleftrightarrow> job_conflict_resolve j \<notin> {CRNewer, CROlder}"

fun trim_window :: "bool \<Rightarrow> string list \<Rightarrow> string list" where
  "trim_window skip [] = []"
| "trim_window skip (a # as) =
     (if skip then trim_window False as
      else if a = ''--modify-window'' then trim_window True as
      else a # trim_window False as)"

definition comparison_args_for_bisync :: "ext \<Rightarrow> job \<Rightarrow> plan_error + string list" where
  "comparison_args_for_bisync x j =
     bind_res (comparison_args x j) (\<lambda>args.
       Inr (if modify_window_applies j then args else trim_window False args))"

record bisync_flags =
  bf_resync :: bool
  bf_dry_run :: bool
  bf_force :: bool
  bf_unattended :: bool

definition bisync_head :: "job \<Rightarrow> string \<Rightarrow> string \<Rightarrow> string \<Rightarrow> bisync_flags \<Rightarrow> string list" where
  "bisync_head j path1 path2 workdir f =
     [''bisync'', path1, path2, ''--workdir'', workdir, ''--use-json-log'', ''-v'',
      ''--max-delete'', str_int (max_delete_pct j),
      ''--conflict-resolve'', conflict_value (job_conflict_resolve j), ''--conflict-loser'', ''num''] @
     (if bf_resync f then [''--resync''] else []) @
     (if bf_dry_run f then [''--dry-run''] else []) @
     (if bf_force f then [''--force''] else []) @
     (if bf_unattended f then [''--resilient'', ''--recover''] else []) @
     (if check_access j then [''--check-access''] else [])"

definition build_bisync_command ::
  "ext \<Rightarrow> job \<Rightarrow> prepared \<Rightarrow> string \<Rightarrow> string \<Rightarrow> string \<Rightarrow> bisync_flags \<Rightarrow> string list \<Rightarrow> plan_error + string list" where
  "build_bisync_command x j p path1 path2 workdir f archive =
     bind_res (comparison_args_for_bisync x j) (\<lambda>cmp.
       Inr (prep_argv p (bisync_head j path1 path2 workdir f @ archive @ cmp @ filter_args j @
              performance_args j @ quiet_period_args j)))"

subsection \<open>The engine\<close>

definition planning_flags :: bisync_flags where
  "planning_flags = \<lparr>bf_resync = False, bf_dry_run = True, bf_force = False, bf_unattended = False\<rparr>"

definition bisync_report :: "ext \<Rightarrow> job \<Rightarrow> prepared \<Rightarrow> command_result \<Rightarrow> plan_error + plan" where
  "bisync_report x j p r =
     (let text = res_stdout r @ CHR 0x0A # res_stderr r;
          deltas = parse_deltas x text;
          changes = parse_planned_changes x text
      in if resync_required deltas then Inl (EngineError (ListingsLost (job_name j)))
         else Inr (empty_plan\<lparr>plan_changes := changes, plan_commands := [command_line r],
           plan_warnings :=
             (case safety_abort deltas of
                Some (c # cs) \<Rightarrow> [RefusedByRclone (readable p (c # cs))] | _ \<Rightarrow> []) @
             (if total_changes deltas \<noteq> length changes
              then [CountsDisagree (int (total_changes deltas)) (length changes)] else [])\<rparr>))"

definition bisync_plan :: "string \<Rightarrow> ext \<Rightarrow> rclone_ext \<Rightarrow> job \<Rightarrow> string list list \<times> (plan_error + plan)" where
  "bisync_plan bisync_dir x rc j =
     (if job_direction j \<noteq> Bidirectional then ([], Inl (EngineError NotBidirectional))
      else if \<not> bisync_initialized j then ([], Inl (EngineError (NoFirstSync (job_name j))))
      else
        (let (s, d, read_path, write_path) = endpoints_and_paths j
         in case prepare x [(ALIAS_SOURCE, s), (ALIAS_DEST, d)] of
              Inl e \<Rightarrow> ([], Inl (engine_catch e))
            | Inr p \<Rightarrow>
                (case bind_res (prep_spec p ALIAS_SOURCE read_path) (\<lambda>a.
                        bind_res (prep_spec p ALIAS_DEST write_path) (\<lambda>b. Inr (a, b))) of
                   Inl e \<Rightarrow> ([], Inl (engine_catch e))
                 | Inr (path1, path2) \<Rightarrow>
                     (case build_bisync_command x j p path1 path2 (workdir_for bisync_dir (job_id j)) planning_flags [] of
                        Inl e \<Rightarrow> ([], Inl e)
                      | Inr argv \<Rightarrow>
                          ([argv], bisync_report x j p
                             (run_command (secrets p) argv (rc_run rc (prep_env p) argv)))))))"

subsection \<open>Lemmas: the engine\<close>

lemma bisync_plan_cases:
  "(\<exists>e. bisync_plan dir x rc j = ([], Inl e)) \<or>
   (\<exists>p argv r path1 path2. bisync_plan dir x rc j = ([argv], bisync_report x j p r) \<and>
      build_bisync_command x j p path1 path2 (workdir_for dir (job_id j)) planning_flags [] = Inr argv)"
proof -
  obtain s d r w where e: "endpoints_and_paths j = (s, d, r, w)" by (metis surj_pair)
  show ?thesis
    unfolding bisync_plan_def e by (auto split: sum.splits prod.splits)
qed

lemma reads_flag_hd [simp]: "reads_flag f (f # as)"
  by (cases as) simp_all

lemma bisync_head_dry: "bf_dry_run f \<Longrightarrow> harmless (bisync_head j p1 p2 w f @ rest)"
  by (cases "bf_resync f") (simp_all add: harmless_def bisync_head_def valued_flags_def)

lemma bisync_report_commands: "bisync_report x j p r = Inr pl \<Longrightarrow> length (plan_commands pl) = 1"
  by (auto simp: bisync_report_def Let_def split: if_splits)

interpretation two_way: sync_engine "bisync_plan dir"
proof
  fix argv x rc j
  assume a: "argv \<in> set (fst (bisync_plan dir x rc j))"
  show "\<exists>p args. argv = prep_argv p args \<and> harmless args"
    using bisync_plan_cases [of dir x rc j]
  proof (elim disjE exE conjE)
    fix p argv' r path1 path2
    assume "bisync_plan dir x rc j = ([argv'], bisync_report x j p r)"
      "build_bisync_command x j p path1 path2 (workdir_for dir (job_id j)) planning_flags [] = Inr argv'"
    then obtain rest where
      "argv = prep_argv p (bisync_head j path1 path2 (workdir_for dir (job_id j)) planning_flags @ rest)"
      using a by (auto simp: build_bisync_command_def bind_res_Inr)
    moreover have "bf_dry_run planning_flags" by (simp add: planning_flags_def)
    ultimately show ?thesis using bisync_head_dry by blast
  qed (use a in simp)
next
  fix x rc j pl
  assume pl: "snd (bisync_plan dir x rc j) = Inr pl"
  show "length (plan_commands pl) = length (fst (bisync_plan dir x rc j)) \<and> fst (bisync_plan dir x rc j) \<noteq> []"
    using bisync_plan_cases [of dir x rc j] bisync_report_commands pl by auto
qed

text \<open>A bidirectional dry run that fails for a reason the two markers do not cover (the endpoint is
  unreachable, the password is wrong) is reported as an empty plan without an error or a warning: the
  engine never looks at the exit code.\<close>

lemma bisync_failure_is_empty_plan:
  assumes "\<not> contains RESYNC_REQUIRED_MARKER (res_stdout r @ CHR 0x0A # res_stderr r)"
    and "deltas_in (res_stdout r @ CHR 0x0A # res_stderr r) = []"
    and "find_safety_abort x (res_stdout r @ CHR 0x0A # res_stderr r) = None"
    and "parse_planned_changes x (res_stdout r @ CHR 0x0A # res_stderr r) = []"
  shows "bisync_report x j p r = Inr (empty_plan\<lparr>plan_commands := [command_line r]\<rparr>)"
  using assms
  by (simp add: bisync_report_def Let_def parse_deltas_def side_counts_def total_changes_def empty_plan_def)

subsection \<open>Lemmas: the flags\<close>

lemma window_trim: "trim_window False (window_args j) = []"
  by (simp add: window_args_def given_def)

text \<open>A policy that compares modification times never reaches bisync together with a modify
  window, which would disable it: for \<open>newer\<close> and \<open>older\<close> the comparison flags are exactly those of
  a one way job without the window and its value; for every other policy they are passed as they
  are, and a job one way sync refuses is refused here with the same error.\<close>

theorem bisync_window_dropped:
  "comparison_args_for_bisync x j =
     (case comparison_args x j of
        Inl e \<Rightarrow> Inl e
      | Inr args \<Rightarrow>
          Inr (if job_conflict_resolve j = CRNewer \<or> job_conflict_resolve j = CROlder
               then (if job_compare_mode j = CompareChecksum then [''--checksum'']
                     else if job_compare_mode j = SizeOnly then [''--size-only''] else [])
               else args)) \<and>
   (\<forall>args. comparison_args_for_bisync x j = Inr args \<longrightarrow>
      job_conflict_resolve j \<in> {CRNewer, CROlder} \<longrightarrow> ''--modify-window'' \<notin> set args)"
  by (cases "job_compare_mode j")
    (auto simp: comparison_args_for_bisync_def comparison_args_def modify_window_applies_def window_trim
      split: option.splits if_splits)

theorem bisync_window_dropped_witness:
  "comparison_args_for_bisync sample_ext (sample_job\<lparr>job_compare_mode := SizeOnly\<rparr>) = Inr [''--size-only'']"
  using bisync_window_dropped [of sample_ext "sample_job\<lparr>job_compare_mode := SizeOnly\<rparr>"]
  by (simp add: comparison_args_def sample_job_def)

subsection \<open>Lemmas: reading changes\<close>

lemma lit_append [simp]: "lit l (l @ s) = Some s"
  by (simp add: lit_def)

lemma spaces1_blanks: "0 < n \<Longrightarrow> s = [] \<or> \<not> py_space (hd s) \<Longrightarrow> spaces1 (replicate n (CHR '' '') @ s) = Some s"
proof -
  assume n: "0 < n" and s: "s = [] \<or> \<not> py_space (hd s)"
  have b: "py_space (CHR '' '')" by (simp add: py_space_def)
  then have "dropWhile py_space (replicate n (CHR '' '') @ s) = s"
    using s by (induction n) (auto, cases s, auto)
  then show ?thesis using n b by (cases n) (simp_all add: spaces1_def)
qed

definition diff_line :: "change_side \<Rightarrow> nat \<Rightarrow> nat \<Rightarrow> string \<Rightarrow> nat \<Rightarrow> string \<Rightarrow> string" where
  "diff_line side a b diff n path =
     ''-'' @ replicate a (CHR '' '') @ (if side = SideSource then ''Path1'' else ''Path2'') @
     replicate b (CHR '' '') @ diff @ replicate n (CHR '' '') @ ''-'' @ '' '' @ path"

lemma path_name_side: "path_name ((if side = SideSource then ''Path1'' else ''Path2'') @ s) = Some (side, s)"
  by (cases side) (simp_all add: path_name_def)

lemma diff_text_new: "diff_text (''File is new'' @ s) = Some (''File is new'', s)"
  by (simp add: diff_text_def)

lemma diff_text_deleted: "diff_text (''File was deleted'' @ s) = Some (''File was deleted'', s)"
  by (simp add: diff_text_def)

lemma diff_text_changed:
  assumes "CHR ''-'' \<notin> set t" "t = [] \<or> \<not> py_space (last t)"
  shows "diff_text ((''File changed'' @ t) @ replicate n (CHR '' '') @ ''-'' @ s) =
    Some (''File changed'' @ t, replicate n (CHR '' '') @ ''-'' @ s)"
proof -
  have "takeWhile (\<lambda>c. c \<noteq> CHR ''-'') (t @ replicate n (CHR '' '') @ ''-'' @ s) = t @ replicate n (CHR '' '')"
    using assms(1) by (simp add: takeWhile_append takeWhile_replicate)
  moreover have "rstrip_if py_space (t @ replicate n (CHR '' '')) = t"
  proof (induction n)
    case 0
    then show ?case using assms(2) by (simp add: rstrip_if_id)
  next
    case (Suc n)
    have "t @ replicate (Suc n) (CHR '' '') = (t @ replicate n (CHR '' '')) @ [CHR '' '']"
      by (simp add: replicate_append_same)
    then show ?case using Suc by (simp only: rstrip_if_def rev_append) (simp add: py_space_def)
  qed
  ultimately show ?thesis by (simp add: diff_text_def Let_def drop_Cons')
qed

lemma change_of_line:
  assumes diff: "diff = ''File is new'' \<or> diff = ''File was deleted'' \<or>
      (\<exists>t. diff = ''File changed'' @ t \<and> CHR ''-'' \<notin> set t \<and> (t = [] \<or> \<not> py_space (last t)))"
    and blanks: "0 < a" "0 < b" "0 < n"
    and path: "path \<noteq> []" "\<not> py_space (hd path)" "\<not> py_space (last path)"
  shows "change_in (diff_line side a b diff n path) = Some (side, diff, path)"
proof -
  let ?P = "if side = SideSource then ''Path1'' else ''Path2''"
  have nsp: "\<not> py_space (CHR ''P'')" "\<not> py_space (CHR ''F'')" "\<not> py_space (CHR ''-'')"
    by (simp_all add: py_space_def)
  have d: "diff_text (diff @ replicate n (CHR '' '') @ ''-'' @ '' '' @ path) =
      Some (diff, replicate n (CHR '' '') @ ''-'' @ '' '' @ path)"
    using diff diff_text_new diff_text_deleted diff_text_changed by metis
  have s1: "spaces1 (replicate a (CHR '' '') @ ?P @ r) = Some (?P @ r)" for r
    by (rule spaces1_blanks) (use blanks nsp in auto)
  have s2: "spaces1 (replicate b (CHR '' '') @ diff @ r) = Some (diff @ r)" for r
    by (rule spaces1_blanks) (use blanks nsp diff in auto)
  have s3: "spaces1 (replicate n (CHR '' '') @ ''-'' @ r) = Some (''-'' @ r)" for r
    by (rule spaces1_blanks) (use blanks nsp in auto)
  have s4: "spaces1 ('' '' @ path) = Some path"
    using spaces1_blanks [of 1 path] path by simp
  have "change_at (diff_line side a b diff n path) = Some (side, diff, rstrip_if py_space path)"
    unfolding change_at_def diff_line_def
    by (simp only: lit_append s1 path_name_side s2 d s3 s4 bind.bind_lunit prod.case) (use path in simp)
  moreover have "rstrip_if py_space path = path" using path by (intro rstrip_if_id) simp
  ultimately show ?thesis by (simp add: diff_line_def)
qed

text \<open>The preview of a bidirectional job reads rclone's difference lines back exactly: for either
  side, any spacing, any of the three kinds of difference and any path whatever (dashes and words of
  the pattern included) that has no blank at its ends, the line as rclone prints it gives that path,
  the action of the difference, the attributes as the message of a modification, and the side the
  change lands on, which is the opposite of the one it was found on.\<close>

theorem bisync_change_roundtrip:
  assumes diff: "diff = ''File is new'' \<or> diff = ''File was deleted'' \<or>
      (\<exists>t. diff = ''File changed'' @ t \<and> CHR ''-'' \<notin> set t \<and> (t = [] \<or> \<not> py_space (last t)))"
    and blanks: "0 < a" "0 < b" "0 < n"
    and path: "path \<noteq> []" "\<not> py_space (hd path)" "\<not> py_space (last path)"
  shows "map_option change_of (change_in (diff_line side a b diff n path)) =
    Some \<lparr>pc_action = (if diff = ''File is new'' then ActNew else if diff = ''File was deleted'' then ActDeleted
                       else ActUpdated),
          pc_path = path, pc_size = None,
          pc_message = (if diff = ''File is new'' \<or> diff = ''File was deleted'' then None else Some diff),
          pc_side = Some (case side of SideSource \<Rightarrow> SideDest | SideDest \<Rightarrow> SideSource)\<rparr>"
proof -
  have "\<not> py_space (CHR ''F'')" "\<not> py_space (CHR ''w'')" "\<not> py_space (CHR ''d'')"
    by (simp_all add: py_space_def)
  then have "diff \<noteq> [] \<and> \<not> py_space (hd diff) \<and> \<not> py_space (last diff)"
    using diff by (auto simp: last_append split: if_splits)
  then have "py_strip diff = diff" unfolding py_strip_def by (intro strip_if_id) simp
  then show ?thesis
    using change_of_line [OF assms, of side]
    by (cases side) (auto simp: change_of_def action_for_diff_def Let_def)
qed

theorem bisync_change_roundtrip_witness:
  "map_option pc_side (map_option change_of
     (change_in (diff_line SideSource 1 13 ''File is new'' 14 ''a - File was deleted.txt''))) = Some (Some SideDest)"
proof -
  have "''a - File was deleted.txt'' \<noteq> []" "\<not> py_space (hd ''a - File was deleted.txt'')"
    "\<not> py_space (last ''a - File was deleted.txt'')"
    by (simp_all add: py_space_def)
  note E = bisync_change_roundtrip [OF _ _ _ _ this, of "''File is new''" 1 13 14 SideSource]
  show ?thesis by (subst E) simp_all
qed

end
