(* ===== verification/Planner.thy ===== *)
theory Planner
  imports Runs Bisync
begin

text \<open>
  \<open>app/jobs/planner.py\<close>: the engine a job is planned with, and a planning run from its queued row to
  its outcome, with what it persists and what its watchers are told. The wording of messages is the
  parameter \<open>say\<close>; the engine's answer comes from \<open>plan_job\<close>. The second component of a result is
  whether an exception left \<open>run_now\<close>, which \<open>_guarded\<close> only logs. The pool that bounds how many
  runs go at once is modelled by its size alone.
\<close>

datatype brake_reason =
    FirstSyncMissing string
  | PreflightAbort string
  | SentinelMissing string string
  | TooManyDeletions int int int int     \<comment> \<open>deletions, percentage, threshold, files\<close>

datatype message =
    MsgEngine engine_reason
  | MsgRemote remote_reason
  | MsgArchive archive_reason
  | MsgBrake brake_reason
  | MsgJobDeleted
  | MsgNeedsFirstSync string
  | MsgRefused string
  | MsgWarning plan_warning
  | MsgArchivedTo string
  | MsgPlanned nat nat nat
  | MsgLive run_status nat nat nat
  | MsgReconciled run_status nat
  | MsgFailed message
  | MsgRefusedRun brake_reason
  | MsgStatus string

definition MAX_PERSISTED_CHANGES :: nat where "MAX_PERSISTED_CHANGES = 5000"

subsection \<open>Engines\<close>

definition engine_for :: "string \<Rightarrow> job \<Rightarrow> ext \<Rightarrow> rclone_ext \<Rightarrow> job \<Rightarrow> string list list \<times> (plan_error + plan)" where
  "engine_for dir j =
     (case job_engine j of EngRclone \<Rightarrow>
        if job_direction j = Bidirectional then bisync_plan dir else rclone_plan)"

definition plan_job :: "string \<Rightarrow> ext \<Rightarrow> rclone_ext \<Rightarrow> job \<Rightarrow> string list list \<times> (plan_error + plan)" where
  "plan_job dir x rc j = engine_for dir j x rc j"

interpretation planner: sync_engine "plan_job dir"
proof
  fix argv x rc j
  show "argv \<in> set (fst (plan_job dir x rc j)) \<Longrightarrow> \<exists>p args. argv = prep_argv p args \<and> harmless args"
    using one_way.only_harmless two_way.only_harmless
    by (cases "job_engine j") (auto simp: plan_job_def engine_for_def split: if_splits)
next
  fix x rc j pl
  show "snd (plan_job dir x rc j) = Inr pl \<Longrightarrow>
      length (plan_commands pl) = length (fst (plan_job dir x rc j)) \<and> fst (plan_job dir x rc j) \<noteq> []"
    using one_way.names_commands two_way.names_commands
    by (cases "job_engine j") (auto simp: plan_job_def engine_for_def split: if_splits)
qed

subsection \<open>What a run leaves\<close>

definition emit :: "nat \<Rightarrow> event_kind \<Rightarrow> string \<Rightarrow> world \<Rightarrow> world" where
  "emit i k text w = w\<lparr>brk := publish i \<lparr>ev_kind = k, ev_text = text, ev_data = []\<rparr> (brk w)\<rparr>"

definition finish_failed :: "(message \<Rightarrow> string) \<Rightarrow> datetime \<Rightarrow> job_run \<Rightarrow> message \<Rightarrow> world \<Rightarrow> world \<times> bool" where
  "finish_failed say t r m w =
     (case write_run (r\<lparr>run_status_of := Failed, finished_at := Some t, errors_count := 1,
                       run_summary := Some [(''error'', JStr (say m))]\<rparr>) (db w) of
        None \<Rightarrow> (w, True)
      | Some st \<Rightarrow> (emit (run_id r) EvDone (say (MsgFailed m)) (w\<lparr>db := st\<rparr>), False))"

definition threshold_of :: "job \<Rightarrow> plan \<Rightarrow> int" where
  "threshold_of j pl =
     (if job_direction j = Bidirectional then max_delete_pct j
      else resolve_max_delete (max_delete_pct j) (plan_dest_count pl))"

definition change_row :: "nat \<Rightarrow> change_side \<Rightarrow> planned_change \<Rightarrow> job_run_change" where
  "change_row i side c =
     \<lparr>chg_run_id = i, chg_action = pc_action c, chg_side = (case pc_side c of None \<Rightarrow> side | Some s \<Rightarrow> s),
      chg_path = pc_path c, chg_size = pc_size c, peak_speed_bps = None, chg_mtime = None,
      chg_message = pc_message c\<rparr>"

definition jnat :: "nat \<Rightarrow> json" where "jnat n = JInt (int n)"

definition rows_omitted :: "plan \<Rightarrow> nat" where
  "rows_omitted pl = length (plan_changes pl) - MAX_PERSISTED_CHANGES"

definition plan_summary :: "(message \<Rightarrow> string) \<Rightarrow> job \<Rightarrow> plan \<Rightarrow> (string \<times> json) list" where
  "plan_summary say j pl =
     [(''new'', jnat (new_count pl)), (''updated'', jnat (updated_count pl)),
      (''deleted'', jnat (deleted_count pl)), (''unchanged'', JInt (unchanged_count pl)),
      (''errors'', JArr (map JStr (plan_errors pl))),
      (''warnings'', JArr (map (\<lambda>x. JStr (say (MsgWarning x))) (plan_warnings pl))),
      (''bytes'', JInt (bytes_to_transfer pl)), (''dest_file_count'', JInt (plan_dest_count pl)),
      (''max_delete_threshold'', JInt (threshold_of j pl)),
      (''bidirectional'', JBool (job_direction j = Bidirectional)),
      (''truncated'', JBool (plan_truncated pl)), (''rows_omitted'', jnat (rows_omitted pl))]"

definition planned_run :: "(message \<Rightarrow> string) \<Rightarrow> datetime \<Rightarrow> job_run \<Rightarrow> job \<Rightarrow> plan \<Rightarrow> job_run" where
  "planned_run say t r j pl =
     r\<lparr>run_status_of := Success, finished_at := Some t, run_exit_code := Some 0,
       files_transferred := int (new_count pl + updated_count pl), files_deleted := int (deleted_count pl),
       bytes_transferred := bytes_to_transfer pl, errors_count := int (error_count pl),
       command_redacted := Some (join_with [CHR 0x0A] (plan_commands pl)),
       run_summary := Some (plan_summary say j pl)\<rparr>"

definition persist_plan :: "(message \<Rightarrow> string) \<Rightarrow> datetime \<Rightarrow> job_run \<Rightarrow> job \<Rightarrow> plan \<Rightarrow> store \<Rightarrow> store option" where
  "persist_plan say t r j pl st =
     map_option (insert_changes
         (map (change_row (run_id r) (side_for j)) (take MAX_PERSISTED_CHANGES (plan_changes pl))))
       (write_run (planned_run say t r j pl) st)"

definition PLANNING_STATUS :: string where
  "PLANNING_STATUS = ''Comparing both endpoints. Nothing is being changed.''"

subsection \<open>A planning run\<close>

definition plan_body ::
  "(message \<Rightarrow> string) \<Rightarrow> string \<Rightarrow> ext \<Rightarrow> rclone_ext \<Rightarrow> datetime \<Rightarrow> datetime \<Rightarrow> nat \<Rightarrow> world \<Rightarrow> world \<times> bool" where
  "plan_body say dir x rc t0 t1 i w =
     (case find_run (db w) i of
        None \<Rightarrow> (w, False)
      | Some r \<Rightarrow>
          (case find_job (db w) (run_job_id r) of
             None \<Rightarrow> finish_failed say t0 r MsgJobDeleted w
           | Some j \<Rightarrow>
               (let r1 = r\<lparr>run_status_of := Running, started_at := Some t0\<rparr>
                in case write_run r1 (db w) of
                     None \<Rightarrow> (w, True)
                   | Some st \<Rightarrow>
                       (let w1 = emit i EvStatus PLANNING_STATUS (w\<lparr>db := st\<rparr>)
                        in case snd (plan_job dir x rc j) of
                             Inl (EngineError e) \<Rightarrow> finish_failed say t1 r1 (MsgEngine e) w1
                           | Inl _ \<Rightarrow> (w1, True)
                           | Inr pl \<Rightarrow>
                               (case persist_plan say t1 r1 j pl (db w1) of
                                  None \<Rightarrow> (w1, True)
                                | Some st2 \<Rightarrow>
                                    (emit i EvDone (say (MsgPlanned (new_count pl) (updated_count pl) (deleted_count pl)))
                                       (w1\<lparr>db := st2\<rparr>), False))))))"

definition plan_run_now ::
  "(message \<Rightarrow> string) \<Rightarrow> string \<Rightarrow> ext \<Rightarrow> rclone_ext \<Rightarrow> datetime \<Rightarrow> datetime \<Rightarrow> nat \<Rightarrow> world \<Rightarrow> world \<times> bool" where
  "plan_run_now say dir x rc t0 t1 i w =
     (let (w', raised) = plan_body say dir x rc t0 t1 i w in (w'\<lparr>brk := finish i (brk w')\<rparr>, raised))"

text \<open>\<open>wait_for\<close> with the statuses its polls see before the deadline; None is TimeoutError.\<close>

fun wait_for :: "run_status option list \<Rightarrow> run_status option" where
  "wait_for [] = None"
| "wait_for (s # ss) =
     (case s of Some st \<Rightarrow> if terminal_status st then Some st else wait_for ss | None \<Rightarrow> wait_for ss)"

subsection \<open>Lemmas\<close>

lemma emit_simps [simp]:
  "db (emit i k s w) = db w" "live_queue (emit i k s w) = live_queue w" "plan_queue (emit i k s w) = plan_queue w"
  "procs (emit i k s w) = procs w" "signalled (emit i k s w) = signalled w" "act (emit i k s w) = act w"
  "log_files (emit i k s w) = log_files w" "launched (emit i k s w) = launched w"
  by (simp_all add: emit_def)

lemma find_run_write:
  assumes "write_run r st = Some st'"
  shows "find_run st' i = (if i = run_id r then Some r else find_run st i)"
proof -
  have st': "st' = st\<lparr>db_runs := map (\<lambda>q. if run_id q = run_id r then r else q) (db_runs st)\<rparr>"
    and ex: "find_run st (run_id r) \<noteq> None"
    using assms by (auto simp: write_run_def split: if_splits)
  have gen: "List.find (\<lambda>q. run_id q = i) (map (\<lambda>q. if run_id q = run_id r then r else q) rs) =
      (if i = run_id r then if List.find (\<lambda>q. run_id q = i) rs = None then None else Some r
       else List.find (\<lambda>q. run_id q = i) rs)" for rs
    by (induction rs) auto
  show ?thesis using ex gen [of "db_runs st"] by (auto simp: st' find_run_def)
qed

lemma write_run_jobs: "write_run r st = Some st' \<Longrightarrow> db_jobs st' = db_jobs st \<and> db_changes st' = db_changes st"
  by (auto simp: write_run_def split: if_splits)

lemma write_run_inactive:
  "find_run st (run_id r) \<noteq> None \<Longrightarrow> \<not> active_status (run_status_of r) \<Longrightarrow> \<exists>st'. write_run r st = Some st'"
  by (simp add: write_run_def)

lemma find_run_changes [simp]: "find_run (insert_changes cs st) i = find_run st i"
  by (simp add: find_run_def insert_changes_def)

text \<open>C4. Planning is read only. Whatever the job, its endpoints and the answers of rclone, every command
  a planning run executes is an \<open>rclone check\<close> or carries \<open>--dry-run\<close> among the flags it reads; and a
  plan is only ever reported after at least one command, all of which it lists.\<close>

theorem planning_is_read_only:
  "(\<forall>argv \<in> set (fst (plan_job dir x rc j)). \<exists>p args. argv = prep_argv p args \<and> args \<noteq> [] \<and>
      (hd args = ''check'' \<or> reads_flag ''--dry-run'' (drop 3 args))) \<and>
   (\<forall>pl. snd (plan_job dir x rc j) = Inr pl \<longrightarrow>
      fst (plan_job dir x rc j) \<noteq> [] \<and> length (plan_commands pl) = length (fst (plan_job dir x rc j)))"
  using planner.commands_harmless [of dir x rc j] planner.names_commands [of dir x rc j]
  unfolding harmless_def by blast

theorem planning_is_read_only_witness:
  "list_all (\<lambda>argv. \<exists>p args. argv = prep_argv p args \<and> args \<noteq> [] \<and>
      (hd args = ''check'' \<or> reads_flag ''--dry-run'' (drop 3 args)))
    (fst (plan_job ''/config/bisync'' sample_ext quiet_rclone
      (sample_job\<lparr>job_direction := Bidirectional, bisync_initialized := True\<rparr>)))"
  unfolding list_all_iff
  using planning_is_read_only [of "''/config/bisync''" sample_ext quiet_rclone
      "sample_job\<lparr>job_direction := Bidirectional, bisync_initialized := True\<rparr>"] by blast

text \<open>How a planning run ends, by cases of its row, its job and the engine's answer.\<close>

lemma plan_body_missing: "find_run (db w) i = None \<Longrightarrow> plan_body say dir x rc t0 t1 i w = (w, False)"
  by (simp add: plan_body_def)

lemma finish_failed_result:
  assumes "find_run (db w) (run_id r) \<noteq> None"
  shows "\<exists>st. finish_failed say t r m w = (emit (run_id r) EvDone (say (MsgFailed m)) (w\<lparr>db := st\<rparr>), False) \<and>
    find_run st (run_id r) =
      Some (r\<lparr>run_status_of := Failed, finished_at := Some t, errors_count := 1,
              run_summary := Some [(''error'', JStr (say m))]\<rparr>)"
proof -
  let ?r = "r\<lparr>run_status_of := Failed, finished_at := Some t, errors_count := 1,
              run_summary := Some [(''error'', JStr (say m))]\<rparr>"
  obtain st where st: "write_run ?r (db w) = Some st"
    using write_run_inactive [of "db w" ?r] assms by auto
  then show ?thesis using find_run_write [OF st, of "run_id r"] by (auto simp: finish_failed_def)
qed

lemma start_run:
  assumes r: "find_run (db w) i = Some r"
    and alone: "\<forall>q \<in> set (active_runs (db w) (run_job_id r)). run_id q = i"
  shows "\<exists>st. write_run (r\<lparr>run_status_of := Running, started_at := Some t\<rparr>) (db w) = Some st \<and>
    find_run st i = Some (r\<lparr>run_status_of := Running, started_at := Some t\<rparr>) \<and>
    db_jobs st = db_jobs (db w) \<and> db_changes st = db_changes (db w)"
proof -
  have i: "run_id r = i" using find_run_Some [OF r] by simp
  let ?r = "r\<lparr>run_status_of := Running, started_at := Some t\<rparr>"
  obtain st where st: "write_run ?r (db w) = Some st"
    using r alone i by (auto simp: write_run_def list_ex_iff)
  then show ?thesis
    using find_run_write [OF st, of i] write_run_jobs [OF st] i by auto
qed

lemma finish_failed_other:
  assumes "finish_failed say t r m w = (w', raised)"
  shows "db_jobs (db w') = db_jobs (db w) \<and> db_changes (db w') = db_changes (db w) \<and>
    live_queue w' = live_queue w \<and> procs w' = procs w"
  using assms write_run_jobs by (auto simp: finish_failed_def split: option.splits)

lemma persist_plan_result:
  assumes "find_run st (run_id r) \<noteq> None"
  shows "\<exists>st'. persist_plan say t r j pl st = Some st' \<and>
    find_run st' (run_id r) = Some (planned_run say t r j pl) \<and> db_jobs st' = db_jobs st \<and>
    db_changes st' = db_changes st @
      map (change_row (run_id r) (side_for j)) (take MAX_PERSISTED_CHANGES (plan_changes pl))"
proof -
  have id: "run_id (planned_run say t r j pl) = run_id r" by (simp add: planned_run_def)
  obtain st1 where st1: "write_run (planned_run say t r j pl) st = Some st1"
    using write_run_inactive [of st "planned_run say t r j pl"] assms by (auto simp: planned_run_def)
  then show ?thesis
    using find_run_write [OF st1, of "run_id r"] write_run_jobs [OF st1] id
    by (simp add: persist_plan_def) (simp add: insert_changes_def)
qed

lemma planning_runs_end:
  assumes r: "find_run (db w) i = Some r"
    and alone: "\<forall>q \<in> set (active_runs (db w) (run_job_id r)). run_id q = i"
    and run: "plan_run_now say dir x rc t0 t1 i w = (w', raised)"
  shows "(case find_job (db w) (run_job_id r) of
      None \<Rightarrow> \<not> raised \<and> map_option run_status_of (find_run (db w') i) = Some Failed
    | Some j \<Rightarrow>
        (case snd (plan_job dir x rc j) of
           Inl (EngineError e) \<Rightarrow> \<not> raised \<and> (\<exists>q. find_run (db w') i = Some q \<and> run_status_of q = Failed \<and>
             run_summary q = Some [(''error'', JStr (say (MsgEngine e)))])
         | Inl _ \<Rightarrow> raised \<and> map_option run_status_of (find_run (db w') i) = Some Running
         | Inr pl \<Rightarrow> \<not> raised \<and> (\<exists>q. find_run (db w') i = Some q \<and> run_status_of q = Success \<and>
             files_transferred q = int (new_count pl) + int (updated_count pl) \<and>
             files_deleted q = int (deleted_count pl) \<and> bytes_transferred q = bytes_to_transfer pl) \<and>
             (\<exists>rows. db_changes (db w') = db_changes (db w) @ rows \<and>
                rows = map (change_row i (side_for j)) (take 5000 (plan_changes pl)) \<and>
                length rows + rows_omitted pl = length (plan_changes pl)))) \<and>
    db_jobs (db w') = db_jobs (db w) \<and> live_queue w' = live_queue w \<and> procs w' = procs w \<and>
    backlog_for i (brk w') = []"
proof -
  have i: "run_id r = i" using find_run_Some [OF r] by simp
  obtain v where v: "plan_body say dir x rc t0 t1 i w = (v, raised)" and w': "w' = v\<lparr>brk := finish i (brk v)\<rparr>"
    using run by (cases "plan_body say dir x rc t0 t1 i w") (auto simp: plan_run_now_def)
  have gone: "backlog_for i (brk w') = []"
    by (simp add: w' backlog_for_def finish_def Let_def get_list_def map_of_dict_del)
  let ?r = "r\<lparr>run_status_of := Running, started_at := Some t0\<rparr>"
  obtain st where st: "write_run ?r (db w) = Some st" "find_run st i = Some ?r"
    "db_jobs st = db_jobs (db w)" "db_changes st = db_changes (db w)"
    using start_run [OF r alone, of t0] by blast
  show ?thesis
  proof (cases "find_job (db w) (run_job_id r)")
    case None
    then have b: "finish_failed say t0 r MsgJobDeleted w = (v, raised)"
      using v r by (simp add: plan_body_def)
    then show ?thesis
      using None finish_failed_result [of w r say t0 MsgJobDeleted] finish_failed_other [OF b] r i gone
      by (auto simp: w')
  next
    case (Some j)
    define w1 where "w1 = emit i EvStatus PLANNING_STATUS (w\<lparr>db := st\<rparr>)"
    have w1: "db w1 = st" "live_queue w1 = live_queue w" "procs w1 = procs w" by (simp_all add: w1_def)
    show ?thesis
    proof (cases "snd (plan_job dir x rc j)")
      case (Inr pl)
      obtain st2 where st2: "persist_plan say t1 ?r j pl st = Some st2"
        "find_run st2 i = Some (planned_run say t1 ?r j pl)" "db_jobs st2 = db_jobs st"
        "db_changes st2 = db_changes st @ map (change_row i (side_for j)) (take MAX_PERSISTED_CHANGES (plan_changes pl))"
        using persist_plan_result [of st ?r say t1 j pl] st i by auto
      have "v = emit i EvDone (say (MsgPlanned (new_count pl) (updated_count pl) (deleted_count pl))) (w1\<lparr>db := st2\<rparr>) \<and>
          \<not> raised"
        using v r Some Inr st(1) st2(1) by (auto simp: plan_body_def Let_def w1_def)
      then show ?thesis
        using Some Inr st st2 gone w1
        by (auto simp: w' planned_run_def rows_omitted_def MAX_PERSISTED_CHANGES_def)
    next
      case (Inl e)
      show ?thesis
      proof (cases e)
        case (EngineError m)
        then have b: "finish_failed say t1 ?r (MsgEngine m) w1 = (v, raised)"
          using v r Some Inl st(1) by (simp add: plan_body_def Let_def w1_def)
        then show ?thesis
          using Some Inl EngineError finish_failed_result [of w1 ?r say t1 "MsgEngine m"]
            finish_failed_other [OF b] st i gone w1
          by (auto simp: w')
      qed (use v r Some Inl st gone in \<open>auto simp: plan_body_def Let_def w'\<close>)
    qed
  qed
qed

text \<open>C38. The outcome of a planning run whose row is there and whose job has no other active run. A
  missing job or an error of the engine gives a failed run that says why; a plan gives a successful
  run whose totals are the plan's, with at most 5000 of its changes stored, in order and on the side
  they land on, and the number left out; an exception no handler names escapes, and the row stays
  running. On every path the jobs are untouched, nothing is started or signalled, and the stream of
  the run has ended for whoever joins later.\<close>

theorem planning_run_outcome:
  assumes r: "find_run (db w) i = Some r"
    and alone: "\<forall>q \<in> set (active_runs (db w) (run_job_id r)). run_id q = i"
    and run: "plan_run_now say dir x rc t0 t1 i w = (w', raised)"
  shows "(case find_job (db w) (run_job_id r) of
      None \<Rightarrow> \<not> raised \<and> map_option run_status_of (find_run (db w') i) = Some Failed
    | Some j \<Rightarrow>
        (case snd (plan_job dir x rc j) of
           Inl (EngineError e) \<Rightarrow> \<not> raised \<and> (\<exists>q. find_run (db w') i = Some q \<and> run_status_of q = Failed \<and>
             run_summary q = Some [(''error'', JStr (say (MsgEngine e)))])
         | Inl _ \<Rightarrow> raised \<and> map_option run_status_of (find_run (db w') i) = Some Running
         | Inr pl \<Rightarrow> \<not> raised \<and> (\<exists>q. find_run (db w') i = Some q \<and> run_status_of q = Success \<and>
             files_transferred q = int (new_count pl) + int (updated_count pl) \<and>
             files_deleted q = int (deleted_count pl) \<and> bytes_transferred q = bytes_to_transfer pl) \<and>
             (\<exists>rows. db_changes (db w') = db_changes (db w) @ rows \<and>
                rows = map (change_row i (side_for j)) (take 5000 (plan_changes pl)) \<and>
                length rows + rows_omitted pl = length (plan_changes pl)))) \<and>
    db_jobs (db w') = db_jobs (db w) \<and> live_queue w' = live_queue w \<and> procs w' = procs w \<and>
    backlog_for i (brk w') = []"
  using planning_runs_end [OF assms] .

theorem planning_run_outcome_witness:
  "\<exists>q. find_run (db (fst (plan_run_now (\<lambda>m. []) ''/config/bisync'' sample_ext quiet_rclone 1 2 1
     (snd (projr (run_job 1 DryRun (sample_world\<lparr>db := \<lparr>db_jobs = [sample_job\<lparr>job_direction := Bidirectional\<rparr>],
        db_runs = [], db_changes = []\<rparr>\<rparr>)))))))  1 = Some q \<and> run_status_of q = Failed"
proof -
  let ?j = "sample_job\<lparr>job_direction := Bidirectional\<rparr>"
  let ?w = "snd (projr (run_job 1 DryRun (sample_world\<lparr>db := \<lparr>db_jobs = [?j], db_runs = [], db_changes = []\<rparr>\<rparr>)))"
  have db: "db ?w = \<lparr>db_jobs = [?j], db_runs = [(new_run 1 TrigApi DryRun Queued)\<lparr>run_id := 1\<rparr>], db_changes = []\<rparr>"
    by (simp add: run_job_def find_job_def sample_job_def create_run_def insert_run_def active_runs_def new_run_def
        next_run_id_def)
  have r: "find_run (db ?w) 1 = Some ((new_run 1 TrigApi DryRun Queued)\<lparr>run_id := 1\<rparr>)"
    unfolding db by (simp add: find_run_def)
  have j: "find_job (db ?w) 1 = Some ?j" unfolding db by (simp add: find_job_def sample_job_def)
  have alone: "\<forall>q \<in> set (active_runs (db ?w) 1). run_id q = 1" unfolding db by (simp add: active_runs_def)
  have p: "snd (plan_job ''/config/bisync'' sample_ext quiet_rclone ?j) = Inl (EngineError (NoFirstSync ''Media/Backup''))"
    by (simp add: plan_job_def engine_for_def sample_job_def bisync_plan_def)
  have jid: "run_job_id ((new_run 1 TrigApi DryRun Queued)\<lparr>run_id := 1\<rparr>) = 1" by (simp add: new_run_def)
  obtain v raised where v: "plan_run_now (\<lambda>m. []) ''/config/bisync'' sample_ext quiet_rclone 1 2 1 ?w = (v, raised)"
    by fastforce
  show ?thesis
    using planning_run_outcome [OF r _ v] alone j p unfolding jid v by auto
qed

text \<open>A run that was cancelled while it was queued is planned all the same: the runner never looks at
  the status it finds.\<close>

lemma cancelled_run_still_plans:
  assumes "find_run (db w) i = Some r" "run_status_of r = Cancelled" "active_runs (db w) (run_job_id r) = []"
    and "find_job (db w) (run_job_id r) = Some j" "snd (plan_job dir x rc j) = Inr pl"
  shows "map_option run_status_of (find_run (db (fst (plan_run_now say dir x rc t0 t1 i w))) i) = Some Success"
proof -
  obtain v raised where v: "plan_run_now say dir x rc t0 t1 i w = (v, raised)" by fastforce
  have alone: "\<forall>q \<in> set (active_runs (db w) (run_job_id r)). run_id q = i" using assms(3) by simp
  show ?thesis
    using planning_runs_end [OF assms(1) alone v] assms(4,5) by (auto simp: v)
qed

end
