(* ===== verification/Runner.thy ===== *)
theory Runner
  imports Planner
begin

text \<open>
  \<open>app/jobs/runner.py\<close>: a live run. The stream of rclone's output folded into counts as it arrives,
  the pre-flight vetoes, the one way and the bidirectional execution, and what each outcome records.
  \<open>lx_stream\<close> is what a started process prints and the code it exits with, None where it cannot be
  started; the rows the run commits come from its own copy, which nothing refreshes, so a status
  written meanwhile by a cancel is overwritten by the final commit.
\<close>

record live_ext =
  lx_ext :: ext
  lx_rc :: rclone_ext
  lx_say :: "message \<Rightarrow> string"
  lx_stream :: "(string \<times> string) list \<Rightarrow> string list \<Rightarrow> (string list \<times> int) option"
  lx_exists :: "string \<Rightarrow> string \<Rightarrow> bool"
  lx_log_dir :: string
  lx_bisync_dir :: string

record brake =
  br_reason :: brake_reason
  br_deletions :: "int option"
  br_changes :: "planned_change list"
  br_plan :: "plan option"
  br_threshold :: "int option"

definition plain_brake :: "brake_reason \<Rightarrow> brake" where
  "plain_brake m = \<lparr>br_reason = m, br_deletions = None, br_changes = [], br_plan = None, br_threshold = None\<rparr>"

datatype live_error =
    LBrake brake
  | LPlan plan_error
  | LPrep prep_error
  | LArchive archive_reason
  | LCrash                       \<comment> \<open>an exception of the database or of starting the process\<close>

subsection \<open>Reading the stream\<close>

text \<open>One line: a progress record, an event, or noise.\<close>

datatype absorbed = Noise | Progress "(string \<times> json) list" | Logged "(string \<times> json) list"

definition classify :: "ext \<Rightarrow> string \<Rightarrow> absorbed" where
  "classify x line =
     (if \<not> prefix ''{'' (py_strip line) then Noise
      else (case ext_loads x (py_strip line) of
              Some (JObj d) \<Rightarrow> (case jget d ''stats'' of Some (JObj s) \<Rightarrow> Progress s | _ \<Rightarrow> Logged d)
            | _ \<Rightarrow> Noise))"

definition note_speed :: "file_progress \<Rightarrow> (string \<times> rat) list \<Rightarrow> (string \<times> rat) list" where
  "note_speed p d =
     (if fp_name p \<noteq> [] \<and> 0 < fp_speed p
      then dict_put (fp_name p) (max (case map_of d (fp_name p) of None \<Rightarrow> 0 | Some v \<Rightarrow> v) (fp_speed p)) d
      else d)"

definition live_message :: "ext \<Rightarrow> (string \<times> json) list \<Rightarrow> string" where
  "live_message x d = (case jget d ''msg'' of None \<Rightarrow> [] | Some v \<Rightarrow> py_str x v)"

definition live_operation :: "ext \<Rightarrow> (string \<times> json) list \<Rightarrow> planned_operation option" where
  "live_operation x d =
     (case jstr d ''object'' of
        Some (c # cs) \<Rightarrow>
          (let m = live_message x d;
               opr = (\<lambda>k rep. Some \<lparr>op_path = c # cs, operation = k, op_size = size_of d, replaced = rep\<rparr>)
           in if contains ''Copied'' m then opr SKIPPED_COPY (Some (\<not> contains ''(new)'' m))
              else if prefix ''Deleted'' m then opr SKIPPED_DELETE None
              else if prefix ''Moved into backup dir'' m then opr SKIPPED_ARCHIVE None
              else None)
      | _ \<Rightarrow> None)"

definition absorb_event :: "ext \<Rightarrow> dry_run_log \<Rightarrow> (string \<times> json) list \<Rightarrow> dry_run_log" where
  "absorb_event x l d =
     (let m = live_message x d;
          l1 = (case live_operation x d of None \<Rightarrow> l | Some p \<Rightarrow> l\<lparr>operations := operations l @ [p]\<rparr>)
      in if jget d ''level'' = Some (JStr ''error'')
         then l1\<lparr>max_delete_hit := (max_delete_hit l1 \<or> contains THRESHOLD_MESSAGE m),
                 log_errors := log_errors l1 @ [error_detail (jstr d ''object'') m]\<rparr>
         else l1)"

definition absorb_log :: "ext \<Rightarrow> dry_run_log \<Rightarrow> string \<Rightarrow> dry_run_log" where
  "absorb_log x l line =
     (case classify x line of
        Noise \<Rightarrow> l
      | Progress s \<Rightarrow> l\<lparr>log_stats := Some s, peak_speeds := fold note_speed (transferring (parse_stats x s)) (peak_speeds l)\<rparr>
      | Logged d \<Rightarrow> absorb_event x l d)"

definition jnum :: "int option \<Rightarrow> json" where
  "jnum v = (case v of None \<Rightarrow> JNull | Some i \<Rightarrow> JInt i)"

definition stats_event :: "transfer_stats \<Rightarrow> run_event" where
  "stats_event s =
     \<lparr>ev_kind = EvStats, ev_text = [], ev_data =
       [(''bytes'', JInt (bytes_done s)), (''total_bytes'', JInt (total_bytes s)), (''speed'', JFloat (speed s)),
        (''eta'', jnum (eta_seconds s)), (''percentage'', JInt (percentage s)),
        (''transfers'', JInt (transfers s)), (''total_transfers'', JInt (total_transfers s)),
        (''files'', JArr (map (\<lambda>p. JObj
           [(''name'', JStr (fp_name p)), (''bytes'', JInt (fp_bytes_done p)), (''size'', JInt (fp_size p)),
            (''percentage'', JInt (fp_percentage p)), (''speed'', JFloat (fp_speed p)), (''eta'', jnum (fp_eta p))])
          (transferring s)))]\<rparr>"

text \<open>The effect of a line on watchers and on the recorder. A progress record stays out of the pane.\<close>

definition absorb_world :: "ext \<Rightarrow> datetime \<Rightarrow> nat \<Rightarrow> string \<Rightarrow> world \<Rightarrow> world" where
  "absorb_world x t i line w =
     (case classify x line of
        Progress s \<Rightarrow>
          w\<lparr>act := record_stats t i (parse_stats x s) (act w),
            brk := publish i (stats_event (parse_stats x s)) (brk w)\<rparr>
      | _ \<Rightarrow> emit i EvLine line w)"

definition append_log :: "string \<Rightarrow> string list \<Rightarrow> world \<Rightarrow> world" where
  "append_log path ls w =
     w\<lparr>log_files := dict_put path ((case map_of (log_files w) path of None \<Rightarrow> [] | Some old \<Rightarrow> old) @ ls) (log_files w)\<rparr>"

definition consume :: "ext \<Rightarrow> datetime \<Rightarrow> nat \<Rightarrow> string \<Rightarrow> string list \<Rightarrow> world \<Rightarrow> dry_run_log \<times> world" where
  "consume x t i path ls w =
     (foldl (absorb_log x) empty_log ls, foldl (\<lambda>w l. absorb_world x t i l w) (append_log path ls w) ls)"

definition log_path_for :: "live_ext \<Rightarrow> job \<Rightarrow> job_run \<Rightarrow> string" where
  "log_path_for lx j r = lx_log_dir lx @ ''/'' @ str_nat (job_id j) @ ''/'' @ str_nat (run_id r) @ ''.log''"

subsection \<open>Recording\<close>

definition sum_sizes :: "planned_operation list \<Rightarrow> int" where
  "sum_sizes ops = sum_list (map (\<lambda>p. size_or_0 (op_size p)) ops)"

definition bytes_moved :: "dry_run_log \<Rightarrow> int" where
  "bytes_moved l =
     (case Option.bind (log_stats l) (\<lambda>s. Option.bind (jget s ''bytes'') int_like) of
        Some n \<Rightarrow> if 0 \<le> n then n else sum_sizes (copies l)
      | None \<Rightarrow> sum_sizes (copies l))"

definition was_cancelled :: "job_run \<Rightarrow> int \<Rightarrow> bool" where
  "was_cancelled r code \<longleftrightarrow> run_status_of r = Cancelled \<or> code \<in> {-15, 143, -9, 137}"

definition status_for :: "job_run \<Rightarrow> int \<Rightarrow> run_status" where
  "status_for r code = (if was_cancelled r code then Cancelled else if code = 0 then Success else Failed)"

definition action_for :: "planned_operation \<Rightarrow> change_action" where
  "action_for p =
     (if operation p = SKIPPED_DELETE then ActDeleted
      else if operation p = SKIPPED_ARCHIVE then ActArchived
      else if replaced p = Some True then ActUpdated else ActNew)"

definition op_row :: "nat \<Rightarrow> (string \<Rightarrow> change_side) \<Rightarrow> (string \<times> rat) list \<Rightarrow> planned_operation \<Rightarrow> job_run_change" where
  "op_row i side speeds p =
     \<lparr>chg_run_id = i, chg_action = action_for p, chg_side = side (op_path p), chg_path = op_path p,
      chg_size = op_size p, peak_speed_bps = map_of speeds (op_path p), chg_mtime = None, chg_message = None\<rparr>"

definition jerrors :: "dry_run_log \<Rightarrow> json" where
  "jerrors l = JArr (map JStr (summarise_errors ERROR_LIMIT (log_errors l)))"

definition applied_as_planned :: "run_status \<Rightarrow> plan \<Rightarrow> dry_run_log \<Rightarrow> bool" where
  "applied_as_planned s pl l \<longleftrightarrow>
     s = Success \<and> length (copies l) = new_count pl + updated_count pl \<and> length (removals l) = deleted_count pl"

definition live_summary ::
  "(message \<Rightarrow> string) \<Rightarrow> job_run \<Rightarrow> plan \<Rightarrow> dry_run_log \<Rightarrow> int \<Rightarrow> int \<Rightarrow> (string \<times> json) list" where
  "live_summary say r pl l code threshold =
     [(''new'', jnat (length (created l))), (''updated'', jnat (length (replacements l))),
      (''unchanged'', JInt (unchanged_count pl)), (''bytes'', JInt (bytes_moved l)),
      (''planned_new'', jnat (new_count pl)), (''planned_updated'', jnat (updated_count pl)),
      (''planned_deleted'', jnat (deleted_count pl)), (''transferred'', jnat (length (copies l))),
      (''deleted'', jnat (length (removals l))), (''archived'', jnat (length (archived l))),
      (''errors'', jerrors l), (''warnings'', JArr (map (\<lambda>x. JStr (say (MsgWarning x))) (plan_warnings pl))),
      (''dest_file_count'', JInt (plan_dest_count pl)), (''max_delete_threshold'', JInt threshold),
      (''applied_as_planned'', JBool (applied_as_planned (status_for r code) pl l)),
      (''max_delete_hit'', JBool (max_delete_hit l)),
      (''cancelled_partway'', JBool (was_cancelled r code \<and> (copies l \<noteq> [] \<or> removals l \<noteq> [])))]"

definition recorded_run ::
  "(message \<Rightarrow> string) \<Rightarrow> datetime \<Rightarrow> job_run \<Rightarrow> plan \<Rightarrow> dry_run_log \<Rightarrow> int \<Rightarrow> int \<Rightarrow> string \<Rightarrow> job_run" where
  "recorded_run say t r pl l code threshold path =
     r\<lparr>run_status_of := status_for r code, finished_at := Some t, run_exit_code := Some code,
       files_transferred := int (length (copies l)), files_deleted := int (length (removals l)),
       files_archived := int (length (archived l)), bytes_transferred := bytes_moved l,
       errors_count := int (length (log_errors l)), log_path := Some path,
       run_summary := Some (live_summary say r pl l code threshold)\<rparr>"

text \<open>A commit of the run and of new rows; None is a statement the database refuses.\<close>

definition commit :: "job_run \<Rightarrow> job_run_change list \<Rightarrow> world \<Rightarrow> world option" where
  "commit r cs w = map_option (\<lambda>st. w\<lparr>db := insert_changes cs st\<rparr>) (write_run r (db w))"

definition removed_count :: "dry_run_log \<Rightarrow> nat" where
  "removed_count l = (if archived l \<noteq> [] then length (archived l) else length (removals l))"

definition record_live ::
  "live_ext \<Rightarrow> datetime \<Rightarrow> job_run \<Rightarrow> job \<Rightarrow> plan \<Rightarrow> dry_run_log \<Rightarrow> int \<Rightarrow> int \<Rightarrow> string \<Rightarrow> world
    \<Rightarrow> (job_run \<times> world) option" where
  "record_live lx t r j pl l code threshold path w =
     (let r' = recorded_run (lx_say lx) t r pl l code threshold path;
          rows = map (op_row (run_id r) (\<lambda>_. side_for j) (peak_speeds l))
                   (take MAX_PERSISTED_CHANGES (copies l @ removals l))
      in map_option (\<lambda>w'. (r', emit (run_id r) EvDone
             (lx_say lx (MsgLive (run_status_of r') (length (copies l)) (length (archived l)) (removed_count l))) w'))
           (commit r' rows w))"

definition bisync_summary :: "job_run \<Rightarrow> job \<Rightarrow> bisync_deltas \<Rightarrow> dry_run_log \<Rightarrow> int \<Rightarrow> (string \<times> json) list" where
  "bisync_summary r j d l code =
     [(''bidirectional'', JBool True), (''resync'', JBool (is_resync r)),
      (''path1'', JObj [(''new'', jnat (path1_new d)), (''modified'', jnat (path1_modified d)), (''deleted'', jnat (path1_deleted d))]),
      (''path2'', JObj [(''new'', jnat (path2_new d)), (''modified'', jnat (path2_modified d)), (''deleted'', jnat (path2_deleted d))]),
      (''new'', jnat (length (created l))), (''updated'', jnat (length (replacements l))),
      (''bytes'', JInt (sum_sizes (copies l))), (''transferred'', jnat (length (copies l))),
      (''deleted'', jnat (length (removals l))), (''archived'', jnat (length (archived l))),
      (''errors'', jerrors l), (''max_delete_threshold'', JInt (max_delete_pct j)),
      (''max_delete_pct'', JInt (max_delete_pct j)),
      (''cancelled_partway'', JBool (was_cancelled r code \<and> (copies l \<noteq> [] \<or> removals l \<noteq> [])))]"

definition recorded_bisync ::
  "datetime \<Rightarrow> job_run \<Rightarrow> job \<Rightarrow> bisync_deltas \<Rightarrow> dry_run_log \<Rightarrow> int \<Rightarrow> string \<Rightarrow> job_run" where
  "recorded_bisync t r j d l code path =
     r\<lparr>run_status_of := status_for r code, finished_at := Some t, run_exit_code := Some code,
       files_transferred := int (length (copies l)), files_deleted := int (length (removals l)),
       files_archived := int (length (archived l)), bytes_transferred := sum_sizes (copies l),
       errors_count := int (length (log_errors l)), log_path := Some path,
       run_summary := Some (bisync_summary r j d l code)\<rparr>"

text \<open>A dict comprehension over the parsed changes: the last one of a path wins.\<close>

definition sides_of :: "planned_change list \<Rightarrow> string \<Rightarrow> change_side" where
  "sides_of cs path =
     (case map_of (rev (map (\<lambda>c. (pc_path c, pc_side c)) cs)) path of
        Some (Some s) \<Rightarrow> s | _ \<Rightarrow> SideDest)"

definition bisync_ops :: "dry_run_log \<Rightarrow> planned_operation list" where
  "bisync_ops l = take MAX_PERSISTED_CHANGES (copies l @ removals l @ archived l)"

definition record_bisync ::
  "live_ext \<Rightarrow> datetime \<Rightarrow> job_run \<Rightarrow> job \<Rightarrow> bisync_deltas \<Rightarrow> dry_run_log \<Rightarrow> int \<Rightarrow> string \<Rightarrow> string \<Rightarrow> world
    \<Rightarrow> (job_run \<times> world) option" where
  "record_bisync lx t r j d l code path text w =
     (let r' = recorded_bisync t r j d l code path;
          rows = map (op_row (run_id r) (sides_of (parse_planned_changes (lx_ext lx) text)) (peak_speeds l)) (bisync_ops l)
      in map_option (\<lambda>w'. (r', emit (run_id r) EvDone
             (lx_say lx (MsgReconciled (run_status_of r') (total_changes d))) w'))
           (commit r' rows w))"

subsection \<open>Failing\<close>

definition count_in :: "planned_change list \<Rightarrow> change_action \<Rightarrow> nat" where
  "count_in cs a = length (filter (\<lambda>c. pc_action c = a) cs)"

definition fail_summary :: "string \<Rightarrow> brake option \<Rightarrow> (string \<times> json) list" where
  "fail_summary m refused =
     (''error'', JStr m) #
     (case refused of
        None \<Rightarrow> []
      | Some b \<Rightarrow>
          [(''new'', jnat (count_in (br_changes b) ActNew)), (''updated'', jnat (count_in (br_changes b) ActUpdated)),
           (''deleted'', jnat (count_in (br_changes b) ActDeleted)), (''refused_deletions'', jnum (br_deletions b))] @
          (case br_plan b of
             None \<Rightarrow> []
           | Some pl \<Rightarrow>
               [(''unchanged'', JInt (unchanged_count pl)), (''bytes'', JInt 0),
                (''dest_file_count'', JInt (plan_dest_count pl)), (''max_delete_threshold'', jnum (br_threshold b))]))"

definition failed_run :: "datetime \<Rightarrow> job_run \<Rightarrow> string \<Rightarrow> brake option \<Rightarrow> job_run" where
  "failed_run t r m refused =
     r\<lparr>run_status_of := Failed, finished_at := Some t, errors_count := 1,
       run_summary := Some (fail_summary m refused)\<rparr>"

definition fail_live ::
  "datetime \<Rightarrow> job_run \<Rightarrow> change_side \<Rightarrow> string \<Rightarrow> brake option \<Rightarrow> world \<Rightarrow> (job_run \<times> world) option" where
  "fail_live t r fallback m refused w =
     (let rows = (case refused of None \<Rightarrow> []
                  | Some b \<Rightarrow> map (change_row (run_id r) fallback) (take MAX_PERSISTED_CHANGES (br_changes b)))
      in map_option (\<lambda>w'. (failed_run t r m refused, w')) (commit (failed_run t r m refused) rows w))"

subsection \<open>Pre-flight\<close>

text \<open>None lets the run go on.\<close>

definition sentinel_missing :: "live_ext \<Rightarrow> job \<Rightarrow> string option" where
  "sentinel_missing lx j =
     (let source = fst (endpoints_for j);
          sentinel = py_strip (case sentinel_file source of None \<Rightarrow> [] | Some s \<Rightarrow> s);
          root = (if base_path source = [] then ''/'' else base_path source)
      in if sentinel \<noteq> [] \<and> conn_type source = CtLocal \<and> \<not> lx_exists lx root sentinel then Some sentinel else None)"

definition preflight :: "live_ext \<Rightarrow> job \<Rightarrow> plan \<Rightarrow> int \<Rightarrow> brake option" where
  "preflight lx j pl threshold =
     (case sentinel_missing lx j of
        Some s \<Rightarrow> Some (plain_brake (SentinelMissing s (conn_name (fst (endpoints_for j)))))
      | None \<Rightarrow>
          if int (deleted_count pl) > threshold
          then Some \<lparr>br_reason = TooManyDeletions (int (deleted_count pl)) (max_delete_pct j) threshold (plan_dest_count pl),
                     br_deletions = Some (int (deleted_count pl)), br_changes = plan_changes pl,
                     br_plan = Some pl, br_threshold = Some threshold\<rparr>
          else None)"

definition threshold_for :: "job_run \<Rightarrow> job \<Rightarrow> plan \<Rightarrow> int" where
  "threshold_for r j pl =
     (case forced_max_delete r of Some n \<Rightarrow> n | None \<Rightarrow> resolve_max_delete (max_delete_pct j) (plan_dest_count pl))"

definition bisync_preflight ::
  "live_ext \<Rightarrow> job \<Rightarrow> prepared \<Rightarrow> string \<Rightarrow> string \<Rightarrow> string \<Rightarrow> job_run \<Rightarrow> live_error option" where
  "bisync_preflight lx j p path1 path2 workdir r =
     (case build_bisync_command (lx_ext lx) j p path1 path2 workdir planning_flags [] of
        Inl e \<Rightarrow> Some (LPlan e)
      | Inr argv \<Rightarrow>
          (let res = run_command (secrets p) argv (rc_run (lx_rc lx) (prep_env p) argv);
               text = res_stdout res @ CHR 0x0A # res_stderr res;
               deltas = parse_deltas (lx_ext lx) text
           in if needs_resync text then None
              else if (case forced_max_delete r of None \<Rightarrow> False | Some n \<Rightarrow> int (total_deleted deltas) \<le> n) then None
              else (case safety_abort deltas of
                      Some (c # cs) \<Rightarrow>
                        Some (LBrake \<lparr>br_reason = PreflightAbort (readable p (c # cs)),
                          br_deletions = Some (int (total_deleted deltas)),
                          br_changes = parse_planned_changes (lx_ext lx) text, br_plan = None, br_threshold = None\<rparr>)
                    | _ \<Rightarrow> None)))"

subsection \<open>Executing\<close>

text \<open>The body of a run: it threads its own copy of the row and the world, and may stop with an error,
  keeping what was committed before.\<close>

type_synonym 'a live = "job_run \<times> world \<Rightarrow> (live_error + 'a) \<times> job_run \<times> world"

definition ret :: "'a \<Rightarrow> 'a live" where "ret x s = (Inr x, s)"

definition throw :: "live_error \<Rightarrow> 'a live" where "throw e s = (Inl e, s)"

definition bindL :: "'a live \<Rightarrow> ('a \<Rightarrow> 'b live) \<Rightarrow> 'b live" where
  "bindL m f s = (case m s of (Inl e, s') \<Rightarrow> (Inl e, s') | (Inr x, s') \<Rightarrow> f x s')"

definition lift :: "live_error + 'a \<Rightarrow> 'a live" where
  "lift v = (case v of Inl e \<Rightarrow> throw e | Inr x \<Rightarrow> ret x)"

definition veto :: "live_error option \<Rightarrow> unit live" where
  "veto v = (case v of None \<Rightarrow> ret () | Some e \<Rightarrow> throw e)"

definition save :: "(job_run \<Rightarrow> job_run) \<Rightarrow> unit live" where
  "save f s =
     (let r = f (fst s)
      in case commit r [] (snd s) of None \<Rightarrow> (Inl LCrash, (r, snd s)) | Some w \<Rightarrow> (Inr (), (r, w)))"

definition tell :: "event_kind \<Rightarrow> string \<Rightarrow> unit live" where
  "tell k text s = (Inr (), (fst s, emit (run_id (fst s)) k text (snd s)))"

definition store_outcome :: "(job_run \<Rightarrow> world \<Rightarrow> (job_run \<times> world) option) \<Rightarrow> unit live" where
  "store_outcome f s = (case f (fst s) (snd s) of None \<Rightarrow> (Inl LCrash, s) | Some s' \<Rightarrow> (Inr (), s'))"

definition set_job :: "(job \<Rightarrow> job) \<Rightarrow> job \<Rightarrow> unit live" where
  "set_job f j s =
     (Inr (), (fst s, (snd s)\<lparr>db := amend_job (job_id j) f (db (snd s))\<rparr>))"

text \<open>\<open>process.stream\<close>, its registration as the run's process, and its output read to the end.\<close>

definition launch :: "live_ext \<Rightarrow> prepared \<Rightarrow> string list \<Rightarrow> (string list \<times> int) live" where
  "launch lx p argv s =
     (case lx_stream lx (prep_env p) argv of
        None \<Rightarrow> (Inl LCrash, s)
      | Some (raw, code) \<Rightarrow>
          (let i = run_id (fst s); w = snd s
           in (Inr (stream_lines (secrets p) raw, code),
               (fst s, w\<lparr>procs := (if i \<in> set (procs w) then procs w else procs w @ [i]),
                         launched := launched w @ [(i, argv)]\<rparr>))))"

definition read_output :: "live_ext \<Rightarrow> datetime \<Rightarrow> job \<Rightarrow> string list \<Rightarrow> dry_run_log live" where
  "read_output lx t j ls s =
     (let (l, w) = consume (lx_ext lx) t (run_id (fst s)) (log_path_for lx j (fst s)) ls (snd s)
      in (Inr l, (fst s, w)))"

definition run_process ::
  "live_ext \<Rightarrow> datetime \<Rightarrow> job \<Rightarrow> prepared \<Rightarrow> string list \<Rightarrow> string \<Rightarrow> (dry_run_log \<times> string list \<times> int) live" where
  "run_process lx t j p argv status =
     bindL (launch lx p argv) (\<lambda>(ls, code).
     bindL (save (\<lambda>r. r\<lparr>command_redacted := Some (redacted_command_line (secrets p) argv)\<rparr>)) (\<lambda>_.
     bindL (tell EvStatus status) (\<lambda>_.
     bindL (read_output lx t j ls) (\<lambda>l. ret (l, ls, code)))))"

definition prep_live :: "prep_error + 'a \<Rightarrow> 'a live" where
  "prep_live v = lift (map_err LPrep v)"

definition plan_live :: "plan_error + 'a \<Rightarrow> 'a live" where
  "plan_live v = lift (map_err LPlan v)"

definition archive_live :: "archive_reason + 'a \<Rightarrow> 'a live" where
  "archive_live v = lift (map_err LArchive v)"

definition one_way_archive :: "live_ext \<Rightarrow> datetime \<Rightarrow> job \<Rightarrow> string \<Rightarrow> string list live" where
  "one_way_archive lx t j destination =
     (if job_delete_mode j \<noteq> DelArchive then ret []
      else bindL (archive_live (plan_for j destination t)) (\<lambda>a.
           bindL (save (\<lambda>r. r\<lparr>archive_dirs := [(SideDest, strip_remote (backup_dir a))]\<rparr>)) (\<lambda>_.
           bindL (tell EvStatus (lx_say lx (MsgArchivedTo (backup_dir a)))) (\<lambda>_.
             ret (sync_args a)))))"

definition one_way_vetted :: "live_ext \<Rightarrow> datetime \<Rightarrow> datetime \<Rightarrow> job_run \<Rightarrow> job \<Rightarrow> plan \<Rightarrow> unit live" where
  "one_way_vetted lx t0 t1 r j pl =
     (let threshold = threshold_for r j pl; (s, d, read_path, write_path) = endpoints_and_paths j
      in bindL (prep_live (prepare (lx_ext lx) [(ALIAS_SOURCE, s), (ALIAS_DEST, d)])) (\<lambda>p.
         bindL (prep_live (prep_spec p ALIAS_DEST write_path)) (\<lambda>destination.
         bindL (one_way_archive lx t0 j destination) (\<lambda>flags.
         bindL (prep_live (prep_spec p ALIAS_SOURCE read_path)) (\<lambda>src.
         bindL (plan_live (build_sync_command (lx_ext lx) j p src destination threshold flags)) (\<lambda>argv.
         bindL (run_process lx t1 j p argv ''Syncing.'') (\<lambda>(l, ls, code).
           store_outcome (\<lambda>r'. record_live lx t1 r' j pl l code threshold (log_path_for lx j r')))))))))"

definition execute_one_way :: "live_ext \<Rightarrow> datetime \<Rightarrow> datetime \<Rightarrow> job_run \<Rightarrow> job \<Rightarrow> unit live" where
  "execute_one_way lx t0 t1 r j =
     bindL (plan_live (snd (rclone_plan (lx_ext lx) (lx_rc lx) j))) (\<lambda>pl.
     bindL (veto (map_option LBrake (preflight lx j pl (threshold_for r j pl)))) (\<lambda>_.
       one_way_vetted lx t0 t1 r j pl))"

definition bisync_archive :: "datetime \<Rightarrow> job \<Rightarrow> string \<Rightarrow> string \<Rightarrow> string list live" where
  "bisync_archive t j path1 path2 =
     (if job_delete_mode j \<noteq> DelArchive then ret []
      else bindL (archive_live (plan_for j path1 t)) (\<lambda>a1.
           bindL (archive_live (plan_for j path2 t)) (\<lambda>a2.
           bindL (save (\<lambda>r. r\<lparr>archive_dirs := [(SideSource, strip_remote (backup_dir a1)),
                                             (SideDest, strip_remote (backup_dir a2))]\<rparr>)) (\<lambda>_.
             ret (bisync_args a1 a2)))))"

definition live_flags :: "job_run \<Rightarrow> bisync_flags" where
  "live_flags r = \<lparr>bf_resync = is_resync r, bf_dry_run = False, bf_force = (forced_max_delete r \<noteq> None),
     bf_unattended = (run_trigger_of r = TrigSchedule)\<rparr>"

definition bisync_outcome ::
  "live_ext \<Rightarrow> datetime \<Rightarrow> job \<Rightarrow> prepared \<Rightarrow> dry_run_log \<Rightarrow> string list \<Rightarrow> int \<Rightarrow> job_run \<Rightarrow> unit live" where
  "bisync_outcome lx t j p l ls code r =
     (let text = join_with [CHR 0x0A] ls; d = parse_deltas (lx_ext lx) text
      in if needs_resync text then
           bindL (set_job (\<lambda>j. j\<lparr>bisync_initialized := False\<rparr>) j) (\<lambda>_.
           bindL (store_outcome (\<lambda>r w. fail_live t r (side_for j) (lx_say lx (MsgNeedsFirstSync (job_name j))) None w)) (\<lambda>_.
             tell EvStatus ''Needs a first sync.''))
         else (case safety_abort d of
                 Some (c # cs) \<Rightarrow>
                   store_outcome (\<lambda>r w. fail_live t r (side_for j) (lx_say lx (MsgRefused (readable p (c # cs)))) None w)
               | _ \<Rightarrow>
                   bindL (if is_resync r \<and> code = 0 then set_job (\<lambda>j. j\<lparr>bisync_initialized := True\<rparr>) j else ret ()) (\<lambda>_.
                     store_outcome (\<lambda>r w. record_bisync lx t r j d l code (log_path_for lx j r) text w))))"

definition execute_bisync :: "live_ext \<Rightarrow> datetime \<Rightarrow> datetime \<Rightarrow> job_run \<Rightarrow> job \<Rightarrow> unit live" where
  "execute_bisync lx t0 t1 r j =
     (if \<not> bisync_initialized j \<and> \<not> is_resync r then throw (LBrake (plain_brake (FirstSyncMissing (job_name j))))
      else
        (let workdir = workdir_for (lx_bisync_dir lx) (job_id j); (s, d, read_path, write_path) = endpoints_and_paths j
         in bindL (prep_live (prepare (lx_ext lx) [(ALIAS_SOURCE, s), (ALIAS_DEST, d)])) (\<lambda>p.
            bindL (prep_live (prep_spec p ALIAS_SOURCE read_path)) (\<lambda>path1.
            bindL (prep_live (prep_spec p ALIAS_DEST write_path)) (\<lambda>path2.
            bindL (veto (if is_resync r then None else bisync_preflight lx j p path1 path2 workdir r)) (\<lambda>_.
            bindL (bisync_archive t0 j path1 path2) (\<lambda>flags.
            bindL (plan_live (build_bisync_command (lx_ext lx) j p path1 path2 workdir (live_flags r) flags)) (\<lambda>argv.
            bindL (run_process lx t1 j p argv (if is_resync r then ''Resyncing.'' else ''Syncing both ways.''))
              (\<lambda>(l, ls, code). bisync_outcome lx t1 j p l ls code r)))))))))"

definition execute :: "live_ext \<Rightarrow> datetime \<Rightarrow> datetime \<Rightarrow> job_run \<Rightarrow> job \<Rightarrow> unit live" where
  "execute lx t0 t1 r j =
     (if job_direction j = Bidirectional then execute_bisync lx t0 t1 r j else execute_one_way lx t0 t1 r j)"

text \<open>\<open>_prune_quiet_cycle\<close>\<close>

definition prune_quiet_cycle :: "datetime \<Rightarrow> job_run \<Rightarrow> job \<Rightarrow> world \<Rightarrow> world" where
  "prune_quiet_cycle t r j w =
     (if \<not> continuous j \<or> run_status_of r \<noteq> Success then w
      else if files_transferred r \<noteq> 0 \<or> files_deleted r \<noteq> 0 \<or> errors_count r \<noteq> 0 then w
      else w\<lparr>db := amend_job (job_id j) (\<lambda>k. k\<lparr>last_checked_at := Some t\<rparr>) (delete_run (run_id r) (db w))\<rparr>)"

text \<open>The handlers of \<open>run_now\<close>: what is caught, and what is committed for it. None is an exception
  that escapes.\<close>

definition caught :: "live_ext \<Rightarrow> live_error \<Rightarrow> (message \<times> message \<times> brake option) option" where
  "caught lx e =
     (case e of
        LBrake b \<Rightarrow> Some (MsgBrake (br_reason b), MsgRefusedRun (br_reason b), Some b)
      | LPlan (EngineError m) \<Rightarrow> Some (MsgEngine m, MsgFailed (MsgEngine m), None)
      | LPrep (RemoteConfigError m) \<Rightarrow> Some (MsgRemote m, MsgFailed (MsgRemote m), None)
      | LArchive m \<Rightarrow> Some (MsgArchive m, MsgFailed (MsgArchive m), None)
      | _ \<Rightarrow> None)"

definition settle :: "live_ext \<Rightarrow> datetime \<Rightarrow> job \<Rightarrow> (live_error + unit) \<times> job_run \<times> world \<Rightarrow> world \<times> bool" where
  "settle lx t j res =
     (case res of
        (Inr _, r, w) \<Rightarrow> (prune_quiet_cycle t r j w, False)
      | (Inl e, r, w) \<Rightarrow>
          (case caught lx e of
             None \<Rightarrow> (w, True)
           | Some (m, status, refused) \<Rightarrow>
               (case fail_live t r (side_for j) (lx_say lx m) refused w of
                  None \<Rightarrow> (w, True)
                | Some (r', w') \<Rightarrow> (prune_quiet_cycle t r' j (emit (run_id r) EvStatus (lx_say lx status) w'), False))))"

definition live_body :: "live_ext \<Rightarrow> datetime \<Rightarrow> datetime \<Rightarrow> nat \<Rightarrow> world \<Rightarrow> world \<times> bool" where
  "live_body lx t0 t1 i w =
     (case find_run (db w) i of
        None \<Rightarrow> (w, False)
      | Some r \<Rightarrow>
          (case find_job (db w) (run_job_id r) of
             None \<Rightarrow>
               (case fail_live t0 r SideDest (lx_say lx MsgJobDeleted) None w of
                  None \<Rightarrow> (w, True) | Some (r', w') \<Rightarrow> (w', False))
           | Some j \<Rightarrow>
               (let r1 = r\<lparr>run_status_of := Running, started_at := Some t0\<rparr>
                in case commit r1 [] w of
                     None \<Rightarrow> (w, True)
                   | Some w1 \<Rightarrow>
                       settle lx t1 j (execute lx t0 t1 r1 j
                         (r1, emit i EvStatus ''Planning before making any changes.'' w1)))))"

text \<open>The \<open>finally\<close> of \<open>run_now\<close>.\<close>

definition live_run_now :: "live_ext \<Rightarrow> datetime \<Rightarrow> datetime \<Rightarrow> nat \<Rightarrow> world \<Rightarrow> world \<times> bool" where
  "live_run_now lx t0 t1 i w =
     (let (w', raised) = live_body lx t0 t1 i w
      in (w'\<lparr>procs := filter (\<lambda>k. k \<noteq> i) (procs w'), act := forget t1 i (act w'), brk := finish i (brk w')\<rparr>, raised))"

text \<open>\<open>LiveRunner.shutdown\<close>: every registered process is asked to stop.\<close>

definition live_shutdown :: "world \<Rightarrow> world" where
  "live_shutdown w = w\<lparr>signalled := signalled w @ procs w, live_queue := []\<rparr>"

subsection \<open>Invariants of a run\<close>

text \<open>\<open>triple I m B\<close>: started in \<open>I\<close>, the body keeps \<open>I\<close> where it stops with an error and gives \<open>B\<close>
  where it returns.\<close>

definition triple :: "(job_run \<times> world \<Rightarrow> bool) \<Rightarrow> 'a live \<Rightarrow> ('a \<Rightarrow> job_run \<times> world \<Rightarrow> bool) \<Rightarrow> bool" where
  "triple I m B \<longleftrightarrow> (\<forall>s. I s \<longrightarrow> (case fst (m s) of Inl e \<Rightarrow> I (snd (m s)) | Inr x \<Rightarrow> B x (snd (m s))))"

lemma tripleD:
  "triple I m B \<Longrightarrow> I s \<Longrightarrow> m s = (v, s') \<Longrightarrow> (case v of Inl e \<Rightarrow> I s' | Inr x \<Rightarrow> B x s')"
  unfolding triple_def by (metis fst_conv snd_conv)

lemma bind_ret: "bindL (ret x) f = f x"
  by (rule ext) (simp add: bindL_def ret_def)

lemma bind_throw: "bindL (throw e) f = throw e"
  by (rule ext) (simp add: bindL_def throw_def)

lemma triple_bind:
  assumes "triple I m (\<lambda>_. I)" "\<And>x. triple I (f x) B"
  shows "triple I (bindL m f) B"
  unfolding triple_def
proof (intro allI impI)
  fix s assume "I s"
  obtain v s1 where ms: "m s = (v, s1)" by (cases "m s")
  have m: "I s1" using tripleD [OF assms(1) \<open>I s\<close> ms] by (cases v) auto
  show "case fst (bindL m f s) of Inl e \<Rightarrow> I (snd (bindL m f s)) | Inr x \<Rightarrow> B x (snd (bindL m f s))"
  proof (cases v)
    case (Inl e)
    then have "bindL m f s = (Inl e, s1)" using ms by (simp add: bindL_def)
    then show ?thesis using m by simp
  next
    case (Inr x)
    then have b: "bindL m f s = f x s1" using ms by (simp add: bindL_def)
    show ?thesis unfolding b using m assms(2) [of x] unfolding triple_def by (elim allE impE)
  qed
qed

lemma triple_ret: "(\<And>s. I s \<Longrightarrow> B x s) \<Longrightarrow> triple I (ret x) B"
  by (simp add: triple_def ret_def)

lemma triple_throw: "triple I (throw e) B"
  by (simp add: triple_def throw_def)

lemma triple_lift: "(\<And>x. v = Inr x \<Longrightarrow> triple I (f x) B) \<Longrightarrow> triple I (bindL (lift v) f) B"
  by (cases v) (simp_all add: lift_def bind_ret bind_throw triple_throw)

lemma triple_prep: "(\<And>x. v = Inr x \<Longrightarrow> triple I (f x) B) \<Longrightarrow> triple I (bindL (prep_live v) f) B"
  unfolding prep_live_def by (rule triple_lift) simp

lemma triple_plan: "(\<And>x. v = Inr x \<Longrightarrow> triple I (f x) B) \<Longrightarrow> triple I (bindL (plan_live v) f) B"
  unfolding plan_live_def by (rule triple_lift) simp

lemma triple_archive: "(\<And>x. v = Inr x \<Longrightarrow> triple I (f x) B) \<Longrightarrow> triple I (bindL (archive_live v) f) B"
  unfolding archive_live_def by (rule triple_lift) simp

lemma triple_veto: "(v = None \<Longrightarrow> triple I (f ()) B) \<Longrightarrow> triple I (bindL (veto v) f) B"
  by (cases v) (simp_all add: veto_def bind_ret bind_throw triple_throw)

lemma triple_then_tell:
  assumes "triple I m (\<lambda>_. B)" "\<And>r w. B (r, w) \<Longrightarrow> B (r, emit (run_id r) k t w)"
  shows "triple I (bindL m (\<lambda>_. tell k t)) (\<lambda>_. B)"
  unfolding triple_def
proof (intro allI impI)
  fix s assume "I s"
  obtain v r w where ms: "m s = (v, r, w)" by (cases "m s") auto
  show "case fst (bindL m (\<lambda>_. tell k t) s) of Inl e \<Rightarrow> I (snd (bindL m (\<lambda>_. tell k t) s))
      | Inr x \<Rightarrow> B (snd (bindL m (\<lambda>_. tell k t) s))"
    using tripleD [OF assms(1) \<open>I s\<close> ms] ms assms(2) [of r w] by (cases v) (auto simp: bindL_def tell_def)
qed

lemma triple_store:
  "(\<And>r w r' w'. I (r, w) \<Longrightarrow> f r w = Some (r', w') \<Longrightarrow> B (r', w')) \<Longrightarrow> triple I (store_outcome f) (\<lambda>_. B)"
  by (auto simp: triple_def store_outcome_def split: option.splits)

text \<open>What a predicate on a run in progress has to tolerate, and then the bodies of both directions keep
  it up to the commit of the outcome. \<open>may\<close> is what the invariant allows to be started.\<close>

locale run_invariant =
  fixes I :: "job_run \<times> world \<Rightarrow> bool" and may :: "string list \<Rightarrow> bool"
  assumes tells: "I (r, w) \<Longrightarrow> I (r, emit (run_id r) k text w)"
    and saves: "I (r, w) \<Longrightarrow> run_id r' = run_id r \<Longrightarrow> run_job_id r' = run_job_id r \<Longrightarrow>
      run_status_of r' = run_status_of r \<Longrightarrow> commit r' [] w = Some w' \<Longrightarrow> I (r', w')"
    and unsaved: "I (r, w) \<Longrightarrow> run_id r' = run_id r \<Longrightarrow> run_job_id r' = run_job_id r \<Longrightarrow>
      run_status_of r' = run_status_of r \<Longrightarrow> I (r', w)"
    and reads: "I (r, w) \<Longrightarrow> I (r, snd (consume x t (run_id r) path ls w))"
    and starts: "I (r, w) \<Longrightarrow> may argv \<Longrightarrow>
      I (r, w\<lparr>procs := (if run_id r \<in> set (procs w) then procs w else procs w @ [run_id r]),
              launched := launched w @ [(run_id r, argv)]\<rparr>)"
    and edits: "I (r, w) \<Longrightarrow> (\<And>j. job_id (f j) = job_id j) \<Longrightarrow> I (r, w\<lparr>db := amend_job i f (db w)\<rparr>)"
begin

lemma kept_tell: "triple I (tell k t) (\<lambda>_. I)"
  by (auto simp: triple_def tell_def intro: tells)

lemma kept_save:
  "(\<And>r. run_id (f r) = run_id r \<and> run_job_id (f r) = run_job_id r \<and> run_status_of (f r) = run_status_of r) \<Longrightarrow>
     triple I (save f) (\<lambda>_. I)"
  by (auto simp: triple_def save_def Let_def intro: saves unsaved split: option.splits)

lemma kept_launch: "may argv \<Longrightarrow> triple I (launch lx p argv) (\<lambda>_. I)"
  by (auto simp: triple_def launch_def Let_def split: option.splits dest: starts [of _ _ argv])

lemma kept_read: "triple I (read_output lx t j ls) (\<lambda>_. I)"
  using reads by (auto simp: triple_def read_output_def split_def Let_def)

lemma kept_set_job: "(\<And>j. job_id (f j) = job_id j) \<Longrightarrow> triple I (set_job f j) (\<lambda>_. I)"
  using edits [of _ _ f] by (auto simp: triple_def set_job_def)

lemma kept_process: "may argv \<Longrightarrow> triple I (run_process lx t j p argv st) (\<lambda>_. I)"
  unfolding run_process_def split_def
  by (intro triple_bind kept_launch kept_save kept_tell kept_read triple_ret) auto

lemma kept_one_way_archive: "triple I (one_way_archive lx t j d) (\<lambda>_. I)"
  unfolding one_way_archive_def
  by (cases "job_delete_mode j \<noteq> DelArchive")
    (simp add: triple_ret, simp, intro triple_archive triple_bind kept_save kept_tell triple_ret, auto)

lemma kept_bisync_archive: "triple I (bisync_archive t j p1 p2) (\<lambda>_. I)"
  unfolding bisync_archive_def
  by (cases "job_delete_mode j \<noteq> DelArchive")
    (simp add: triple_ret, simp, intro triple_archive triple_bind kept_save triple_ret, auto)

end

end
