(* ===== verification/Live.thy ===== *)
theory Live
  imports Runner
begin

text \<open>
  What a live run may start and how it ends: the two invariants of a run in progress, as instances of
  \<open>run_invariant\<close>, and the properties of \<open>run_now\<close> in \<open>app/jobs/runner.py\<close> that rest on them.
\<close>

subsection \<open>The commands of a one way run\<close>

definition braked_command :: "live_ext \<Rightarrow> job_run \<Rightarrow> job \<Rightarrow> string list \<Rightarrow> bool" where
  "braked_command lx r j argv \<longleftrightarrow>
     (\<exists>pl p src dst rest. snd (rclone_plan (lx_ext lx) (lx_rc lx) j) = Inr pl \<and>
        int (deleted_count pl) \<le> threshold_for r j pl \<and> sentinel_missing lx j = None \<and>
        argv = prep_argv p ([operation_for j, src, dst, ''--use-json-log'', ''-v'', ''--stats'', ''5s'',
          ''--stats-one-line'', ''--max-delete'', str_int (threshold_for r j pl)] @ rest))"

definition reconciling_command :: "live_ext \<Rightarrow> job_run \<Rightarrow> job \<Rightarrow> string list \<Rightarrow> bool" where
  "reconciling_command lx r j argv \<longleftrightarrow>
     (bisync_initialized j \<or> is_resync r) \<and>
     (\<exists>p path1 path2 flags.
        build_bisync_command (lx_ext lx) j p path1 path2 (workdir_for (lx_bisync_dir lx) (job_id j)) (live_flags r) flags
          = Inr argv \<and>
        (\<not> is_resync r \<longrightarrow>
           bisync_preflight lx j p path1 path2 (workdir_for (lx_bisync_dir lx) (job_id j)) r = None))"

lemma preflight_None:
  "preflight lx j pl th = None \<longleftrightarrow> sentinel_missing lx j = None \<and> int (deleted_count pl) \<le> th"
  by (auto simp: preflight_def split: option.splits)

lemma build_sync_shape:
  "build_sync_command x j p src dst m fl = Inr argv \<Longrightarrow>
     \<exists>rest. argv = prep_argv p ([operation_for j, src, dst, ''--use-json-log'', ''-v'', ''--stats'', ''5s'',
          ''--stats-one-line'', ''--max-delete'', str_int m] @ rest)"
  by (auto simp: build_sync_command_def bind_res_Inr)

lemma build_sync_braked:
  assumes "snd (rclone_plan (lx_ext lx) (lx_rc lx) j) = Inr pl"
    and "preflight lx j pl (threshold_for r j pl) = None"
    and "build_sync_command (lx_ext lx) j p src dst (threshold_for r j pl) fl = Inr argv"
  shows "braked_command lx r j argv"
proof -
  obtain rest where "argv = prep_argv p ([operation_for j, src, dst, ''--use-json-log'', ''-v'', ''--stats'', ''5s'',
          ''--stats-one-line'', ''--max-delete'', str_int (threshold_for r j pl)] @ rest)"
    using build_sync_shape [OF assms(3)] by blast
  then show ?thesis using assms(1,2) unfolding braked_command_def preflight_None by blast
qed

subsection \<open>Both directions keep a run invariant\<close>

context run_invariant
begin

lemma one_way_keeps:
  assumes may: "\<And>argv. braked_command lx r j argv \<Longrightarrow> may argv"
    and outcome: "\<And>pl l code th. triple I
      (store_outcome (\<lambda>r'. record_live lx t1 r' j pl l code th (log_path_for lx j r'))) (\<lambda>_. B)"
  shows "triple I (execute_one_way lx t0 t1 r j) (\<lambda>_. B)"
  unfolding execute_one_way_def
proof (rule triple_plan, rule triple_veto)
  fix pl
  assume pl: "snd (rclone_plan (lx_ext lx) (lx_rc lx) j) = Inr pl"
    and "map_option LBrake (preflight lx j pl (threshold_for r j pl)) = None"
  then have pre: "preflight lx j pl (threshold_for r j pl) = None" by simp
  note ok = may [OF build_sync_braked [OF pl pre]]
  show "triple I (one_way_vetted lx t0 t1 r j pl) (\<lambda>_. B)"
    unfolding one_way_vetted_def Let_def split_def
    by (rule triple_prep triple_bind [OF kept_one_way_archive] triple_plan
        | rule triple_bind [OF kept_process], erule ok | rule outcome)+
qed

lemma bisync_keeps:
  assumes may: "\<And>argv. reconciling_command lx r j argv \<Longrightarrow> may argv"
    and outcome: "\<And>p l ls code. triple I (bisync_outcome lx t1 j p l ls code r) (\<lambda>_. B)"
  shows "triple I (execute_bisync lx t0 t1 r j) (\<lambda>_. B)"
proof (cases "\<not> bisync_initialized j \<and> \<not> is_resync r")
  case False
  define wd where "wd = workdir_for (lx_bisync_dir lx) (job_id j)"
  have ok: "may argv"
    if v: "(if is_resync r then None else bisync_preflight lx j p path1 path2 wd r) = None"
      and b: "build_bisync_command (lx_ext lx) j p path1 path2 wd (live_flags r) flags = Inr argv"
    for p path1 path2 flags argv
  proof (rule may)
    show "reconciling_command lx r j argv"
      unfolding reconciling_command_def wd_def [symmetric]
    proof (intro conjI exI)
      show "bisync_initialized j \<or> is_resync r" using False by blast
      show "build_bisync_command (lx_ext lx) j p path1 path2 wd (live_flags r) flags = Inr argv" by (rule b)
      show "\<not> is_resync r \<longrightarrow> bisync_preflight lx j p path1 path2 wd r = None"
        using v by (auto split: if_splits)
    qed
  qed
  show ?thesis
    unfolding execute_bisync_def Let_def split_def if_not_P [OF False] wd_def [symmetric]
    by (rule triple_prep triple_bind [OF kept_bisync_archive] triple_plan triple_veto
        | rule triple_bind [OF kept_process], erule (1) ok | rule outcome)+
qed (simp add: execute_bisync_def triple_throw)

lemma bisync_outcome_keeps:
  assumes fail: "\<And>m. triple I (store_outcome (\<lambda>r w. fail_live t1 r (side_for j) m None w)) (\<lambda>_. B)"
    and recd: "\<And>d body. triple I
      (store_outcome (\<lambda>r' w. record_bisync lx t1 r' j d l code (log_path_for lx j r') body w)) (\<lambda>_. B)"
    and tell: "\<And>r w k t. B (r, w) \<Longrightarrow> B (r, emit (run_id r) k t w)"
  shows "triple I (bisync_outcome lx t1 j p l ls code r) (\<lambda>_. B)"
proof -
  define body where "body = join_with [CHR 0x0A] ls"
  define d where "d = parse_deltas (lx_ext lx) body"
  have set_init: "triple I (set_job (\<lambda>j. j\<lparr>bisync_initialized := v\<rparr>) k) (\<lambda>_. I)" for v k
    by (rule kept_set_job) simp
  have done_part: "triple I (bindL (if b then set_job (\<lambda>j. j\<lparr>bisync_initialized := True\<rparr>) j else ret ()) (\<lambda>_.
      store_outcome (\<lambda>r w. record_bisync lx t1 r j d l code (log_path_for lx j r) body w))) (\<lambda>_. B)" for b
    by (cases b) (auto intro!: triple_bind set_init triple_ret recd)
  have need: "triple I (bindL (set_job (\<lambda>j. j\<lparr>bisync_initialized := False\<rparr>) j) (\<lambda>_.
      bindL (store_outcome (\<lambda>r w. fail_live t1 r (side_for j) m None w)) (\<lambda>_. tell k t))) (\<lambda>_. B)" for m k t
    by (rule triple_bind [OF set_init], rule triple_then_tell [OF fail], erule tell)
  note unf = bisync_outcome_def Let_def body_def [symmetric] d_def [symmetric]
  show ?thesis
  proof (cases "needs_resync body")
    case True
    show ?thesis unfolding unf if_P [OF True] by (rule need)
  next
    case False
    show ?thesis unfolding unf if_not_P [OF False]
      by (split option.split, split list.split) (intro conjI allI impI done_part fail)
  qed
qed

end

subsection \<open>What was started\<close>

definition started ::
  "(nat \<times> string list) list \<Rightarrow> nat \<Rightarrow> (string list \<Rightarrow> bool) \<Rightarrow> job_run \<times> world \<Rightarrow> bool" where
  "started l0 i P s \<longleftrightarrow>
     run_id (fst s) = i \<and> (\<exists>argvs. launched (snd s) = l0 @ map (Pair i) argvs \<and> list_all P argvs)"

lemma commit_launched: "commit r cs w = Some w' \<Longrightarrow> launched w' = launched w"
  by (auto simp: commit_def)

lemma consume_same [simp]:
  "launched (snd (consume x t i path ls w)) = launched w" "db (snd (consume x t i path ls w)) = db w"
proof -
  have a: "launched (absorb_world x t i l v) = launched v \<and> db (absorb_world x t i l v) = db v" for l v
    by (simp add: absorb_world_def split: absorbed.splits)
  have "launched (foldl (\<lambda>w l. absorb_world x t i l w) v ls) = launched v \<and>
      db (foldl (\<lambda>w l. absorb_world x t i l w) v ls) = db v" for v
    by (induction ls arbitrary: v) (auto simp: a)
  then show "launched (snd (consume x t i path ls w)) = launched w" "db (snd (consume x t i path ls w)) = db w"
    by (auto simp: consume_def append_log_def)
qed

lemma started_step:
  "started l0 i P (r, w) \<Longrightarrow> run_id r' = run_id r \<and> launched w' = launched w \<Longrightarrow> started l0 i P (r', w')"
  by (simp add: started_def)

interpretation launches: run_invariant "started l0 i P" P
proof
  fix r w argv
  assume "started l0 i P (r, w)" and "P argv"
  then obtain argvs where "run_id r = i" "launched w = l0 @ map (Pair i) argvs" "list_all P argvs"
    by (auto simp: started_def)
  then have "launched w @ [(run_id r, argv)] = l0 @ map (Pair i) (argvs @ [argv])" "list_all P (argvs @ [argv])"
    using \<open>P argv\<close> by auto
  then show "started l0 i P (r, w\<lparr>procs := (if run_id r \<in> set (procs w) then procs w else procs w @ [run_id r]),
              launched := launched w @ [(run_id r, argv)]\<rparr>)"
    using \<open>run_id r = i\<close> unfolding started_def by (auto intro!: exI [of _ "argvs @ [argv]"])
qed (erule started_step, simp add: commit_launched)+

lemma record_live_launched:
  "record_live lx t r j pl l code th path w = Some (r', w') \<Longrightarrow> run_id r' = run_id r \<and> launched w' = launched w"
  by (auto simp: record_live_def Let_def recorded_run_def dest: commit_launched)

lemma record_bisync_launched:
  "record_bisync lx t r j d l code path text w = Some (r', w') \<Longrightarrow> run_id r' = run_id r \<and> launched w' = launched w"
  by (auto simp: record_bisync_def Let_def recorded_bisync_def dest: commit_launched)

lemma fail_live_launched:
  "fail_live t r side m b w = Some (r', w') \<Longrightarrow> run_id r' = run_id r \<and> launched w' = launched w"
  by (auto simp: fail_live_def Let_def failed_run_def dest: commit_launched)

lemma started_store:
  "(\<And>r w r' w'. f r w = Some (r', w') \<Longrightarrow> run_id r' = run_id r \<and> launched w' = launched w) \<Longrightarrow>
     triple (started l0 i P) (store_outcome f) (\<lambda>_. started l0 i P)"
  by (rule triple_store) (erule started_step, blast)

lemma started_one_way:
  "triple (started l0 i (braked_command lx r j)) (execute_one_way lx t0 t1 r j)
     (\<lambda>_. started l0 i (braked_command lx r j))"
  by (rule launches.one_way_keeps) (assumption, rule started_store, erule record_live_launched)

lemma started_bisync_outcome:
  "triple (started l0 i P) (bisync_outcome lx t1 j p l ls code r) (\<lambda>_. started l0 i P)"
  by (rule launches.bisync_outcome_keeps)
    (rule started_store, erule fail_live_launched, rule started_store, erule record_bisync_launched,
     erule started_step, simp)

lemma started_bisync:
  "triple (started l0 i (reconciling_command lx r j)) (execute_bisync lx t0 t1 r j)
     (\<lambda>_. started l0 i (reconciling_command lx r j))"
  by (rule launches.bisync_keeps [OF _ started_bisync_outcome])


lemma prune_launched [simp]: "launched (prune_quiet_cycle t r j w) = launched w"
  by (simp add: prune_quiet_cycle_def)

lemma settle_launched: "launched (fst (settle lx t j (v, r, w))) = launched w"
  by (auto simp: settle_def dest: fail_live_launched split: sum.split option.split prod.split)

text \<open>The body of a run whose row and job are there, as one execution and its settlement.\<close>

lemma live_body_found:
  assumes r: "find_run (db w) i = Some r" and j: "find_job (db w) (run_job_id r) = Some j"
    and alone: "\<forall>q \<in> set (active_runs (db w) (run_job_id r)). run_id q = i"
  shows "\<exists>st. write_run (r\<lparr>run_status_of := Running, started_at := Some t0\<rparr>) (db w) = Some st \<and>
    live_body lx t0 t1 i w = settle lx t1 j (execute lx t0 t1 (r\<lparr>run_status_of := Running, started_at := Some t0\<rparr>) j
      (r\<lparr>run_status_of := Running, started_at := Some t0\<rparr>,
       emit i EvStatus ''Planning before making any changes.'' (w\<lparr>db := st\<rparr>)))"
proof -
  obtain st where st: "write_run (r\<lparr>run_status_of := Running, started_at := Some t0\<rparr>) (db w) = Some st"
    using start_run [OF r alone, of t0] by blast
  have "insert_changes [] st = st" by (simp add: insert_changes_def)
  then show ?thesis using r j st by (simp add: live_body_def commit_def Let_def)
qed

lemma live_body_absent: "find_run (db w) i = None \<Longrightarrow> live_body lx t0 t1 i w = (w, False)"
  by (simp add: live_body_def)

lemma live_run_launches:
  assumes r: "find_run (db w) i = Some r" and j: "find_job (db w) (run_job_id r) = Some j"
    and P: "\<And>r0. r0 = r\<lparr>run_status_of := Running, started_at := Some t0\<rparr> \<Longrightarrow>
      triple (started (launched w) i P) (execute lx t0 t1 r0 j) (\<lambda>_. started (launched w) i P)"
  shows "\<exists>argvs. launched (fst (live_run_now lx t0 t1 i w)) = launched w @ map (Pair i) argvs \<and> list_all P argvs"
proof -
  let ?r = "r\<lparr>run_status_of := Running, started_at := Some t0\<rparr>"
  have i: "run_id r = i" using find_run_Some [OF r] by simp
  have out: "launched (fst (live_run_now lx t0 t1 i w)) = launched (fst (live_body lx t0 t1 i w))"
    by (simp add: live_run_now_def split_def Let_def)
  show ?thesis
  proof (cases "commit ?r [] w")
    case None
    then have "live_body lx t0 t1 i w = (w, True)" using r j by (simp add: live_body_def Let_def)
    then show ?thesis unfolding out by (auto intro: exI [of _ "[]"])
  next
    case (Some w1)
    define s where "s = (?r, emit i EvStatus ''Planning before making any changes.'' w1)"
    obtain v r' w' where ex: "execute lx t0 t1 ?r j s = (v, r', w')" by (metis prod.exhaust)
    have "started (launched w) i P s"
      using commit_launched [OF Some] i by (simp add: s_def started_def)
    from tripleD [OF P [OF refl] this ex] have "started (launched w) i P (r', w')" by (cases v) auto
    moreover have "live_body lx t0 t1 i w = settle lx t1 j (v, r', w')"
      using r j Some ex by (simp add: live_body_def Let_def s_def)
    ultimately show ?thesis unfolding out by (simp add: settle_launched started_def)
  qed
qed

text \<open>C1. A one way live run never starts rclone without its brake. Whatever the job, the endpoints,
  rclone's answers and the state of the application, each process the run starts is the job's sync or
  copy; it is preceded by a dry run that counted no more deletions than the threshold the settings give
  (or the number a person approved), the sentinel file is where it should be, and the command carries
  that very threshold as \<open>--max-delete\<close>.\<close>

theorem live_sync_braked:
  assumes "find_run (db w) i = Some r" "find_job (db w) (run_job_id r) = Some j"
    and "job_direction j \<noteq> Bidirectional"
  shows "\<exists>argvs. launched (fst (live_run_now lx t0 t1 i w)) = launched w @ map (Pair i) argvs \<and>
    (\<forall>argv \<in> set argvs. \<exists>pl p src dst rest threshold.
       snd (rclone_plan (lx_ext lx) (lx_rc lx) j) = Inr pl \<and>
       threshold = (case forced_max_delete r of Some n \<Rightarrow> n
                    | None \<Rightarrow> resolve_max_delete (max_delete_pct j) (plan_dest_count pl)) \<and>
       int (deleted_count pl) \<le> threshold \<and> sentinel_missing lx j = None \<and>
       argv = prep_argv p ([operation_for j, src, dst, ''--use-json-log'', ''-v'', ''--stats'', ''5s'',
          ''--stats-one-line'', ''--max-delete'', str_int threshold] @ rest))"
proof -
  let ?r = "r\<lparr>run_status_of := Running, started_at := Some t0\<rparr>"
  obtain argvs where "launched (fst (live_run_now lx t0 t1 i w)) = launched w @ map (Pair i) argvs"
    and all: "list_all (braked_command lx ?r j) argvs"
    using live_run_launches [OF assms(1,2), of t0 "braked_command lx ?r j" lx t1] started_one_way assms(3)
    by (auto simp: execute_def)
  moreover have "threshold_for ?r j pl = threshold_for r j pl" for pl by (simp add: threshold_for_def)
  ultimately show ?thesis
    unfolding braked_command_def list_all_iff threshold_for_def by (metis (no_types, lifting))
qed

lemma started_bisync_run:
  assumes "find_run (db w) i = Some r" "find_job (db w) (run_job_id r) = Some j"
    and "job_direction j = Bidirectional"
  shows "\<exists>argvs. launched (fst (live_run_now lx t0 t1 i w)) = launched w @ map (Pair i) argvs \<and>
    (\<forall>argv \<in> set argvs. reconciling_command lx r j argv)"
proof -
  let ?r = "r\<lparr>run_status_of := Running, started_at := Some t0\<rparr>"
  have t: "triple (started (launched w) i (reconciling_command lx ?r j)) (execute lx t0 t1 ?r j)
      (\<lambda>_. started (launched w) i (reconciling_command lx ?r j))"
    using started_bisync assms(3) by (simp add: execute_def)
  have forced: "forced_max_delete ?r = forced_max_delete r" by simp
  have pre: "bisync_preflight lx j p path1 path2 wd ?r = bisync_preflight lx j p path1 path2 wd r"
    for p path1 path2 wd unfolding bisync_preflight_def forced ..
  have "live_flags ?r = live_flags r" by (simp add: live_flags_def)
  then have "reconciling_command lx ?r j = reconciling_command lx r j"
    unfolding reconciling_command_def by (intro ext) (simp add: pre)
  then show ?thesis
    using live_run_launches [OF assms(1,2), of t0 "reconciling_command lx r j" lx t1] t
    by (simp add: list_all_iff)
qed

lemma reconciling_shape:
  assumes "reconciling_command lx r j argv"
  shows "(bisync_initialized j \<or> is_resync r) \<and>
      (\<exists>p path1 path2 rest.
         argv = prep_argv p ([''bisync'', path1, path2, ''--workdir'', workdir_for (lx_bisync_dir lx) (job_id j),
             ''--use-json-log'', ''-v'', ''--max-delete'', str_int (max_delete_pct j),
             ''--conflict-resolve'', conflict_value (job_conflict_resolve j), ''--conflict-loser'', ''num''] @
           (if is_resync r then [''--resync''] else []) @
           (if forced_max_delete r \<noteq> None then [''--force''] else []) @
           (if run_trigger_of r = TrigSchedule then [''--resilient'', ''--recover''] else []) @ rest) \<and>
         (\<not> is_resync r \<longrightarrow>
            bisync_preflight lx j p path1 path2 (workdir_for (lx_bisync_dir lx) (job_id j)) r = None))"
proof -
  obtain p path1 path2 flags where b: "build_bisync_command (lx_ext lx) j p path1 path2
      (workdir_for (lx_bisync_dir lx) (job_id j)) (live_flags r) flags = Inr argv"
    and ok: "bisync_initialized j \<or> is_resync r" "\<not> is_resync r \<longrightarrow>
      bisync_preflight lx j p path1 path2 (workdir_for (lx_bisync_dir lx) (job_id j)) r = None"
    using assms unfolding reconciling_command_def by blast
  obtain rest where "argv = prep_argv p (bisync_head j path1 path2 (workdir_for (lx_bisync_dir lx) (job_id j))
      (live_flags r) @ rest)"
    using b by (auto simp: build_bisync_command_def bind_res_Inr)
  then show ?thesis
    using ok unfolding bisync_head_def live_flags_def bisync_flags.select_convs if_False append_Nil append_assoc
    by blast
qed


subsection \<open>Sample\<close>

definition sample_live :: live_ext where
  "sample_live =
     \<lparr>lx_ext = sample_ext, lx_rc = quiet_rclone, lx_say = (\<lambda>m. []), lx_stream = (\<lambda>env argv. Some ([''done''], 0)),
      lx_exists = (\<lambda>d f. True), lx_log_dir = ''/config/logs'', lx_bisync_dir = ''/config/bisync''\<rparr>"

definition queued_run :: job_run where
  "queued_run = (new_run 1 TrigManual Live Queued)\<lparr>run_id := 1\<rparr>"

definition queued_world :: "job \<Rightarrow> world" where
  "queued_world j = sample_world\<lparr>db := \<lparr>db_jobs = [j], db_runs = [queued_run], db_changes = []\<rparr>\<rparr>"

lemma queued_world_facts:
  assumes "job_id j = 1"
  shows "find_run (db (queued_world j)) 1 = Some queued_run" "find_job (db (queued_world j)) (run_job_id queued_run) = Some j"
    "\<forall>q \<in> set (active_runs (db (queued_world j)) (run_job_id queued_run)). run_id q = 1"
    "store_ok (db (queued_world j))" "launched (queued_world j) = []"
  using assms
  by (auto simp: queued_world_def queued_run_def new_run_def find_run_def find_job_def active_runs_def store_ok_def
      sample_world_def)

theorem live_sync_braked_witness:
  "\<exists>argvs. launched (fst (live_run_now sample_live 1 2 1 (queued_world sample_job))) = map (Pair 1) argvs \<and>
     list_all (\<lambda>argv. argv \<noteq> []) argvs"
proof -
  have j: "job_id sample_job = 1" "job_direction sample_job \<noteq> Bidirectional" by (simp_all add: sample_job_def)
  note f = queued_world_facts [OF j(1)]
  obtain argvs where l: "launched (fst (live_run_now sample_live 1 2 1 (queued_world sample_job))) =
      launched (queued_world sample_job) @ map (Pair 1) argvs"
    and a: "\<forall>argv \<in> set argvs. \<exists>p args. argv = prep_argv p args"
    using live_sync_braked [OF f(1,2) j(2), of sample_live 1 2] by blast
  have "\<forall>argv \<in> set argvs. argv \<noteq> []" using a by (auto simp: prep_argv_def)
  then show ?thesis using l f(5) by (auto simp: list_all_iff)
qed


subsection \<open>How a live run ends\<close>

definition in_progress :: "nat \<Rightarrow> nat \<Rightarrow> job_run \<times> world \<Rightarrow> bool" where
  "in_progress i k s \<longleftrightarrow>
     store_ok (db (snd s)) \<and> run_id (fst s) = i \<and> run_job_id (fst s) = k \<and> run_status_of (fst s) = Running \<and>
     (\<exists>q. find_run (db (snd s)) i = Some q \<and> run_status_of q = Running \<and> run_job_id q = k)"

definition settled :: "nat \<Rightarrow> datetime \<Rightarrow> job_run \<times> world \<Rightarrow> bool" where
  "settled i t s \<longleftrightarrow>
     store_ok (db (snd s)) \<and> run_id (fst s) = i \<and> find_run (db (snd s)) i = Some (fst s) \<and>
     terminal_status (run_status_of (fst s)) \<and> finished_at (fst s) = Some t"

lemma commit_in_progress:
  assumes s: "in_progress i k (r, w)" and c: "commit r' cs w = Some w'"
    and r': "run_id r' = i" "run_job_id r' = k" and cs: "\<forall>c \<in> set cs. chg_run_id c = i"
  shows "store_ok (db w') \<and> find_run (db w') i = Some r'"
proof -
  obtain q where q: "find_run (db w) i = Some q" "run_job_id q = k" and ok: "store_ok (db w)"
    using s by (auto simp: in_progress_def)
  obtain st where st: "write_run r' (db w) = Some st" and w': "db w' = insert_changes cs st"
    using c by (auto simp: commit_def)
  have "store_ok st" using write_run_ok [OF ok st] q r' by simp
  moreover have f: "find_run st i = Some r'" using find_run_write [OF st, of i] r' by simp
  then have "i \<in> run_id ` set (db_runs st)" using find_run_Some [OF f] by auto
  ultimately show ?thesis using cs f by (auto simp: w' intro: insert_changes_ok)
qed

lemma find_run_amend_job [simp]: "find_run (amend_job k f st) i = find_run st i"
  by (simp add: find_run_def amend_job_def)

interpretation progress: run_invariant "in_progress i k" "\<lambda>_. True"
proof
  fix r w r' w'
  assume s: "in_progress i k (r, w)" and "run_id r' = run_id r" "run_job_id r' = run_job_id r"
    "run_status_of r' = run_status_of r" and c: "commit r' [] w = Some w'"
  then have "run_id r' = i" "run_job_id r' = k" "run_status_of r' = Running" by (auto simp: in_progress_def)
  then show "in_progress i k (r', w')"
    using commit_in_progress [OF s c] by (simp add: in_progress_def)
next
  fix r w and f :: "job \<Rightarrow> job" and j
  assume "in_progress i k (r, w)" "\<And>j. job_id (f j) = job_id j"
  then show "in_progress i k (r, w\<lparr>db := amend_job j f (db w)\<rparr>)"
    by (auto simp: in_progress_def intro: amend_job_ok)
qed (auto simp: in_progress_def)

lemma terminal_status_for [simp]: "terminal_status (status_for r code)"
  by (simp add: status_for_def terminal_status_def)

lemma settled_commit:
  assumes "in_progress i k (r, w)" "commit r' cs w = Some w'" "run_id r' = i" "run_job_id r' = k"
    and "\<forall>c \<in> set cs. chg_run_id c = i" "terminal_status (run_status_of r')" "finished_at r' = Some t"
  shows "settled i t (r', w')"
  using commit_in_progress [OF assms(1,2,3,4,5)] assms(3,6,7) by (simp add: settled_def)

lemma settled_emit: "settled i t (r, w) \<Longrightarrow> settled i t (r, emit k e m w)"
  by (simp add: settled_def)

lemma settled_record_live:
  assumes s: "in_progress i k (r, w)" and "record_live lx t r j pl l code th path w = Some (r', w')"
  shows "settled i t (r', w')"
proof -
  obtain v where v: "commit r' (map (op_row (run_id r) (\<lambda>_. side_for j) (peak_speeds l))
      (take MAX_PERSISTED_CHANGES (copies l @ removals l))) w = Some v"
    and r': "r' = recorded_run (lx_say lx) t r pl l code th path" and w': "\<exists>m. w' = emit (run_id r) EvDone m v"
    using assms(2) by (auto simp: record_live_def Let_def)
  have "settled i t (r', v)"
    using s by (intro settled_commit [OF s v]) (auto simp: r' recorded_run_def in_progress_def op_row_def)
  then show ?thesis using w' settled_emit by blast
qed

lemma settled_record_bisync:
  assumes s: "in_progress i k (r, w)" and "record_bisync lx t r j d l code path body w = Some (r', w')"
  shows "settled i t (r', w')"
proof -
  obtain v where v: "commit r' (map (op_row (run_id r) (sides_of (parse_planned_changes (lx_ext lx) body))
      (peak_speeds l)) (bisync_ops l)) w = Some v"
    and r': "r' = recorded_bisync t r j d l code path" and w': "\<exists>m. w' = emit (run_id r) EvDone m v"
    using assms(2) by (auto simp: record_bisync_def Let_def)
  have "settled i t (r', v)"
    using s by (intro settled_commit [OF s v]) (auto simp: r' recorded_bisync_def in_progress_def op_row_def)
  then show ?thesis using w' settled_emit by blast
qed

lemma settled_fail_live:
  assumes s: "in_progress i k (r, w)" and f: "fail_live t r side m b w = Some (r', w')"
  shows "settled i t (r', w')"
proof -
  define cs where "cs = (case b of None \<Rightarrow> [] | Some b \<Rightarrow> map (change_row (run_id r) side)
      (take MAX_PERSISTED_CHANGES (br_changes b)))"
  have ids: "\<forall>c \<in> set cs. chg_run_id c = run_id r"
    unfolding cs_def by (cases b) (simp_all add: change_row_def)
  have "map_option (\<lambda>w'. (failed_run t r m b, w')) (commit (failed_run t r m b) cs w) = Some (r', w')"
    using f unfolding fail_live_def Let_def cs_def .
  then have c: "commit r' cs w = Some w'" and r': "r' = failed_run t r m b" by auto
  have id: "run_id r' = i" "run_job_id r' = k" "run_id r = i"
    using s by (simp_all add: r' failed_run_def in_progress_def)
  show ?thesis
    using ids by (intro settled_commit [OF s c]) (simp_all add: id, simp_all add: r' failed_run_def terminal_status_def)
qed

lemma fail_live_works:
  assumes "in_progress i k (r, w)"
  shows "fail_live t r side m b w \<noteq> None"
proof -
  obtain st where "write_run (failed_run t r m b) (db w) = Some st"
    using write_run_inactive [of "db w" "failed_run t r m b"] assms
    by (auto simp: failed_run_def in_progress_def active_status_def)
  then show ?thesis by (simp add: fail_live_def commit_def Let_def)
qed

lemma execute_ends:
  "triple (in_progress i k) (execute lx t0 t1 r j) (\<lambda>_. settled i t1)"
proof (cases "job_direction j = Bidirectional")
  case True
  have out: "triple (in_progress i k) (bisync_outcome lx t1 j p l ls code r) (\<lambda>_. settled i t1)" for p l ls code
    by (rule progress.bisync_outcome_keeps)
      (rule triple_store, erule (1) settled_fail_live, rule triple_store, erule (1) settled_record_bisync,
       erule settled_emit)
  have "triple (in_progress i k) (execute_bisync lx t0 t1 r j) (\<lambda>_. settled i t1)"
    by (rule progress.bisync_keeps [OF _ out]) simp
  then show ?thesis using True by (simp add: execute_def)
next
  case False
  have "triple (in_progress i k) (execute_one_way lx t0 t1 r j) (\<lambda>_. settled i t1)"
    by (rule progress.one_way_keeps) (simp, rule triple_store, erule (1) settled_record_live)
  then show ?thesis using False by (simp add: execute_def)
qed

lemma find_run_delete [simp]: "find_run (delete_run i st) i = None"
  by (auto simp: find_run_None delete_run_def)

definition ended :: "nat \<Rightarrow> datetime \<Rightarrow> job \<Rightarrow> world \<Rightarrow> bool" where
  "ended i t j w \<longleftrightarrow>
     (\<exists>q. find_run (db w) i = Some q \<and> terminal_status (run_status_of q) \<and> finished_at q = Some t) \<or>
     find_run (db w) i = None \<and> continuous j"

lemma prune_ends: "settled i t (r, w) \<Longrightarrow> store_ok (db (prune_quiet_cycle t r j w)) \<and> ended i t j (prune_quiet_cycle t r j w)"
  by (auto simp: settled_def prune_quiet_cycle_def ended_def intro: amend_job_ok delete_run_ok)

lemma settle_ends:
  assumes ends: "case v of Inl e \<Rightarrow> in_progress i k (r, w) | Inr x \<Rightarrow> settled i t (r, w)"
    and out: "settle lx t j (v, r, w) = (w', raised)"
  shows "store_ok (db w') \<and>
    (if raised then map_option run_status_of (find_run (db w') i) = Some Running else ended i t j w')"
proof (cases v)
  case (Inr x)
  then show ?thesis using ends out prune_ends [of i t r w j] by (auto simp: settle_def)
next
  case (Inl e)
  then have prog: "in_progress i k (r, w)" using ends by simp
  show ?thesis
  proof (cases "caught lx e")
    case None
    then show ?thesis using Inl out prog by (auto simp: settle_def in_progress_def)
  next
    case (Some c)
    obtain m status refused where c: "c = (m, status, refused)" by (cases c)
    obtain r' v' where f: "fail_live t r (side_for j) (lx_say lx m) refused w = Some (r', v')"
      using fail_live_works [OF prog] by (metis option.exhaust prod.exhaust)
    have "settled i t (r', emit (run_id r) EvStatus (lx_say lx status) v')"
      using settled_fail_live [OF prog f] settled_emit by blast
    then show ?thesis using prune_ends out Inl Some c f by (auto simp: settle_def)
  qed
qed

lemma live_body_ends:
  assumes ok: "store_ok (db w)" and r: "find_run (db w) i = Some r"
    and j: "find_job (db w) (run_job_id r) = Some j"
    and alone: "\<forall>q \<in> set (active_runs (db w) (run_job_id r)). run_id q = i"
    and run: "live_body lx t0 t1 i w = (w', raised)"
  shows "store_ok (db w') \<and>
    (if raised then map_option run_status_of (find_run (db w') i) = Some Running else ended i t1 j w')"
proof -
  let ?r = "r\<lparr>run_status_of := Running, started_at := Some t0\<rparr>"
  have i: "run_id r = i" using find_run_Some [OF r] by simp
  obtain st where st: "write_run ?r (db w) = Some st"
    and body: "live_body lx t0 t1 i w = settle lx t1 j (execute lx t0 t1 ?r j
      (?r, emit i EvStatus ''Planning before making any changes.'' (w\<lparr>db := st\<rparr>)))"
    using live_body_found [OF r j alone] by blast
  define s where "s = (?r, emit i EvStatus ''Planning before making any changes.'' (w\<lparr>db := st\<rparr>))"
  have "store_ok st" using write_run_ok [OF ok st] r i by simp
  moreover have "find_run st i = Some ?r" using find_run_write [OF st, of i] i by simp
  ultimately have "in_progress i (run_job_id r) s" using i by (simp add: s_def in_progress_def)
  moreover obtain v r' w1 where ex: "execute lx t0 t1 ?r j s = (v, r', w1)" by (metis prod.exhaust)
  ultimately have "case v of Inl e \<Rightarrow> in_progress i (run_job_id r) (r', w1) | Inr x \<Rightarrow> settled i t1 (r', w1)"
    using tripleD [OF execute_ends] by fastforce
  moreover have "settle lx t1 j (v, r', w1) = (w', raised)" using body run ex by (simp add: s_def)
  ultimately show ?thesis using settle_ends by blast
qed



text \<open>An exception no handler names leaves the row running: the job takes no other run until a restart.\<close>

lemma raised_run_blocks:
  assumes "store_ok (db w)" "find_run (db w) i = Some r" "find_job (db w) (run_job_id r) = Some j"
    and "\<forall>q \<in> set (active_runs (db w) (run_job_id r)). run_id q = i"
    and "live_run_now lx t0 t1 i w = (w', True)"
  shows "\<exists>q. find_run (db w') i = Some q \<and> run_status_of q = Running \<and> create_run (run_job_id q) t m (db w') = None"
proof -
  obtain v where body: "live_body lx t0 t1 i w = (v, True)" and db: "db w' = db v"
    using assms(5) by (cases "live_body lx t0 t1 i w") (auto simp: live_run_now_def)
  obtain q where q: "find_run (db w') i = Some q" "run_status_of q = Running"
    using live_body_ends [OF assms(1-4) body] db by auto
  then have "q \<in> set (active_runs (db w') (run_job_id q))"
    using find_run_Some [OF q(1)] by (simp add: active_runs_def active_status_def)
  then show ?thesis using q by (auto simp: create_run_None)
qed

subsection \<open>What is recorded\<close>

lemma action_of_copies: "\<forall>p \<in> set (copies l). action_for p \<in> {ActNew, ActUpdated}"
  by (auto simp: copies_def action_for_def SKIPPED_COPY_def SKIPPED_DELETE_def SKIPPED_ARCHIVE_def)

lemma action_of_deletes: "\<forall>p \<in> set (deletes l). action_for p = ActDeleted"
  by (auto simp: deletes_def action_for_def)

lemma action_of_archived: "\<forall>p \<in> set (archived l). action_for p = ActArchived"
  by (auto simp: archived_def action_for_def SKIPPED_DELETE_def SKIPPED_ARCHIVE_def)

lemmas action_sorts = action_of_copies action_of_deletes action_of_archived

definition rows_with :: "change_action set \<Rightarrow> job_run_change list \<Rightarrow> nat" where
  "rows_with as rows = length (filter (\<lambda>c. chg_action c \<in> as) rows)"

lemma rows_with_simps [simp]:
  "rows_with as [] = 0" "rows_with as (xs @ ys) = rows_with as xs + rows_with as ys"
  by (simp_all add: rows_with_def)

lemma rows_with_all: "\<forall>p \<in> set ops. action_for p \<in> as \<Longrightarrow> rows_with as (map (op_row i side sp) ops) = length ops"
  by (simp add: rows_with_def op_row_def filter_map comp_def)

lemma rows_with_none: "\<forall>p \<in> set ops. action_for p \<notin> as \<Longrightarrow> rows_with as (map (op_row i side sp) ops) = 0"
  by (simp add: rows_with_def op_row_def filter_map comp_def)

lemma rows_by_action:
  "rows_with {ActNew, ActUpdated} (map (op_row i side sp) (copies l)) = length (copies l)"
  "rows_with {ActNew, ActUpdated} (map (op_row i side sp) (removals l)) = 0"
  "rows_with {ActNew, ActUpdated} (map (op_row i side sp) (archived l)) = 0"
  "rows_with {ActDeleted, ActArchived} (map (op_row i side sp) (copies l)) = 0"
  "rows_with {ActDeleted, ActArchived} (map (op_row i side sp) (removals l)) = length (removals l)"
  "rows_with {ActArchived} (map (op_row i side sp) (copies l)) = 0"
  "rows_with {ActArchived} (map (op_row i side sp) (removals l)) = length (archived l)"
  "rows_with {ActArchived} (map (op_row i side sp) (archived l)) = length (archived l)"
proof -
  have r: "map (op_row i side sp) (removals l) = map (op_row i side sp) (deletes l) @ map (op_row i side sp) (archived l)"
    by (simp add: removals_def)
  note none = rows_with_none and all = rows_with_all
  show "rows_with {ActNew, ActUpdated} (map (op_row i side sp) (copies l)) = length (copies l)"
    using action_of_copies by (rule all)
  show a: "rows_with {ActNew, ActUpdated} (map (op_row i side sp) (archived l)) = 0"
    by (rule none) (use action_of_archived in auto)
  show "rows_with {ActNew, ActUpdated} (map (op_row i side sp) (removals l)) = 0"
    unfolding r using a none [of "deletes l" "{ActNew, ActUpdated}"] action_of_deletes by fastforce
  show "rows_with {ActDeleted, ActArchived} (map (op_row i side sp) (copies l)) = 0"
    by (rule none) (use action_of_copies in fastforce)
  show "rows_with {ActDeleted, ActArchived} (map (op_row i side sp) (removals l)) = length (removals l)"
    by (rule all) (use action_of_deletes action_of_archived in \<open>auto simp: removals_def\<close>)
  show "rows_with {ActArchived} (map (op_row i side sp) (copies l)) = 0"
    by (rule none) (use action_of_copies in fastforce)
  show b: "rows_with {ActArchived} (map (op_row i side sp) (archived l)) = length (archived l)"
    by (rule all) (use action_of_archived in auto)
  show "rows_with {ActArchived} (map (op_row i side sp) (removals l)) = length (archived l)"
    unfolding r using b none [of "deletes l" "{ActArchived}"] action_of_deletes by fastforce
qed

lemma commit_changes: "commit r cs w = Some w' \<Longrightarrow> db_changes (db w') = db_changes (db w) @ cs"
  using write_run_jobs by (auto simp: commit_def insert_changes_def)

text \<open>The history of a one way run adds up. The rows it stores are at most 5000, and exactly one for
  each file transferred or removed below that; then the new and updated rows number the transfers of the
  run's totals, the deleted and archived rows its deletions, and the archived rows its archived files.\<close>

theorem live_totals_match_rows:
  assumes "record_live lx t r j pl l code th path w = Some (r', w')"
  shows "\<exists>rows. db_changes (db w') = db_changes (db w) @ rows \<and> (\<forall>c \<in> set rows. chg_run_id c = run_id r) \<and>
    int (length rows) = min 5000 (files_transferred r' + files_deleted r') \<and>
    (files_transferred r' + files_deleted r' \<le> 5000 \<longrightarrow>
       int (rows_with {ActNew, ActUpdated} rows) = files_transferred r' \<and>
       int (rows_with {ActDeleted, ActArchived} rows) = files_deleted r' \<and>
       int (rows_with {ActArchived} rows) = files_archived r')"
proof -
  let ?row = "op_row (run_id r) (\<lambda>_. side_for j) (peak_speeds l)"
  let ?rows = "map ?row (take MAX_PERSISTED_CHANGES (copies l @ removals l))"
  obtain v where v: "commit r' ?rows w = Some v" and r': "r' = recorded_run (lx_say lx) t r pl l code th path"
    and w': "db w' = db v"
    using assms by (auto simp: record_live_def Let_def)
  have n: "files_transferred r' = int (length (copies l))" "files_deleted r' = int (length (removals l))"
    "files_archived r' = int (length (archived l))"
    by (simp_all add: r' recorded_run_def)
  define rows where "rows = ?rows"
  have all: "rows = map ?row (copies l) @ map ?row (removals l)" if "files_transferred r' + files_deleted r' \<le> 5000"
    using that unfolding rows_def n MAX_PERSISTED_CHANGES_def by simp
  have sums: "int (rows_with {ActNew, ActUpdated} rows) = files_transferred r'"
    "int (rows_with {ActDeleted, ActArchived} rows) = files_deleted r'"
    "int (rows_with {ActArchived} rows) = files_archived r'" if "files_transferred r' + files_deleted r' \<le> 5000"
    unfolding all [OF that] n rows_with_simps rows_by_action by simp_all
  have ids: "\<forall>c \<in> set rows. chg_run_id c = run_id r" unfolding rows_def by (auto simp: op_row_def)
  have len: "int (length rows) = min 5000 (files_transferred r' + files_deleted r')"
    unfolding rows_def n MAX_PERSISTED_CHANGES_def by simp
  show ?thesis
    using commit_changes [OF v] sums ids len unfolding w' rows_def [symmetric] by blast
qed

theorem live_totals_match_rows_witness:
  "\<exists>r' w'. record_live sample_live 2 queued_run sample_job empty_plan
       (empty_log\<lparr>operations := [\<lparr>op_path = ''a.mkv'', operation = SKIPPED_COPY, op_size = Some 4, replaced = Some False\<rparr>]\<rparr>)
       0 1 ''/config/logs/1/1.log'' (queued_world sample_job) = Some (r', w') \<and>
     int (rows_with {ActNew, ActUpdated} (db_changes (db w'))) = files_transferred r' \<and> files_transferred r' = 1"
proof -
  let ?l = "empty_log\<lparr>operations := [\<lparr>op_path = ''a.mkv'', operation = SKIPPED_COPY, op_size = Some 4, replaced = Some False\<rparr>]\<rparr>"
  have id: "job_id sample_job = 1" by (simp add: sample_job_def)
  let ?r = "recorded_run (lx_say sample_live) 2 queued_run empty_plan ?l 0 1 ''/config/logs/1/1.log''"
  have "find_run (db (queued_world sample_job)) (run_id ?r) \<noteq> None"
    using queued_world_facts(1) [OF id] by (simp add: recorded_run_def queued_run_def)
  then obtain st where "write_run ?r (db (queued_world sample_job)) = Some st"
    using write_run_inactive [of "db (queued_world sample_job)" ?r]
    by (auto simp: recorded_run_def active_or_terminal)
  then obtain r' w' where rec: "record_live sample_live 2 queued_run sample_job empty_plan ?l 0 1
      ''/config/logs/1/1.log'' (queued_world sample_job) = Some (r', w')"
    by (auto simp: record_live_def commit_def Let_def)
  then have "r' = ?r" by (auto simp: record_live_def Let_def)
  then have n: "files_transferred r' = 1" "files_deleted r' = 0"
    by (simp_all add: recorded_run_def copies_def removals_def deletes_def archived_def empty_log_def
        SKIPPED_COPY_def SKIPPED_DELETE_def SKIPPED_ARCHIVE_def)
  have "db_changes (db (queued_world sample_job)) = []" by (simp add: queued_world_def)
  then show ?thesis
    using live_totals_match_rows [OF rec] rec n by auto
qed

text \<open>A bidirectional run adds its archived files to removals that hold them already: each is stored
  twice, and the stored rows outnumber the totals by the archived files.\<close>

lemma bisync_archives_recorded_twice:
  assumes "record_bisync lx t r j d l code path body w = Some (r', w')"
    and "length (copies l) + length (removals l) + length (archived l) \<le> 5000"
  shows "\<exists>rows. db_changes (db w') = db_changes (db w) @ rows \<and>
    int (rows_with {ActArchived} rows) = 2 * files_archived r' \<and>
    int (length rows) = files_transferred r' + files_deleted r' + files_archived r'"
proof -
  let ?row = "op_row (run_id r) (sides_of (parse_planned_changes (lx_ext lx) body)) (peak_speeds l)"
  obtain v where v: "commit r' (map ?row (bisync_ops l)) w = Some v" and r': "r' = recorded_bisync t r j d l code path"
    and w': "db w' = db v"
    using assms(1) by (auto simp: record_bisync_def Let_def)
  have "bisync_ops l = copies l @ removals l @ archived l"
    using assms(2) by (simp add: bisync_ops_def MAX_PERSISTED_CHANGES_def)
  then show ?thesis
    using commit_changes [OF v] by (auto simp: w' r' recorded_bisync_def rows_by_action)
qed

text \<open>An approved run skips the veto of its dry run as soon as that reports few enough deletions, which a
  dry run that was killed or failed before its summary does: the live command then carries \<open>--force\<close>.\<close>

lemma forced_preflight_blind:
  assumes "forced_max_delete r = Some n" "0 \<le> n"
    and "build_bisync_command (lx_ext lx) j p path1 path2 workdir planning_flags [] = Inr argv"
    and res: "res = run_command (secrets p) argv (rc_run (lx_rc lx) (prep_env p) argv)"
    and "deltas_in (res_stdout res @ CHR 0x0A # res_stderr res) = []"
  shows "bisync_preflight lx j p path1 path2 workdir r = None"
proof -
  have "total_deleted (parse_deltas (lx_ext lx) (res_stdout res @ CHR 0x0A # res_stderr res)) = 0"
    by (simp add: parse_deltas_def assms(5) side_counts_def total_deleted_def)
  then show ?thesis
    unfolding bisync_preflight_def assms(3) res [symmetric] assms(1) Let_def sum.case option.case
    using assms(2) by simp
qed

end
