(* ===== verification/RateLimit.thy ===== *)
theory RateLimit
  imports Models
begin

text \<open>
  \<open>app/ratelimit.py\<close>: counting failed logins per user name and per source address over a sliding
  window, in the rows of the \<open>login_attempt\<close> table. Times are microseconds, and the moment of a call is
  an argument, read once. The locale \<open>failure_counter\<close> is the contract the limiter relies on: a window
  of failures per key that a failure raises by one and a success empties.
\<close>

record login_settings =
  login_max_attempts :: int
  login_lockout_seconds :: int

record verdict =
  v_allowed :: bool
  retry_after_seconds :: int
  v_scope :: "attempt_scope option"


definition RETENTION :: int where "RETENTION = 7 * 24 * 60 * 60 * second"

definition window_of :: "login_settings \<Rightarrow> int" where
  "window_of s = login_lockout_seconds s * second"

definition in_window :: "attempt_scope \<Rightarrow> string \<Rightarrow> datetime \<Rightarrow> login_attempt \<Rightarrow> bool" where
  "in_window scope v since a \<longleftrightarrow> att_scope a = scope \<and> att_value a = v \<and> since \<le> attempted_at a"

definition recent :: "attempt_scope \<Rightarrow> string \<Rightarrow> datetime \<Rightarrow> login_attempt list \<Rightarrow> nat" where
  "recent scope v since rows = length (filter (in_window scope v since) rows)"

definition oldest_in_window :: "attempt_scope \<Rightarrow> string \<Rightarrow> datetime \<Rightarrow> login_attempt list \<Rightarrow> datetime option" where
  "oldest_in_window scope v since rows =
     (case map attempted_at (filter (in_window scope v since) rows) of
        [] \<Rightarrow> None | t # ts \<Rightarrow> Some (foldl min t ts))"

text \<open>\<open>int(delta.total_seconds())\<close> truncates towards zero.\<close>

definition whole_seconds :: "int \<Rightarrow> int" where
  "whole_seconds d = (if d < 0 then - ((- d) div second) else d div second)"

definition refusal :: "login_settings \<Rightarrow> datetime \<Rightarrow> login_attempt list \<Rightarrow> attempt_scope \<times> string \<Rightarrow> verdict option" where
  "refusal s now rows k =
     (let (scope, v) = k; since = now - window_of s
      in if v = [] then None
         else if int (recent scope v since rows) < login_max_attempts s then None
         else (case oldest_in_window scope v since rows of
                 None \<Rightarrow> None
               | Some t \<Rightarrow> Some \<lparr>v_allowed = False, retry_after_seconds = max (whole_seconds (t + window_of s - now)) 1,
                                v_scope = Some scope\<rparr>))"

definition scopes_of :: "string \<Rightarrow> string \<Rightarrow> (attempt_scope \<times> string) list" where
  "scopes_of uname address = [(ScopeUsername, py_lower uname), (ScopeAddress, address)]"

definition check :: "login_settings \<Rightarrow> datetime \<Rightarrow> string \<Rightarrow> string \<Rightarrow> login_attempt list \<Rightarrow> verdict" where
  "check s now uname address rows =
     (case List.map_filter (refusal s now rows) (scopes_of uname address) of
        v # vs \<Rightarrow> v
      | [] \<Rightarrow> \<lparr>v_allowed = True, retry_after_seconds = 0, v_scope = None\<rparr>)"

definition record_failure :: "datetime \<Rightarrow> string \<Rightarrow> string \<Rightarrow> login_attempt list \<Rightarrow> login_attempt list" where
  "record_failure now uname address rows =
     filter (\<lambda>a. \<not> attempted_at a < now - RETENTION)
       (rows @
        (if uname \<noteq> [] then [\<lparr>att_scope = ScopeUsername, att_value = py_lower uname, attempted_at = now\<rparr>] else []) @
        (if address \<noteq> [] then [\<lparr>att_scope = ScopeAddress, att_value = address, attempted_at = now\<rparr>] else []))"

definition clear_failures :: "string \<Rightarrow> string \<Rightarrow> login_attempt list \<Rightarrow> login_attempt list" where
  "clear_failures uname address rows =
     filter (\<lambda>a. \<not> (att_scope a = ScopeUsername \<and> att_value a = py_lower uname \<or>
                  att_scope a = ScopeAddress \<and> att_value a = address)) rows"

subsection \<open>The contract of the counter\<close>

locale failure_counter =
  fixes seen :: "'k \<Rightarrow> datetime \<Rightarrow> 's \<Rightarrow> nat" and fail :: "datetime \<Rightarrow> 'e \<Rightarrow> 's \<Rightarrow> 's"
    and forgive :: "'e \<Rightarrow> 's \<Rightarrow> 's" and keys :: "'e \<Rightarrow> 'k set" and keep :: int
  assumes seen_fail: "t - keep \<le> since \<Longrightarrow> since \<le> t \<Longrightarrow>
      seen k since (fail t e s) = seen k since s + (if k \<in> keys e then 1 else 0)"
    and seen_forgive: "k \<in> keys e \<Longrightarrow> seen k since (forgive e s) = 0"
    and forgive_mono: "seen k since (forgive e s) \<le> seen k since s"
begin

lemma burst_counts:
  "\<forall>(t, e) \<in> set es. t - keep \<le> since \<and> since \<le> t \<Longrightarrow>
     seen k since (fold (\<lambda>(t, e). fail t e) es s) =
       seen k since s + length (filter (\<lambda>(t, e). k \<in> keys e) es)"
proof (induction es arbitrary: s)
  case (Cons x es)
  obtain t e where x: "x = (t, e)" by (cases x)
  have "seen k since (fail t e s) = seen k since s + (if k \<in> keys e then 1 else 0)"
    using Cons.prems by (intro seen_fail) (auto simp: x)
  then show ?case using Cons by (simp add: x)
qed simp

lemma forgiven_burst:
  "\<forall>(t, e) \<in> set es. t - keep \<le> since \<and> since \<le> t \<Longrightarrow> k \<in> keys e0 \<Longrightarrow>
     seen k since (fold (\<lambda>(t, e). fail t e) es (forgive e0 s)) = length (filter (\<lambda>(t, e). k \<in> keys e) es)"
  by (simp add: burst_counts seen_forgive)

end

definition keys_of :: "string \<times> string \<Rightarrow> (attempt_scope \<times> string) set" where
  "keys_of e =
     (if fst e = [] then {} else {(ScopeUsername, py_lower (fst e))}) \<union>
     (if snd e = [] then {} else {(ScopeAddress, snd e)})"

definition fail_event :: "datetime \<Rightarrow> string \<times> string \<Rightarrow> login_attempt list \<Rightarrow> login_attempt list" where
  "fail_event t e = record_failure t (fst e) (snd e)"

lemma recent_append: "recent sc v since (xs @ ys) = recent sc v since xs + recent sc v since ys"
  by (simp add: recent_def)

lemma recent_sweep:
  assumes "t - RETENTION \<le> since"
  shows "recent sc v since (filter (\<lambda>a. \<not> attempted_at a < t - RETENTION) rows) = recent sc v since rows"
proof -
  have "(in_window sc v since a \<and> \<not> attempted_at a < t - RETENTION) = in_window sc v since a" for a
    using assms by (auto simp: in_window_def)
  then have "filter (in_window sc v since) (filter (\<lambda>a. \<not> attempted_at a < t - RETENTION) rows) =
      filter (in_window sc v since) rows" by (simp add: filter_filter conj_commute)
  then show ?thesis by (simp add: recent_def)
qed

interpretation attempts: failure_counter "\<lambda>k since rows. recent (fst k) (snd k) since rows" fail_event
  "\<lambda>e. clear_failures (fst e) (snd e)" keys_of RETENTION
proof
  fix t since :: datetime and k and e :: "string \<times> string" and rows
  assume "t - RETENTION \<le> since" "since \<le> t"
  then show "recent (fst k) (snd k) since (fail_event t e rows) =
      recent (fst k) (snd k) since rows + (if k \<in> keys_of e then 1 else 0)"
    unfolding fail_event_def record_failure_def recent_sweep [OF \<open>t - RETENTION \<le> since\<close>] recent_append
    by (cases k) (auto simp: recent_def in_window_def keys_of_def)
next
  fix k since and e :: "string \<times> string" and rows
  show "k \<in> keys_of e \<Longrightarrow> recent (fst k) (snd k) since (clear_failures (fst e) (snd e) rows) = 0"
    by (auto simp: recent_def clear_failures_def keys_of_def in_window_def filter_empty_conv split: if_splits)
  show "recent (fst k) (snd k) since (clear_failures (fst e) (snd e) rows) \<le> recent (fst k) (snd k) since rows"
    unfolding recent_def clear_failures_def filter_filter
    by (induction rows) auto
qed

subsection \<open>Lockout\<close>

lemma py_lower_empty [simp]: "py_lower [] = []"
  by (simp add: py_lower_def)

lemma py_lower_empty_eq [simp]: "[] = py_lower s \<longleftrightarrow> s = []"
  using py_lower_Nil [of s] by metis

lemma oldest_None: "oldest_in_window sc v since rows = None \<longleftrightarrow> recent sc v since rows = 0"
  by (auto simp: oldest_in_window_def recent_def split: list.splits)

lemma foldl_min_in: "foldl min t ts \<in> insert t (set ts)" for t :: "'a :: linorder"
proof (induction ts arbitrary: t)
  case (Cons u ts)
  show ?case using Cons.IH [of "min t u"] by (auto simp: min_def)
qed simp

lemma foldl_min_le: "\<forall>x \<in> insert t (set ts). foldl min t ts \<le> x" for t :: "'a :: linorder"
proof (induction ts arbitrary: t)
  case (Cons u ts)
  show ?case using Cons.IH [of "min t u"] by auto
qed simp

lemma oldest_Some:
  assumes "oldest_in_window sc v since rows = Some t"
  shows "\<exists>a \<in> set rows. in_window sc v since a \<and> attempted_at a = t"
    and "\<forall>a \<in> set rows. in_window sc v since a \<longrightarrow> t \<le> attempted_at a"
proof -
  obtain u us where m: "map attempted_at (filter (in_window sc v since) rows) = u # us" and t: "t = foldl min u us"
    using assms by (auto simp: oldest_in_window_def split: list.splits)
  have set_eq: "insert u (set us) = attempted_at ` {a \<in> set rows. in_window sc v since a}"
    using arg_cong [OF m, of set] by (simp add: image_def)
  then show "\<exists>a \<in> set rows. in_window sc v since a \<and> attempted_at a = t"
    using foldl_min_in [of u us] t by auto
  show "\<forall>a \<in> set rows. in_window sc v since a \<longrightarrow> t \<le> attempted_at a"
    using set_eq foldl_min_le [of u us] t by auto
qed

lemma refusal_iff:
  assumes "0 < login_max_attempts s"
  shows "refusal s now rows (sc, v) = None \<longleftrightarrow>
    v = [] \<or> int (recent sc v (now - window_of s) rows) < login_max_attempts s"
  using assms oldest_None [of sc v "now - window_of s" rows]
  by (auto simp: refusal_def Let_def split: option.splits)

lemma check_allowed_iff:
  assumes "0 < login_max_attempts s"
  shows "v_allowed (check s now uname address rows) \<longleftrightarrow>
    (uname = [] \<or> int (recent ScopeUsername (py_lower uname) (now - window_of s) rows) < login_max_attempts s) \<and>
    (address = [] \<or> int (recent ScopeAddress address (now - window_of s) rows) < login_max_attempts s)"
proof -
  have f: "refusal s now rows k = Some v \<Longrightarrow> \<not> v_allowed v" for k v
    by (auto simp: refusal_def Let_def split: if_splits option.splits prod.splits)
  show ?thesis
    using refusal_iff [OF assms, of now rows ScopeUsername "py_lower uname"]
      refusal_iff [OF assms, of now rows ScopeAddress address] f
    by (auto simp: check_def scopes_of_def List.map_filter_def split: option.splits)
qed

lemma check_refused:
  assumes "check s now uname address rows = v" "\<not> v_allowed v"
  shows "\<exists>k \<in> set (scopes_of uname address). refusal s now rows k = Some v"
proof (cases "refusal s now rows (ScopeUsername, py_lower uname)")
  case None
  then show ?thesis
    using assms by (cases "refusal s now rows (ScopeAddress, address)")
      (auto simp: check_def scopes_of_def map_filter_simps)
next
  case (Some u)
  then show ?thesis using assms by (auto simp: check_def scopes_of_def map_filter_simps)
qed

lemma disj_cong1: "(\<not> P \<Longrightarrow> Q = Q') \<Longrightarrow> (P \<or> Q) = (P \<or> Q')"
  by blast

lemma fold_failures: "fold (\<lambda>(t, u, a). record_failure t u a) es = fold (\<lambda>(t, e). fail_event t e) es"
proof -
  have "(\<lambda>(t, u, a). record_failure t u a) = (\<lambda>(t, e). fail_event t e)"
    by (simp add: fun_eq_iff fail_event_def)
  then show ?thesis by (rule arg_cong)
qed

lemma filter_length_strict:
  assumes "\<And>x. P x \<Longrightarrow> Q x" "a \<in> set xs" "Q a" "\<not> P a"
  shows "length (filter P xs) < length (filter Q xs)"
proof -
  have le: "length (filter P ys) \<le> length (filter Q ys)" for ys
    using assms(1) by (induction ys) auto
  obtain us vs where "xs = us @ a # vs" using assms(2) by (metis split_list)
  then show ?thesis using le [of us] le [of vs] assms(3,4) by simp
qed

text \<open>C11. The lockout counts exactly. After any burst of failed logins, whoever made them and from
  wherever, all inside the window, an attempt may proceed if and only if neither its user name (in any
  case) nor its source address has reached the limit, counting what was in the window before. The sweep
  of old rows that every failure performs never frees anyone, for windows up to the seven days it keeps.\<close>

theorem lockout_counts:
  assumes "0 < login_max_attempts s" and "window_of s \<le> RETENTION"
    and "\<forall>(t, u, a) \<in> set es. now - window_of s \<le> t \<and> t \<le> now"
  shows "v_allowed (check s now uname address (fold (\<lambda>(t, u, a). record_failure t u a) es rows)) \<longleftrightarrow>
    (uname = [] \<or>
       int (recent ScopeUsername (py_lower uname) (now - window_of s) rows) +
       int (length (filter (\<lambda>(t, u, a). py_lower u = py_lower uname) es)) < login_max_attempts s) \<and>
    (address = [] \<or>
       int (recent ScopeAddress address (now - window_of s) rows) +
       int (length (filter (\<lambda>(t, u, a). a = address) es)) < login_max_attempts s)"
proof -
  let ?since = "now - window_of s"
  define after where "after = fold (\<lambda>(t, e). fail_event t e) es rows"
  have w: "\<forall>(t, e) \<in> set es. t - RETENTION \<le> ?since \<and> ?since \<le> t"
    using assms(2,3) by fastforce
  have u: "recent ScopeUsername (py_lower uname) ?since after =
      recent ScopeUsername (py_lower uname) ?since rows +
      length (filter (\<lambda>(t, u, a). py_lower u = py_lower uname) es)" if "uname \<noteq> []"
  proof -
    have "filter (\<lambda>(t, e). (ScopeUsername, py_lower uname) \<in> keys_of e) es =
        filter (\<lambda>(t, u, a). py_lower u = py_lower uname) es"
      using that by (intro filter_cong) (auto simp: keys_of_def)
    then show ?thesis using attempts.burst_counts [OF w, of "(ScopeUsername, py_lower uname)" rows] by (simp add: after_def)
  qed
  have a: "recent ScopeAddress address ?since after =
      recent ScopeAddress address ?since rows + length (filter (\<lambda>(t, u, a). a = address) es)" if "address \<noteq> []"
  proof -
    have "filter (\<lambda>(t, e). (ScopeAddress, address) \<in> keys_of e) es = filter (\<lambda>(t, u, a). a = address) es"
      using that by (intro filter_cong) (auto simp: keys_of_def)
    then show ?thesis using attempts.burst_counts [OF w, of "(ScopeAddress, address)" rows] by (simp add: after_def)
  qed
  show ?thesis
    unfolding check_allowed_iff [OF assms(1)] fold_failures after_def [symmetric]
    by (intro conj_cong disj_cong1 refl) (simp_all only: u a of_nat_add simp_thms)
qed

theorem lockout_counts_witness:
  "\<not> v_allowed (check \<lparr>login_max_attempts = 2, login_lockout_seconds = 900\<rparr> 4000000 ''Gee'' ''10.0.0.9''
     (fold (\<lambda>(t, u, a). record_failure t u a) [(1000000, ''gee'', ''10.0.0.5''), (2000000, ''GEE'', ''10.0.0.6'')] []))"
proof -
  let ?s = "\<lparr>login_max_attempts = 2, login_lockout_seconds = 900\<rparr>"
  have "py_lower ''gee'' = ''gee''" "py_lower ''GEE'' = ''gee''" "py_lower ''Gee'' = ''gee''"
    by code_simp+
  then show ?thesis
    using lockout_counts [of ?s "[(1000000, ''gee'', ''10.0.0.5''), (2000000, ''GEE'', ''10.0.0.6'')]" 4000000
        "''Gee''" "''10.0.0.9''" "[]"]
    by (simp add: window_of_def RETENTION_def second_def recent_def)
qed

text \<open>A lockout lifts by itself. Whoever is refused is told a wait between one second and the window;
  once that wait and a second have passed without another failure, the scope that refused has fewer
  failures in its window than before, so repeated waits always lead to an attempt that may proceed.\<close>

theorem lockout_lifts:
  assumes "check s now uname address rows = v" "\<not> v_allowed v" "0 < login_lockout_seconds s"
    and "\<forall>a \<in> set rows. attempted_at a \<le> now" "now + (retry_after_seconds v + 1) * second \<le> later"
  shows "1 \<le> retry_after_seconds v \<and> retry_after_seconds v \<le> login_lockout_seconds s \<and>
    (\<exists>sc value. v_scope v = Some sc \<and> (sc, value) \<in> set (scopes_of uname address) \<and>
       recent sc value (later - window_of s) rows < recent sc value (now - window_of s) rows)"
proof -
  let ?since = "now - window_of s"
  obtain sc k where k: "(sc, k) \<in> set (scopes_of uname address)" and r: "refusal s now rows (sc, k) = Some v"
    using check_refused [OF assms(1,2)] by auto
  obtain t where t: "oldest_in_window sc k ?since rows = Some t"
    and v: "v = \<lparr>v_allowed = False, retry_after_seconds = max (whole_seconds (t + window_of s - now)) 1, v_scope = Some sc\<rparr>"
    using r by (auto simp: refusal_def Let_def split: if_splits option.splits)
  obtain a where a: "a \<in> set rows" "in_window sc k ?since a" "attempted_at a = t"
    using oldest_Some(1) [OF t] by blast
  have t_in: "?since \<le> t" "t \<le> now" using a assms(4) by (auto simp: in_window_def)
  let ?d = "t + window_of s - now"
  have d: "0 \<le> ?d" "?d \<le> window_of s" using t_in by auto
  have ws: "whole_seconds ?d = ?d div second" using d by (simp add: whole_seconds_def)
  have "?d div second \<le> window_of s div second" using d(2) by (rule zdiv_mono1) (simp add: second_def)
  then have le: "retry_after_seconds v \<le> login_lockout_seconds s"
    using assms(3) unfolding v verdict.select_convs ws by (simp add: window_of_def second_def)
  have "?d < (?d div second + 1) * second" by (simp add: second_def)
  moreover have "?d div second \<le> retry_after_seconds v" by (simp add: v ws)
  ultimately have "now + ?d < later" using assms(5) by (simp add: second_def)
  then have gone: "\<not> in_window sc k (later - window_of s) a" using a(3) by (simp add: in_window_def)
  have later: "?since \<le> later - window_of s" using \<open>now + ?d < later\<close> d(1) by simp
  then have sub: "in_window sc k (later - window_of s) b \<Longrightarrow> in_window sc k ?since b" for b by (auto simp: in_window_def)
  have "recent sc k (later - window_of s) rows < recent sc k ?since rows"
    unfolding recent_def
    by (rule filter_length_strict [where a = a]) (use sub a(1,2) gone in auto)
  then show ?thesis using k le by (auto simp: v)
qed

theorem lockout_lifts_witness:
  "let s = \<lparr>login_max_attempts = 1, login_lockout_seconds = 900\<rparr>;
       rows = [\<lparr>att_scope = ScopeUsername, att_value = ''gee'', attempted_at = 1000000\<rparr>]
   in recent ScopeUsername ''gee'' (2000000000 - window_of s) rows < recent ScopeUsername ''gee'' (2000000 - window_of s) rows"
proof -
  let ?s = "\<lparr>login_max_attempts = 1, login_lockout_seconds = 900\<rparr>"
  let ?rows = "[\<lparr>att_scope = ScopeUsername, att_value = ''gee'', attempted_at = 1000000\<rparr>]"
  have l: "py_lower ''gee'' = ''gee''" by code_simp
  define v where "v = check ?s 2000000 ''gee'' [] ?rows"
  have v: "v = \<lparr>v_allowed = False, retry_after_seconds = 899, v_scope = Some ScopeUsername\<rparr>"
    unfolding v_def check_def scopes_of_def l
    by (simp add: map_filter_simps refusal_def recent_def in_window_def window_of_def second_def
        oldest_in_window_def whole_seconds_def)
  have "check ?s 2000000 ''gee'' [] ?rows = v" by (simp add: v_def)
  from lockout_lifts [OF this, of 2000000000] v l show ?thesis
    by (simp add: second_def scopes_of_def)
qed

end
