(* ===== verification/Watcher.thy ===== *)
theory Watcher
  imports Runner
begin

text \<open>
  \<open>app/jobs/watcher.py\<close>: continuous mode. How long to wait between cycles, which finished runs the
  history keeps, and one tick of the loop, which starts every continuous job that is due. The moments of
  the monotonic clock are rationals; the intervals are integers, since they start as whole seconds and
  only double or take a bound. One reading of the calendar clock serves a tick.
\<close>

record watch_state =
  interval :: int
  consecutive_quiet :: nat

record watcher =
  states :: "(nat \<times> watch_state) list"
  due :: "(nat \<times> rat) list"
  cycle_started :: "(nat \<times> datetime) list"

definition floor_of :: "job \<Rightarrow> int" where
  "floor_of j = max 5 (continuous_interval_seconds j)"

definition ceiling_of :: "job \<Rightarrow> int" where
  "ceiling_of j = max (floor_of j) (continuous_idle_interval_seconds j)"

definition next_interval :: "job \<Rightarrow> bool \<Rightarrow> watch_state \<Rightarrow> watch_state" where
  "next_interval j changed s =
     (if changed then s\<lparr>consecutive_quiet := 0, interval := floor_of j\<rparr>
      else s\<lparr>consecutive_quiet := Suc (consecutive_quiet s),
             interval := min (ceiling_of j) (max (floor_of j) (interval s * 2))\<rparr>)"

definition should_keep :: "job_run \<Rightarrow> bool" where
  "should_keep r \<longleftrightarrow>
     (if run_status_of r \<noteq> Success then True
      else files_transferred r \<noteq> 0 \<or> files_deleted r \<noteq> 0 \<or> errors_count r \<noteq> 0)"

definition changed_since :: "store \<Rightarrow> nat \<Rightarrow> datetime option \<Rightarrow> bool" where
  "changed_since st j since =
     (case since of None \<Rightarrow> False
      | Some t \<Rightarrow> list_ex (\<lambda>r. run_job_id r = j \<and> (case finished_at r of None \<Rightarrow> False | Some f \<Rightarrow> t \<le> f)) (db_runs st))"

definition start_cycle :: "datetime \<Rightarrow> nat \<Rightarrow> world \<Rightarrow> nat option \<times> world" where
  "start_cycle t j w =
     (case create_run j TrigSchedule Live (db w) of
        None \<Rightarrow> (None, w)
      | Some (i, st) \<Rightarrow>
          (Some i, w\<lparr>db := amend_job j (\<lambda>k. k\<lparr>last_checked_at := Some t\<rparr>) st, live_queue := live_queue w @ [i]\<rparr>))"

definition setdefault :: "'k \<Rightarrow> 'v \<Rightarrow> ('k \<times> 'v) list \<Rightarrow> ('k \<times> 'v) list" where
  "setdefault k v d = (case map_of d k of None \<Rightarrow> dict_put k v d | Some _ \<Rightarrow> d)"

definition fresh_state :: "job \<Rightarrow> watch_state" where
  "fresh_state j = \<lparr>interval = floor_of j, consecutive_quiet = 0\<rparr>"

definition is_due :: "rat \<Rightarrow> watcher \<Rightarrow> nat \<Rightarrow> bool" where
  "is_due moment wt j = (case map_of (due wt) j of None \<Rightarrow> True | Some d \<Rightarrow> d \<le> moment)"

definition state_at :: "watcher \<Rightarrow> job \<Rightarrow> watch_state" where
  "state_at wt j = (case map_of (states wt) (job_id j) of None \<Rightarrow> fresh_state j | Some s \<Rightarrow> s)"

text \<open>One job of a tick.\<close>

definition visit :: "datetime \<Rightarrow> rat \<Rightarrow> job \<Rightarrow> watcher \<times> world \<times> nat list \<Rightarrow> watcher \<times> world \<times> nat list" where
  "visit t moment j acc =
     (let (wt, w, started) = acc;
          wt1 = wt\<lparr>states := setdefault (job_id j) (fresh_state j) (states wt),
                   due := setdefault (job_id j) moment (due wt)\<rparr>
      in if \<not> is_due moment wt1 (job_id j) then (wt1, w, started)
         else
           (let s = next_interval j (changed_since (db w) (job_id j) (map_of (cycle_started wt1) (job_id j))) (state_at wt1 j);
                (run, w') = start_cycle t (job_id j) w
            in (wt1\<lparr>states := dict_put (job_id j) s (states wt1),
                    cycle_started := dict_put (job_id j) t (cycle_started wt1),
                    due := dict_put (job_id j) (moment + of_int (interval s)) (due wt1)\<rparr>,
                w', started @ (case run of None \<Rightarrow> [] | Some i \<Rightarrow> [i]))))"

definition watched_jobs :: "store \<Rightarrow> job list" where
  "watched_jobs st = filter (\<lambda>j. continuous j \<and> job_enabled j) (db_jobs st)"

definition drop_stale :: "nat list \<Rightarrow> watcher \<Rightarrow> watcher" where
  "drop_stale live wt =
     (let stale = filter (\<lambda>i. i \<notin> set live) (map fst (states wt))
      in wt\<lparr>states := fold dict_del stale (states wt), due := fold dict_del stale (due wt),
            cycle_started := fold dict_del stale (cycle_started wt)\<rparr>)"

definition tick :: "datetime \<Rightarrow> rat \<Rightarrow> watcher \<Rightarrow> world \<Rightarrow> watcher \<times> world \<times> nat list" where
  "tick t moment wt w =
     (let jobs = watched_jobs (db w)
      in fold (visit t moment) jobs (drop_stale (map job_id jobs) wt, w, []))"

subsection \<open>Back off\<close>

lemma interval_bounds: "floor_of j \<le> interval (next_interval j changed s) \<and> interval (next_interval j changed s) \<le> ceiling_of j"
  by (auto simp: next_interval_def ceiling_of_def)

lemma floor_pos: "5 \<le> floor_of j" "floor_of j \<le> ceiling_of j"
  by (simp_all add: floor_of_def ceiling_of_def)

text \<open>The loop backs off and recovers. The wait after any cycle lies between five seconds, or the job's
  interval, and the idle interval; a change resets it; and after \<open>n\<close> quiet cycles in a row it is the
  smaller of the ceiling and \<open>2 ^ n\<close> times the floor, so it never shrinks while the job is quiet.\<close>

theorem backoff_doubles:
  "interval ((next_interval j False ^^ n) (next_interval j True s)) = min (ceiling_of j) (floor_of j * 2 ^ n) \<and>
   floor_of j \<le> interval (next_interval j b s) \<and> interval (next_interval j b s) \<le> ceiling_of j \<and> 5 \<le> floor_of j"
proof -
  have "interval ((next_interval j False ^^ n) (next_interval j True s)) = min (ceiling_of j) (floor_of j * 2 ^ n)"
  proof (induction n)
    case 0
    then show ?case using floor_pos [of j] by (simp add: next_interval_def)
  next
    case (Suc n)
    define p where "p = floor_of j * 2 ^ n"
    have "floor_of j * 1 \<le> floor_of j * 2 ^ n"
      by (rule mult_left_mono) (use floor_pos [of j] in simp_all)
    then have p: "floor_of j \<le> p" by (simp add: p_def)
    have "min (ceiling_of j) (max (floor_of j) (min (ceiling_of j) p * 2)) = min (ceiling_of j) (p * 2)"
      using floor_pos [of j] p by linarith
    then show ?case using Suc by (simp add: next_interval_def p_def mult.assoc mult.commute)
  qed
  then show ?thesis using interval_bounds floor_pos by blast
qed

subsection \<open>The history\<close>

text \<open>The watcher and the runner agree on what is history. For a continuous job whose finished run is in
  the table, the runner keeps the row if and only if the watcher's rule says it is worth keeping; so the
  surviving row the watcher looks for is there exactly when the cycle failed or changed something.\<close>

theorem history_rules_agree:
  assumes "continuous j" "find_run (db w) (run_id r) = Some r"
  shows "find_run (db (prune_quiet_cycle t r j w)) (run_id r) = (if should_keep r then Some r else None)"
proof -
  have "find_run (amend_job k f (delete_run i st)) i = None" for k f i st
    by (auto simp: find_run_None amend_job_def delete_run_def)
  then show ?thesis using assms by (auto simp: prune_quiet_cycle_def should_keep_def)
qed

theorem history_rules_agree_witness:
  "find_run (db (prune_quiet_cycle 9 ((new_run 1 TrigSchedule Live Success)\<lparr>run_id := 1\<rparr>) (sample_job\<lparr>continuous := True\<rparr>)
     (sample_world\<lparr>db := \<lparr>db_jobs = [sample_job\<lparr>continuous := True\<rparr>],
        db_runs = [(new_run 1 TrigSchedule Live Success)\<lparr>run_id := 1\<rparr>], db_changes = []\<rparr>\<rparr>))) 1 = None"
  using history_rules_agree [of "sample_job\<lparr>continuous := True\<rparr>"
      "sample_world\<lparr>db := \<lparr>db_jobs = [sample_job\<lparr>continuous := True\<rparr>],
        db_runs = [(new_run 1 TrigSchedule Live Success)\<lparr>run_id := 1\<rparr>], db_changes = []\<rparr>\<rparr>"
      "(new_run 1 TrigSchedule Live Success)\<lparr>run_id := 1\<rparr>" 9]
  by (simp add: find_run_def new_run_def should_keep_def)

subsection \<open>A tick\<close>

lemma map_of_setdefault: "map_of (setdefault k v d) k' = (if k' = k \<and> map_of d k = None then Some v else map_of d k')"
  by (auto simp: setdefault_def map_of_dict_put split: option.split)

lemma map_of_fold_del: "map_of (fold dict_del ks d) k = (if k \<in> set ks then None else map_of d k)"
  by (induction ks arbitrary: d) (auto simp: map_of_dict_del)

lemma active_runs_amend [simp]: "active_runs (amend_job k f st) j = active_runs st j"
  by (simp add: active_runs_def amend_job_def)

lemma jobs_amend [simp]:
  assumes "\<And>k. job_id (f k) = job_id k"
  shows "job_id ` set (db_jobs (amend_job i f st)) = job_id ` set (db_jobs st)"
proof -
  have "map job_id (db_jobs (amend_job i f st)) = map job_id (db_jobs st)"
    by (simp add: amend_job_def assms)
  then show ?thesis by (metis set_map)
qed

lemma start_cycle_None: "create_run k TrigSchedule Live (db w) = None \<Longrightarrow> start_cycle t k w = (None, w)"
  by (simp add: start_cycle_def)

lemma start_cycle_Some:
  "create_run k TrigSchedule Live (db w) = Some (i, st) \<Longrightarrow>
     start_cycle t k w =
       (Some i, w\<lparr>db := amend_job k (\<lambda>k. k\<lparr>last_checked_at := Some t\<rparr>) st, live_queue := live_queue w @ [i]\<rparr>)"
  by (simp add: start_cycle_def)

text \<open>Starting a cycle is starting a run, as far as the rows go.\<close>

lemma start_cycle_active:
  "active_runs (db (snd (start_cycle t k w))) j =
     (case create_run k TrigSchedule Live (db w) of None \<Rightarrow> active_runs (db w) j | Some (i, st) \<Rightarrow> active_runs st j)"
  by (cases "create_run k TrigSchedule Live (db w)") (auto simp: start_cycle_None start_cycle_Some)

lemma start_cycle_jobs:
  "job_id ` set (db_jobs (db (snd (start_cycle t k w)))) = job_id ` set (db_jobs (db w))"
proof (cases "create_run k TrigSchedule Live (db w)")
  case (Some p)
  obtain i st where p: "p = (i, st)" by (cases p)
  show ?thesis
    using db.keeps [of k TrigSchedule Live "db w" i st] Some
    by (simp add: p start_cycle_Some [OF Some [unfolded p]]) blast
qed (simp add: start_cycle_None)

lemma start_cycle_ok: "store_ok (db w) \<Longrightarrow> store_ok (db (snd (start_cycle t k w)))"
proof (cases "create_run k TrigSchedule Live (db w)")
  case (Some p)
  assume ok: "store_ok (db w)"
  obtain i st where p: "p = (i, st)" by (cases p)
  have "store_ok st" using create_run_ok [OF ok] Some p by blast
  then show ?thesis using start_cycle_Some [OF Some [unfolded p]] by (auto intro: amend_job_ok)
qed (simp add: start_cycle_None)

lemma start_cycle_queue:
  "live_queue (snd (start_cycle t k w)) = live_queue w @ (case fst (start_cycle t k w) of None \<Rightarrow> [] | Some i \<Rightarrow> [i])"
  by (cases "create_run k TrigSchedule Live (db w)") (auto simp: start_cycle_None start_cycle_Some)

text \<open>What a visit does to the world, to the moments of the other jobs, and to the list it returns.\<close>

lemma due_default [simp]: "is_due m (wt\<lparr>states := s, due := setdefault k m (due wt)\<rparr>) j = is_due m wt j"
  by (simp add: is_due_def map_of_setdefault split: option.split)

lemma visit_world: "fst (snd (visit t m k (wt, w, sd))) = (if is_due m wt (job_id k) then snd (start_cycle t (job_id k) w) else w)"
  by (simp add: visit_def Let_def split_def)

lemma visit_started:
  "snd (snd (visit t m k (wt, w, sd))) =
     sd @ (if is_due m wt (job_id k) then case fst (start_cycle t (job_id k) w) of None \<Rightarrow> [] | Some i \<Rightarrow> [i] else [])"
  by (simp add: visit_def Let_def split_def)

lemma visit_due: "j \<noteq> job_id k \<Longrightarrow> is_due m (fst (visit t m k (wt, w, sd))) j = is_due m wt j"
  by (simp add: visit_def Let_def split_def is_due_def map_of_setdefault map_of_dict_put)

definition active_of :: "world \<Rightarrow> nat \<Rightarrow> nat" where
  "active_of w j = length (active_runs (db w) j)"

lemma visit_active:
  "active_of (fst (snd (visit t m k (wt, w, sd)))) j =
     (if j = job_id k \<and> is_due m wt j \<and> j \<in> job_id ` set (db_jobs (db w)) \<and> active_of w j = 0 then 1 else active_of w j)"
proof (cases "create_run (job_id k) TrigSchedule Live (db w)")
  case None
  then show ?thesis
    using db.refuses [of "job_id k" TrigSchedule Live "db w"]
    by (auto simp: visit_world active_of_def start_cycle_None)
next
  case (Some p)
  obtain i st where p: "create_run (job_id k) TrigSchedule Live (db w) = Some (i, st)" using Some by (cases p) auto
  have "active_of w (job_id k) = 0" "job_id k \<in> job_id ` set (db_jobs (db w))"
    using db.refuses [of "job_id k" TrigSchedule Live "db w"] p by (auto simp: active_of_def)
  then show ?thesis
    using db.starts [OF p] db.others [OF p, of j]
    by (auto simp: visit_world active_of_def start_cycle_active p)
qed

text \<open>A tick over its jobs, by induction on the list.\<close>

lemma ticks:
  assumes "distinct (map job_id jobs)" "fold (visit t m) jobs (wt, w, sd) = (wt', w', sd')"
  shows "active_of w' j = (if j \<in> job_id ` set jobs \<and> is_due m wt j \<and> j \<in> job_id ` set (db_jobs (db w)) \<and> active_of w j = 0
      then 1 else active_of w j) \<and>
    (store_ok (db w) \<longrightarrow> store_ok (db w')) \<and> (\<exists>new. sd' = sd @ new \<and> live_queue w' = live_queue w @ new)"
  using assms
proof (induction jobs arbitrary: wt w sd)
  case (Cons k jobs)
  obtain wt1 w1 sd1 where v: "visit t m k (wt, w, sd) = (wt1, w1, sd1)" by (cases "visit t m k (wt, w, sd)")
  have w1: "w1 = (if is_due m wt (job_id k) then snd (start_cycle t (job_id k) w) else w)"
    using visit_world [of t m k wt w sd] v by simp
  have act1: "active_of w1 j = (if j = job_id k \<and> is_due m wt j \<and> j \<in> job_id ` set (db_jobs (db w)) \<and> active_of w j = 0
      then 1 else active_of w j)"
    using visit_active [of t m k wt w sd j] v by simp
  have due1: "j \<noteq> job_id k \<Longrightarrow> is_due m wt1 j = is_due m wt j"
    using visit_due [of j k m t wt w sd] v by simp
  have jobs1: "job_id ` set (db_jobs (db w1)) = job_id ` set (db_jobs (db w))"
    by (simp add: w1 start_cycle_jobs)
  have ok1: "store_ok (db w) \<Longrightarrow> store_ok (db w1)" by (simp add: w1 start_cycle_ok)
  have new1: "\<exists>new. sd1 = sd @ new \<and> live_queue w1 = live_queue w @ new"
    using visit_started [of t m k wt w sd] v by (auto simp: w1 start_cycle_queue)
  have rest: "fold (visit t m) jobs (wt1, w1, sd1) = (wt', w', sd')" using Cons.prems(2) v by simp
  have d: "distinct (map job_id jobs)" "job_id k \<notin> job_id ` set jobs" using Cons.prems(1) by auto
  note IH = Cons.IH [OF d(1) rest]
  have "active_of w' j = (if j \<in> job_id ` set (k # jobs) \<and> is_due m wt j \<and> j \<in> job_id ` set (db_jobs (db w)) \<and>
      active_of w j = 0 then 1 else active_of w j)"
    using IH act1 due1 jobs1 d(2) by (cases "j = job_id k") auto
  then show ?case using IH ok1 new1 by fastforce
qed simp

lemma drop_stale_due:
  "j \<in> set live \<or> j \<notin> fst ` set (states wt) \<Longrightarrow> is_due m (drop_stale live wt) j = is_due m wt j"
  by (auto simp: drop_stale_def Let_def is_due_def map_of_fold_del)

text \<open>C40. A tick starts what is due and nothing else. Each continuous, enabled job whose moment has come and
  which is idle has exactly one active run afterwards; every other job, a due one that is still busy
  included, keeps the runs it had; what the tick returns is what it handed to the runner, in that order;
  and the store keeps its invariant.\<close>

theorem tick_starts_due:
  assumes "distinct (map job_id (db_jobs (db w)))" "store_ok (db w)" "tick t m wt w = (wt', w', sd)"
  shows "length (active_runs (db w') j) =
      (if (\<exists>k \<in> set (db_jobs (db w)). job_id k = j \<and> continuous k \<and> job_enabled k) \<and> is_due m wt j \<and>
          active_runs (db w) j = [] then 1 else length (active_runs (db w) j)) \<and>
    live_queue w' = live_queue w @ sd \<and> store_ok (db w')"
proof -
  let ?jobs = "watched_jobs (db w)"
  have run: "fold (visit t m) ?jobs (drop_stale (map job_id ?jobs) wt, w, []) = (wt', w', sd)"
    using assms(3) by (simp add: tick_def Let_def)
  have "distinct (map job_id ?jobs)"
    using assms(1) by (simp add: watched_jobs_def distinct_map_filter)
  note all = ticks [OF this run, of j]
  have mem: "j \<in> job_id ` set ?jobs \<longleftrightarrow> (\<exists>k \<in> set (db_jobs (db w)). job_id k = j \<and> continuous k \<and> job_enabled k)"
    by (auto simp: watched_jobs_def)
  have "is_due m (drop_stale (map job_id ?jobs) wt) j = is_due m wt j" if "j \<in> job_id ` set ?jobs"
    using that by (intro drop_stale_due) auto
  moreover have "j \<in> job_id ` set ?jobs \<Longrightarrow> j \<in> job_id ` set (db_jobs (db w))"
    by (auto simp: watched_jobs_def)
  ultimately show ?thesis
    using all assms(2) mem by (auto simp: active_of_def)
qed

theorem tick_starts_due_witness:
  "length (active_runs (db (fst (snd (tick 7 0 \<lparr>states = [], due = [], cycle_started = []\<rparr>
     (sample_world\<lparr>db := \<lparr>db_jobs = [sample_job\<lparr>continuous := True, job_enabled := True\<rparr>], db_runs = [], db_changes = []\<rparr>\<rparr>))))) 1) = 1"
proof -
  let ?w = "sample_world\<lparr>db := \<lparr>db_jobs = [sample_job\<lparr>continuous := True, job_enabled := True\<rparr>], db_runs = [], db_changes = []\<rparr>\<rparr>"
  let ?wt = "\<lparr>states = [], due = [], cycle_started = []\<rparr> :: watcher"
  obtain wt' w' sd where t: "tick 7 0 ?wt ?w = (wt', w', sd)" by (cases "tick 7 0 ?wt ?w")
  have ok: "store_ok (db ?w)" by (simp add: store_ok_def active_runs_def)
  have idle: "active_runs (db ?w) 1 = []" by (simp add: active_runs_def)
  have job: "\<exists>k \<in> set (db_jobs (db ?w)). job_id k = 1 \<and> continuous k \<and> job_enabled k" by (simp add: sample_job_def)
  have due: "is_due 0 ?wt 1" by (simp add: is_due_def)
  have "distinct (map job_id (db_jobs (db ?w)))" by simp
  from tick_starts_due [OF this ok t, of 1] idle job due show ?thesis unfolding t fst_conv snd_conv by argo
qed

end
