(* ===== verification/Preferences.thy ===== *)
theory Preferences
  imports Models
begin

text \<open>
  \<open>app/preferences.py\<close>: the operator's preferences, one row of the \<open>setting\<close> table per field. The rows are
  an association list from the primary key; \<open>pint\<close> is how pydantic reads an integer out of text and
  \<open>zone\<close> whether \<open>ZoneInfo\<close> knows a name. A validation that fails is None, and the fields' constraints
  are the ones the class declares.
\<close>

datatype notify_target = TargetNone | TargetWebhook | TargetNtfy | TargetDiscord

datatype clock = Clock24 | Clock12

record preferences =
  notify_target_of :: notify_target
  notify_webhook_url :: string
  notify_ntfy_server :: string
  notify_ntfy_topic :: string
  notify_timeout_seconds :: int
  pref_base_url :: string
  pref_archive_retention_days :: "int option"
  run_history_keep :: int
  log_retention_days :: int
  log_max_total_mb :: int
  max_concurrent_runs :: int
  display_timezone :: string
  clock_of :: clock

definition default_preferences :: preferences where
  "default_preferences =
     \<lparr>notify_target_of = TargetNone, notify_webhook_url = [], notify_ntfy_server = ''https://ntfy.sh'',
      notify_ntfy_topic = [], notify_timeout_seconds = 10, pref_base_url = [],
      pref_archive_retention_days = None, run_history_keep = 200, log_retention_days = 90,
      log_max_total_mb = 512, max_concurrent_runs = 0, display_timezone = [], clock_of = Clock24\<rparr>"

fun target_value :: "notify_target \<Rightarrow> string" where
  "target_value TargetNone = ''none''"
| "target_value TargetWebhook = ''webhook''"
| "target_value TargetNtfy = ''ntfy''"
| "target_value TargetDiscord = ''discord''"

definition target_of :: "string \<Rightarrow> notify_target option" where
  "target_of s =
     (if s = ''none'' then Some TargetNone else if s = ''webhook'' then Some TargetWebhook
      else if s = ''ntfy'' then Some TargetNtfy else if s = ''discord'' then Some TargetDiscord else None)"

fun clock_value :: "clock \<Rightarrow> string" where
  "clock_value Clock24 = ''24h''"
| "clock_value Clock12 = ''12h''"

definition clock_named :: "string \<Rightarrow> clock option" where
  "clock_named s = (if s = ''24h'' then Some Clock24 else if s = ''12h'' then Some Clock12 else None)"

definition PREFIX :: string where "PREFIX = ''pref.''"

type_synonym settings = "(string \<times> string option) list"

subsection \<open>Reading\<close>

text \<open>The value stored for a field, with the prefix cut off and a null read as the empty text.\<close>

definition stored :: "settings \<Rightarrow> string \<Rightarrow> string option" where
  "stored rows key = map_option (\<lambda>v. case v of None \<Rightarrow> [] | Some s \<Rightarrow> s) (map_of rows (PREFIX @ key))"

definition any_stored :: "settings \<Rightarrow> bool" where
  "any_stored rows \<longleftrightarrow> list_ex (\<lambda>(k, v). prefix PREFIX k) rows"

definition text_field :: "string \<Rightarrow> string option \<Rightarrow> string" where
  "text_field d v = (case v of None \<Rightarrow> d | Some s \<Rightarrow> s)"

definition int_field :: "(string \<Rightarrow> int option) \<Rightarrow> int \<Rightarrow> int \<Rightarrow> int \<Rightarrow> string option \<Rightarrow> int option" where
  "int_field pint lo hi d v =
     (case v of None \<Rightarrow> Some d
      | Some s \<Rightarrow> Option.bind (pint s) (\<lambda>n. if lo \<le> n \<and> n \<le> hi then Some n else None))"

text \<open>A field whose name ends in \<open>_days\<close>: the empty text is null, which only an optional one accepts.\<close>

definition days_field :: "(string \<Rightarrow> int option) \<Rightarrow> int \<Rightarrow> int \<Rightarrow> int \<Rightarrow> string option \<Rightarrow> int option" where
  "days_field pint lo hi d v = (if v = Some [] then None else int_field pint lo hi d v)"

definition optional_days_field :: "(string \<Rightarrow> int option) \<Rightarrow> int \<Rightarrow> string option \<Rightarrow> int option option" where
  "optional_days_field pint lo v =
     (case v of None \<Rightarrow> Some None
      | Some s \<Rightarrow> if s = [] then Some None else Option.bind (pint s) (\<lambda>n. if lo \<le> n then Some (Some n) else None))"

definition zone_field :: "(string \<Rightarrow> bool) \<Rightarrow> string option \<Rightarrow> string option" where
  "zone_field zone v =
     (case v of None \<Rightarrow> Some []
      | Some s \<Rightarrow> if py_strip s = [] then Some [] else if zone (py_strip s) then Some (py_strip s) else None)"

definition literal_field :: "(string \<Rightarrow> 'a option) \<Rightarrow> 'a \<Rightarrow> string option \<Rightarrow> 'a option" where
  "literal_field parse d v = (case v of None \<Rightarrow> Some d | Some s \<Rightarrow> parse s)"

definition validate_preferences ::
  "(string \<Rightarrow> int option) \<Rightarrow> (string \<Rightarrow> bool) \<Rightarrow> (string \<Rightarrow> string option) \<Rightarrow> preferences option" where
  "validate_preferences pint zone get =
     Option.bind (literal_field target_of TargetNone (get ''notify_target'')) (\<lambda>target.
     Option.bind (int_field pint 1 60 10 (get ''notify_timeout_seconds'')) (\<lambda>timeout.
     Option.bind (optional_days_field pint 1 (get ''archive_retention_days'')) (\<lambda>days.
     Option.bind (int_field pint 10 10000 200 (get ''run_history_keep'')) (\<lambda>keep.
     Option.bind (days_field pint 1 3650 90 (get ''log_retention_days'')) (\<lambda>logs.
     Option.bind (int_field pint 16 102400 512 (get ''log_max_total_mb'')) (\<lambda>mb.
     Option.bind (int_field pint 0 32 0 (get ''max_concurrent_runs'')) (\<lambda>runs.
     Option.bind (zone_field zone (get ''display_timezone'')) (\<lambda>tz.
     Option.bind (literal_field clock_named Clock24 (get ''clock'')) (\<lambda>c.
       Some \<lparr>notify_target_of = target, notify_webhook_url = text_field [] (get ''notify_webhook_url''),
             notify_ntfy_server = text_field ''https://ntfy.sh'' (get ''notify_ntfy_server''),
             notify_ntfy_topic = text_field [] (get ''notify_ntfy_topic''), notify_timeout_seconds = timeout,
             pref_base_url = text_field [] (get ''base_url''), pref_archive_retention_days = days,
             run_history_keep = keep, log_retention_days = logs, log_max_total_mb = mb,
             max_concurrent_runs = runs, display_timezone = tz, clock_of = c\<rparr>)))))))))"

definition load_preferences :: "(string \<Rightarrow> int option) \<Rightarrow> (string \<Rightarrow> bool) \<Rightarrow> settings \<Rightarrow> preferences" where
  "load_preferences pint zone rows =
     (if \<not> any_stored rows then default_preferences
      else (case validate_preferences pint zone (stored rows) of None \<Rightarrow> default_preferences | Some p \<Rightarrow> p))"

subsection \<open>Writing\<close>

definition dump :: "preferences \<Rightarrow> (string \<times> string) list" where
  "dump p =
     [(''notify_target'', target_value (notify_target_of p)), (''notify_webhook_url'', notify_webhook_url p),
      (''notify_ntfy_server'', notify_ntfy_server p), (''notify_ntfy_topic'', notify_ntfy_topic p),
      (''notify_timeout_seconds'', str_int (notify_timeout_seconds p)), (''base_url'', pref_base_url p),
      (''archive_retention_days'', (case pref_archive_retention_days p of None \<Rightarrow> [] | Some d \<Rightarrow> str_int d)),
      (''run_history_keep'', str_int (run_history_keep p)), (''log_retention_days'', str_int (log_retention_days p)),
      (''log_max_total_mb'', str_int (log_max_total_mb p)), (''max_concurrent_runs'', str_int (max_concurrent_runs p)),
      (''display_timezone'', display_timezone p), (''clock'', clock_value (clock_of p))]"

definition save_preferences :: "preferences \<Rightarrow> settings \<Rightarrow> settings" where
  "save_preferences p rows = fold (\<lambda>(k, v). dict_put (PREFIX @ k) (Some v)) (dump p) rows"

definition redacted_url :: "preferences \<Rightarrow> string" where
  "redacted_url p = (if notify_webhook_url p \<noteq> [] then ''***'' else [])"

subsection \<open>Round trip\<close>

text \<open>What the class accepts.\<close>

definition valid_preferences :: "(string \<Rightarrow> bool) \<Rightarrow> preferences \<Rightarrow> bool" where
  "valid_preferences zone p \<longleftrightarrow>
     1 \<le> notify_timeout_seconds p \<and> notify_timeout_seconds p \<le> 60 \<and>
     (case pref_archive_retention_days p of None \<Rightarrow> True | Some d \<Rightarrow> 1 \<le> d) \<and>
     10 \<le> run_history_keep p \<and> run_history_keep p \<le> 10000 \<and>
     1 \<le> log_retention_days p \<and> log_retention_days p \<le> 3650 \<and>
     16 \<le> log_max_total_mb p \<and> log_max_total_mb p \<le> 102400 \<and>
     0 \<le> max_concurrent_runs p \<and> max_concurrent_runs p \<le> 32 \<and>
     py_strip (display_timezone p) = display_timezone p \<and> (display_timezone p \<noteq> [] \<longrightarrow> zone (display_timezone p))"

lemma target_of_value [simp]: "target_of (target_value t) = Some t"
  by (cases t) (simp_all add: target_of_def)

lemma clock_named_value [simp]: "clock_named (clock_value c) = Some c"
  by (cases c) (simp_all add: clock_named_def)

lemma str_int_not_Nil [simp]: "str_int i \<noteq> []"
  by (simp add: str_int_def)

lemma map_of_fold_put:
  "distinct (map fst kvs) \<Longrightarrow>
     map_of (fold (\<lambda>(k, v). dict_put (PREFIX @ k) (Some v)) kvs rows) key =
       (case map_of (map (\<lambda>(k, v). (PREFIX @ k, v)) kvs) key of Some v \<Rightarrow> Some (Some v) | None \<Rightarrow> map_of rows key)"
proof (induction kvs arbitrary: rows)
  case (Cons kv kvs)
  obtain k v where kv: "kv = (k, v)" by (cases kv)
  have "map_of (map (\<lambda>(k, v). (PREFIX @ k, v)) kvs) (PREFIX @ k) = None"
    using Cons.prems kv by (force simp: map_of_eq_None_iff)
  then show ?case
    using Cons.prems Cons.IH [of "dict_put (PREFIX @ k) (Some v) rows"] kv
    by (cases "key = PREFIX @ k") (auto simp: map_of_dict_put split: option.splits)
qed simp

lemma dump_keys: "distinct (map fst (dump p))"
  by (simp add: dump_def)

lemma stored_save: "stored (save_preferences p rows) k = (case map_of (dump p) k of Some v \<Rightarrow> Some v | None \<Rightarrow> stored rows k)"
proof -
  have "map_of (map (\<lambda>(k, v). (PREFIX @ k, v)) kvs) (PREFIX @ k) = map_of kvs k" for kvs :: "(string \<times> string) list"
    by (induction kvs) auto
  then show ?thesis
    unfolding stored_def save_preferences_def map_of_fold_put [OF dump_keys] by (simp split: option.split)
qed

lemma any_stored_save: "any_stored (save_preferences p rows)"
proof -
  have "map_of (save_preferences p rows) (PREFIX @ ''clock'') \<noteq> None"
    unfolding save_preferences_def map_of_fold_put [OF dump_keys] by (simp add: dump_def PREFIX_def)
  then obtain v where "(PREFIX @ ''clock'', v) \<in> set (save_preferences p rows)"
    by (meson map_of_SomeD not_None_eq)
  then show ?thesis unfolding any_stored_def list_ex_iff by (rule bexI [rotated]) simp
qed

text \<open>What the settings screen saves is what every later read sees: writing valid preferences over any
  stored rows and loading them gives the same preferences, and rows that are not preferences, the key
  fingerprint among them, are untouched.\<close>

theorem preferences_roundtrip:
  assumes "\<And>n. pint (str_int n) = Some n" and "valid_preferences zone p"
  shows "load_preferences pint zone (save_preferences p rows) = p \<and>
    (\<not> prefix PREFIX key \<longrightarrow> map_of (save_preferences p rows) key = map_of rows key)"
proof
  define get where "get = stored (save_preferences p rows)"
  have get: "get ''notify_target'' = Some (target_value (notify_target_of p))"
    "get ''notify_webhook_url'' = Some (notify_webhook_url p)" "get ''notify_ntfy_server'' = Some (notify_ntfy_server p)"
    "get ''notify_ntfy_topic'' = Some (notify_ntfy_topic p)" "get ''base_url'' = Some (pref_base_url p)"
    "get ''notify_timeout_seconds'' = Some (str_int (notify_timeout_seconds p))"
    "get ''archive_retention_days'' = Some (case pref_archive_retention_days p of None \<Rightarrow> [] | Some d \<Rightarrow> str_int d)"
    "get ''run_history_keep'' = Some (str_int (run_history_keep p))"
    "get ''log_retention_days'' = Some (str_int (log_retention_days p))"
    "get ''log_max_total_mb'' = Some (str_int (log_max_total_mb p))"
    "get ''max_concurrent_runs'' = Some (str_int (max_concurrent_runs p))"
    "get ''display_timezone'' = Some (display_timezone p)" "get ''clock'' = Some (clock_value (clock_of p))"
    by (simp_all add: get_def stored_save dump_def)
  have z: "zone_field zone (Some (display_timezone p)) = Some (display_timezone p)"
    using assms(2) by (auto simp: zone_field_def valid_preferences_def)
  have d: "optional_days_field pint 1 (Some (case pref_archive_retention_days p of None \<Rightarrow> [] | Some d \<Rightarrow> str_int d)) =
      Some (pref_archive_retention_days p)"
    using assms by (cases "pref_archive_retention_days p") (auto simp: optional_days_field_def valid_preferences_def)
  have "validate_preferences pint zone get = Some p"
    using assms unfolding validate_preferences_def get z d
    by (simp add: literal_field_def int_field_def days_field_def text_field_def valid_preferences_def)
  then show "load_preferences pint zone (save_preferences p rows) = p"
    by (simp add: load_preferences_def any_stored_save get_def)
  have "map_of (map (\<lambda>(k, v). (PREFIX @ k, v)) (dump p)) key = None" if "\<not> prefix PREFIX key"
    using that by (force simp: map_of_eq_None_iff)
  then show "\<not> prefix PREFIX key \<longrightarrow> map_of (save_preferences p rows) key = map_of rows key"
    unfolding save_preferences_def map_of_fold_put [OF dump_keys] by simp
qed

definition sample_pint :: "string \<Rightarrow> int option" where
  "sample_pint s =
     (case s of [] \<Rightarrow> None
      | c # cs \<Rightarrow> if c = CHR ''-'' then map_option (\<lambda>n. - int n) (int_of_str cs) else map_option int (int_of_str s))"

lemma sample_pint_nat: "sample_pint (str_nat n) = Some (int n)"
proof -
  obtain c cs where s: "str_nat n = c # cs" by (cases "str_nat n") auto
  have "c \<noteq> CHR ''-''" using str_nat_char [of c n] s by (auto simp: ascii_digit_def)
  then have "sample_pint (str_nat n) = map_option int (int_of_str (str_nat n))" unfolding s sample_pint_def by simp
  then show ?thesis by simp
qed

lemma sample_pint_str: "sample_pint (str_int i) = Some i"
  using sample_pint_nat [of "nat i"] by (cases "i < 0") (simp_all add: str_int_def sample_pint_def)

theorem preferences_roundtrip_witness:
  "load_preferences sample_pint (\<lambda>z. False) (save_preferences (default_preferences\<lparr>run_history_keep := 500\<rparr>) []) =
     default_preferences\<lparr>run_history_keep := 500\<rparr>"
proof -
  have "valid_preferences (\<lambda>z. False) (default_preferences\<lparr>run_history_keep := 500\<rparr>)"
    by (simp add: valid_preferences_def default_preferences_def py_strip_def strip_if_def rstrip_if_def)
  then show ?thesis using preferences_roundtrip [of sample_pint] sample_pint_str by blast
qed

text \<open>A single invalid row loses every preference, not just its own: the whole object falls back to the
  defaults.\<close>

lemma one_bad_row_resets_all:
  assumes "stored rows ''notify_timeout_seconds'' = Some ''soon''" "pint ''soon'' = None"
  shows "load_preferences pint zone rows = default_preferences"
  using assms by (cases "literal_field target_of TargetNone (stored rows ''notify_target'')")
    (auto simp: load_preferences_def validate_preferences_def int_field_def)

end
