(* ===== verification/Notify.thy ===== *)
theory Notify
  imports Preferences Runner
begin

text \<open>
  \<open>app/notify.py\<close>, and \<open>_notify\<close> of \<open>app/jobs/runner.py\<close>: whether a finished run is announced, the payload, the
  request each target gets, and what is reported of the attempt. The HTTP client is the parameter \<open>post\<close>,
  which answers a request with a status code or with the kind of exception it raises; the log lines are
  left out.
\<close>

datatype http_outcome =
    Responded int
  | HttpTimeout
  | HttpFailure string     \<comment> \<open>another \<open>httpx.HTTPError\<close>, by the name of its type\<close>
  | HttpUnexpected

datatype http_body = JsonBody "(string \<times> json) list" | TextBody string

record http_request =
  req_url :: string
  req_body :: http_body
  req_headers :: "(string \<times> string) list"
  req_timeout :: int

record delivery =
  attempted :: bool
  delivered :: bool
  delivery_detail :: string

definition should_notify :: "job \<Rightarrow> run_status \<Rightarrow> bool" where
  "should_notify j s =
     (if job_notify_on j = NotifyNever then False
      else if job_notify_on j = NotifyAlways then True
      else s \<in> {Failed, Cancelled})"

text \<open>\<open>round(seconds, 3)\<close> of a difference in microseconds: to the nearest millisecond, ties to even.\<close>

definition round_milliseconds :: "int \<Rightarrow> int" where
  "round_milliseconds us =
     (let q = us div 1000; r = us mod 1000
      in if r < 500 \<or> r = 500 \<and> even q then q else q + 1)"

definition duration_of :: "job_run \<Rightarrow> rat option" where
  "duration_of r =
     (case (started_at r, finished_at r) of
        (Some s, Some f) \<Rightarrow> Some (Fract (round_milliseconds (f - s)) 1000)
      | _ \<Rightarrow> None)"

definition build_payload :: "ext \<Rightarrow> job \<Rightarrow> job_run \<Rightarrow> string \<Rightarrow> (string \<times> json) list" where
  "build_payload x j r base_url =
     [(''job'', JStr (job_name j)), (''job_id'', jnat (job_id j)), (''run_id'', jnat (run_id r)),
      (''mode'', JStr (mode_value (run_mode_of r))), (''trigger'', JStr (trigger_value (run_trigger_of r))),
      (''status'', JStr (status_value (run_status_of r))),
      (''duration_seconds'', (case duration_of r of None \<Rightarrow> JNull | Some d \<Rightarrow> JFloat d)),
      (''files_transferred'', JInt (files_transferred r)), (''files_deleted'', JInt (files_deleted r)),
      (''files_archived'', JInt (files_archived r)), (''bytes_transferred'', JInt (bytes_transferred r)),
      (''errors'', JInt (errors_count r))] @
     (case skip_reason r of Some (c # cs) \<Rightarrow> [(''skip_reason'', JStr (c # cs))] | _ \<Rightarrow> []) @
     (case Option.bind (run_summary r) (\<lambda>d. jget d ''error'') of
        Some v \<Rightarrow> if truthy v then [(''error'', JStr (py_str x v))] else [] | None \<Rightarrow> []) @
     (if base_url \<noteq> [] then [(''url'', JStr (rstrip_slash base_url @ ''/runs/'' @ str_nat (run_id r)))] else [])"

text \<open>A key the payload has, printed into an f-string.\<close>

definition shown :: "ext \<Rightarrow> (string \<times> json) list \<Rightarrow> string \<Rightarrow> string" where
  "shown x p k = (case jget p k of None \<Rightarrow> [] | Some v \<Rightarrow> py_str x v)"

definition truthy_line :: "ext \<Rightarrow> (string \<times> json) list \<Rightarrow> string \<Rightarrow> string list" where
  "truthy_line x p k = (case jget p k of Some v \<Rightarrow> if truthy v then [py_str x v] else [] | None \<Rightarrow> [])"

definition summarise :: "ext \<Rightarrow> (string \<times> json) list \<Rightarrow> string \<times> string" where
  "summarise x p =
     (''HiveSync: '' @ shown x p ''job'' @ '' '' @ shown x p ''status'',
      join_with [CHR 0x0A]
        ([shown x p ''job'' @ '': '' @ shown x p ''status'',
          shown x p ''files_transferred'' @ '' transferred, '' @ shown x p ''files_deleted'' @ '' removed, '' @
          shown x p ''files_archived'' @ '' archived''] @
         (case jget p ''duration_seconds'' of
            None \<Rightarrow> [] | Some JNull \<Rightarrow> [] | Some v \<Rightarrow> [''took '' @ py_str x v @ ''s'']) @
         truthy_line x p ''error'' @ truthy_line x p ''skip_reason'' @ truthy_line x p ''url''))"

subsection \<open>Targets\<close>

definition discord_colour :: "string \<Rightarrow> int" where
  "discord_colour s =
     (if s = ''success'' then 0x2ECC71 else if s = ''failed'' then 0xE74C3C
      else if s = ''cancelled'' then 0xE67E22 else 0x95A5A6)"

definition DESCRIPTION_LIMIT :: nat where "DESCRIPTION_LIMIT = 4000"

definition discord_embed :: "ext \<Rightarrow> (string \<times> json) list \<Rightarrow> (string \<times> json) list" where
  "discord_embed x p =
     [(''title'', JStr (take 256 (fst (summarise x p)))),
      (''description'', JStr (take DESCRIPTION_LIMIT (snd (summarise x p)))),
      (''color'', JInt (discord_colour (shown x p ''status'')))] @
     (case jget p ''url'' of Some v \<Rightarrow> if truthy v then [(''url'', JStr (py_str x v))] else [] | None \<Rightarrow> [])"

definition discord_body :: "ext \<Rightarrow> (string \<times> json) list \<Rightarrow> (string \<times> json) list" where
  "discord_body x p = [(''embeds'', JArr [JObj (discord_embed x p)])]"

text \<open>\<open>s.encode("ascii", "replace").decode("ascii")\<close>\<close>

definition ascii_replace :: "string \<Rightarrow> string" where
  "ascii_replace s = map (\<lambda>c. if (of_char c :: nat) < 128 then c else CHR ''?'') s"

definition from_response :: "int \<Rightarrow> delivery" where
  "from_response code =
     (if 200 \<le> code \<and> code < 300
      then \<lparr>attempted = True, delivered = True, delivery_detail = ''Delivered, HTTP '' @ str_int code @ ''.''\<rparr>
      else \<lparr>attempted = True, delivered = False,
            delivery_detail = ''The target returned HTTP '' @ str_int code @ ''. Check the URL and any token it needs.''\<rparr>)"

definition not_attempted :: "string \<Rightarrow> delivery" where
  "not_attempted why = \<lparr>attempted = False, delivered = False, delivery_detail = why\<rparr>"

text \<open>The request of a target, or why none is made.\<close>

definition request_for :: "ext \<Rightarrow> preferences \<Rightarrow> (string \<times> json) list \<Rightarrow> string + http_request" where
  "request_for x pf p =
     (let url = py_strip (notify_webhook_url pf)
      in case notify_target_of pf of
        TargetNone \<Rightarrow> Inl ''No notification target is configured.''
      | TargetWebhook \<Rightarrow>
          if url = [] then Inl ''The webhook target is selected but no URL is set.''
          else Inr \<lparr>req_url = url, req_body = JsonBody p, req_headers = [], req_timeout = notify_timeout_seconds pf\<rparr>
      | TargetDiscord \<Rightarrow>
          if url = [] then Inl ''The Discord target is selected but no webhook URL is set.''
          else Inr \<lparr>req_url = url, req_body = JsonBody (discord_body x p), req_headers = [],
                    req_timeout = notify_timeout_seconds pf\<rparr>
      | TargetNtfy \<Rightarrow>
          (let topic = strip_slash (py_strip (notify_ntfy_topic pf)); server = rstrip_slash (py_strip (notify_ntfy_server pf));
               (title, body) = summarise x p
           in if topic = [] \<or> server = [] then Inl ''The ntfy target is selected but the server or topic is not set.''
              else Inr \<lparr>req_url = server @ ''/'' @ topic, req_body = TextBody body,
                        req_headers =
                          [(''Title'', ascii_replace title),
                           (''Tags'', if jget p ''status'' = Some (JStr ''success'') then ''white_check_mark'' else ''warning''),
                           (''Priority'', if jget p ''status'' = Some (JStr ''failed'') then ''high'' else ''default'')],
                        req_timeout = notify_timeout_seconds pf\<rparr>))"

definition send :: "ext \<Rightarrow> (http_request \<Rightarrow> http_outcome) \<Rightarrow> preferences \<Rightarrow> (string \<times> json) list \<Rightarrow> delivery" where
  "send x post pf p =
     (case request_for x pf p of
        Inl why \<Rightarrow> not_attempted why
      | Inr q \<Rightarrow>
          (case post q of
             Responded code \<Rightarrow> from_response code
           | HttpTimeout \<Rightarrow> \<lparr>attempted = True, delivered = False, delivery_detail =
               ''The notification target did not respond within '' @ str_int (notify_timeout_seconds pf) @ '' seconds.''\<rparr>
           | HttpFailure name \<Rightarrow> \<lparr>attempted = True, delivered = False, delivery_detail =
               ''The notification could not be delivered: '' @ name @ ''.''\<rparr>
           | HttpUnexpected \<Rightarrow> \<lparr>attempted = True, delivered = False, delivery_detail =
               ''The notification could not be delivered because of an unexpected error.''\<rparr>))"

text \<open>\<open>_notify\<close>: the request made for a finished run, if any. What it raises is swallowed, and nothing of it
  reaches the run.\<close>

definition notify_run :: "ext \<Rightarrow> (http_request \<Rightarrow> http_outcome) \<Rightarrow> preferences \<Rightarrow> job_run \<Rightarrow> job \<Rightarrow> delivery option" where
  "notify_run x post pf r j =
     (if \<not> should_notify j (run_status_of r) then None
      else if notify_target_of pf = TargetNone then None
      else Some (send x post pf (build_payload x j r (pref_base_url pf))))"

definition sample_payload :: "(string \<times> json) list" where
  "sample_payload =
     [(''job'', JStr ''Test notification''), (''job_id'', JInt 0), (''run_id'', JInt 0), (''mode'', JStr ''live''),
      (''trigger'', JStr ''manual''), (''status'', JStr ''success''), (''duration_seconds'', JFloat (Fract 3 2)),
      (''files_transferred'', JInt 3), (''files_deleted'', JInt 0), (''files_archived'', JInt 1),
      (''bytes_transferred'', JInt 4096), (''errors'', JInt 0)]"

subsection \<open>What leaves and what is reported\<close>

lemma ascii_replace_ascii: "list_all (\<lambda>c. (of_char c :: nat) < 128) (ascii_replace s)"
  by (auto simp: ascii_replace_def list_all_iff)

lemma request_timeout: "request_for x pf p = Inr q \<Longrightarrow> req_timeout q = notify_timeout_seconds pf"
  by (auto simp: request_for_def Let_def split: notify_target.splits if_splits prod.splits)

lemma request_headers:
  assumes "request_for x pf p = Inr q" "(k, v) \<in> set (req_headers q)"
  shows "list_all (\<lambda>c. (of_char c :: nat) < 128) v"
  using assms ascii_replace_ascii
  by (auto simp: request_for_def Let_def split: notify_target.splits if_splits prod.splits)

lemma send_by_outcome:
  "request_for x pf p = Inr q \<Longrightarrow> request_for x pf' p = Inr q' \<Longrightarrow>
     notify_timeout_seconds pf' = notify_timeout_seconds pf \<Longrightarrow> post' q' = post q \<Longrightarrow>
     send x post' pf' p = send x post pf p"
  by (simp add: send_def split: http_outcome.split)

text \<open>A notification is contained. A request that leaves has a timeout of at most a minute and only ASCII
  in its headers, whatever the job is called; and the report of the attempt is a function of the outcome
  and the timeout alone: two configurations that differ in the URL, or in anything else that may hold a
  token, and get the same outcome are reported in the same words.\<close>

theorem notification_contained:
  assumes "request_for x pf p = Inr q" "valid_preferences zone pf"
  shows "1 \<le> req_timeout q \<and> req_timeout q \<le> 60 \<and>
    (\<forall>(k, v) \<in> set (req_headers q). list_all (\<lambda>c. (of_char c :: nat) < 128) v) \<and>
    (\<forall>pf' q' post post'. request_for x pf' p = Inr q' \<and> notify_timeout_seconds pf' = notify_timeout_seconds pf \<and>
       post' q' = post q \<longrightarrow> send x post' pf' p = send x post pf p)"
  using request_timeout [OF assms(1)] request_headers [OF assms(1)] send_by_outcome [OF assms(1)] assms(2)
  unfolding valid_preferences_def by auto

theorem notification_contained_witness:
  "send sample_ext (\<lambda>q. HttpFailure ''ConnectError'')
     (default_preferences\<lparr>notify_target_of := TargetWebhook, notify_webhook_url := ''https://a.example/hook/t0k3n''\<rparr>) sample_payload =
   send sample_ext (\<lambda>q. HttpFailure ''ConnectError'')
     (default_preferences\<lparr>notify_target_of := TargetWebhook, notify_webhook_url := ''https://b.example/x''\<rparr>) sample_payload"
proof -
  let ?a = "default_preferences\<lparr>notify_target_of := TargetWebhook, notify_webhook_url := ''https://a.example/hook/t0k3n''\<rparr>"
  let ?b = "default_preferences\<lparr>notify_target_of := TargetWebhook, notify_webhook_url := ''https://b.example/x''\<rparr>"
  have s: "py_strip ''https://a.example/hook/t0k3n'' \<noteq> []" "py_strip ''https://b.example/x'' \<noteq> []" by code_simp+
  obtain q q' where q: "request_for sample_ext ?a sample_payload = Inr q" "request_for sample_ext ?b sample_payload = Inr q'"
    using s by (simp add: request_for_def)
  have "valid_preferences (\<lambda>z. False) ?a"
    by (simp add: valid_preferences_def default_preferences_def py_strip_def strip_if_def)
  from notification_contained [OF q(1) this] q(2) show ?thesis by auto
qed

lemma discord_within_limits:
  "\<exists>t d rest. discord_embed x p = (''title'', JStr t) # (''description'', JStr d) # rest \<and>
     length t \<le> 256 \<and> length d \<le> 4000"
  by (simp add: discord_embed_def DESCRIPTION_LIMIT_def)

end
