(* ===== verification/Retention.thy ===== *)
theory Retention
  imports Archive Engine Runs Preferences "HOL-Library.Multiset"
begin

text \<open>
  \<open>app/jobs/retention.py\<close>: what a maintenance pass deletes. The file system is a parameter: \<open>fs_entries\<close>
  lists a directory (None where it is not one) with whether each entry is a directory, \<open>fs_size\<close> is the
  size of a tree, and \<open>fs_remove\<close> is the text of the error a removal raises, None where it succeeds. A
  path keeps its spelling, where \<open>pathlib\<close> would collapse repeated slashes.
\<close>

record file_system =
  fs_entries :: "string \<Rightarrow> (string \<times> bool) list option"
  fs_size :: "string \<Rightarrow> int"
  fs_remove :: "string \<Rightarrow> string option"
  fs_logs :: "(string \<times> (rat \<times> int) option) list"   \<comment> \<open>the log files found, with what \<open>stat\<close> says\<close>

datatype skip =
    NoRetention
  | FlatLayout
  | Unresolved archive_reason
  | UnresolvedRemote remote_reason
  | OnRemote string
  | NothingArchived

record archive_prune =
  ap_job_id :: nat
  ap_job_name :: string
  ap_days :: int
  ap_directories :: "string list"
  ap_bytes_freed :: int
  ap_skipped :: "skip option"

record report =
  rp_archives :: "archive_prune list"
  directories_removed :: nat
  bytes_freed :: int
  logs_removed :: nat
  runs_removed :: nat
  rp_errors :: "string list"

definition empty_report :: report where
  "empty_report = \<lparr>rp_archives = [], directories_removed = 0, bytes_freed = 0, logs_removed = 0, runs_removed = 0,
                   rp_errors = []\<rparr>"

subsection \<open>Stamps\<close>

text \<open>\<open>STAMP.match\<close>: the dollar also matches before a final line feed.\<close>

definition stamp_shape :: "string \<Rightarrow> bool" where
  "stamp_shape s \<longleftrightarrow>
     length s = 20 \<and>
     list_all2 (\<lambda>p c. if p = CHR ''d'' then ascii_digit c else c = p) ''dddd-dd-ddTdd-dd-ddZ'' s"

definition stamp_matches :: "string \<Rightarrow> bool" where
  "stamp_matches s \<longleftrightarrow> stamp_shape s \<or> (s \<noteq> [] \<and> last s = CHR 0x0A \<and> stamp_shape (butlast s))"

definition days_of_civil :: "int \<Rightarrow> int \<Rightarrow> int \<Rightarrow> int" where
  "days_of_civil y m d =
     (let y' = (if m \<le> 2 then y - 1 else y);
          era = y' div 400;
          yoe = y' mod 400;
          doy = (153 * (if m > 2 then m - 3 else m + 9) + 2) div 5 + d - 1;
          doe = yoe * 365 + yoe div 4 - yoe div 100 + doy
      in era * 146097 + doe - 719468)"

definition leap :: "int \<Rightarrow> bool" where
  "leap y \<longleftrightarrow> 4 dvd y \<and> (\<not> 100 dvd y \<or> 400 dvd y)"

definition days_in_month :: "int \<Rightarrow> int \<Rightarrow> int" where
  "days_in_month y m =
     (if m = 2 then (if leap y then 29 else 28) else if m \<in> {4, 6, 9, 11} then 30 else 31)"

definition num :: "string \<Rightarrow> nat \<Rightarrow> nat \<Rightarrow> int" where
  "num s i n = int (nat_of_digits (take n (drop i s)))"

text \<open>\<open>datetime.strptime(name, STAMP_FORMAT)\<close>: None is the ValueError of a name that is no date, or that has
  something after the Z.\<close>

definition parse_stamp :: "string \<Rightarrow> datetime option" where
  "parse_stamp s =
     (if \<not> stamp_shape s then None
      else
        (let y = num s 0 4; m = num s 5 2; d = num s 8 2; h = num s 11 2; mi = num s 14 2; sec = num s 17 2
         in if 1 \<le> y \<and> 1 \<le> m \<and> m \<le> 12 \<and> 1 \<le> d \<and> d \<le> days_in_month y m \<and> h \<le> 23 \<and> mi \<le> 59 \<and> sec \<le> 59
            then Some ((days_of_civil y m d * 86400 + h * 3600 + mi * 60 + sec) * second) else None))"

subsection \<open>Archive pruning\<close>

definition retention_for :: "job \<Rightarrow> preferences \<Rightarrow> int option" where
  "retention_for j pf =
     (case archive_retention_days j of Some d \<Rightarrow> Some d | None \<Rightarrow> pref_archive_retention_days pf)"

text \<open>The entries that are directories with the name of a stamp, with the moment the name says. None is a
  name \<open>strptime\<close> refuses, which ends the pass.\<close>

fun stamped_dirs :: "(string \<times> bool) list \<Rightarrow> (string \<times> datetime) list option" where
  "stamped_dirs [] = Some []"
| "stamped_dirs ((name, is_dir) # es) =
     (if \<not> is_dir \<or> \<not> stamp_matches name then stamped_dirs es
      else Option.bind (parse_stamp name) (\<lambda>t. map_option (\<lambda>ds. (name, t) # ds) (stamped_dirs es)))"

definition skipping :: "job \<Rightarrow> int \<Rightarrow> skip \<Rightarrow> archive_prune" where
  "skipping j days why =
     \<lparr>ap_job_id = job_id j, ap_job_name = job_name j, ap_days = days, ap_directories = [], ap_bytes_freed = 0,
      ap_skipped = Some why\<rparr>"

definition absolute :: "string \<Rightarrow> bool" where
  "absolute p \<longleftrightarrow> prefix ''/'' p"

definition archive_root :: "job \<Rightarrow> string \<Rightarrow> string" where
  "archive_root j path = rstrip_slash path @ ''/'' @ slugify (job_name j)"

definition plan_directories :: "file_system \<Rightarrow> job \<Rightarrow> int \<Rightarrow> datetime \<Rightarrow> string \<Rightarrow> archive_prune option" where
  "plan_directories fs j days now dir =
     (case fs_entries fs dir of
        None \<Rightarrow> Some (skipping j days NothingArchived)
      | Some es \<Rightarrow>
          map_option
            (\<lambda>ds. let doomed = map (\<lambda>e. dir @ ''/'' @ fst e) (filter (\<lambda>e. snd e < now - days * day) ds)
                  in \<lparr>ap_job_id = job_id j, ap_job_name = job_name j, ap_days = days, ap_directories = doomed,
                      ap_bytes_freed = sum_list (map (fs_size fs) doomed), ap_skipped = None\<rparr>)
            (stamped_dirs (sort_key fst es)))"

text \<open>None is an exception \<open>plan_archive\<close> lets out.\<close>

definition plan_archive :: "file_system \<Rightarrow> preferences \<Rightarrow> datetime \<Rightarrow> job \<Rightarrow> archive_prune option" where
  "plan_archive fs pf now j =
     (let days = (case retention_for j pf of None \<Rightarrow> 0 | Some d \<Rightarrow> d); (s, d, r, write) = endpoints_and_paths j
      in if job_delete_mode j \<noteq> DelArchive \<or> days = 0 then Some (skipping j days NoRetention)
         else if job_archive_layout j \<noteq> TimestampedDir then Some (skipping j days FlatLayout)
         else
           (case display_path d (if write = [] then None else Some write) of
              Inl e \<Rightarrow> Some (skipping j days (UnresolvedRemote e))
            | Inr destination \<Rightarrow>
                (case plan_for j destination now of
                   Inl e \<Rightarrow> Some (skipping j days (Unresolved e))
                 | Inr a \<Rightarrow>
                     (let (remote, path) = split_remote (plan_base a)
                      in if remote \<noteq> [] \<or> \<not> absolute path then Some (skipping j days (OnRemote (plan_base a)))
                         else plan_directories fs j days now (archive_root j path)))))"

definition remove_directory :: "file_system \<Rightarrow> string \<Rightarrow> report \<Rightarrow> report" where
  "remove_directory fs p rp =
     (case fs_remove fs p of
        None \<Rightarrow> rp\<lparr>directories_removed := Suc (directories_removed rp)\<rparr>
      | Some e \<Rightarrow> rp\<lparr>rp_errors := rp_errors rp @ [''Could not remove '' @ p @ '': '' @ e]\<rparr>)"

definition prune_archive :: "file_system \<Rightarrow> archive_prune \<Rightarrow> report \<Rightarrow> report" where
  "prune_archive fs p rp =
     (let rp' = fold (remove_directory fs) (ap_directories p) rp in rp'\<lparr>bytes_freed := bytes_freed rp' + ap_bytes_freed p\<rparr>)"

subsection \<open>Logs\<close>

definition unlink :: "file_system \<Rightarrow> string \<Rightarrow> report \<Rightarrow> bool \<times> report" where
  "unlink fs p rp =
     (case fs_remove fs p of
        None \<Rightarrow> (True, rp)
      | Some e \<Rightarrow> (False, rp\<lparr>rp_errors := rp_errors rp @ [''Could not remove '' @ p @ '': '' @ e]\<rparr>))"

definition unlink_log :: "file_system \<Rightarrow> string \<Rightarrow> report \<Rightarrow> bool \<times> report" where
  "unlink_log fs p rp =
     (case unlink fs p rp of (gone, rp') \<Rightarrow>
        (gone, if gone then rp'\<lparr>logs_removed := Suc (logs_removed rp')\<rparr> else rp'))"

text \<open>The first pass: files older than the cutoff go, the rest are kept with their size.\<close>

fun age_logs :: "file_system \<Rightarrow> rat \<Rightarrow> (string \<times> (rat \<times> int) option) list \<Rightarrow> report \<Rightarrow> (rat \<times> int \<times> string) list \<times> report" where
  "age_logs fs cutoff [] rp = ([], rp)"
| "age_logs fs cutoff ((p, st) # fls) rp =
     (case st of
        None \<Rightarrow> age_logs fs cutoff fls rp
      | Some (mtime, bytes) \<Rightarrow>
          if mtime < cutoff then age_logs fs cutoff fls (snd (unlink_log fs p rp))
          else (case age_logs fs cutoff fls rp of (kept, rp') \<Rightarrow> ((mtime, bytes, p) # kept, rp')))"

text \<open>The second: oldest first, until the total is within the budget.\<close>

fun cap_logs :: "file_system \<Rightarrow> int \<Rightarrow> int \<Rightarrow> (rat \<times> int \<times> string) list \<Rightarrow> report \<Rightarrow> int \<times> report" where
  "cap_logs fs budget used [] rp = (used, rp)"
| "cap_logs fs budget used ((mtime, bytes, p) # fls) rp =
     (if used \<le> budget then (used, rp)
      else (case unlink_log fs p rp of (gone, rp') \<Rightarrow>
              cap_logs fs budget (if gone then used - bytes else used) fls rp'))"

definition log_order :: "(rat \<times> int \<times> string) list \<Rightarrow> (rat \<times> int \<times> string) list" where
  "log_order fls = sort_key fst (sort_key (\<lambda>f. fst (snd f)) (sort_key (\<lambda>f. snd (snd f)) fls))"

definition log_total :: "(rat \<times> int \<times> string) list \<Rightarrow> int" where
  "log_total fls = sum_list (map (\<lambda>f. fst (snd f)) fls)"

definition prune_logs :: "file_system \<Rightarrow> preferences \<Rightarrow> datetime \<Rightarrow> report \<Rightarrow> int \<times> report" where
  "prune_logs fs pf now rp =
     (case age_logs fs (of_int (now - log_retention_days pf * day) / of_int second) (fs_logs fs) rp of
        (fls, rp') \<Rightarrow> cap_logs fs (log_max_total_mb pf * 1024 * 1024) (log_total fls) (log_order fls) rp')"

subsection \<open>Run history\<close>

definition finished_runs :: "store \<Rightarrow> nat \<Rightarrow> job_run list" where
  "finished_runs st j = filter (\<lambda>r. run_job_id r = j \<and> run_status_of r \<notin> {Queued, Running}) (db_runs st)"

definition doomed_runs :: "int \<Rightarrow> store \<Rightarrow> nat \<Rightarrow> nat list" where
  "doomed_runs keep st j = drop (nat keep) (map run_id (rev (sort_key run_id (finished_runs st j))))"

definition prune_job_runs :: "int \<Rightarrow> nat \<Rightarrow> store \<times> report \<Rightarrow> store \<times> report" where
  "prune_job_runs keep j acc =
     (let (st, rp) = acc; doomed = doomed_runs keep st j
      in (fold delete_run doomed st, rp\<lparr>runs_removed := runs_removed rp + length doomed\<rparr>))"

definition prune_runs :: "preferences \<Rightarrow> store \<Rightarrow> report \<Rightarrow> store \<times> report" where
  "prune_runs pf st rp = fold (prune_job_runs (run_history_keep pf)) (map job_id (db_jobs st)) (st, rp)"

subsection \<open>The pass\<close>

definition plan_maintenance :: "file_system \<Rightarrow> preferences \<Rightarrow> datetime \<Rightarrow> store \<Rightarrow> report option" where
  "plan_maintenance fs pf now st =
     map_option (\<lambda>ps. empty_report\<lparr>rp_archives := ps\<rparr>) (those (map (plan_archive fs pf now) (db_jobs st)))"

definition run_maintenance :: "file_system \<Rightarrow> preferences \<Rightarrow> datetime \<Rightarrow> store \<Rightarrow> (store \<times> report) option" where
  "run_maintenance fs pf now st =
     map_option
       (\<lambda>rp. let rp1 = fold (prune_archive fs) (rp_archives rp) rp; rp2 = snd (prune_logs fs pf now rp1)
             in prune_runs pf st rp2)
       (plan_maintenance fs pf now st)"

subsection \<open>What is pruned\<close>

lemma stamp_matches_no_slash: "parse_stamp s = Some t \<Longrightarrow> CHR ''/'' \<notin> set s"
proof
  assume p: "parse_stamp s = Some t" and m: "CHR ''/'' \<in> set s"
  then have sh: "stamp_shape s" by (simp add: parse_stamp_def split: if_splits)
  obtain i where i: "i < length s" "s ! i = CHR ''/''" using m by (auto simp: in_set_conv_nth)
  have len: "length (''dddd-dd-ddTdd-dd-ddZ'' :: string) = length s" using sh by (simp add: stamp_shape_def)
  have "(\<lambda>p c. if p = CHR ''d'' then ascii_digit c else c = p) (''dddd-dd-ddTdd-dd-ddZ'' ! i) (s ! i)"
    using sh i(1) len unfolding stamp_shape_def list_all2_conv_all_nth by auto
  moreover have "(''dddd-dd-ddTdd-dd-ddZ'' :: string) ! i \<in> set ''dddd-dd-ddTdd-dd-ddZ''"
    using i(1) len by (simp only: nth_mem)
  ultimately show False using i(2) by (auto simp: ascii_digit_def split: if_splits)
qed

lemma stamped_dirs_Some:
  "stamped_dirs es = Some ds \<Longrightarrow> (name, t) \<in> set ds \<Longrightarrow>
   (name, True) \<in> set es \<and> stamp_matches name \<and> parse_stamp name = Some t"
proof (induction es arbitrary: ds)
  case (Cons e es)
  obtain n is_dir where e: "e = (n, is_dir)" by fastforce
  show ?case
  proof (cases "\<not> is_dir \<or> \<not> stamp_matches n")
    case True
    then show ?thesis using Cons e by auto
  next
    case False
    then obtain u ds' where "parse_stamp n = Some u" "stamped_dirs es = Some ds'" "ds = (n, u) # ds'"
      using Cons.prems(1) e by (auto simp: bind_eq_Some_conv)
    then show ?thesis using Cons.IH [of ds'] Cons.prems(2) e False by auto
  qed
qed simp

lemma skipping_empty [simp]: "ap_directories (skipping j days why) = []" "ap_bytes_freed (skipping j days why) = 0"
  by (simp_all add: skipping_def)

lemma plan_directories_doomed:
  assumes p: "plan_directories fs j days now dir = Some p" and d: "d \<in> set (ap_directories p)"
  shows "\<exists>es name t. fs_entries fs dir = Some es \<and> (name, True) \<in> set es \<and> d = dir @ ''/'' @ name \<and>
           parse_stamp name = Some t \<and> t < now - days * day"
proof -
  obtain es where es: "fs_entries fs dir = Some es"
    using p d by (auto simp: plan_directories_def split: option.splits)
  obtain ds where ds: "stamped_dirs (sort_key fst es) = Some ds"
    and p': "ap_directories p = map (\<lambda>e. dir @ ''/'' @ fst e) (filter (\<lambda>e. snd e < now - days * day) ds)"
    using p es by (auto simp: plan_directories_def Let_def)
  obtain name t where nt: "(name, t) \<in> set ds" "d = dir @ ''/'' @ name" "t < now - days * day"
    using d p' by auto
  then show ?thesis using stamped_dirs_Some [OF ds nt(1)] es by auto
qed


definition sample_archive :: file_system where
  "sample_archive =
     \<lparr>fs_entries = (\<lambda>p. if p = ''/mnt/old/media-backup''
                        then Some [(''notes'', True), (''2026-01-01T00-00-00Z'', True), (''2026-03-01T00-00-00Z'', True)]
                        else None),
      fs_size = (\<lambda>p. 10), fs_remove = (\<lambda>p. None), fs_logs = []\<rparr>"

definition sample_local_job :: job where
  "sample_local_job =
     (let c = sample_connection\<lparr>conn_type := CtLocal, base_path := ''/mnt''\<rparr>
      in sample_job\<lparr>source_connection := c, dest_connection := c, job_archive_base := Some ''/mnt/old'',
                    archive_retention_days := Some 30\<rparr>)"

definition sample_now :: datetime where
  "sample_now = 1772582400 * second"   \<comment> \<open>2026-03-04T00:00:00Z\<close>

lemma sample_prune:
  "plan_archive sample_archive default_preferences sample_now sample_local_job =
     Some \<lparr>ap_job_id = 1, ap_job_name = ''Media/Backup'', ap_days = 30,
           ap_directories = [''/mnt/old/media-backup/2026-01-01T00-00-00Z''], ap_bytes_freed = 10,
           ap_skipped = None\<rparr>"
  by code_simp


text \<open>The remote check is on a path \<open>display_path\<close> has already stripped of its alias: a job that writes to
  an SFTP server is planned against the local directory of the same name.\<close>

lemma remote_archive_taken_as_local:
  "conn_type (dest_connection (sample_local_job\<lparr>dest_connection := sample_connection\<lparr>base_path := ''/mnt''\<rparr>\<rparr>)) = CtSftp \<and>
   map_option ap_directories
     (plan_archive sample_archive default_preferences sample_now
        (sample_local_job\<lparr>dest_connection := sample_connection\<lparr>base_path := ''/mnt''\<rparr>\<rparr>)) =
     Some [''/mnt/old/media-backup/2026-01-01T00-00-00Z'']"
  by code_simp

lemma those_None: "None \<in> set xs \<Longrightarrow> those xs = None"
  by (induction xs) (auto split: option.splits)

text \<open>A directory with the shape of a stamp that is no date raises, and the pass of every job with it.\<close>

lemma impossible_stamp_raises:
  "plan_archive (sample_archive\<lparr>fs_entries := (\<lambda>p. Some [(''2026-99-99T00-00-00Z'', True)])\<rparr>)
     default_preferences sample_now sample_local_job = None"
  by code_simp

lemma one_raise_ends_the_pass:
  "j \<in> set (db_jobs st) \<Longrightarrow> plan_archive fs pf now j = None \<Longrightarrow> run_maintenance fs pf now st = None"
proof -
  assume "j \<in> set (db_jobs st)" "plan_archive fs pf now j = None"
  then have "None \<in> set (map (plan_archive fs pf now) (db_jobs st))" by force
  then have "those (map (plan_archive fs pf now) (db_jobs st)) = None" by (rule those_None)
  then show ?thesis by (simp add: run_maintenance_def plan_maintenance_def)
qed

subsection \<open>What is left of the history\<close>

lemma fold_delete_runs: "db_runs (fold delete_run ds st) = filter (\<lambda>r. run_id r \<notin> set ds) (db_runs st)"
  by (induction ds arbitrary: st) (auto simp: delete_run_def intro: filter_cong)

lemma fold_delete_ok: "store_ok st \<Longrightarrow> store_ok (fold delete_run ds st)"
  by (induction ds arbitrary: st) (auto simp: delete_run_ok)

lemma fold_delete_jobs: "db_jobs (fold delete_run ds st) = db_jobs st"
  by (induction ds arbitrary: st) (auto simp: delete_run_def)

text \<open>The \<open>keep\<close> newest finished runs of a job.\<close>

definition newest :: "int \<Rightarrow> store \<Rightarrow> nat \<Rightarrow> nat list" where
  "newest keep st j = take (nat keep) (map run_id (rev (sort_key run_id (finished_runs st j))))"

lemma doomed_or_newest:
  assumes "distinct (map run_id (db_runs st))"
  shows "distinct (newest keep st j @ doomed_runs keep st j)"
    and "set (newest keep st j) \<union> set (doomed_runs keep st j) = run_id ` set (finished_runs st j)"
proof -
  let ?ids = "map run_id (rev (sort_key run_id (finished_runs st j)))"
  have split: "newest keep st j @ doomed_runs keep st j = ?ids"
    by (simp add: newest_def doomed_runs_def)
  have "distinct (map run_id (finished_runs st j))"
    using assms by (simp add: finished_runs_def distinct_map_filter)
  then have "distinct (map run_id (sort_key run_id (finished_runs st j)))"
    by (simp add: distinct_map)
  then have "distinct ?ids" by (simp only: rev_map [symmetric] distinct_rev)
  then show "distinct (newest keep st j @ doomed_runs keep st j)" using split by simp
  show "set (newest keep st j) \<union> set (doomed_runs keep st j) = run_id ` set (finished_runs st j)"
    using arg_cong [OF split, of set] by simp
qed

lemma same_run: "distinct (map run_id rs) \<Longrightarrow> q \<in> set rs \<Longrightarrow> r \<in> set rs \<Longrightarrow> run_id q = run_id r \<Longrightarrow> q = r"
  by (simp add: distinct_map inj_on_def)

lemma doomed_iff:
  assumes d: "distinct (map run_id (db_runs st))" and r: "r \<in> set (db_runs st)"
  shows "run_id r \<in> set (doomed_runs keep st j) \<longleftrightarrow>
           run_job_id r = j \<and> terminal_status (run_status_of r) \<and> run_id r \<notin> set (newest keep st j)"
proof -
  have fin: "run_id r \<in> run_id ` set (finished_runs st j) \<longleftrightarrow> run_job_id r = j \<and> terminal_status (run_status_of r)"
    using same_run [OF d _ r] r
    by (cases "run_status_of r") (auto simp: finished_runs_def terminal_status_def image_iff)
  show ?thesis using doomed_or_newest [OF d, of keep j] fin by auto
qed

lemma prune_job_runs_effect:
  assumes d: "distinct (map run_id (db_runs st))"
  shows "db_runs (fst (prune_job_runs keep j (st, rp))) =
           filter (\<lambda>r. run_job_id r = j \<longrightarrow> active_status (run_status_of r) \<or> run_id r \<in> set (newest keep st j))
             (db_runs st)"
  unfolding prune_job_runs_def Let_def prod.case fst_conv fold_delete_runs
  by (rule filter_cong) (auto simp: doomed_iff [OF d] active_or_terminal)

lemma newest_other:
  assumes d: "distinct (map run_id (db_runs st))" and k: "k \<noteq> j"
  shows "newest keep (fst (prune_job_runs keep j (st, rp))) k = newest keep st k"
proof -
  have "finished_runs (fst (prune_job_runs keep j (st, rp))) k = finished_runs st k"
    unfolding finished_runs_def prune_job_runs_effect [OF d] filter_filter
    using k by (intro filter_cong) auto
  then show ?thesis by (simp add: newest_def)
qed

lemma prune_job_runs_ok: "store_ok st \<Longrightarrow> store_ok (fst (prune_job_runs keep j (st, rp)))"
  by (simp add: prune_job_runs_def Let_def fold_delete_ok)

lemma prune_all:
  "store_ok st \<Longrightarrow> distinct js \<Longrightarrow>
   store_ok (fst (fold (prune_job_runs keep) js (st, rp))) \<and>
   db_runs (fst (fold (prune_job_runs keep) js (st, rp))) =
     filter (\<lambda>r. run_job_id r \<in> set js \<longrightarrow>
               active_status (run_status_of r) \<or> run_id r \<in> set (newest keep st (run_job_id r))) (db_runs st)"
proof (induction js arbitrary: st rp)
  case (Cons j js)
  obtain st1 rp1 where s1: "prune_job_runs keep j (st, rp) = (st1, rp1)" by fastforce
  have d: "distinct (map run_id (db_runs st))" using Cons.prems(1) by (simp add: store_ok_def)
  have eff: "db_runs st1 = filter (\<lambda>r. run_job_id r = j \<longrightarrow>
               active_status (run_status_of r) \<or> run_id r \<in> set (newest keep st j)) (db_runs st)"
    using prune_job_runs_effect [OF d, of keep j rp] s1 by simp
  have other: "newest keep st1 k = newest keep st k" if "k \<in> set js" for k
    using newest_other [OF d, of k j keep rp] s1 that Cons.prems(2) by auto
  have ok1: "store_ok st1" using prune_job_runs_ok [OF Cons.prems(1), of keep j rp] s1 by simp
  note IH = Cons.IH [OF ok1, of rp1] 
  show ?case
    unfolding fold_Cons comp_def s1 using IH Cons.prems(2)
    by (auto simp: eff other intro!: filter_cong)
qed simp

text \<open>C39. Pruning the history keeps every queued or running run and the newest \<open>run_history_keep\<close> finished runs
  of each job, and nothing else: the store that is left is the old one filtered by exactly that, and it still
  satisfies the constraints.\<close>

theorem history_pruning:
  assumes "store_ok st" "distinct (map job_id (db_jobs st))"
  shows "store_ok (fst (prune_runs pf st rp)) \<and>
         db_runs (fst (prune_runs pf st rp)) =
           filter (\<lambda>r. active_status (run_status_of r) \<or>
                       run_id r \<in> set (newest (run_history_keep pf) st (run_job_id r))) (db_runs st)"
proof -
  have "db_runs (fst (prune_runs pf st rp)) =
          filter (\<lambda>r. run_job_id r \<in> set (map job_id (db_jobs st)) \<longrightarrow> active_status (run_status_of r) \<or>
                       run_id r \<in> set (newest (run_history_keep pf) st (run_job_id r))) (db_runs st)"
    using prune_all [OF assms, of "run_history_keep pf" rp] by (simp add: prune_runs_def)
  also have "\<dots> = filter (\<lambda>r. active_status (run_status_of r) \<or>
                       run_id r \<in> set (newest (run_history_keep pf) st (run_job_id r))) (db_runs st)"
    using assms(1) by (intro filter_cong) (auto simp: store_ok_def)
  finally show ?thesis using prune_all [OF assms, of "run_history_keep pf" rp] by (simp add: prune_runs_def)
qed

definition sample_history :: store where
  "sample_history =
     \<lparr>db_jobs = [sample_job],
      db_runs = [(new_run 1 TrigApi Live Success)\<lparr>run_id := 1\<rparr>, (new_run 1 TrigApi Live Failed)\<lparr>run_id := 2\<rparr>,
                 (new_run 1 TrigApi Live Running)\<lparr>run_id := 3\<rparr>],
      db_changes = []\<rparr>"

lemma sample_history_ok: "store_ok sample_history" "distinct (map job_id (db_jobs sample_history))"
  by (simp_all add: store_ok_def sample_history_def active_runs_def new_run_def sample_job_def)

lemma sample_history_pruned:
  "map run_id (db_runs (fst (prune_runs (default_preferences\<lparr>run_history_keep := 1\<rparr>) sample_history empty_report))) = [2, 3]"
  by code_simp

theorem history_pruning_witness:
  "store_ok (fst (prune_runs (default_preferences\<lparr>run_history_keep := 1\<rparr>) sample_history empty_report)) \<and>
   db_runs (fst (prune_runs (default_preferences\<lparr>run_history_keep := 1\<rparr>) sample_history empty_report)) =
     filter (\<lambda>r. active_status (run_status_of r) \<or>
                 run_id r \<in> set (newest (run_history_keep (default_preferences\<lparr>run_history_keep := 1\<rparr>)) sample_history
                                  (run_job_id r))) (db_runs sample_history)"
  by (rule history_pruning [OF sample_history_ok])

subsection \<open>What is left of the logs\<close>

lemma cap_logs_budget:
  "(\<And>p. fs_remove fs p = None) \<Longrightarrow> used = log_total fls \<Longrightarrow> 0 \<le> budget \<Longrightarrow>
   fst (cap_logs fs budget used fls rp) \<le> budget"
  by (induction fs budget used fls rp rule: cap_logs.induct)
     (auto simp: log_total_def unlink_log_def unlink_def split: if_splits)

lemma log_total_order: "log_total (log_order fls) = log_total fls"
proof -
  have "mset (log_order fls) = mset fls" by (simp add: log_order_def)
  then have "sum_mset (image_mset (\<lambda>f. fst (snd f)) (mset (log_order fls))) = sum_mset (image_mset (\<lambda>f. fst (snd f)) (mset fls))"
    by simp
  then show ?thesis by (simp add: log_total_def sum_mset_sum_list [symmetric])
qed

text \<open>Where every removal succeeds, the log files that are kept fit the budget.\<close>

lemma logs_within_budget:
  assumes "\<And>p. fs_remove fs p = None" "0 \<le> log_max_total_mb pf"
  shows "fst (prune_logs fs pf now rp) \<le> log_max_total_mb pf * 1024 * 1024"
proof -
  obtain fls rp' where age: "age_logs fs (of_int (now - log_retention_days pf * day) / of_int second) (fs_logs fs) rp = (fls, rp')"
    by fastforce
  have "fst (cap_logs fs (log_max_total_mb pf * 1024 * 1024) (log_total fls) (log_order fls) rp') \<le> log_max_total_mb pf * 1024 * 1024"
    by (rule cap_logs_budget) (use assms in \<open>auto simp: log_total_order\<close>)
  then show ?thesis unfolding prune_logs_def age prod.case .
qed

end
