(* ===== verification/Restore.thy ===== *)
theory Restore
  imports Archive Engine Runs
begin

text \<open>
  \<open>app/jobs/restore.py\<close>, and \<open>restore_run_form\<close> of \<open>app/web\<close>, which decides what is restored. The commands
  are not under \<open>src/\<close>: \<open>proc\<close> gives the outcome of one from the commands that ran before it, so that a copy
  may change what a later command finds. Every operation returns the commands it ran, oldest first, with its
  result; an exception keeps the commands that had already run.
\<close>

datatype restore_reason = FlatSuffix | NoDirectoryRecorded

datatype restore_failure = RestoreError restore_reason | RestorePrep prep_error

record archived_file =
  af_path :: string
  af_side :: change_side

record restore_report =
  rr_restored :: "string list"
  rr_skipped :: "string list"
  rr_errors :: "string list"

type_synonym proc = "string list list \<Rightarrow> string list \<Rightarrow> raw_outcome"

definition MAX_LISTED :: nat where "MAX_LISTED = 2000"

definition file_key :: "archived_file \<Rightarrow> string" where
  "file_key f = side_value (af_side f) @ '':'' @ af_path f"

definition report_ok :: "restore_report \<Rightarrow> bool" where
  "report_ok rr \<longleftrightarrow> rr_errors rr = []"

definition why_not :: "job \<Rightarrow> job_run \<Rightarrow> restore_reason option" where
  "why_not j r =
     (if job_archive_layout j = SuffixLayout then Some FlatSuffix
      else if archive_dirs r = [] then Some NoDirectoryRecorded else None)"

definition alias_of :: "change_side \<Rightarrow> string" where
  "alias_of s = (case s of SideSource \<Rightarrow> ALIAS_SOURCE | SideDest \<Rightarrow> ALIAS_DEST)"

text \<open>\<open>prepared.endpoints[alias]\<close> is there for both aliases, because \<open>prepare\<close> was given both.\<close>

definition archive_specs :: "job_run \<Rightarrow> prepared \<Rightarrow> (change_side \<times> string) list" where
  "archive_specs r p =
     fold (\<lambda>(side, stored) acc.
             dict_put side ((case map_of (endpoints p) (alias_of side) of None \<Rightarrow> [] | Some e \<Rightarrow> ep_alias e) @ '':'' @ stored) acc)
       (archive_dirs r) []"

definition live_root :: "job \<Rightarrow> change_side \<Rightarrow> prepared \<Rightarrow> prep_error + string" where
  "live_root j side p =
     (let (s, d, read_path, write_path) = endpoints_and_paths j
      in if side = SideSource then prep_spec p ALIAS_SOURCE read_path else prep_spec p ALIAS_DEST write_path)"

definition both_ends :: "job \<Rightarrow> (string \<times> connection) list" where
  "both_ends j = (let (s, d, read_path, write_path) = endpoints_and_paths j in [(ALIAS_SOURCE, s), (ALIAS_DEST, d)])"

subsection \<open>Listing\<close>

definition lsf_argv :: "prepared \<Rightarrow> string \<Rightarrow> string list" where
  "lsf_argv p spec = prep_argv p [''lsf'', ''--recursive'', ''--files-only'', spec]"

text \<open>A directory that cannot be listed is passed over.\<close>

fun list_sides :: "proc \<Rightarrow> prepared \<Rightarrow> string list list \<Rightarrow> (change_side \<times> string) list \<Rightarrow> string list list \<times> archived_file list" where
  "list_sides run p h [] = (h, [])"
| "list_sides run p h ((side, spec) # specs) =
     (let argv = lsf_argv p spec; res = run_command (secrets p) argv (run h argv);
          found = (if result_ok res
                   then map (\<lambda>l. \<lparr>af_path = l, af_side = side\<rparr>) (nonblank_lines (res_stdout res)) else []);
          (h', fls) = list_sides run p (h @ [argv]) specs
      in (h', found @ fls))"

definition by_side_and_path :: "archived_file list \<Rightarrow> archived_file list" where
  "by_side_and_path fls = sort_key (\<lambda>f. side_value (af_side f)) (sort_key af_path fls)"

definition list_archived ::
  "ext \<Rightarrow> proc \<Rightarrow> job \<Rightarrow> job_run \<Rightarrow> string list list \<Rightarrow> string list list \<times> (restore_failure + archived_file list)" where
  "list_archived x run j r h =
     (case why_not j r of
        Some why \<Rightarrow> (h, Inl (RestoreError why))
      | None \<Rightarrow>
          (case prepare x (both_ends j) of
             Inl e \<Rightarrow> (h, Inl (RestorePrep e))
           | Inr p \<Rightarrow>
               (case list_sides run p h (archive_specs r p) of
                  (h', fls) \<Rightarrow> (h', Inr (take MAX_LISTED (by_side_and_path fls))))))"

subsection \<open>Copying back\<close>

definition copy_argv :: "prepared \<Rightarrow> string \<Rightarrow> string \<Rightarrow> string list" where
  "copy_argv p from_path to_path =
     prep_argv p [''copyto'', from_path, to_path, ''--ignore-existing'', ''--use-json-log'', ''-v'']"

definition file_outcome :: "string \<Rightarrow> command_result \<Rightarrow> restore_report \<Rightarrow> restore_report" where
  "file_outcome path res rr =
     (if \<not> result_ok res then
        rr\<lparr>rr_errors := rr_errors rr @ [path @ '': '' @ take 200 (py_strip (res_stderr res))]\<rparr>
      else if contains ''Copied'' (res_stdout res @ res_stderr res) then rr\<lparr>rr_restored := rr_restored rr @ [path]\<rparr>
      else rr\<lparr>rr_skipped := rr_skipped rr @ [path]\<rparr>)"

fun copy_files ::
  "proc \<Rightarrow> job \<Rightarrow> prepared \<Rightarrow> (change_side \<times> string) list \<Rightarrow> string list list \<Rightarrow> restore_report \<Rightarrow> archived_file list
     \<Rightarrow> string list list \<times> (prep_error + restore_report)" where
  "copy_files run j p archives h rr [] = (h, Inr rr)"
| "copy_files run j p archives h rr (f # fls) =
     (case map_of archives (af_side f) of
        None \<Rightarrow>
          copy_files run j p archives h
            (rr\<lparr>rr_errors := rr_errors rr @ [af_path f @ '': this run archived nothing on that side.'']\<rparr>) fls
      | Some spec \<Rightarrow>
          (case live_root j (af_side f) p of
             Inl e \<Rightarrow> (h, Inl e)
           | Inr live \<Rightarrow>
               (let argv = copy_argv p (rstrip_slash spec @ ''/'' @ af_path f) (rstrip_slash live @ ''/'' @ af_path f)
                in copy_files run j p archives (h @ [argv])
                     (file_outcome (af_path f) (run_command (secrets p) argv (run h argv)) rr) fls)))"

definition empty_restore :: restore_report where
  "empty_restore = \<lparr>rr_restored = [], rr_skipped = [], rr_errors = []\<rparr>"

definition restore ::
  "ext \<Rightarrow> proc \<Rightarrow> job \<Rightarrow> job_run \<Rightarrow> archived_file list \<Rightarrow> string list list
     \<Rightarrow> string list list \<times> (restore_failure + restore_report)" where
  "restore x run j r wanted h =
     (case why_not j r of
        Some why \<Rightarrow> (h, Inl (RestoreError why))
      | None \<Rightarrow>
          if wanted = [] then (h, Inr empty_restore)
          else
            (case prepare x (both_ends j) of
               Inl e \<Rightarrow> (h, Inl (RestorePrep e))
             | Inr p \<Rightarrow>
                 (case copy_files run j p (archive_specs r p) h empty_restore wanted of
                    (h', res) \<Rightarrow> (h', map_err RestorePrep res))))"

text \<open>\<open>restore_run_form\<close>: what the form names counts only if the archive has it.\<close>

definition restore_run_form ::
  "ext \<Rightarrow> proc \<Rightarrow> job \<Rightarrow> job_run \<Rightarrow> bool \<Rightarrow> string list \<Rightarrow> string list list \<times> (restore_failure + restore_report)" where
  "restore_run_form x run j r everything wanted =
     (case list_archived x run j r [] of
        (h, Inl e) \<Rightarrow> (h, Inl e)
      | (h, Inr offered) \<Rightarrow>
          restore x run j r
            (if everything then offered else filter (\<lambda>f. file_key f \<in> set wanted) offered) h)"

subsection \<open>Lemmas\<close>

lemma list_sides_commands:
  "c \<in> set (fst (list_sides run p h specs)) \<Longrightarrow> c \<in> set h \<or> (\<exists>spec. c = lsf_argv p spec)"
proof (induction run p h specs rule: list_sides.induct)
  case (2 run p h side spec specs)
  then show ?case by (fastforce simp: Let_def split: prod.splits)
qed simp

definition copy_of :: "job \<Rightarrow> prepared \<Rightarrow> (change_side \<times> string) list \<Rightarrow> archived_file \<Rightarrow> string list \<Rightarrow> bool" where
  "copy_of j p archives f c \<longleftrightarrow>
     (case (map_of archives (af_side f), live_root j (af_side f) p) of
        (Some spec, Inr live) \<Rightarrow>
          c = copy_argv p (rstrip_slash spec @ ''/'' @ af_path f) (rstrip_slash live @ ''/'' @ af_path f)
      | _ \<Rightarrow> False)"

lemma copy_files_commands:
  "c \<in> set (fst (copy_files run j p archives h rr fls)) \<Longrightarrow>
   c \<in> set h \<or> (\<exists>f \<in> set fls. copy_of j p archives f c)"
proof (induction run j p archives h rr fls rule: copy_files.induct)
  case (2 run j p archives h rr f fls)
  show ?case
  proof (cases "map_of archives (af_side f)")
    case None
    then show ?thesis using "2.IH"(1) [OF None] "2.prems" by auto
  next
    case (Some spec)
    show ?thesis
    proof (cases "live_root j (af_side f) p")
      case (Inl e)
      then show ?thesis using "2.prems" Some by simp
    next
      case (Inr live)
      define argv where "argv = copy_argv p (rstrip_slash spec @ ''/'' @ af_path f) (rstrip_slash live @ ''/'' @ af_path f)"
      have "c \<in> set (h @ [argv]) \<or> (\<exists>f \<in> set fls. copy_of j p archives f c)"
        using "2.IH"(2) [OF Some Inr argv_def] "2.prems" Some Inr by (simp add: argv_def Let_def)
      moreover have "copy_of j p archives f argv" by (simp add: copy_of_def Some Inr argv_def)
      ultimately show ?thesis by auto
    qed
  qed
qed simp

lemma copy_ofD:
  assumes "copy_of j p archives f c"
  shows "\<exists>spec live. map_of archives (af_side f) = Some spec \<and> live_root j (af_side f) p = Inr live \<and>
           c = prep_argv p [''copyto'', rstrip_slash spec @ ''/'' @ af_path f, rstrip_slash live @ ''/'' @ af_path f,
                            ''--ignore-existing'', ''--use-json-log'', ''-v'']"
  using assms unfolding copy_of_def copy_argv_def by (simp split: option.splits sum.splits)

text \<open>Every file asked for is accounted for, once.\<close>

lemma copy_files_accounts:
  "snd (copy_files run j p archives h rr fls) = Inr rr' \<Longrightarrow>
   length (rr_restored rr') + length (rr_skipped rr') + length (rr_errors rr') =
   length (rr_restored rr) + length (rr_skipped rr) + length (rr_errors rr) + length fls"
proof (induction run j p archives h rr fls rule: copy_files.induct)
  case (2 run j p archives h rr f fls)
  show ?case
  proof (cases "map_of archives (af_side f)")
    case None
    then show ?thesis using "2.IH"(1) [OF None] "2.prems" by simp
  next
    case (Some spec)
    then obtain live where live: "live_root j (af_side f) p = Inr live"
      using "2.prems" by (cases "live_root j (af_side f) p") auto
    show ?thesis using "2.IH"(2) [OF Some live refl] "2.prems" Some live
      by (simp add: Let_def file_outcome_def split: if_splits)
  qed
qed simp

lemma restore_accounts:
  assumes "snd (restore x run j r wanted h) = Inr rr"
  shows "length (rr_restored rr) + length (rr_skipped rr) + length (rr_errors rr) = length wanted"
proof (cases "wanted = []")
  case True
  then show ?thesis using assms by (auto simp: restore_def empty_restore_def split: option.splits)
next
  case False
  obtain p where p: "prepare x (both_ends j) = Inr p"
    using assms False by (cases "prepare x (both_ends j)") (auto simp: restore_def split: option.splits)
  then have "snd (copy_files run j p (archive_specs r p) h empty_restore wanted) = Inr rr"
    using assms False
    by (cases "snd (copy_files run j p (archive_specs r p) h empty_restore wanted)")
       (auto simp: restore_def split: option.splits prod.splits)
  then show ?thesis using copy_files_accounts by (fastforce simp: empty_restore_def)
qed

lemma restore_commands:
  assumes "c \<in> set (fst (restore x run j r wanted h))"
  shows "c \<in> set h \<or> (\<exists>p. prepare x (both_ends j) = Inr p \<and> (\<exists>f \<in> set wanted. copy_of j p (archive_specs r p) f c))"
proof (cases "why_not j r = None \<and> wanted \<noteq> []")
  case False
  then show ?thesis using assms by (auto simp: restore_def split: option.splits if_splits)
next
  case ok: True
  show ?thesis
  proof (cases "prepare x (both_ends j)")
    case (Inl e)
    then show ?thesis using assms ok by (simp add: restore_def)
  next
    case (Inr p)
    then have "c \<in> set (fst (copy_files run j p (archive_specs r p) h empty_restore wanted))"
      using assms ok by (simp add: restore_def split: prod.splits)
    then show ?thesis using copy_files_commands Inr by blast
  qed
qed

lemma list_archived_commands:
  "c \<in> set (fst (list_archived x run j r [])) \<Longrightarrow> \<exists>p spec. c = lsf_argv p spec"
proof (cases "why_not j r = None")
  case True
  assume c: "c \<in> set (fst (list_archived x run j r []))"
  show ?thesis
  proof (cases "prepare x (both_ends j)")
    case (Inl e)
    then show ?thesis using c True by (simp add: list_archived_def)
  next
    case (Inr p)
    then have "c \<in> set (fst (list_sides run p [] (archive_specs r p)))"
      using c True by (simp add: list_archived_def split: prod.splits)
    then show ?thesis using list_sides_commands by fastforce
  qed
qed (auto simp: list_archived_def)


definition sample_proc :: proc where
  "sample_proc h argv =
     (if ''lsf'' \<in> set argv then Completed 0 (''b'' @ [CHR 0x0A] @ ''a'' @ [CHR 0x0A]) []
      else Completed 0 [] (if list_ex (\<lambda>a. a = ''hs_dst:/srv/media/out/a'') argv then ''Copied (new)'' else []))"

definition sample_archived_run :: job_run where
  "sample_archived_run = (new_run 1 TrigApi Live Success)\<lparr>archive_dirs := [(SideDest, ''/old/run'')]\<rparr>"

definition sample_prepared :: prepared where
  "sample_prepared =
     (case prepare sample_ext (both_ends sample_job) of Inr p \<Rightarrow> p | Inl e \<Rightarrow> \<lparr>endpoints = [], prep_env = [], base_args = [], secrets = []\<rparr>)"

lemma prepared_sample:
  "prepare sample_ext (both_ends sample_job) = Inr sample_prepared"
  "secrets sample_prepared = []" "base_args sample_prepared = [''--config'', []]"
  "archive_specs sample_archived_run sample_prepared = [(SideDest, ''hs_dst:/old/run'')]"
  "live_root sample_job SideDest sample_prepared = Inr ''hs_dst:/srv/media/out''"
  by code_simp+

lemma sample_names: "nonblank_lines (''b'' @ [CHR 0x0A] @ ''a'' @ [CHR 0x0A]) = [''b'', ''a'']"
  "nonblank_lines (''a.txt '' @ [CHR 0x0A]) = [''a.txt'']"
  by code_simp+

lemma sample_listing:
  "list_archived sample_ext sample_proc sample_job sample_archived_run [] =
     ([lsf_argv sample_prepared ''hs_dst:/old/run''],
      Inr [\<lparr>af_path = ''a'', af_side = SideDest\<rparr>, \<lparr>af_path = ''b'', af_side = SideDest\<rparr>])"
proof -
  let ?argv = "lsf_argv sample_prepared ''hs_dst:/old/run''"
  have out: "sample_proc [] ?argv = Completed 0 (''b'' @ [CHR 0x0A] @ ''a'' @ [CHR 0x0A]) []"
    by (simp add: sample_proc_def lsf_argv_def prep_argv_def)
  have "list_sides sample_proc sample_prepared [] [(SideDest, ''hs_dst:/old/run'')] =
          ([?argv], [\<lparr>af_path = ''b'', af_side = SideDest\<rparr>, \<lparr>af_path = ''a'', af_side = SideDest\<rparr>])"
    by (simp add: out prepared_sample Let_def run_command_ok run_without_secrets sample_names del: append.simps)
  moreover have "why_not sample_job sample_archived_run = None"
    by (simp add: why_not_def sample_job_def sample_archived_run_def)
  moreover have "take MAX_LISTED (by_side_and_path [\<lparr>af_path = ''b'', af_side = SideDest\<rparr>, \<lparr>af_path = ''a'', af_side = SideDest\<rparr>]) =
          [\<lparr>af_path = ''a'', af_side = SideDest\<rparr>, \<lparr>af_path = ''b'', af_side = SideDest\<rparr>]"
    by (simp add: MAX_LISTED_def by_side_and_path_def)
  ultimately show ?thesis by (simp add: list_archived_def prepared_sample)
qed

definition sample_copy :: "string list" where
  "sample_copy = prep_argv sample_prepared [''copyto'', ''hs_dst:/old/run/a'', ''hs_dst:/srv/media/out/a'',
                   ''--ignore-existing'', ''--use-json-log'', ''-v'']"

lemma sample_rstrip: "rstrip_slash ''hs_dst:/old/run'' = ''hs_dst:/old/run''"
  "rstrip_slash ''hs_dst:/srv/media/out'' = ''hs_dst:/srv/media/out''"
  by code_simp+

lemma sample_restore:
  "sample_copy \<in> set (fst (restore_run_form sample_ext sample_proc sample_job sample_archived_run False [''dest:a'', ''dest:../c'']))"
proof -
  have "why_not sample_job sample_archived_run = None"
    by (simp add: why_not_def sample_job_def sample_archived_run_def)
  moreover have "filter (\<lambda>f. file_key f \<in> set [''dest:a'', ''dest:../c''])
          [\<lparr>af_path = ''a'', af_side = SideDest\<rparr>, \<lparr>af_path = ''b'', af_side = SideDest\<rparr>] = [\<lparr>af_path = ''a'', af_side = SideDest\<rparr>]"
    by (simp add: file_key_def)
  ultimately show ?thesis
    by (simp add: restore_run_form_def sample_listing restore_def prepared_sample Let_def sample_rstrip copy_argv_def
          sample_copy_def)
qed


text \<open>A name that ends in white space is listed without it, and what is then copied is another name.\<close>

lemma listed_names_are_trimmed:
  "snd (list_archived sample_ext (\<lambda>h argv. Completed 0 (''a.txt '' @ [CHR 0x0A]) []) sample_job sample_archived_run []) =
     Inr [\<lparr>af_path = ''a.txt'', af_side = SideDest\<rparr>]"
proof -
  have "why_not sample_job sample_archived_run = None"
    by (simp add: why_not_def sample_job_def sample_archived_run_def)
  moreover have "take MAX_LISTED (by_side_and_path [\<lparr>af_path = ''a.txt'', af_side = SideDest\<rparr>]) =
          [\<lparr>af_path = ''a.txt'', af_side = SideDest\<rparr>]"
    by (simp add: MAX_LISTED_def by_side_and_path_def)
  ultimately show ?thesis
    by (simp add: list_archived_def prepared_sample Let_def run_command_ok run_without_secrets sample_names del: append.simps)
qed

end
