(* ===== verification/Access.thy ===== *)
theory Access
  imports RateLimit
begin

text \<open>
  Who may do what: \<open>app/security.py\<close> (passwords, sessions, proxy trust, the first account), \<open>app/csrf.py\<close>
  (the gate every unsafe request passes), \<open>app/api/auth.py\<close> and \<open>app/api/deps.py\<close>, and \<open>setup_form\<close> of
  \<open>app/web\<close>. Argon2, the \<open>ipaddress\<close> module and the form parser are the record \<open>access_ext\<close>; a random
  token is an argument of what draws it. None is an exception that leaves the function.
\<close>

datatype auth_mode = AuthLocal | AuthTrustedHeader | AuthNone

record access_settings =
  auth_mode_of :: auth_mode
  api_token :: "string option"
  trusted_header :: "string option"
  trusted_proxies :: string
  admin_user :: string
  admin_password :: "string option"
  login_limits :: login_settings

record access_ext =
  ax_verify :: "string \<Rightarrow> string \<Rightarrow> bool"            \<comment> \<open>hash, password\<close>
  ax_stale :: "string \<Rightarrow> bool"
  ax_hash :: "string \<Rightarrow> string"
  ax_is_address :: "string \<Rightarrow> bool"
  ax_in_network :: "string \<Rightarrow> string \<Rightarrow> bool option"  \<comment> \<open>entry, address; None is the ValueError\<close>
  ax_form_token :: "string \<Rightarrow> string option"

text \<open>The signed session cookie holds what the program put there.\<close>

record cookie =
  sess_user :: "nat option"
  sess_csrf :: "string option"

definition empty_cookie :: cookie where
  "empty_cookie = \<lparr>sess_user = None, sess_csrf = None\<rparr>"

record request =
  rq_method :: string
  rq_path :: string
  rq_headers :: "(string \<times> string) list"       \<comment> \<open>names in lower case\<close>
  rq_peer :: "string option"
  rq_session :: cookie
  rq_messages :: "(bool \<times> string \<times> bool) list"   \<comment> \<open>whether it is a body message, its body, whether more follows\<close>

definition header :: "request \<Rightarrow> string \<Rightarrow> string option" where
  "header rq name = map_of (rq_headers rq) (py_lower name)"

definition trusted_proxy_list :: "access_settings \<Rightarrow> string list" where
  "trusted_proxy_list s = filter (\<lambda>e. e \<noteq> []) (map py_strip (split_on (CHR '','') (trusted_proxies s)))"

text \<open>\<open>hmac.compare_digest\<close> takes only ASCII strings.\<close>

definition ascii_only :: "string \<Rightarrow> bool" where
  "ascii_only s \<longleftrightarrow> list_all (\<lambda>c. (of_char c :: nat) < 128) s"

definition compare_digest :: "string \<Rightarrow> string \<Rightarrow> bool option" where
  "compare_digest a b = (if ascii_only a \<and> ascii_only b then Some (a = b) else None)"

definition client_address :: "request \<Rightarrow> string" where
  "client_address rq = (case rq_peer rq of Some h \<Rightarrow> h | None \<Rightarrow> ''unknown'')"

subsection \<open>Passwords and accounts\<close>

definition MIN_PASSWORD_LENGTH :: nat where "MIN_PASSWORD_LENGTH = 12"

definition verify_password :: "access_ext \<Rightarrow> string \<Rightarrow> string \<Rightarrow> bool \<times> string option" where
  "verify_password x h pw =
     (if \<not> ax_verify x h pw then (False, None)
      else if ax_stale x h then (True, Some (ax_hash x pw)) else (True, None))"

definition weak_password :: "string \<Rightarrow> bool" where
  "weak_password pw \<longleftrightarrow> length pw < MIN_PASSWORD_LENGTH"

definition find_user :: "user list \<Rightarrow> string \<Rightarrow> user option" where
  "find_user us name = List.find (\<lambda>u. username u = name) us"

definition get_user :: "user list \<Rightarrow> nat \<Rightarrow> user option" where
  "get_user us i = List.find (\<lambda>u. user_id u = i) us"

definition put_user :: "user \<Rightarrow> user list \<Rightarrow> user list" where
  "put_user u us = map (\<lambda>v. if user_id v = user_id u then u else v) us"

definition authenticate :: "access_ext \<Rightarrow> datetime \<Rightarrow> string \<Rightarrow> string \<Rightarrow> user list \<Rightarrow> user option \<times> user list" where
  "authenticate x now name pw us =
     (case find_user us name of
        None \<Rightarrow> (None, us)
      | Some u \<Rightarrow>
          (case verify_password x (password_hash u) pw of
             (False, r) \<Rightarrow> (None, us)
           | (True, r) \<Rightarrow>
               (let u' = (case r of None \<Rightarrow> u | Some h \<Rightarrow> u\<lparr>password_hash := h\<rparr>)\<lparr>last_login_at := Some now\<rparr>
                in (Some u', put_user u' us))))"

definition set_password :: "access_ext \<Rightarrow> user \<Rightarrow> string \<Rightarrow> user list \<Rightarrow> user list" where
  "set_password x u pw us = put_user (u\<lparr>password_hash := ax_hash x pw, must_change_password := False\<rparr>) us"

definition start_session :: "user \<Rightarrow> cookie \<Rightarrow> cookie" where
  "start_session u c = \<lparr>sess_user = Some (user_id u), sess_csrf = None\<rparr>"

definition end_session :: "cookie \<Rightarrow> cookie" where
  "end_session c = empty_cookie"

subsection \<open>Who is this request\<close>

definition bootstrap_admin_user :: "user list \<Rightarrow> user option" where
  "bootstrap_admin_user us = (case sort_key user_id us of [] \<Rightarrow> None | u # r \<Rightarrow> Some u)"

definition peer_is_trusted_proxy :: "access_ext \<Rightarrow> access_settings \<Rightarrow> request \<Rightarrow> bool" where
  "peer_is_trusted_proxy x s rq =
     (case rq_peer rq of
        None \<Rightarrow> False
      | Some peer \<Rightarrow>
          peer \<noteq> [] \<and> ax_is_address x peer \<and>
          list_ex (\<lambda>e. ax_in_network x e peer = Some True) (trusted_proxy_list s))"

definition trusted_header_user :: "access_ext \<Rightarrow> access_settings \<Rightarrow> request \<Rightarrow> user list \<Rightarrow> user option" where
  "trusted_header_user x s rq us =
     (if \<not> peer_is_trusted_proxy x s rq then None
      else (let h = (case trusted_header s of None \<Rightarrow> [] | Some h \<Rightarrow> h);
                name = py_strip (case header rq h of None \<Rightarrow> [] | Some v \<Rightarrow> v)
            in if name = [] then None else find_user us name))"

text \<open>\<open>partition(" ")\<close> of the authorization header, and the comparison both modules make.\<close>

definition bearer_matches :: "access_settings \<Rightarrow> request \<Rightarrow> bool option" where
  "bearer_matches s rq =
     (let expected = py_strip (case api_token s of None \<Rightarrow> [] | Some t \<Rightarrow> t)
      in if expected = [] then Some False
         else
           (let v = (case header rq ''authorization'' of None \<Rightarrow> [] | Some v \<Rightarrow> v);
                scheme = takeWhile (\<lambda>c. c \<noteq> CHR '' '') v; presented = drop (Suc (length scheme)) v
            in if py_lower scheme \<noteq> ''bearer'' \<or> presented = [] then Some False
               else compare_digest (py_strip presented) expected))"

definition api_token_user :: "access_settings \<Rightarrow> request \<Rightarrow> user list \<Rightarrow> user option option" where
  "api_token_user s rq us =
     map_option (\<lambda>ok. if ok then bootstrap_admin_user us else None) (bearer_matches s rq)"

definition current_user :: "access_ext \<Rightarrow> access_settings \<Rightarrow> request \<Rightarrow> user list \<Rightarrow> (user option \<times> cookie) option" where
  "current_user x s rq us =
     (let c = rq_session rq
      in if auth_mode_of s = AuthNone then Some (bootstrap_admin_user us, c)
         else
           (case api_token_user s rq us of
              None \<Rightarrow> None
            | Some (Some u) \<Rightarrow> Some (Some u, c)
            | Some None \<Rightarrow>
                if auth_mode_of s = AuthTrustedHeader then Some (trusted_header_user x s rq us, c)
                else
                  (case sess_user c of
                     None \<Rightarrow> Some (None, c)
                   | Some i \<Rightarrow>
                       (case get_user us i of
                          None \<Rightarrow> Some (None, empty_cookie)
                        | Some u \<Rightarrow> Some (Some u, c)))))"

subsection \<open>The CSRF gate\<close>

definition SAFE_METHODS :: "string list" where
  "SAFE_METHODS = [''GET'', ''HEAD'', ''OPTIONS'', ''TRACE'']"

definition FORM_TYPES :: "string list" where
  "FORM_TYPES = [''application/x-www-form-urlencoded'', ''multipart/form-data'']"

definition MAX_BUFFERED_BODY :: nat where
  "MAX_BUFFERED_BODY = 8 * 1024 * 1024"

text \<open>\<open>token_for\<close> and \<open>rotate\<close>, with the token \<open>secrets\<close> draws.\<close>

definition token_for :: "string \<Rightarrow> cookie \<Rightarrow> string \<times> cookie" where
  "token_for fresh c =
     (case sess_csrf c of
        Some t \<Rightarrow> if t \<noteq> [] then (t, c) else (fresh, c\<lparr>sess_csrf := Some fresh\<rparr>)
      | None \<Rightarrow> (fresh, c\<lparr>sess_csrf := Some fresh\<rparr>))"

definition rotate_csrf :: "string \<Rightarrow> cookie \<Rightarrow> cookie" where
  "rotate_csrf fresh c = c\<lparr>sess_csrf := Some fresh\<rparr>"

definition matches :: "string option \<Rightarrow> string option \<Rightarrow> bool option" where
  "matches expected presented =
     (case (expected, presented) of
        (Some e, Some p) \<Rightarrow> if e = [] \<or> p = [] then Some False else compare_digest p e
      | _ \<Rightarrow> Some False)"

definition content_type :: "request \<Rightarrow> string" where
  "content_type rq =
     py_lower (py_strip (hd (split_on (CHR '';'') (case header rq ''content-type'' of None \<Rightarrow> [] | Some v \<Rightarrow> v))))"

text \<open>\<open>_buffer\<close>: the body and whether it is too large. \<open>receive\<close> blocks where the messages end, so a list
  that ends with more to follow is a request that never completes and is taken as ended.\<close>

fun buffer_body :: "string \<Rightarrow> (bool \<times> string \<times> bool) list \<Rightarrow> string \<times> bool" where
  "buffer_body acc [] = (acc, False)"
| "buffer_body acc ((is_body, chunk, again) # ms) =
     (if \<not> is_body then (acc, False)
      else if MAX_BUFFERED_BODY < length acc + length chunk then ([], True)
      else if \<not> again then (acc @ chunk, False)
      else buffer_body (acc @ chunk) ms)"

datatype gate =
    PassedUnread            \<comment> \<open>to the route, the body not touched\<close>
  | PassedReplay string     \<comment> \<open>to the route, which reads this body\<close>
  | Refused
  | TooLarge

definition passed :: "gate \<Rightarrow> bool" where
  "passed g \<longleftrightarrow> (case g of PassedUnread \<Rightarrow> True | PassedReplay b \<Rightarrow> True | _ \<Rightarrow> False)"

definition form_gate :: "access_ext \<Rightarrow> request \<Rightarrow> gate option" where
  "form_gate x rq =
     (if content_type rq \<notin> set FORM_TYPES then Some Refused
      else
        (case buffer_body [] (rq_messages rq) of
           (body, True) \<Rightarrow> Some TooLarge
         | (body, False) \<Rightarrow>
             map_option (\<lambda>ok. if ok then PassedReplay body else Refused)
               (matches (sess_csrf (rq_session rq)) (ax_form_token x body))))"

definition csrf_gate :: "access_ext \<Rightarrow> access_settings \<Rightarrow> request \<Rightarrow> gate option" where
  "csrf_gate x s rq =
     (if rq_method rq \<in> set SAFE_METHODS then Some PassedUnread
      else
        (case bearer_matches s rq of
           None \<Rightarrow> None
         | Some True \<Rightarrow> Some PassedUnread
         | Some False \<Rightarrow>
             (case header rq ''X-CSRF-Token'' of
                Some t \<Rightarrow>
                  if t \<noteq> [] then map_option (\<lambda>ok. if ok then PassedUnread else Refused) (matches (sess_csrf (rq_session rq)) (Some t))
                  else form_gate x rq
              | None \<Rightarrow> form_gate x rq)))"

subsection \<open>Login, logout and password change\<close>

definition wants_html :: "request \<Rightarrow> bool" where
  "wants_html rq \<longleftrightarrow>
     content_type rq \<in> set FORM_TYPES \<or>
     contains ''text/html'' (case header rq ''accept'' of None \<Rightarrow> [] | Some v \<Rightarrow> v)"

definition safe_redirect_target :: "string option \<Rightarrow> string" where
  "safe_redirect_target candidate =
     (case candidate of
        None \<Rightarrow> ''/''
      | Some t \<Rightarrow> if t = [] \<or> \<not> prefix ''/'' t \<or> prefix ''//'' t then ''/'' else t)"

text \<open>What the payload has under a name, None where it is missing or not a string. A JSON body whose
  \<open>next\<close> is neither is outside the model.\<close>

record login_form =
  lf_username :: "string option"
  lf_password :: "string option"
  lf_next :: "string option"

datatype response =
    RedirectTo string
  | HttpError nat string
  | LoggedIn string bool
  | Detail string

definition sized :: "nat \<Rightarrow> nat \<Rightarrow> string option \<Rightarrow> bool" where
  "sized lo hi v = (case v of None \<Rightarrow> False | Some s \<Rightarrow> lo \<le> length s \<and> length s \<le> hi)"

definition login_request_ok :: "login_form \<Rightarrow> bool" where
  "login_request_ok f \<longleftrightarrow> sized 1 128 (lf_username f) \<and> sized 1 1024 (lf_password f)"

definition reject :: "bool \<Rightarrow> response" where
  "reject html =
     (if html then RedirectTo ''/login?error=invalid''
      else HttpError 401 ''That username and password combination is not valid.'')"

record access_state =
  acc_users :: "user list"
  acc_attempts :: "login_attempt list"
  acc_session :: cookie

definition login ::
  "access_ext \<Rightarrow> access_settings \<Rightarrow> datetime \<Rightarrow> string \<Rightarrow> request \<Rightarrow> login_form \<Rightarrow> access_state \<Rightarrow> response \<times> access_state" where
  "login x s now fresh rq f st =
     (let html = wants_html rq; target = safe_redirect_target (lf_next f); address = client_address rq
      in if \<not> login_request_ok f then
           (if html then RedirectTo ''/login?error=missing''
            else HttpError 422 ''A username and password are required.'', st)
         else
           (let name = the (lf_username f); pw = the (lf_password f)
            in if \<not> v_allowed (check (login_limits s) now name address (acc_attempts st)) then (reject html, st)
               else
                 (case authenticate x now name pw (acc_users st) of
                    (None, us) \<Rightarrow>
                      (reject html, st\<lparr>acc_users := us, acc_attempts := record_failure now name address (acc_attempts st)\<rparr>)
                  | (Some u, us) \<Rightarrow>
                      (if html then RedirectTo (if must_change_password u then ''/account/password'' else target)
                       else LoggedIn (username u) (must_change_password u),
                       st\<lparr>acc_users := us, acc_attempts := clear_failures name address (acc_attempts st),
                          acc_session := rotate_csrf fresh (start_session u (acc_session st))\<rparr>))))"

definition logout :: "string \<Rightarrow> request \<Rightarrow> access_state \<Rightarrow> response \<times> access_state" where
  "logout fresh rq st =
     (if wants_html rq then RedirectTo ''/login'' else Detail ''Signed out.'',
      st\<lparr>acc_session := rotate_csrf fresh (end_session (acc_session st))\<rparr>)"

text \<open>\<open>change_password\<close>, once \<open>require_user\<close> has named the user.\<close>

definition change_password ::
  "access_ext \<Rightarrow> request \<Rightarrow> user \<Rightarrow> string option \<Rightarrow> string option \<Rightarrow> access_state \<Rightarrow> response \<times> access_state" where
  "change_password x rq u current new_pw st =
     (let html = wants_html rq;
          fail = (\<lambda>code message status.
                    (if html then RedirectTo (''/account/password?error='' @ code) else HttpError status message, st))
      in if \<not> (sized 1 1024 current \<and> sized 1 1024 new_pw) then
           fail ''missing'' ''The current and new password are both required.'' 422
         else if \<not> fst (verify_password x (password_hash u) (the current)) then
           fail ''wrong'' ''The current password is not correct.'' 403
         else if weak_password (the new_pw) then
           fail ''weak'' (''Password must be at least '' @ str_nat MIN_PASSWORD_LENGTH @ '' characters long.'') 422
         else if new_pw = current then
           fail ''same'' ''The new password must differ from the current one.'' 422
         else
           (if html then RedirectTo ''/'' else Detail ''Password updated.'',
            st\<lparr>acc_users := set_password x u (the new_pw) (acc_users st)\<rparr>))"

subsection \<open>The first account\<close>

datatype bootstrap_error = AlreadyClaimed | WeakPassword | UsernameRequired | CreatedAtTheSameMoment

definition needs_setup :: "user list \<Rightarrow> bool" where
  "needs_setup us \<longleftrightarrow> length us = 0"

definition next_user_id :: "user list \<Rightarrow> nat" where
  "next_user_id us = Suc (foldr (\<lambda>u m. max (user_id u) m) us 0)"

definition new_admin :: "access_ext \<Rightarrow> datetime \<Rightarrow> nat \<Rightarrow> string \<Rightarrow> string \<Rightarrow> bool \<Rightarrow> user" where
  "new_admin x now i name pw must_change =
     \<lparr>user_id = i, username = name, password_hash = ax_hash x pw, user_role_of = RoleAdmin,
      must_change_password = must_change, user_created_at = now, last_login_at = None\<rparr>"

text \<open>None is the IntegrityError of a user name that is taken.\<close>

definition insert_user :: "user \<Rightarrow> user list \<Rightarrow> user list option" where
  "insert_user u us = (if find_user us (username u) = None then Some (us @ [u]) else None)"

definition delete_user :: "nat \<Rightarrow> user list \<Rightarrow> user list" where
  "delete_user i us = filter (\<lambda>u. user_id u \<noteq> i) us"

text \<open>The three transactions of \<open>create_first_admin\<close>, in the order it makes them.\<close>

definition claim_check :: "string \<Rightarrow> string \<Rightarrow> user list \<Rightarrow> bootstrap_error + string" where
  "claim_check name pw us =
     (if \<not> needs_setup us then Inl AlreadyClaimed
      else if weak_password pw then Inl WeakPassword
      else if py_strip name = [] then Inl UsernameRequired else Inr (py_strip name))"

definition claim_insert :: "access_ext \<Rightarrow> datetime \<Rightarrow> string \<Rightarrow> string \<Rightarrow> user list \<Rightarrow> (nat \<times> user list) option" where
  "claim_insert x now name pw us =
     map_option (\<lambda>us'. (next_user_id us, us')) (insert_user (new_admin x now (next_user_id us) name pw False) us)"

definition claim_confirm :: "nat \<Rightarrow> user list \<Rightarrow> (bootstrap_error + nat) \<times> user list" where
  "claim_confirm i us =
     (if length us \<noteq> 1 then (Inl CreatedAtTheSameMoment, delete_user i us) else (Inr i, us))"

text \<open>The same with nobody in between. None is the IntegrityError, which an empty table excludes.\<close>

definition create_first_admin ::
  "access_ext \<Rightarrow> datetime \<Rightarrow> string \<Rightarrow> string \<Rightarrow> user list \<Rightarrow> ((bootstrap_error + nat) \<times> user list) option" where
  "create_first_admin x now name pw us =
     (case claim_check name pw us of
        Inl e \<Rightarrow> Some (Inl e, us)
      | Inr name' \<Rightarrow>
          (case claim_insert x now name' pw us of
             None \<Rightarrow> None
           | Some (i, us') \<Rightarrow> Some (claim_confirm i us')))"

definition setup_form ::
  "access_ext \<Rightarrow> datetime \<Rightarrow> string \<Rightarrow> string \<Rightarrow> string \<Rightarrow> string \<Rightarrow> access_state \<Rightarrow> (string option \<times> access_state) option" where
  "setup_form x now fresh name pw confirm st =
     (if \<not> needs_setup (acc_users st) then Some (Some ''/login'', st)
      else if pw \<noteq> confirm then Some (None, st)
      else
        (case create_first_admin x now (py_strip name) pw (acc_users st) of
           None \<Rightarrow> None
         | Some (Inl e, us) \<Rightarrow> Some (None, st\<lparr>acc_users := us\<rparr>)
         | Some (Inr i, us) \<Rightarrow>
             Some (Some ''/'', st\<lparr>acc_users := us,
                     acc_session := \<lparr>sess_user = Some i, sess_csrf = None\<rparr>\<rparr>)))"

definition bootstrap_admin :: "access_ext \<Rightarrow> access_settings \<Rightarrow> datetime \<Rightarrow> user list \<Rightarrow> bootstrap_error + (bool \<times> user list)" where
  "bootstrap_admin x s now us =
     (if us \<noteq> [] then Inr (False, us)
      else
        (case admin_password s of
           None \<Rightarrow> Inr (False, us)
         | Some pw \<Rightarrow>
             if pw = [] then Inr (False, us)
             else if weak_password pw then Inl WeakPassword
             else Inr (True, us @ [new_admin x now (next_user_id us) (admin_user s) pw True])))"

subsection \<open>Who a request acts as\<close>

lemma find_user_Some: "find_user us name = Some u \<Longrightarrow> u \<in> set us \<and> username u = name"
  by (auto simp: find_user_def find_Some_iff)

lemma get_user_Some: "get_user us i = Some u \<Longrightarrow> u \<in> set us \<and> user_id u = i"
  by (auto simp: get_user_def find_Some_iff)

lemma bootstrap_admin_Some: "bootstrap_admin_user us = Some u \<Longrightarrow> u \<in> set us"
proof -
  assume "bootstrap_admin_user us = Some u"
  then obtain r where "sort_key user_id us = u # r" by (auto simp: bootstrap_admin_user_def split: list.splits)
  then have "u \<in> set (sort_key user_id us)" by simp
  then show ?thesis by simp
qed

text \<open>C8. Every identity is justified. Whoever a request is resolved to is an account that exists, and either
  authentication is off, or the request carries the configured API token, or the identity is the one a header
  names and the socket peer is in the proxy allowlist, or the signed session holds the account's number. A
  request outside the allowlist that carries no token is nobody in trusted header mode, whatever its headers say.\<close>

theorem identity_justified:
  assumes "current_user x s rq us = Some (Some u, c)"
  shows "u \<in> set us \<and>
    (auth_mode_of s = AuthNone \<or>
     bearer_matches s rq = Some True \<or>
     auth_mode_of s = AuthTrustedHeader \<and> peer_is_trusted_proxy x s rq \<and>
       (\<exists>v. header rq (case trusted_header s of None \<Rightarrow> [] | Some h \<Rightarrow> h) = Some v \<and> username u = py_strip v) \<or>
     auth_mode_of s = AuthLocal \<and> sess_user (rq_session rq) = Some (user_id u))"
proof (cases "auth_mode_of s = AuthNone")
  case True
  then show ?thesis using assms bootstrap_admin_Some by (simp add: current_user_def)
next
  case False
  obtain t where t: "api_token_user s rq us = Some t"
    using assms False by (cases "api_token_user s rq us") (auto simp: current_user_def)
  show ?thesis
  proof (cases t)
    case (Some v)
    then have "bearer_matches s rq = Some True" "bootstrap_admin_user us = Some v"
      using t by (auto simp: api_token_user_def split: if_splits)
    then show ?thesis using assms False t Some bootstrap_admin_Some by (simp add: current_user_def)
  next
    case None
    note R = assms [unfolded current_user_def Let_def t None option.case if_not_P [OF False]]
    show ?thesis
    proof (cases "auth_mode_of s = AuthTrustedHeader")
      case True
      then have h: "trusted_header_user x s rq us = Some u" using R by simp
      then have f: "find_user us (py_strip (case header rq (case trusted_header s of None \<Rightarrow> [] | Some h \<Rightarrow> h) of
              None \<Rightarrow> [] | Some v \<Rightarrow> v)) = Some u" and p: "peer_is_trusted_proxy x s rq"
        and ne: "py_strip (case header rq (case trusted_header s of None \<Rightarrow> [] | Some h \<Rightarrow> h) of None \<Rightarrow> [] | Some v \<Rightarrow> v) \<noteq> []"
        by (auto simp: trusted_header_user_def Let_def split: if_splits)
      show ?thesis using find_user_Some [OF f] ne p True by (auto simp: py_strip_def strip_if_def split: option.splits)
    next
      case nt: False
      then have "auth_mode_of s = AuthLocal" using False by (cases "auth_mode_of s") auto
      moreover obtain i where i: "sess_user (rq_session rq) = Some i" "get_user us i = Some u"
        using R nt by (auto split: option.splits)
      ultimately show ?thesis using get_user_Some [OF i(2)] by auto
    qed
  qed
qed

definition sample_user :: user where
  "sample_user = \<lparr>user_id = 1, username = ''gee'', password_hash = ''h'', user_role_of = RoleAdmin,
                  must_change_password = False, user_created_at = 0, last_login_at = None\<rparr>"

definition sample_access :: access_settings where
  "sample_access = \<lparr>auth_mode_of = AuthTrustedHeader, api_token = None, trusted_header = Some ''X-User'',
                    trusted_proxies = ''10.0.0.0/8'', admin_user = ''admin'', admin_password = None,
                    login_limits = \<lparr>login_max_attempts = 5, login_lockout_seconds = 900\<rparr>\<rparr>"

definition sample_access_ext :: access_ext where
  "sample_access_ext = \<lparr>ax_verify = (\<lambda>h p. h = p), ax_stale = (\<lambda>h. False), ax_hash = (\<lambda>p. p),
                        ax_is_address = (\<lambda>a. True), ax_in_network = (\<lambda>e a. Some (a = ''10.0.0.2'')),
                        ax_form_token = (\<lambda>b. Some b)\<rparr>"

definition sample_request :: request where
  "sample_request = \<lparr>rq_method = ''POST'', rq_path = ''/'', rq_headers = [(''x-user'', '' gee'')],
                     rq_peer = Some ''10.0.0.2'', rq_session = \<lparr>sess_user = None, sess_csrf = Some ''tok''\<rparr>,
                     rq_messages = [(True, ''to'', True), (True, ''k'', False)]\<rparr>"

lemma sample_identity:
  "current_user sample_access_ext sample_access sample_request [sample_user] =
     Some (Some sample_user, \<lparr>sess_user = None, sess_csrf = Some ''tok''\<rparr>)"
  "current_user sample_access_ext sample_access (sample_request\<lparr>rq_peer := Some ''192.0.2.1''\<rparr>) [sample_user] =
     Some (None, \<lparr>sess_user = None, sess_csrf = Some ''tok''\<rparr>)"
  by code_simp+

theorem identity_justified_witness:
  "sample_user \<in> set [sample_user] \<and>
   (auth_mode_of sample_access = AuthNone \<or>
    bearer_matches sample_access sample_request = Some True \<or>
    auth_mode_of sample_access = AuthTrustedHeader \<and>
      peer_is_trusted_proxy sample_access_ext sample_access sample_request \<and>
      (\<exists>v. header sample_request (case trusted_header sample_access of None \<Rightarrow> [] | Some h \<Rightarrow> h) = Some v \<and>
           username sample_user = py_strip v) \<or>
    auth_mode_of sample_access = AuthLocal \<and> sess_user (rq_session sample_request) = Some (user_id sample_user))"
  by (rule identity_justified [OF sample_identity(1)])

text \<open>A token with a character outside ASCII makes the comparison, and the request with it, raise, although
  \<open>current_user\<close> says it never does.\<close>

lemma current_user_can_raise:
  "current_user sample_access_ext (sample_access\<lparr>api_token := Some ''secret''\<rparr>)
     (sample_request\<lparr>rq_headers := [(''authorization'', ''Bearer '' @ [CHR 0xE9])]\<rparr>) [sample_user] = None"
  by code_simp

subsection \<open>What passes the gate\<close>

lemma compare_digest_True: "compare_digest a b = Some v \<Longrightarrow> v \<longleftrightarrow> a = b"
  by (auto simp: compare_digest_def split: if_splits)

lemma matches_True:
  "matches e p = Some v \<Longrightarrow> v \<longleftrightarrow> (\<exists>t. e = Some t \<and> p = Some t \<and> t \<noteq> [])"
  by (auto simp: matches_def dest: compare_digest_True split: option.splits if_splits)

lemma form_gate_passed:
  "form_gate x rq = Some g \<Longrightarrow>
   passed g \<longleftrightarrow>
     content_type rq \<in> set FORM_TYPES \<and>
     (\<exists>body t. buffer_body [] (rq_messages rq) = (body, False) \<and> ax_form_token x body = Some t \<and> t \<noteq> [] \<and>
               sess_csrf (rq_session rq) = Some t \<and> g = PassedReplay body)"
  by (auto simp: form_gate_def passed_def dest!: matches_True split: if_splits prod.splits bool.splits)

text \<open>C7. No unsafe request reaches a route without proof of intent. A request the middleware lets through is of a
  safe method, or carries the API token as a bearer token, or presents the token of its own signed session, which
  is not empty: in the header if it has one, and otherwise in a form body of at most the buffered size, and then
  the route reads exactly the body that was checked. Every such request is let through.\<close>

theorem csrf_gate_sound:
  assumes "csrf_gate x s rq = Some g"
  shows "passed g \<longleftrightarrow>
    rq_method rq \<in> set SAFE_METHODS \<or> bearer_matches s rq = Some True \<or>
    (\<exists>t. sess_csrf (rq_session rq) = Some t \<and> t \<noteq> [] \<and>
       (if header rq ''X-CSRF-Token'' \<in> {None, Some []} then
          content_type rq \<in> set FORM_TYPES \<and>
          (\<exists>body. buffer_body [] (rq_messages rq) = (body, False) \<and> ax_form_token x body = Some t \<and> g = PassedReplay body)
        else header rq ''X-CSRF-Token'' = Some t))"
proof (cases "rq_method rq \<in> set SAFE_METHODS \<or> bearer_matches s rq = Some True")
  case True
  then show ?thesis using assms by (auto simp: csrf_gate_def passed_def split: if_splits)
next
  case False
  then have b: "bearer_matches s rq = Some False"
    using assms by (auto simp: csrf_gate_def split: option.splits bool.splits)
  show ?thesis
  proof (cases "header rq ''X-CSRF-Token'' \<in> {None, Some []}")
    case True
    then have "form_gate x rq = Some g" using assms False b by (auto simp: csrf_gate_def)
    then show ?thesis using form_gate_passed False True by auto
  next
    case nt: False
    then obtain t where t: "header rq ''X-CSRF-Token'' = Some t" "t \<noteq> []" by auto
    then obtain v where "matches (sess_csrf (rq_session rq)) (Some t) = Some v" "g = (if v then PassedUnread else Refused)"
      using assms False b by (auto simp: csrf_gate_def)
    then show ?thesis using matches_True t False nt by (auto simp: passed_def)
  qed
qed

definition sample_post :: request where
  "sample_post = sample_request\<lparr>rq_headers := [(''content-type'', ''multipart/form-data; boundary=b'')]\<rparr>"

lemma sample_gate: "csrf_gate sample_access_ext sample_access sample_post = Some (PassedReplay ''tok'')"
proof -
  have b: "bearer_matches sample_access sample_post = Some False" "content_type sample_post \<in> set FORM_TYPES"
    "header sample_post ''X-CSRF-Token'' = None"
    by code_simp+
  have "buffer_body [] (rq_messages sample_post) = (''tok'', False)"
    by (simp add: sample_post_def sample_request_def MAX_BUFFERED_BODY_def)
  then show ?thesis
    using b by (simp add: csrf_gate_def form_gate_def sample_post_def sample_request_def SAFE_METHODS_def
        sample_access_ext_def matches_def compare_digest_def ascii_only_def)
qed

theorem csrf_gate_sound_witness:
  "sess_csrf (rq_session sample_post) = Some ''tok'' \<and> rq_method sample_post = ''POST'' \<and>
   (passed (PassedReplay ''tok'') \<longleftrightarrow>
    rq_method sample_post \<in> set SAFE_METHODS \<or> bearer_matches sample_access sample_post = Some True \<or>
    (\<exists>t. sess_csrf (rq_session sample_post) = Some t \<and> t \<noteq> [] \<and>
       (if header sample_post ''X-CSRF-Token'' \<in> {None, Some []} then
          content_type sample_post \<in> set FORM_TYPES \<and>
          (\<exists>body. buffer_body [] (rq_messages sample_post) = (body, False) \<and>
                  ax_form_token sample_access_ext body = Some t \<and> PassedReplay ''tok'' = PassedReplay body)
        else header sample_post ''X-CSRF-Token'' = Some t)))"
  using csrf_gate_sound [OF sample_gate] by (simp add: sample_post_def sample_request_def)

subsection \<open>What a failed login tells\<close>

text \<open>A login that does not succeed, computed without the accounts.\<close>

definition failed_login ::
  "access_settings \<Rightarrow> datetime \<Rightarrow> request \<Rightarrow> login_form \<Rightarrow> login_attempt list \<Rightarrow> response \<times> login_attempt list" where
  "failed_login s now rq f rows =
     (let name = the (lf_username f)
      in if \<not> login_request_ok f then
           (if wants_html rq then RedirectTo ''/login?error=missing''
            else HttpError 422 ''A username and password are required.'', rows)
         else if \<not> v_allowed (check (login_limits s) now name (client_address rq) rows) then (reject (wants_html rq), rows)
         else (reject (wants_html rq), record_failure now name (client_address rq) rows))"

definition wrong_guess :: "access_ext \<Rightarrow> user list \<Rightarrow> login_form \<Rightarrow> bool" where
  "wrong_guess x us f =
     (case find_user us (the (lf_username f)) of
        None \<Rightarrow> True | Some u \<Rightarrow> \<not> ax_verify x (password_hash u) (the (lf_password f)))"

definition no_entry :: "access_ext \<Rightarrow> access_settings \<Rightarrow> datetime \<Rightarrow> request \<Rightarrow> login_form \<Rightarrow> access_state \<Rightarrow> bool" where
  "no_entry x s now rq f st \<longleftrightarrow>
     \<not> login_request_ok f \<or>
     \<not> v_allowed (check (login_limits s) now (the (lf_username f)) (client_address rq) (acc_attempts st)) \<or>
     wrong_guess x (acc_users st) f"

type_synonym guess = "datetime \<times> request \<times> login_form"

fun guesses :: "access_ext \<Rightarrow> access_settings \<Rightarrow> string \<Rightarrow> guess list \<Rightarrow> access_state \<Rightarrow> response list \<times> access_state" where
  "guesses x s fresh [] st = ([], st)"
| "guesses x s fresh ((now, rq, f) # es) st =
     (let (r, st1) = login x s now fresh rq f st; (rs, st2) = guesses x s fresh es st1 in (r # rs, st2))"

fun never_in :: "access_ext \<Rightarrow> access_settings \<Rightarrow> string \<Rightarrow> guess list \<Rightarrow> access_state \<Rightarrow> bool" where
  "never_in x s fresh [] st \<longleftrightarrow> True"
| "never_in x s fresh ((now, rq, f) # es) st \<longleftrightarrow>
     no_entry x s now rq f st \<and> never_in x s fresh es (snd (login x s now fresh rq f st))"

lemma authenticate_wrong:
  "authenticate x now (the (lf_username f)) (the (lf_password f)) us = (None, us) \<longleftrightarrow> wrong_guess x us f"
  by (auto simp: authenticate_def wrong_guess_def verify_password_def Let_def split: option.splits)

lemma login_no_entry:
  assumes "no_entry x s now rq f st"
  shows "login x s now fresh rq f st =
           (fst (failed_login s now rq f (acc_attempts st)),
            st\<lparr>acc_attempts := snd (failed_login s now rq f (acc_attempts st))\<rparr>)"
proof -
  consider (bad) "\<not> login_request_ok f"
    | (locked) "login_request_ok f"
        "\<not> v_allowed (check (login_limits s) now (the (lf_username f)) (client_address rq) (acc_attempts st))"
    | (wrong) "login_request_ok f"
        "v_allowed (check (login_limits s) now (the (lf_username f)) (client_address rq) (acc_attempts st))"
        "wrong_guess x (acc_users st) f"
    using assms by (auto simp: no_entry_def)
  then show ?thesis
  proof cases
    case wrong
    then show ?thesis
      using authenticate_wrong [of x now f "acc_users st"] by (simp add: login_def failed_login_def Let_def)
  qed (simp_all add: login_def failed_login_def Let_def)
qed

text \<open>C9. Failed logins reveal nothing about the accounts. Take any two tables of accounts and any sequence of login
  attempts, of any addresses, at any times, none of which gets in, whether because the name is unknown, the password
  wrong or the limiter has locked it. The responses are the same, one for one, and so is what the limiter has counted;
  the accounts and the session are untouched.\<close>

theorem login_uniform:
  assumes "never_in x s fresh es st1" "never_in x s fresh es st2"
    and "acc_attempts st1 = acc_attempts st2"
  shows "fst (guesses x s fresh es st1) = fst (guesses x s fresh es st2) \<and>
         acc_attempts (snd (guesses x s fresh es st1)) = acc_attempts (snd (guesses x s fresh es st2)) \<and>
         acc_users (snd (guesses x s fresh es st1)) = acc_users st1 \<and>
         acc_session (snd (guesses x s fresh es st1)) = acc_session st1"
  using assms
proof (induction es arbitrary: st1 st2)
  case (Cons e es)
  obtain now rq f where e: "e = (now, rq, f)" by (cases e)
  let ?o = "failed_login s now rq f (acc_attempts st1)"
  have l1: "login x s now fresh rq f st1 = (fst ?o, st1\<lparr>acc_attempts := snd ?o\<rparr>)"
    using Cons.prems(1) by (intro login_no_entry) (simp add: e)
  have l2: "login x s now fresh rq f st2 = (fst ?o, st2\<lparr>acc_attempts := snd ?o\<rparr>)"
    unfolding Cons.prems(3) using Cons.prems(2) by (intro login_no_entry) (simp add: e)
  have "never_in x s fresh es (st1\<lparr>acc_attempts := snd ?o\<rparr>)" "never_in x s fresh es (st2\<lparr>acc_attempts := snd ?o\<rparr>)"
    using Cons.prems(1,2) l1 l2 by (simp_all add: e)
  then show ?case using Cons.IH [of "st1\<lparr>acc_attempts := snd ?o\<rparr>" "st2\<lparr>acc_attempts := snd ?o\<rparr>"] l1 l2
    by (simp add: e case_prod_beta Let_def)
qed simp

text \<open>Who gets in holds a session with the account and a token that was not there before.\<close>

lemma login_success:
  assumes "login_request_ok f" "v_allowed (check (login_limits s) now (the (lf_username f)) (client_address rq) (acc_attempts st))"
    and "authenticate x now (the (lf_username f)) (the (lf_password f)) (acc_users st) = (Some u, us)"
  shows "acc_session (snd (login x s now fresh rq f st)) = \<lparr>sess_user = Some (user_id u), sess_csrf = Some fresh\<rparr> \<and>
         fst (login x s now fresh rq f st) =
           (if wants_html rq then RedirectTo (if must_change_password u then ''/account/password'' else safe_redirect_target (lf_next f))
            else LoggedIn (username u) (must_change_password u)) \<and>
         recent ScopeUsername (py_lower (the (lf_username f))) since (acc_attempts (snd (login x s now fresh rq f st))) = 0"
  using assms
  by (auto simp: login_def Let_def rotate_csrf_def start_session_def recent_def clear_failures_def in_window_def
      filter_empty_conv)

definition sample_state :: "user list \<Rightarrow> access_state" where
  "sample_state us = \<lparr>acc_users = us, acc_attempts = [], acc_session = empty_cookie\<rparr>"

definition sample_guesses :: "guess list" where
  "sample_guesses =
     map (\<lambda>t. (t * second, sample_request, \<lparr>lf_username = Some ''gee'', lf_password = Some ''guess'', lf_next = None\<rparr>)) [1, 2, 3]"

definition strict_access :: access_settings where
  "strict_access = sample_access\<lparr>login_limits := \<lparr>login_max_attempts = 2, login_lockout_seconds = 900\<rparr>\<rparr>"

lemma sample_never_in:
  "never_in sample_access_ext strict_access ''new'' sample_guesses (sample_state [sample_user])"
  "never_in sample_access_ext strict_access ''new'' sample_guesses (sample_state [])"
  by code_simp+

theorem login_uniform_witness:
  "fst (guesses sample_access_ext strict_access ''new'' sample_guesses (sample_state [sample_user])) =
     fst (guesses sample_access_ext strict_access ''new'' sample_guesses (sample_state []))"
  using login_uniform [OF sample_never_in] by (simp add: sample_state_def)

subsection \<open>Claiming the instance\<close>

text \<open>Any number of visitors, each transaction of \<open>create_first_admin\<close> one step: the check, the insertion, the
  count, and for one that counts more than its own account, the deletion.\<close>

datatype claim = Arrived | Checked string | Inserted nat | Outnumbered nat | Kept nat | TurnedAway

record claims =
  cl_users :: "user list"
  cl_phase :: "nat \<Rightarrow> claim"

definition at_phase :: "nat \<Rightarrow> claim \<Rightarrow> user list \<Rightarrow> claims \<Rightarrow> claims" where
  "at_phase k ph us s = s\<lparr>cl_users := us, cl_phase := (cl_phase s)(k := ph)\<rparr>"

inductive claim_step :: "access_ext \<Rightarrow> claims \<Rightarrow> claims \<Rightarrow> bool" for x where
  checks: "cl_phase s k = Arrived \<Longrightarrow> claim_check name pw (cl_users s) = Inr n \<Longrightarrow>
     claim_step x s (at_phase k (Checked n) (cl_users s) s)"
| refuses: "cl_phase s k = Arrived \<Longrightarrow> claim_check name pw (cl_users s) = Inl e \<Longrightarrow>
     claim_step x s (at_phase k TurnedAway (cl_users s) s)"
| inserts: "cl_phase s k = Checked n \<Longrightarrow> claim_insert x now n pw (cl_users s) = Some (i, us) \<Longrightarrow>
     claim_step x s (at_phase k (Inserted i) us s)"
| clashes: "cl_phase s k = Checked n \<Longrightarrow> claim_insert x now n pw (cl_users s) = None \<Longrightarrow>
     claim_step x s (at_phase k TurnedAway (cl_users s) s)"
| counts: "cl_phase s k = Inserted i \<Longrightarrow>
     claim_step x s (at_phase k (if length (cl_users s) = 1 then Kept i else Outnumbered i) (cl_users s) s)"
| discards: "cl_phase s k = Outnumbered i \<Longrightarrow>
     claim_step x s (at_phase k TurnedAway (delete_user i (cl_users s)) s)"

definition unclaimed :: claims where
  "unclaimed = \<lparr>cl_users = [], cl_phase = (\<lambda>k. Arrived)\<rparr>"

inductive reachable :: "access_ext \<Rightarrow> claims \<Rightarrow> bool" for x where
  start: "reachable x unclaimed"
| step: "reachable x s \<Longrightarrow> claim_step x s s' \<Longrightarrow> reachable x s'"

fun account_of :: "claim \<Rightarrow> nat option" where
  "account_of (Inserted i) = Some i"
| "account_of (Outnumbered i) = Some i"
| "account_of (Kept i) = Some i"
| "account_of Arrived = None"
| "account_of (Checked n) = None"
| "account_of TurnedAway = None"

definition finished :: "claim \<Rightarrow> bool" where
  "finished c \<longleftrightarrow> (case c of Kept i \<Rightarrow> True | TurnedAway \<Rightarrow> True | _ \<Rightarrow> False)"

definition claims_ok :: "claims \<Rightarrow> bool" where
  "claims_ok s \<longleftrightarrow>
     distinct (map user_id (cl_users s)) \<and>
     (\<forall>k i. account_of (cl_phase s k) = Some i \<longrightarrow> i \<in> user_id ` set (cl_users s)) \<and>
     (\<forall>u \<in> set (cl_users s). \<exists>k. account_of (cl_phase s k) = Some (user_id u)) \<and>
     (\<forall>k l i. account_of (cl_phase s k) = Some i \<longrightarrow> account_of (cl_phase s l) = Some i \<longrightarrow> k = l) \<and>
     (\<forall>k l i j. cl_phase s k = Kept i \<longrightarrow> cl_phase s l = Kept j \<longrightarrow> k = l)"

lemma at_phase_simps [simp]:
  "cl_users (at_phase k ph us s) = us" "cl_phase (at_phase k ph us s) = (cl_phase s)(k := ph)"
  by (simp_all add: at_phase_def)

lemma claims_okI:
  assumes "distinct (map user_id (cl_users s))"
    and "\<And>k i. account_of (cl_phase s k) = Some i \<Longrightarrow> i \<in> user_id ` set (cl_users s)"
    and "\<And>u. u \<in> set (cl_users s) \<Longrightarrow> \<exists>k. account_of (cl_phase s k) = Some (user_id u)"
    and "\<And>k l i. account_of (cl_phase s k) = Some i \<Longrightarrow> account_of (cl_phase s l) = Some i \<Longrightarrow> k = l"
    and "\<And>k l i j. cl_phase s k = Kept i \<Longrightarrow> cl_phase s l = Kept j \<Longrightarrow> k = l"
  shows "claims_ok s"
  using assms unfolding claims_ok_def by blast

lemma claims_okD:
  assumes "claims_ok s"
  shows "distinct (map user_id (cl_users s))"
    and "account_of (cl_phase s k) = Some i \<Longrightarrow> i \<in> user_id ` set (cl_users s)"
    and "u \<in> set (cl_users s) \<Longrightarrow> \<exists>k. account_of (cl_phase s k) = Some (user_id u)"
    and "account_of (cl_phase s k) = Some i \<Longrightarrow> account_of (cl_phase s l) = Some i \<Longrightarrow> k = l"
    and "cl_phase s k = Kept i \<Longrightarrow> cl_phase s l = Kept j \<Longrightarrow> k = l"
  using assms unfolding claims_ok_def by blast+

lemma quiet_claim_ok:
  assumes ok: "claims_ok s" and acc: "account_of ph = account_of (cl_phase s k)" and nk: "\<And>i. ph \<noteq> Kept i"
  shows "claims_ok (at_phase k ph (cl_users s) s)"
proof -
  have a: "account_of (((cl_phase s)(k := ph)) l) = account_of (cl_phase s l)" for l
    using acc by simp
  have b: "((cl_phase s)(k := ph)) l = Kept i \<Longrightarrow> cl_phase s l = Kept i" for l i
    using nk by (auto split: if_splits)
  show ?thesis
    by (rule claims_okI; unfold at_phase_simps a; (rule claims_okD [OF ok] claims_okD(5) [OF ok]; (assumption | rule b)?)?)
qed

lemma user_id_le_max: "u \<in> set us \<Longrightarrow> user_id u \<le> foldr (\<lambda>u m. max (user_id u) m) us 0"
  by (induction us) auto

lemma next_user_id_fresh: "next_user_id us \<notin> user_id ` set us"
  using user_id_le_max by (fastforce simp: next_user_id_def)

lemma claim_insert_Some:
  "claim_insert x now n pw us = Some (i, us') \<Longrightarrow>
   i = next_user_id us \<and> us' = us @ [new_admin x now i n pw False]"
  by (auto simp: claim_insert_def insert_user_def split: if_splits)

lemma insert_claim_ok:
  assumes ok: "claims_ok s" and k: "cl_phase s k = Checked n"
    and ins: "claim_insert x now n pw (cl_users s) = Some (i, us)"
  shows "claims_ok (at_phase k (Inserted i) us s)"
proof -
  have i: "i \<notin> user_id ` set (cl_users s)" and us: "us = cl_users s @ [new_admin x now i n pw False]"
    using claim_insert_Some [OF ins] next_user_id_fresh by auto
  have ids: "user_id ` set us = insert i (user_id ` set (cl_users s))" by (simp add: us new_admin_def)
  have acc: "account_of (((cl_phase s)(k := Inserted i)) l) = (if l = k then Some i else account_of (cl_phase s l))" for l
    by simp
  have kept: "((cl_phase s)(k := Inserted i)) l = Kept j \<Longrightarrow> cl_phase s l = Kept j" for l j
    by (auto split: if_splits)
  show ?thesis
  proof (rule claims_okI; unfold at_phase_simps acc)
    show "distinct (map user_id us)" using claims_okD(1) [OF ok] i by (simp add: us new_admin_def)
    show "\<And>l j. (if l = k then Some i else account_of (cl_phase s l)) = Some j \<Longrightarrow> j \<in> user_id ` set us"
      using claims_okD(2) [OF ok] ids by (auto split: if_splits)
    show "\<exists>l. (if l = k then Some i else account_of (cl_phase s l)) = Some (user_id u)" if "u \<in> set us" for u
    proof (cases "user_id u = i")
      case True
      then show ?thesis by auto
    next
      case False
      then have "u \<in> set (cl_users s)" using that by (auto simp: us new_admin_def)
      then obtain l where "account_of (cl_phase s l) = Some (user_id u)" using claims_okD(3) [OF ok] by blast
      then show ?thesis using k by (intro exI [of _ l]) auto
    qed
    show "\<And>l m j. (if l = k then Some i else account_of (cl_phase s l)) = Some j \<Longrightarrow>
            (if m = k then Some i else account_of (cl_phase s m)) = Some j \<Longrightarrow> l = m"
      using claims_okD(2,4) [OF ok] i by (metis option.inject)
    show "\<And>l m j j'. ((cl_phase s)(k := Inserted i)) l = Kept j \<Longrightarrow> ((cl_phase s)(k := Inserted i)) m = Kept j' \<Longrightarrow> l = m"
      using claims_okD(5) [OF ok] kept by blast
  qed
qed

lemma keep_claim_ok:
  assumes ok: "claims_ok s" and k: "cl_phase s k = Inserted i" and one: "length (cl_users s) = 1"
  shows "claims_ok (at_phase k (Kept i) (cl_users s) s)"
proof -
  obtain u where u: "cl_users s = [u]" using one by (auto simp: length_Suc_conv)
  then have ui: "user_id u = i" using claims_okD(2) [OF ok, of k i] k by simp
  have none: "account_of (cl_phase s l) = None" if "l \<noteq> k" for l
  proof (rule ccontr)
    assume "account_of (cl_phase s l) \<noteq> None"
    then obtain j where j: "account_of (cl_phase s l) = Some j" by blast
    then have "j = i" using claims_okD(2) [OF ok j] u ui by simp
    then show False using claims_okD(4) [OF ok j, of k] k that by simp
  qed
  show ?thesis
  proof (rule claims_okI; unfold at_phase_simps)
    show "\<And>l j. account_of (((cl_phase s)(k := Kept i)) l) = Some j \<Longrightarrow> j \<in> user_id ` set (cl_users s)"
      using none u ui by (auto split: if_splits)
    show "\<And>v. v \<in> set (cl_users s) \<Longrightarrow> \<exists>l. account_of (((cl_phase s)(k := Kept i)) l) = Some (user_id v)"
      using u ui by (intro exI [of _ k]) simp
    show "\<And>l m j. account_of (((cl_phase s)(k := Kept i)) l) = Some j \<Longrightarrow> account_of (((cl_phase s)(k := Kept i)) m) = Some j \<Longrightarrow> l = m"
      using none by (auto split: if_splits)
    show "\<And>l m j j'. ((cl_phase s)(k := Kept i)) l = Kept j \<Longrightarrow> ((cl_phase s)(k := Kept i)) m = Kept j' \<Longrightarrow> l = m"
      using none by (fastforce split: if_splits)
  qed (rule claims_okD(1) [OF ok])
qed

lemma discard_claim_ok:
  assumes ok: "claims_ok s" and k: "cl_phase s k = Outnumbered i"
  shows "claims_ok (at_phase k TurnedAway (delete_user i (cl_users s)) s)"
proof -
  have other: "j \<noteq> i" if "l \<noteq> k" "account_of (cl_phase s l) = Some j" for l j
    using claims_okD(4) [OF ok, of l j k] that k by auto
  show ?thesis
  proof (rule claims_okI; unfold at_phase_simps)
    show "distinct (map user_id (delete_user i (cl_users s)))"
      using claims_okD(1) [OF ok] by (simp add: delete_user_def distinct_map_filter)
    show "\<And>l j. account_of (((cl_phase s)(k := TurnedAway)) l) = Some j \<Longrightarrow> j \<in> user_id ` set (delete_user i (cl_users s))"
      using claims_okD(2) [OF ok] other by (fastforce simp: delete_user_def split: if_splits)
    show "\<exists>l. account_of (((cl_phase s)(k := TurnedAway)) l) = Some (user_id u)" if "u \<in> set (delete_user i (cl_users s))" for u
    proof -
      have "u \<in> set (cl_users s)" using that by (simp add: delete_user_def)
      then obtain l where l: "account_of (cl_phase s l) = Some (user_id u)"
        using claims_okD(3) [OF ok] by blast
      then have "l \<noteq> k" using that k by (auto simp: delete_user_def)
      then show ?thesis using l by (intro exI [of _ l]) simp
    qed
    show "\<And>l m j. account_of (((cl_phase s)(k := TurnedAway)) l) = Some j \<Longrightarrow>
            account_of (((cl_phase s)(k := TurnedAway)) m) = Some j \<Longrightarrow> l = m"
      using claims_okD(4) [OF ok] by (auto split: if_splits)
    show "\<And>l m j j'. ((cl_phase s)(k := TurnedAway)) l = Kept j \<Longrightarrow> ((cl_phase s)(k := TurnedAway)) m = Kept j' \<Longrightarrow> l = m"
      using claims_okD(5) [OF ok] by (auto split: if_splits)
  qed
qed

lemma claim_step_ok: "claim_step x s s' \<Longrightarrow> claims_ok s \<Longrightarrow> claims_ok s'"
proof (induction rule: claim_step.induct)
  case (inserts s k n now pw i us)
  then show ?case using insert_claim_ok by blast
next
  case (counts s k i)
  then show ?case using keep_claim_ok [of s k i] by (cases "length (cl_users s) = 1") (auto intro: quiet_claim_ok)
next
  case (discards s k i)
  then show ?case by (rule discard_claim_ok [rotated])
qed (auto intro: quiet_claim_ok)

lemma reachable_ok: "reachable x s \<Longrightarrow> claims_ok s"
proof (induction rule: reachable.induct)
  case start
  then show ?case by (simp add: unclaimed_def claims_ok_def)
next
  case (step s s')
  then show ?case using claim_step_ok by blast
qed

lemma few_users:
  assumes "\<And>u v. u \<in> set us \<Longrightarrow> v \<in> set us \<Longrightarrow> user_id u = user_id v" "distinct (map user_id us)"
  shows "length us \<le> 1"
proof (rule ccontr)
  assume "\<not> length us \<le> 1"
  then obtain u v vs where "us = u # v # vs" by (cases us; cases "tl us") auto
  then show False using assms(1) [of u v] assms(2) by simp
qed

text \<open>C10. An unclaimed instance is claimed at most once. However many visitors submit the wizard at the same time, in
  whatever order their transactions interleave, two of them are never both told they hold an account; and when all
  of them have been answered there is at most one account, which is that of the one who was told so.\<close>

theorem claimed_once:
  assumes "reachable x s"
  shows "(\<forall>k l i j. cl_phase s k = Kept i \<longrightarrow> cl_phase s l = Kept j \<longrightarrow> k = l) \<and>
         ((\<forall>k. cl_phase s k = Arrived \<or> finished (cl_phase s k)) \<longrightarrow>
            length (cl_users s) \<le> 1 \<and> (\<forall>u \<in> set (cl_users s). \<exists>k. cl_phase s k = Kept (user_id u)))"
proof (intro conjI allI impI)
  note ok = reachable_ok [OF assms]
  show "cl_phase s k = Kept i \<Longrightarrow> cl_phase s l = Kept j \<Longrightarrow> k = l" for k l i j
    by (rule claims_okD(5) [OF ok])
  assume fin: "\<forall>k. cl_phase s k = Arrived \<or> finished (cl_phase s k)"
  have held: "cl_phase s k = Kept i" if "account_of (cl_phase s k) = Some i" for k i
    using fin [rule_format, of k] that by (cases "cl_phase s k") (auto simp: finished_def)
  then show kept: "\<forall>u \<in> set (cl_users s). \<exists>k. cl_phase s k = Kept (user_id u)"
    using claims_okD(3) [OF ok] by blast
  have "user_id u = user_id v" if uv: "u \<in> set (cl_users s)" "v \<in> set (cl_users s)" for u v
  proof -
    obtain k l where "cl_phase s k = Kept (user_id u)" "cl_phase s l = Kept (user_id v)" using kept uv by blast
    then show ?thesis using claims_okD(5) [OF ok, of k "user_id u" l "user_id v"] by auto
  qed
  then show "length (cl_users s) \<le> 1"
    using claims_okD(1) [OF ok] by (rule few_users)
qed

text \<open>The next transaction of one visitor, so that an interleaving is a list of visitors.\<close>

definition claim_move :: "access_ext \<Rightarrow> (nat \<Rightarrow> string) \<Rightarrow> string \<Rightarrow> nat \<Rightarrow> claims \<Rightarrow> claims" where
  "claim_move x name pw k s =
     (let us = cl_users s
      in case cl_phase s k of
           Arrived \<Rightarrow> at_phase k (case claim_check (name k) pw us of Inl e \<Rightarrow> TurnedAway | Inr n \<Rightarrow> Checked n) us s
         | Checked n \<Rightarrow>
             (case claim_insert x 0 n pw us of
                None \<Rightarrow> at_phase k TurnedAway us s
              | Some (i, us') \<Rightarrow> at_phase k (Inserted i) us' s)
         | Inserted i \<Rightarrow> at_phase k (if length us = 1 then Kept i else Outnumbered i) us s
         | Outnumbered i \<Rightarrow> at_phase k TurnedAway (delete_user i us) s
         | _ \<Rightarrow> s)"

lemma claim_move_reachable: "reachable x s \<Longrightarrow> reachable x (claim_move x name pw k s)"
proof (cases "cl_phase s k")
  case (Inserted i)
  assume "reachable x s"
  then show ?thesis 
    unfolding claim_move_def Let_def Inserted claim.case by (rule reachable.step [OF _ claim_step.counts [OF Inserted]])
next
  case Arrived
  assume "reachable x s"
  then show ?thesis using Arrived by (cases "claim_check (name k) pw (cl_users s)")
      (auto simp: claim_move_def intro: reachable.step claim_step.intros)
next
  case (Checked n)
  assume "reachable x s"
  then show ?thesis using Checked by (cases "claim_insert x 0 n pw (cl_users s)")
      (auto simp: claim_move_def Let_def intro: reachable.step claim_step.intros)
qed (auto simp: claim_move_def Let_def split: option.splits intro: reachable.step claim_step.intros)

lemma interleaving_reachable: "reachable x (fold (claim_move x name pw) ks unclaimed)"
proof -
  have "reachable x s \<Longrightarrow> reachable x (fold (claim_move x name pw) ks s)" for s
    by (induction ks arbitrary: s) (auto simp: claim_move_reachable)
  then show ?thesis using reachable.start by blast
qed

definition two_visitors :: "nat list \<Rightarrow> claims" where
  "two_visitors ks =
     fold (claim_move sample_access_ext (\<lambda>k. if k = 0 then ''ann'' else ''bob'') ''a long password'') ks unclaimed"

lemma two_visitors_reachable: "reachable sample_access_ext (two_visitors ks)"
  unfolding two_visitors_def by (rule interleaving_reachable)

lemma others_wait: "k \<notin> set ks \<Longrightarrow> cl_phase (fold (claim_move x name pw) ks s) k = cl_phase s k"
  by (induction ks arbitrary: s)
     (auto simp: claim_move_def Let_def at_phase_def split: claim.splits sum.splits option.splits)

lemma interleavings:
  "cl_phase (two_visitors [0, 1, 0, 0, 1, 1, 1]) 0 = Kept 1" "cl_phase (two_visitors [0, 1, 0, 0, 1, 1, 1]) 1 = TurnedAway"
  "map username (cl_users (two_visitors [0, 1, 0, 0, 1, 1, 1])) = [''ann'']"
  by code_simp+

theorem claimed_once_witness:
  "cl_phase (two_visitors [0, 1, 0, 0, 1, 1, 1]) 0 = Kept 1 \<and>
   length (cl_users (two_visitors [0, 1, 0, 0, 1, 1, 1])) \<le> 1"
proof -
  have "\<forall>k. cl_phase (two_visitors [0, 1, 0, 0, 1, 1, 1]) k = Arrived \<or> finished (cl_phase (two_visitors [0, 1, 0, 0, 1, 1, 1]) k)"
  proof
    fix k
    have "k \<noteq> 0 \<Longrightarrow> k \<noteq> 1 \<Longrightarrow> cl_phase (two_visitors [0, 1, 0, 0, 1, 1, 1]) k = Arrived"
      unfolding two_visitors_def by (subst others_wait) (simp_all add: unclaimed_def)
    then show "cl_phase (two_visitors [0, 1, 0, 0, 1, 1, 1]) k = Arrived \<or> finished (cl_phase (two_visitors [0, 1, 0, 0, 1, 1, 1]) k)"
      using interleavings(1,2) by (cases "k = 0"; cases "k = 1") (simp_all add: finished_def)
  qed
  then show ?thesis
    using claimed_once [OF two_visitors_reachable [of "[0, 1, 0, 0, 1, 1, 1]"]] interleavings(1) by blast
qed

text \<open>The account that survives need not be the one created first, and there may be none: each of two visitors can
  count the other's account before either has discarded its own.\<close>

lemma second_visitor_wins:
  "cl_phase (two_visitors [0, 1, 0, 1, 0, 0, 1]) 0 = TurnedAway" "cl_phase (two_visitors [0, 1, 0, 1, 0, 0, 1]) 1 = Kept 2"
  by code_simp+

lemma both_discarded:
  "cl_users (two_visitors [0, 1, 0, 1, 0, 1, 0, 1]) = []"
  "cl_phase (two_visitors [0, 1, 0, 1, 0, 1, 0, 1]) 0 = TurnedAway" "cl_phase (two_visitors [0, 1, 0, 1, 0, 1, 0, 1]) 1 = TurnedAway"
  by code_simp+

text \<open>With nobody else, the wizard claims an empty instance.\<close>

lemma alone_is_kept:
  assumes "\<not> weak_password pw" "py_strip name \<noteq> []"
  shows "create_first_admin x now name pw [] = Some (Inr 1, [new_admin x now 1 (py_strip name) pw False])"
  using assms
  by (simp add: create_first_admin_def claim_check_def needs_setup_def claim_insert_def insert_user_def find_user_def
      next_user_id_def claim_confirm_def)

end
