(* ===== verification/Cron.thy ===== *)
theory Cron
  imports Models
begin

text \<open>
  \<open>app/jobs/cron.py\<close>: validating a schedule, previewing it and describing it. APScheduler's trigger is not under
  \<open>src/\<close>: \<open>from_crontab\<close> and \<open>get_next_fire_time\<close> are arguments, over a type of triggers of their own. The
  expressions the schedule builder of the job form writes (\<open>compose\<close> in \<open>jobs/form.html\<close>) are modelled beside the
  description, because the description promises to cover exactly those.
\<close>

datatype 'trig crontab = Trigger 'trig | ZoneUnknown | Malformed

datatype cron_error = EmptyExpression | UnknownZone string | InvalidExpression string

record 'trig scheduler_ext =
  from_crontab :: "string \<Rightarrow> string \<Rightarrow> 'trig crontab"
  next_fire :: "'trig \<Rightarrow> datetime option \<Rightarrow> datetime \<Rightarrow> datetime option"

definition PREVIEW_COUNT :: nat where "PREVIEW_COUNT = 5"

definition build_trigger :: "'trig scheduler_ext \<Rightarrow> string \<Rightarrow> string \<Rightarrow> cron_error + 'trig" where
  "build_trigger sx expression zone =
     (let cleaned = py_strip expression
      in if cleaned = [] then Inl EmptyExpression
         else (case from_crontab sx cleaned (if zone = [] then ''UTC'' else zone) of
                 Trigger t \<Rightarrow> Inr t
               | ZoneUnknown \<Rightarrow> Inl (UnknownZone zone)
               | Malformed \<Rightarrow> Inl (InvalidExpression cleaned)))"

definition validate_cron :: "'trig scheduler_ext \<Rightarrow> string option \<Rightarrow> string \<Rightarrow> cron_error + unit" where
  "validate_cron sx expression zone =
     (case expression of
        None \<Rightarrow> Inr ()
      | Some e \<Rightarrow> if py_strip e = [] then Inr () else bind_res (build_trigger sx e zone) (\<lambda>t. Inr ()))"

fun fires :: "'trig scheduler_ext \<Rightarrow> 'trig \<Rightarrow> nat \<Rightarrow> datetime option \<Rightarrow> datetime \<Rightarrow> datetime list" where
  "fires sx t 0 previous current = []"
| "fires sx t (Suc n) previous current =
     (case next_fire sx t previous (case previous of None \<Rightarrow> current | Some p \<Rightarrow> p) of
        None \<Rightarrow> []
      | Some u \<Rightarrow> u # fires sx t n (Some u) current)"

definition next_fire_times ::
  "'trig scheduler_ext \<Rightarrow> string \<Rightarrow> string \<Rightarrow> nat \<Rightarrow> datetime \<Rightarrow> cron_error + datetime list" where
  "next_fire_times sx expression zone count now =
     bind_res (build_trigger sx expression zone) (\<lambda>t. Inr (fires sx t count None now))"

record schedule_preview =
  sp_valid :: bool
  sp_error :: "cron_error option"
  fire_times :: "datetime list"

definition preview :: "'trig scheduler_ext \<Rightarrow> string option \<Rightarrow> string \<Rightarrow> datetime \<Rightarrow> schedule_preview" where
  "preview sx expression zone now =
     (case expression of
        None \<Rightarrow> \<lparr>sp_valid = True, sp_error = None, fire_times = []\<rparr>
      | Some e \<Rightarrow>
          if py_strip e = [] then \<lparr>sp_valid = True, sp_error = None, fire_times = []\<rparr>
          else (case next_fire_times sx e zone PREVIEW_COUNT now of
                  Inr ts \<Rightarrow> \<lparr>sp_valid = True, sp_error = None, fire_times = ts\<rparr>
                | Inl err \<Rightarrow> \<lparr>sp_valid = False, sp_error = Some err, fire_times = []\<rparr>))"

subsection \<open>Schedules in words\<close>

definition WEEKDAYS :: "string list" where
  "WEEKDAYS = [''Sunday'', ''Monday'', ''Tuesday'', ''Wednesday'', ''Thursday'', ''Friday'', ''Saturday'']"

definition two_digits :: "nat \<Rightarrow> string" where
  "two_digits n = (if n < 10 then ''0'' @ str_nat n else str_nat n)"

definition clock_time :: "nat \<Rightarrow> nat \<Rightarrow> string \<Rightarrow> string" where
  "clock_time h m clock =
     (if clock = ''12h'' then
        str_nat (if h mod 12 = 0 then 12 else h mod 12) @ '':'' @ two_digits m @ '' '' @ (if h < 12 then ''AM'' else ''PM'')
      else two_digits h @ '':'' @ two_digits m)"

definition day_list :: "string list \<Rightarrow> string" where
  "day_list ds = join_with '', '' (butlast ds) @ '' and '' @ last ds"

text \<open>The days of \<open>day_of_week.split(",")\<close>: None is the ValueError of \<open>int\<close>, Some None a part that is refused.
  \<open>all\<close> stops at the first part that is refused.\<close>

fun weekday_parts :: "string list \<Rightarrow> nat list option option" where
  "weekday_parts [] = Some (Some [])"
| "weekday_parts (p # ps) =
     (if \<not> isdigit p then Some None
      else (case int_of_str p of
              None \<Rightarrow> None
            | Some n \<Rightarrow> if 6 < n then Some None else map_option (map_option ((#) n)) (weekday_parts ps)))"

definition weekly_text :: "string \<Rightarrow> string \<Rightarrow> string list \<Rightarrow> string option" where
  "weekly_text raw at_time chosen =
     map_option
       (\<lambda>r. case r of
              None \<Rightarrow> raw
            | Some ns \<Rightarrow>
                (let ds = map (\<lambda>p. WEEKDAYS ! the (int_of_str p)) (py_fromkeys chosen)
                 in if length ds = 7 then ''Daily at '' @ at_time
                    else if length ds = 1 then hd ds @ ''s at '' @ at_time
                    else day_list ds @ '' at '' @ at_time))
       (weekday_parts chosen)"

definition timed_text :: "string \<Rightarrow> string \<Rightarrow> string \<Rightarrow> string \<Rightarrow> string \<Rightarrow> string option" where
  "timed_text raw clock mi hr dow =
     (if \<not> isdigit hr then Some raw
      else (case int_of_str hr of
              None \<Rightarrow> None
            | Some h \<Rightarrow>
                if 23 < h then Some raw
                else (case int_of_str mi of
                        None \<Rightarrow> None
                      | Some m \<Rightarrow>
                          if 59 < m then Some raw
                          else if dow = ''*'' then Some (''Daily at '' @ clock_time h m clock)
                          else weekly_text raw (clock_time h m clock) (split_on (CHR '','') dow))))"

definition hourly_text :: "string \<Rightarrow> string option" where
  "hourly_text mi =
     map_option (\<lambda>m. if m = 0 then ''Hourly, on the hour'' else ''Hourly at '' @ str_nat m @ '' past'') (int_of_str mi)"

definition minutes_text :: "string \<Rightarrow> string \<Rightarrow> string option" where
  "minutes_text raw step =
     (if \<not> isdigit step then Some raw
      else map_option
             (\<lambda>n. if 0 < n then (if n = 1 then ''Every minute'' else ''Every '' @ str_nat n @ '' minutes'') else raw)
             (int_of_str step))"

definition fields_text :: "string \<Rightarrow> string \<Rightarrow> string \<Rightarrow> string \<Rightarrow> string \<Rightarrow> string option" where
  "fields_text raw clock mi hr dow =
     (if prefix ''*/'' mi \<and> hr = ''*'' \<and> dow = ''*'' then minutes_text raw (drop 2 mi)
      else if \<not> isdigit mi then Some raw
      else if hr = ''*'' \<and> dow = ''*'' then hourly_text mi
      else timed_text raw clock mi hr dow)"

text \<open>None is a ValueError.\<close>

definition describe :: "string option \<Rightarrow> string \<Rightarrow> string option" where
  "describe expression clock =
     (let raw = py_strip (case expression of None \<Rightarrow> [] | Some e \<Rightarrow> e)
      in if raw = [] then Some ''On demand''
         else (case py_split raw of
                 [mi, hr, dm, mon, dow] \<Rightarrow>
                   if dm \<noteq> ''*'' \<or> mon \<noteq> ''*'' then Some raw else fields_text raw clock mi hr dow
               | _ \<Rightarrow> Some raw))"

subsection \<open>The builder of the job form\<close>

datatype schedule =
    OnDemand
  | EveryMinutes nat
  | HourlyAt nat
  | DailyAt nat nat          \<comment> \<open>hour, minute\<close>
  | WeeklyAt "nat list" nat nat

definition compose :: "schedule \<Rightarrow> string" where
  "compose sch =
     (case sch of
        OnDemand \<Rightarrow> []
      | EveryMinutes n \<Rightarrow> ''*/'' @ str_nat n @ '' * * * *''
      | HourlyAt m \<Rightarrow> str_nat m @ '' * * * *''
      | DailyAt h m \<Rightarrow> str_nat m @ '' '' @ str_nat h @ '' * * *''
      | WeeklyAt ds h m \<Rightarrow>
          str_nat m @ '' '' @ str_nat h @ '' * * '' @ (if ds = [] then ''*'' else join_with '','' (map str_nat ds)))"

text \<open>What the form shows the schedule as: the specification of \<open>describe\<close>.\<close>

definition schedule_text :: "string \<Rightarrow> schedule \<Rightarrow> string" where
  "schedule_text clock sch =
     (case sch of
        OnDemand \<Rightarrow> ''On demand''
      | EveryMinutes n \<Rightarrow> if n = 1 then ''Every minute'' else ''Every '' @ str_nat n @ '' minutes''
      | HourlyAt m \<Rightarrow> if m = 0 then ''Hourly, on the hour'' else ''Hourly at '' @ str_nat m @ '' past''
      | DailyAt h m \<Rightarrow> ''Daily at '' @ clock_time h m clock
      | WeeklyAt ds h m \<Rightarrow>
          (if length ds \<in> {0, 7} then ''Daily at '' @ clock_time h m clock
           else if length ds = 1 then (WEEKDAYS ! hd ds) @ ''s at '' @ clock_time h m clock
           else day_list (map ((!) WEEKDAYS) ds) @ '' at '' @ clock_time h m clock))"

definition schedule_ok :: "schedule \<Rightarrow> bool" where
  "schedule_ok sch \<longleftrightarrow>
     (case sch of
        OnDemand \<Rightarrow> True
      | EveryMinutes n \<Rightarrow> 0 < n
      | HourlyAt m \<Rightarrow> m < 60
      | DailyAt h m \<Rightarrow> h < 24 \<and> m < 60
      | WeeklyAt ds h m \<Rightarrow> distinct ds \<and> list_all (\<lambda>d. d \<le> 6) ds \<and> h < 24 \<and> m < 60)"

lemma digit_not_space: "ascii_digit c \<Longrightarrow> \<not> py_space c"
  by (auto simp: ascii_digit_def py_space_def)

lemma words_acc_word:
  "list_all (\<lambda>c. \<not> py_space c) w \<Longrightarrow> words_acc acc (w @ s) = words_acc (rev w @ acc) s"
  by (induction w arbitrary: acc) auto

lemma str_nat_no_space: "list_all (\<lambda>c. \<not> py_space c) (str_nat n)"
  using str_nat_char digit_not_space by (auto simp: list_all_iff)

lemma isdigit_str_nat: "isdigit (str_nat n)"
  using str_nat_char by (auto simp: isdigit_def list_all_iff py_digit_def)

lemma words_join:
  "ws \<noteq> [] \<Longrightarrow> list_all (\<lambda>w. w \<noteq> [] \<and> list_all (\<lambda>c. \<not> py_space c) w) ws \<Longrightarrow> py_split (join_with '' '' ws) = ws"
proof (induction ws)
  case (Cons w ws)
  have sp: "py_space (CHR '' '')" by (simp add: py_space_def)
  show ?case
  proof (cases ws)
    case Nil
    then show ?thesis using Cons.prems words_acc_word [of w "[]" "[]"] by (simp add: py_split_def)
  next
    case (Cons v vs)
    then have "join_with '' '' (w # ws) = w @ CHR '' '' # join_with '' '' ws" by simp
    then show ?thesis
      using Cons.IH Cons.prems Cons words_acc_word [of w "[]" "CHR '' '' # join_with '' '' ws"] sp
      by (simp add: py_split_def)
  qed
qed simp

definition word :: "string \<Rightarrow> bool" where
  "word w \<longleftrightarrow> w \<noteq> [] \<and> list_all (\<lambda>c. \<not> py_space c) w"

lemma word_ends: "word w \<Longrightarrow> \<not> py_space (hd w) \<and> \<not> py_space (last w)"
  by (auto simp: word_def list_all_iff)

lemma join_words_ends:
  "ws \<noteq> [] \<Longrightarrow> list_all word ws \<Longrightarrow>
   join_with '' '' ws \<noteq> [] \<and> hd (join_with '' '' ws) = hd (hd ws) \<and> last (join_with '' '' ws) = last (last ws)"
proof (induction ws)
  case (Cons w ws)
  then show ?case by (cases ws) (auto simp: word_def)
qed simp

lemma strip_join_words: "ws \<noteq> [] \<Longrightarrow> list_all word ws \<Longrightarrow> py_strip (join_with '' '' ws) = join_with '' '' ws"
  unfolding py_strip_def
  by (rule strip_if_id) (use join_words_ends word_ends in \<open>fastforce simp: list_all_iff\<close>)

lemma words_join': "ws \<noteq> [] \<Longrightarrow> list_all word ws \<Longrightarrow> py_split (join_with '' '' ws) = ws"
  by (rule words_join) (simp_all add: word_def [abs_def])

lemma word_str_nat: "word (str_nat n)"
  by (simp add: word_def str_nat_no_space)

lemma word_star: "word ''*''" "word (''*/'' @ str_nat n)"
  using str_nat_no_space by (auto simp: word_def py_space_def)

lemma word_days: "ds \<noteq> [] \<Longrightarrow> word (join_with '','' (map str_nat ds))"
proof (induction ds)
  case (Cons d ds)
  then show ?case
    using word_str_nat [of d] by (cases ds) (auto simp: word_def py_space_def)
qed simp

lemma describe_fields:
  assumes "list_all word [mi, hr, dow]"
  shows "describe (Some (join_with '' '' [mi, hr, ''*'', ''*'', dow])) clock =
           fields_text (join_with '' '' [mi, hr, ''*'', ''*'', dow]) clock mi hr dow"
proof -
  have w: "list_all word [mi, hr, ''*'', ''*'', dow]" using assms word_star by simp
  note s = strip_join_words [OF _ w] words_join' [OF _ w] join_words_ends [OF _ w]
  show ?thesis using s by (simp add: describe_def Let_def del: join_with.simps)
qed

lemma star_not_digits: "\<not> isdigit ''*''" "str_nat n \<noteq> ''*''" "\<not> prefix ''*/'' (str_nat n)"
proof -
  show a: "\<not> isdigit ''*''" by code_simp
  show "str_nat n \<noteq> ''*''" using a isdigit_str_nat [of n] by metis
  show "\<not> prefix ''*/'' (str_nat n)"
    using str_nat_char [of "CHR ''*''" n] by (auto simp: prefix_def ascii_digit_def)
qed

lemma str_nat_no_comma: "CHR '','' \<notin> set (str_nat n)"
  using str_nat_char [of "CHR '',''" n] by (auto simp: ascii_digit_def)

lemma days_not_star: "ds \<noteq> [] \<Longrightarrow> join_with '','' (map str_nat ds) \<noteq> ''*''"
proof
  assume ds: "ds \<noteq> []" and eq: "join_with '','' (map str_nat ds) = ''*''"
  have "split_on (CHR '','') (join_with [CHR '',''] (map str_nat ds)) = map str_nat ds"
    by (rule split_join_with) (use ds str_nat_no_comma in auto)
  then have "map str_nat ds = split_on (CHR '','') ''*''" using eq by simp
  then have "map str_nat ds = [''*'']" by simp
  then show False using star_not_digits(2) by (cases ds) auto
qed

lemma split_days: "ds \<noteq> [] \<Longrightarrow> split_on (CHR '','') (join_with '','' (map str_nat ds)) = map str_nat ds"
  by (rule split_join_with) (use str_nat_no_comma in auto)

lemma weekday_parts_numbers: "list_all (\<lambda>d. d \<le> 6) ds \<Longrightarrow> weekday_parts (map str_nat ds) = Some (Some ds)"
  by (induction ds) (auto simp: isdigit_str_nat)

lemma fromkeys_distinct: "distinct xs \<Longrightarrow> py_fromkeys xs = xs"
proof -
  have "distinct xs \<Longrightarrow> set xs \<inter> set seen = {} \<Longrightarrow> dedup_acc seen xs = xs" for seen
    by (induction xs arbitrary: seen) auto
  then show "distinct xs \<Longrightarrow> py_fromkeys xs = xs" by (simp add: py_fromkeys_def)
qed

lemma weekly_numbers:
  assumes "distinct ds" "list_all (\<lambda>d. d \<le> 6) ds" "ds \<noteq> []"
  shows "weekly_text raw at_time (map str_nat ds) =
           Some (if length ds = 7 then ''Daily at '' @ at_time
                 else if length ds = 1 then (WEEKDAYS ! hd ds) @ ''s at '' @ at_time
                 else day_list (map ((!) WEEKDAYS) ds) @ '' at '' @ at_time)"
proof -
  have d: "distinct (map str_nat ds)"
    using assms(1) by (simp add: distinct_map inj_on_def str_nat_inj)
  have m: "map (\<lambda>p. WEEKDAYS ! the (int_of_str p)) (py_fromkeys (map str_nat ds)) = map ((!) WEEKDAYS) ds"
    unfolding fromkeys_distinct [OF d] by simp
  show ?thesis
    using assms(3) unfolding weekly_text_def weekday_parts_numbers [OF assms(2)] option.map option.case m Let_def length_map
    by (simp add: hd_map)
qed

text \<open>The description covers what the builder writes. Every expression the schedule builder of the job form can
  compose, which the trigger then reads, is described in words and those words are the schedule it was composed from:
  the minutes between runs, the minute past the hour, the time of day in the clock that was asked for, and the days
  of the week with Sunday as day 0.\<close>

theorem describe_covers_builder:
  assumes "schedule_ok sch"
  shows "describe (Some (compose sch)) clock = Some (schedule_text clock sch)"
proof (cases sch)
  case OnDemand
  then show ?thesis by (simp add: compose_def describe_def schedule_text_def py_strip_def strip_if_def)
next
  case (EveryMinutes n)
  have c: "compose sch = join_with '' '' [''*/'' @ str_nat n, ''*'', ''*'', ''*'', ''*'']"
    by (simp add: EveryMinutes compose_def)
  show ?thesis
    unfolding c using assms EveryMinutes word_star
    by (subst describe_fields)
       (simp_all add: fields_text_def minutes_text_def isdigit_str_nat schedule_text_def schedule_ok_def del: join_with.simps)
next
  case (HourlyAt m)
  have c: "compose sch = join_with '' '' [str_nat m, ''*'', ''*'', ''*'', ''*'']"
    by (simp add: HourlyAt compose_def)
  show ?thesis
    unfolding c using HourlyAt word_star word_str_nat star_not_digits
    by (subst describe_fields)
       (simp_all add: fields_text_def hourly_text_def isdigit_str_nat schedule_text_def del: join_with.simps)
next
  case (DailyAt h m)
  have c: "compose sch = join_with '' '' [str_nat m, str_nat h, ''*'', ''*'', ''*'']"
    by (simp add: DailyAt compose_def)
  show ?thesis
    unfolding c using assms DailyAt word_star word_str_nat star_not_digits
    by (subst describe_fields)
       (simp_all add: fields_text_def timed_text_def isdigit_str_nat schedule_text_def schedule_ok_def del: join_with.simps)
next
  case (WeeklyAt ds h m)
  define dow where "dow = (if ds = [] then ''*'' else join_with '','' (map str_nat ds))"
  have c: "compose sch = join_with '' '' [str_nat m, str_nat h, ''*'', ''*'', dow]"
    by (simp add: WeeklyAt compose_def dow_def)
  have w: "list_all word [str_nat m, str_nat h, dow]"
    using word_str_nat word_star word_days by (simp add: dow_def)
  have f: "fields_text raw clock (str_nat m) (str_nat h) dow = timed_text raw clock (str_nat m) (str_nat h) dow" for raw
    using star_not_digits by (simp add: fields_text_def isdigit_str_nat)
  have lim: "h < 24" "m < 60" "distinct ds" "list_all (\<lambda>d. d \<le> 6) ds"
    using assms WeeklyAt by (auto simp: schedule_ok_def)
  show ?thesis
    unfolding c describe_fields [OF w] f
  proof (cases "ds = []")
    case True
    then show "timed_text (join_with '' '' [str_nat m, str_nat h, ''*'', ''*'', dow]) clock (str_nat m) (str_nat h) dow = Some (schedule_text clock sch)"
      using lim WeeklyAt by (simp add: timed_text_def isdigit_str_nat dow_def schedule_text_def del: join_with.simps)
  next
    case False
    then show "timed_text (join_with '' '' [str_nat m, str_nat h, ''*'', ''*'', dow]) clock (str_nat m) (str_nat h) dow = Some (schedule_text clock sch)"
      using lim WeeklyAt days_not_star [OF False] weekly_numbers [OF lim(3,4) False] split_days [OF False]
      by (simp add: timed_text_def isdigit_str_nat dow_def schedule_text_def del: join_with.simps)
  qed
qed

theorem describe_covers_builder_witness:
  "describe (Some (compose (WeeklyAt [1, 3, 5] 3 0))) ''24h'' = Some ''Monday, Wednesday and Friday at 03:00''"
proof -
  have "schedule_ok (WeeklyAt [1, 3, 5] 3 0)" by code_simp
  moreover have "schedule_text ''24h'' (WeeklyAt [1, 3, 5] 3 0) = ''Monday, Wednesday and Friday at 03:00''" by code_simp
  ultimately show ?thesis using describe_covers_builder [of "WeeklyAt [1, 3, 5] 3 0" "''24h''"] by simp
qed

text \<open>A step that does not divide the hour is described as if it did.\<close>

lemma uneven_step_described: "describe (Some ''*/45 * * * *'') ''24h'' = Some ''Every 45 minutes''"
  by code_simp

subsection \<open>The preview\<close>

lemma fires_length: "length (fires sx t n p c) \<le> n"
  by (induction sx t n p c rule: fires.induct) (auto split: option.splits)

text \<open>The preview asks for at most five times, and they are in order where a trigger only ever gives a time after
  the one before.\<close>

lemma fires_increasing:
  assumes later: "\<And>p u. next_fire sx t (Some p) p = Some u \<Longrightarrow> p < u"
  shows "sorted_wrt (<) (fires sx t n p c) \<and> (\<forall>q. p = Some q \<longrightarrow> (\<forall>u \<in> set (fires sx t n p c). q < u))"
proof (induction n arbitrary: p)
  case (Suc n)
  show ?case
  proof (cases "next_fire sx t p (case p of None \<Rightarrow> c | Some q \<Rightarrow> q)")
    case (Some u)
    have "sorted_wrt (<) (fires sx t n (Some u) c)" "\<forall>v \<in> set (fires sx t n (Some u) c). u < v"
      using Suc [of "Some u"] by blast+
    moreover have "q < u" if "p = Some q" for q using that Some later by simp
    ultimately show ?thesis using Some by fastforce
  next
    case None
    then have "fires sx t (Suc n) p c = []" by simp
    then show ?thesis by (simp only:) simp
  qed
qed simp

end
