(* ===== verification/JobAdmin.thy ===== *)
theory JobAdmin
  imports Runs Cron Rcloneconf
begin

text \<open>
  Saving, editing and deleting jobs, and the schedule that follows them: \<open>JobBase\<close> of \<open>app/schemas/job.py\<close>, the job
  endpoints of \<open>app/api/jobs.py\<close>, the job form of \<open>app/web\<close>, and the registration half of \<open>app/jobs/scheduler.py\<close>. A
  trigger is what APScheduler builds from an expression, of a type of its own. An endpoint returns the status code
  of its HTTPException on the left; the session is discarded then, so the state is that before.
\<close>

record job_payload =
  pl_name :: string
  pl_enabled :: bool
  pl_source :: nat
  pl_source_path :: string
  pl_dest :: nat
  pl_dest_path :: string
  pl_engine :: engine
  pl_direction :: direction
  pl_delete_mode :: delete_mode
  pl_archive_base :: "string option"
  pl_archive_layout :: archive_layout
  pl_retention_days :: "int option"
  pl_continuous :: bool
  pl_interval :: int
  pl_idle_interval :: int
  pl_quiet_period :: int
  pl_filters :: job_filters
  pl_presets :: "nat list"
  pl_compare_mode :: compare_mode
  pl_modify_window :: string
  pl_transfers :: "nat option"
  pl_checkers :: "nat option"
  pl_bwlimit :: "string option"
  pl_max_delete_pct :: int
  pl_conflict_resolve :: conflict_resolve
  pl_check_access :: bool
  pl_schedule :: "string option"
  pl_timezone :: string
  pl_timeout :: "int option"
  pl_notify_on :: notify_on

subsection \<open>What may be saved\<close>

datatype payload_error =
    OutOfRange
  | OntoItself
  | BidirectionalDeletes
  | BidirectionalContinuous
  | ContinuousAndScheduled
  | IdleShorter
  | ArchivePathUnused
  | BadSchedule cron_error

definition between :: "int \<Rightarrow> int \<Rightarrow> int option \<Rightarrow> bool" where
  "between lo hi v \<longleftrightarrow> (case v of None \<Rightarrow> True | Some n \<Rightarrow> lo \<le> n \<and> n \<le> hi)"

definition at_least :: "int \<Rightarrow> int option \<Rightarrow> bool" where
  "at_least lo v \<longleftrightarrow> (case v of None \<Rightarrow> True | Some n \<Rightarrow> lo \<le> n)"

definition at_most :: "nat \<Rightarrow> string option \<Rightarrow> bool" where
  "at_most hi v \<longleftrightarrow> (case v of None \<Rightarrow> True | Some s \<Rightarrow> length s \<le> hi)"

definition fields_in_range :: "job_payload \<Rightarrow> bool" where
  "fields_in_range p \<longleftrightarrow>
     1 \<le> length (pl_name p) \<and> length (pl_name p) \<le> 128 \<and>
     at_least 1 (pl_retention_days p) \<and>
     5 \<le> pl_interval p \<and> pl_interval p \<le> 86400 \<and>
     5 \<le> pl_idle_interval p \<and> pl_idle_interval p \<le> 86400 \<and>
     0 \<le> pl_quiet_period p \<and> pl_quiet_period p \<le> 3600 \<and>
     between 1 64 (map_option int (pl_transfers p)) \<and> between 1 256 (map_option int (pl_checkers p)) \<and>
     at_most 32 (pl_bwlimit p) \<and>
     0 \<le> pl_max_delete_pct p \<and> pl_max_delete_pct p \<le> 100 \<and>
     at_most 128 (pl_schedule p) \<and> at_least 1 (pl_timeout p)"

definition scheduled :: "string option \<Rightarrow> bool" where
  "scheduled c \<longleftrightarrow> py_strip (case c of None \<Rightarrow> [] | Some e \<Rightarrow> e) \<noteq> []"

text \<open>The checks of the model validator, in their order.\<close>

definition check_consistency :: "'trig scheduler_ext \<Rightarrow> job_payload \<Rightarrow> payload_error option" where
  "check_consistency sx p =
     (if pl_source p = pl_dest p \<and> strip_slash (pl_source_path p) = strip_slash (pl_dest_path p) then Some OntoItself
      else if pl_direction p = Bidirectional \<and> pl_delete_mode p \<noteq> DelNone then Some BidirectionalDeletes
      else if pl_continuous p \<and> pl_direction p = Bidirectional then Some BidirectionalContinuous
      else if pl_continuous p \<and> scheduled (pl_schedule p) then Some ContinuousAndScheduled
      else if pl_continuous p \<and> pl_idle_interval p < pl_interval p then Some IdleShorter
      else if pl_archive_base p \<notin> {None, Some []} \<and> pl_delete_mode p \<noteq> DelArchive then Some ArchivePathUnused
      else if scheduled (pl_schedule p) then
        (case validate_cron sx (pl_schedule p) (pl_timezone p) of Inl e \<Rightarrow> Some (BadSchedule e) | Inr u \<Rightarrow> None)
      else None)"

definition validate_job :: "'trig scheduler_ext \<Rightarrow> job_payload \<Rightarrow> payload_error option" where
  "validate_job sx p = (if \<not> fields_in_range p then Some OutOfRange else check_consistency sx p)"

subsection \<open>The schedule\<close>

record 'trig admin =
  adm_db :: store
  adm_connections :: "connection list"
  adm_presets :: "filter_preset list"
  adm_running :: bool
  adm_schedule :: "(nat \<times> 'trig) list"

text \<open>The trigger \<open>_register\<close> adds for a job, None where it adds none.\<close>

definition trigger_of :: "'trig scheduler_ext \<Rightarrow> job \<Rightarrow> 'trig option" where
  "trigger_of sx j =
     (if \<not> job_enabled j \<or> \<not> scheduled (schedule_cron j) then None
      else (case build_trigger sx (case schedule_cron j of None \<Rightarrow> [] | Some e \<Rightarrow> e)
                   (if job_timezone j = [] then ''UTC'' else job_timezone j) of
              Inl e \<Rightarrow> None
            | Inr t \<Rightarrow> Some t))"

definition register :: "'trig scheduler_ext \<Rightarrow> job \<Rightarrow> (nat \<times> 'trig) list \<Rightarrow> (nat \<times> 'trig) list" where
  "register sx j reg = (case trigger_of sx j of None \<Rightarrow> reg | Some t \<Rightarrow> dict_put (job_id j) t reg)"

definition reload :: "'trig scheduler_ext \<Rightarrow> 'trig admin \<Rightarrow> 'trig admin" where
  "reload sx a = a\<lparr>adm_schedule := fold (register sx) (db_jobs (adm_db a)) []\<rparr>"

definition start_scheduler :: "'trig scheduler_ext \<Rightarrow> 'trig admin \<Rightarrow> 'trig admin" where
  "start_scheduler sx a = reload sx (a\<lparr>adm_running := True\<rparr>)"

definition resync_schedule :: "'trig scheduler_ext \<Rightarrow> 'trig admin \<Rightarrow> 'trig admin" where
  "resync_schedule sx a = (if adm_running a then reload sx a else a)"

subsection \<open>The endpoints\<close>

definition find_connection :: "connection list \<Rightarrow> nat \<Rightarrow> connection option" where
  "find_connection cs i = List.find (\<lambda>c. conn_id c = i) cs"

definition require_connections :: "connection list \<Rightarrow> job_payload \<Rightarrow> bool" where
  "require_connections cs p \<longleftrightarrow> find_connection cs (pl_source p) \<noteq> None \<and> find_connection cs (pl_dest p) \<noteq> None"

text \<open>\<open>_apply\<close>, with the connections the two columns name. None is its HTTPException.\<close>

definition apply_payload :: "'trig admin \<Rightarrow> job_payload \<Rightarrow> job \<Rightarrow> job option" where
  "apply_payload a p j =
     (let presets = filter (\<lambda>f. preset_id f \<in> set (pl_presets p)) (adm_presets a)
      in if pl_presets p \<noteq> [] \<and> length presets \<noteq> card (set (pl_presets p)) then None
         else Some (j\<lparr>job_name := pl_name p, job_enabled := pl_enabled p,
           source_connection := the (find_connection (adm_connections a) (pl_source p)), source_path := pl_source_path p,
           dest_connection := the (find_connection (adm_connections a) (pl_dest p)), dest_path := pl_dest_path p,
           job_engine := pl_engine p, job_direction := pl_direction p, job_delete_mode := pl_delete_mode p,
           job_archive_base := pl_archive_base p, job_archive_layout := pl_archive_layout p,
           archive_retention_days := pl_retention_days p, job_filters_of := pl_filters p,
           job_filter_presets := (if pl_presets p = [] then [] else presets),
           job_compare_mode := pl_compare_mode p, modify_window := pl_modify_window p,
           job_transfers := pl_transfers p, job_checkers := pl_checkers p, job_bwlimit := pl_bwlimit p,
           max_delete_pct := pl_max_delete_pct p, job_conflict_resolve := pl_conflict_resolve p,
           check_access := pl_check_access p, schedule_cron := pl_schedule p, job_timezone := pl_timezone p,
           continuous := pl_continuous p, continuous_interval_seconds := pl_interval p,
           continuous_idle_interval_seconds := pl_idle_interval p, quiet_period_seconds := pl_quiet_period p,
           timeout_seconds := pl_timeout p, job_notify_on := pl_notify_on p\<rparr>))"

definition next_job_id :: "store \<Rightarrow> nat" where
  "next_job_id st = Suc (foldr (\<lambda>j m. max (job_id j) m) (db_jobs st) 0)"

text \<open>A new row, with the defaults of the columns the payload does not set.\<close>

definition new_job :: "nat \<Rightarrow> job" where
  "new_job i = sample_job\<lparr>job_id := i, last_checked_at := None, bisync_initialized := False\<rparr>"

definition name_taken :: "store \<Rightarrow> nat \<Rightarrow> string \<Rightarrow> bool" where
  "name_taken st i name \<longleftrightarrow> list_ex (\<lambda>j. job_name j = name \<and> job_id j \<noteq> i) (db_jobs st)"

definition create_job :: "'trig scheduler_ext \<Rightarrow> job_payload \<Rightarrow> 'trig admin \<Rightarrow> nat + 'trig admin" where
  "create_job sx p a =
     (let i = next_job_id (adm_db a)
      in if validate_job sx p \<noteq> None then Inl 422
         else if \<not> require_connections (adm_connections a) p then Inl 400
         else (case apply_payload a p (new_job i) of
                 None \<Rightarrow> Inl 400
               | Some j \<Rightarrow>
                   if name_taken (adm_db a) i (pl_name p) then Inl 409
                   else Inr (resync_schedule sx (a\<lparr>adm_db := (adm_db a)\<lparr>db_jobs := db_jobs (adm_db a) @ [j]\<rparr>\<rparr>))))"

definition update_job :: "'trig scheduler_ext \<Rightarrow> nat \<Rightarrow> job_payload \<Rightarrow> 'trig admin \<Rightarrow> nat + 'trig admin" where
  "update_job sx i p a =
     (if validate_job sx p \<noteq> None then Inl 422
      else (case find_job (adm_db a) i of
              None \<Rightarrow> Inl 404
            | Some j \<Rightarrow>
                if \<not> require_connections (adm_connections a) p then Inl 400
                else (case apply_payload a p j of
                        None \<Rightarrow> Inl 400
                      | Some j' \<Rightarrow>
                          if name_taken (adm_db a) i (pl_name p) then Inl 409
                          else Inr (a\<lparr>adm_db := write_job j' (adm_db a)\<rparr>))))"

definition remove_job :: "'trig scheduler_ext \<Rightarrow> nat \<Rightarrow> 'trig admin \<Rightarrow> nat + 'trig admin" where
  "remove_job sx i a =
     (if find_job (adm_db a) i = None then Inl 404
      else Inr (resync_schedule sx (a\<lparr>adm_db := delete_job_row i (adm_db a)\<rparr>)))"

text \<open>The delete button of the page refuses while a run is active; the endpoint does not.\<close>

definition remove_job_form :: "'trig scheduler_ext \<Rightarrow> nat \<Rightarrow> 'trig admin \<Rightarrow> string \<times> 'trig admin" where
  "remove_job_form sx i a =
     (if find_job (adm_db a) i = None then (''/jobs'', a)
      else if active_runs (adm_db a) i \<noteq> [] then (''/jobs/'' @ str_nat i @ ''?error=running'', a)
      else (''/jobs'', resync_schedule sx (a\<lparr>adm_db := delete_job_row i (adm_db a)\<rparr>)))"

subsection \<open>The job form\<close>

text \<open>\<open>StrEnum(value)\<close>: None is the ValueError of a value that is no member.\<close>

definition direction_named :: "string \<Rightarrow> direction option" where
  "direction_named s =
     (if s = ''source_to_dest'' then Some SourceToDest else if s = ''dest_to_source'' then Some DestToSource
      else if s = ''bidirectional'' then Some Bidirectional else None)"

definition delete_mode_named :: "string \<Rightarrow> delete_mode option" where
  "delete_mode_named s =
     (if s = ''none'' then Some DelNone else if s = ''delete'' then Some DelDelete
      else if s = ''archive'' then Some DelArchive else None)"

definition compare_mode_named :: "string \<Rightarrow> compare_mode option" where
  "compare_mode_named s =
     (if s = ''mtime_size'' then Some MtimeSize else if s = ''checksum'' then Some CompareChecksum
      else if s = ''size_only'' then Some SizeOnly else None)"

definition layout_named :: "string \<Rightarrow> archive_layout option" where
  "layout_named s =
     (if s = ''timestamped_dir'' then Some TimestampedDir else if s = ''suffix'' then Some SuffixLayout else None)"

definition resolve_named :: "string \<Rightarrow> conflict_resolve option" where
  "resolve_named s = List.find (\<lambda>c. conflict_value c = s) [CRNewer, CROlder, CRLarger, CRSmaller, CRPath1, CRPath2, CRNone]"

definition notify_named :: "string \<Rightarrow> notify_on option" where
  "notify_named s =
     (if s = ''never'' then Some NotifyNever else if s = ''failure'' then Some NotifyFailure
      else if s = ''always'' then Some NotifyAlways else None)"

type_synonym form = "(string \<times> string) list"

definition given_in :: "form \<Rightarrow> string \<Rightarrow> string" where
  "given_in f k = (case map_of f k of None \<Rightarrow> [] | Some v \<Rightarrow> v)"

definition given_or :: "form \<Rightarrow> string \<Rightarrow> string \<Rightarrow> string" where
  "given_or f k d = (if given_in f k = [] then d else given_in f k)"

definition nonempty :: "string \<Rightarrow> string option" where
  "nonempty s = (if s = [] then None else Some s)"

text \<open>\<open>number\<close>, with \<open>int\<close> of a text as \<open>pint\<close>: the outer None is its ValueError.\<close>

definition form_number :: "(string \<Rightarrow> int option) \<Rightarrow> form \<Rightarrow> string \<Rightarrow> int option option" where
  "form_number pint f k =
     (let raw = py_strip (given_in f k) in if raw = [] then Some None else map_option Some (pint raw))"

definition or_default :: "int \<Rightarrow> int option \<Rightarrow> int" where
  "or_default d v = (case v of None \<Rightarrow> d | Some n \<Rightarrow> if n = 0 then d else n)"

text \<open>None is the ValueError or KeyError the page answers with one sentence. A count below zero is out of range
  like zero is, so \<open>nat\<close> may stand for both.\<close>

definition form_payload :: "(string \<Rightarrow> int option) \<Rightarrow> form \<Rightarrow> nat list \<Rightarrow> job_payload option" where
  "form_payload pint f preset_ids =
     Option.bind (delete_mode_named (given_or f ''delete_mode'' ''none'')) (\<lambda>dm.
     Option.bind (map_of f ''source_connection_id'') (\<lambda>src. Option.bind (pint src) (\<lambda>src_id.
     Option.bind (map_of f ''dest_connection_id'') (\<lambda>dst. Option.bind (pint dst) (\<lambda>dst_id.
     Option.bind (direction_named (given_or f ''direction'' ''source_to_dest'')) (\<lambda>dir.
     Option.bind (compare_mode_named (given_or f ''compare_mode'' ''mtime_size'')) (\<lambda>cmp.
     Option.bind (layout_named (given_or f ''archive_layout'' ''timestamped_dir'')) (\<lambda>layout.
     Option.bind (resolve_named (given_or f ''conflict_resolve'' ''newer'')) (\<lambda>cr.
     Option.bind (notify_named (given_or f ''notify_on'' ''failure'')) (\<lambda>notify.
     Option.bind (form_number pint f ''continuous_interval_seconds'') (\<lambda>interval.
     Option.bind (form_number pint f ''continuous_idle_interval_seconds'') (\<lambda>idle.
     Option.bind (form_number pint f ''quiet_period_seconds'') (\<lambda>quiet.
     Option.bind (form_number pint f ''max_delete_pct'') (\<lambda>pct.
     Option.bind (form_number pint f ''transfers'') (\<lambda>transfers.
     Option.bind (form_number pint f ''checkers'') (\<lambda>checkers.
       Some \<lparr>pl_name = py_strip (given_in f ''name''), pl_enabled = (map_of f ''enabled'' = Some ''true''),
             pl_source = nat src_id, pl_source_path = py_strip (given_in f ''source_path''),
             pl_dest = nat dst_id, pl_dest_path = py_strip (given_in f ''dest_path''),
             pl_engine = EngRclone, pl_direction = dir, pl_delete_mode = dm,
             pl_archive_base = (if dm \<noteq> DelArchive then None else nonempty (py_strip (given_in f ''archive_base''))),
             pl_archive_layout = layout, pl_retention_days = None,
             pl_continuous = (map_of f ''continuous'' = Some ''true''),
             pl_interval = or_default 60 interval, pl_idle_interval = or_default 900 idle,
             pl_quiet_period = (case quiet of None \<Rightarrow> 0 | Some n \<Rightarrow> n),
             pl_filters = \<lparr>flt_include = [], flt_exclude = filter (\<lambda>l. l \<noteq> []) (map py_strip (py_splitlines (given_in f ''filters_exclude''))),
                           flt_min_size = None, flt_max_age = None\<rparr>,
             pl_presets = preset_ids, pl_compare_mode = cmp, pl_modify_window = py_strip (given_or f ''modify_window'' ''1s''),
             pl_transfers = map_option nat transfers, pl_checkers = map_option nat checkers,
             pl_bwlimit = nonempty (py_strip (given_in f ''bwlimit'')),
             pl_max_delete_pct = (case pct of None \<Rightarrow> 0 | Some n \<Rightarrow> n),
             pl_conflict_resolve = cr, pl_check_access = (map_of f ''check_access'' = Some ''true''),
             pl_schedule = nonempty (py_strip (given_in f ''schedule_cron'')),
             pl_timezone = (let z = py_strip (given_or f ''timezone'' ''UTC'') in if z = [] then ''UTC'' else z),
             pl_timeout = None, pl_notify_on = notify\<rparr>))))))))))))))))"

text \<open>\<open>_save_job\<close>: Inl 400 is the form shown again, Inl 500 the IntegrityError of a name that is taken or a connection
  that is gone, which nothing catches here.\<close>

definition save_job_form ::
  "'trig scheduler_ext \<Rightarrow> (string \<Rightarrow> int option) \<Rightarrow> form \<Rightarrow> nat list \<Rightarrow> job option \<Rightarrow> 'trig admin \<Rightarrow> nat + 'trig admin" where
  "save_job_form sx pint f preset_ids job a =
     (case form_payload pint f preset_ids of
        None \<Rightarrow> Inl 400
      | Some p \<Rightarrow>
          if validate_job sx p \<noteq> None then Inl 400
          else
            (let target = (case job of None \<Rightarrow> new_job (next_job_id (adm_db a)) | Some j \<Rightarrow> j)
             in case apply_payload a p target of
                  None \<Rightarrow> Inl 400
                | Some j \<Rightarrow>
                    if \<not> require_connections (adm_connections a) p \<or> name_taken (adm_db a) (job_id j) (pl_name p) then Inl 500
                    else Inr (resync_schedule sx
                           (a\<lparr>adm_db := (if job = None then (adm_db a)\<lparr>db_jobs := db_jobs (adm_db a) @ [j]\<rparr>
                                        else write_job j (adm_db a))\<rparr>))))"

subsection \<open>What a job says it does\<close>

definition describe_job :: "job \<Rightarrow> string" where
  "describe_job j =
     (let back = job_direction j = DestToSource;
          reading = conn_name (if back then dest_connection j else source_connection j);
          writing = conn_name (if back then source_connection j else dest_connection j);
          read_path = (if back then dest_path j else source_path j);
          write_path = (if back then source_path j else dest_path j);
          shown = (\<lambda>p. if p = [] then ''/'' else p);
          schedule = (case schedule_cron j of None \<Rightarrow> [] | Some e \<Rightarrow> e);
          when = (if schedule \<noteq> [] then ''On the schedule '' @ schedule @ '' ('' @ job_timezone j @ '')'' else ''When run'');
          brake = ''up to a brake of '' @ str_int (max_delete_pct j) @ ''% of the destination.''
      in when @ '', copy new and changed files from '' @ reading @ '':'' @ shown read_path @ '' to '' @ writing @ '':'' @
         shown write_path @ ''.'' @
         (case job_delete_mode j of
            DelNone \<Rightarrow> '' Files removed from '' @ reading @ '' are left alone on '' @ writing @ ''.''
          | DelArchive \<Rightarrow>
              '' Files removed from '' @ reading @ '' will be moved into the archive rather than deleted from '' @ writing @
              '', '' @ brake
          | DelDelete \<Rightarrow> '' Files removed from '' @ reading @ '' will be deleted from '' @ writing @ '', '' @ brake) @
         '' Nothing will be written back to '' @ reading @ ''.'')"

subsection \<open>Operations\<close>

datatype admin_op =
    StartScheduler
  | Create job_payload
  | Update nat job_payload
  | Remove nat
  | RemoveForm nat

definition settle_admin :: "'trig admin \<Rightarrow> nat + 'trig admin \<Rightarrow> 'trig admin" where
  "settle_admin a r = (case r of Inl code \<Rightarrow> a | Inr a' \<Rightarrow> a')"

definition admin_do :: "'trig scheduler_ext \<Rightarrow> admin_op \<Rightarrow> 'trig admin \<Rightarrow> 'trig admin" where
  "admin_do sx op a =
     (case op of
        StartScheduler \<Rightarrow> start_scheduler sx a
      | Create p \<Rightarrow> settle_admin a (create_job sx p a)
      | Update i p \<Rightarrow> settle_admin a (update_job sx i p a)
      | Remove i \<Rightarrow> settle_admin a (remove_job sx i a)
      | RemoveForm i \<Rightarrow> snd (remove_job_form sx i a))"

subsection \<open>The schedule follows the table\<close>

definition ids_ok :: "'trig admin \<Rightarrow> bool" where
  "ids_ok a \<longleftrightarrow> distinct (map job_id (db_jobs (adm_db a)))"

definition schedule_ok_for :: "'trig scheduler_ext \<Rightarrow> 'trig admin \<Rightarrow> bool" where
  "schedule_ok_for sx a \<longleftrightarrow>
     (\<forall>i t. map_of (adm_schedule a) i = Some t \<longleftrightarrow>
            (\<exists>j \<in> set (db_jobs (adm_db a)). job_id j = i \<and> trigger_of sx j = Some t))"

lemma fold_register:
  "distinct (map job_id js) \<Longrightarrow>
   map_of (fold (register sx) js reg) i =
     (case List.find (\<lambda>j. job_id j = i) js of
        Some j \<Rightarrow> (case trigger_of sx j of Some t \<Rightarrow> Some t | None \<Rightarrow> map_of reg i)
      | None \<Rightarrow> map_of reg i)"
proof (induction js arbitrary: reg)
  case (Cons j js)
  have none: "List.find (\<lambda>k. job_id k = job_id j) js = None"
    using Cons.prems by (auto simp: find_None_iff image_iff)
  show ?case
    using Cons none by (auto simp: register_def map_of_dict_put split: option.splits)
qed simp

lemma reload_ok: "ids_ok a \<Longrightarrow> schedule_ok_for sx (reload sx a)"
proof -
  assume ids: "ids_ok a"
  let ?js = "db_jobs (adm_db a)"
  have d: "distinct (map job_id ?js)" using ids by (simp add: ids_ok_def)
  have same: "j = k" if "j \<in> set ?js" "k \<in> set ?js" "job_id j = job_id k" for j k
    using d that by (simp add: distinct_map inj_on_def)
  have "(case List.find (\<lambda>j. job_id j = i) ?js of
           Some j \<Rightarrow> (case trigger_of sx j of Some t \<Rightarrow> Some t | None \<Rightarrow> None) | None \<Rightarrow> None) = Some t \<longleftrightarrow>
        (\<exists>j \<in> set ?js. job_id j = i \<and> trigger_of sx j = Some t)" for i t
  proof (cases "List.find (\<lambda>j. job_id j = i) ?js")
    case None
    then have "\<forall>j \<in> set ?js. job_id j \<noteq> i" by (simp add: find_None_iff)
    then show ?thesis by (subst None) auto
  next
    case (Some j)
    then have j: "j \<in> set ?js" "job_id j = i" by (auto simp: find_Some_iff)
    have "(\<exists>k \<in> set ?js. job_id k = i \<and> trigger_of sx k = Some t) \<longleftrightarrow> trigger_of sx j = Some t"
      using j same by blast
    then show ?thesis using Some by (simp split: option.split)
  qed
  then show ?thesis
    unfolding schedule_ok_for_def reload_def admin.select_convs admin.update_convs fold_register [OF d] map_of.simps
    by (simp add: fold_register [OF d] cong: option.case_cong)
qed

lemma reload_simps [simp]: "adm_db (reload sx a) = adm_db a" "adm_running (reload sx a) = adm_running a"
  "ids_ok (reload sx a) = ids_ok a"
  by (simp_all add: reload_def ids_ok_def)

lemma resync_simps [simp]: "adm_db (resync_schedule sx a) = adm_db a" "adm_running (resync_schedule sx a) = adm_running a"
  "ids_ok (resync_schedule sx a) = ids_ok a"
  by (simp_all add: resync_schedule_def ids_ok_def)

lemma resync_ok: "ids_ok a \<Longrightarrow> adm_running a \<Longrightarrow> schedule_ok_for sx (resync_schedule sx a)"
  by (simp add: resync_schedule_def reload_ok)

lemma job_id_le_max: "j \<in> set js \<Longrightarrow> job_id j \<le> foldr (\<lambda>j m. max (job_id j) m) js 0"
  by (induction js) auto

lemma next_job_id_fresh: "next_job_id st \<notin> job_id ` set (db_jobs st)"
  using job_id_le_max by (fastforce simp: next_job_id_def)

lemma apply_payload_id: "apply_payload a p j = Some j' \<Longrightarrow> job_id j' = job_id j"
  by (auto simp: apply_payload_def Let_def split: if_splits)

lemma create_jobD:
  assumes "create_job sx p a = Inr a'"
  shows "\<exists>j. apply_payload a p (new_job (next_job_id (adm_db a))) = Some j \<and> job_id j = next_job_id (adm_db a) \<and>
             validate_job sx p = None \<and> require_connections (adm_connections a) p \<and>
             a' = resync_schedule sx (a\<lparr>adm_db := (adm_db a)\<lparr>db_jobs := db_jobs (adm_db a) @ [j]\<rparr>\<rparr>)"
proof -
  obtain j where j: "apply_payload a p (new_job (next_job_id (adm_db a))) = Some j"
    using assms by (auto simp: create_job_def Let_def split: if_splits option.splits)
  then have "job_id j = next_job_id (adm_db a)" using apply_payload_id by (fastforce simp: new_job_def)
  then show ?thesis using assms j by (auto simp: create_job_def Let_def split: if_splits)
qed

lemma update_jobD:
  assumes "update_job sx i p a = Inr a'"
  shows "\<exists>j j'. find_job (adm_db a) i = Some j \<and> apply_payload a p j = Some j' \<and> job_id j' = job_id j \<and>
                validate_job sx p = None \<and> require_connections (adm_connections a) p \<and>
                a' = a\<lparr>adm_db := write_job j' (adm_db a)\<rparr>"
  using assms apply_payload_id by (fastforce simp: update_job_def split: if_splits option.splits)

lemma ids_append:
  "ids_ok a \<Longrightarrow> job_id j = next_job_id (adm_db a) \<Longrightarrow>
   ids_ok (a\<lparr>adm_db := (adm_db a)\<lparr>db_jobs := db_jobs (adm_db a) @ [j]\<rparr>\<rparr>)"
  using next_job_id_fresh [of "adm_db a"] by (auto simp: ids_ok_def)

lemma ids_delete: "ids_ok a \<Longrightarrow> ids_ok (a\<lparr>adm_db := delete_job_row i (adm_db a)\<rparr>)"
  by (simp add: ids_ok_def delete_job_row_def Let_def distinct_map_filter)

lemma ids_write: "ids_ok a \<Longrightarrow> ids_ok (a\<lparr>adm_db := write_job j (adm_db a)\<rparr>)"
proof -
  have "map job_id (map (\<lambda>k. if job_id k = job_id j then j else k) js) = map job_id js" for js
    by (induction js) auto
  note same = this [of "db_jobs (adm_db a)"]
  have "db_jobs (adm_db (a\<lparr>adm_db := write_job j (adm_db a)\<rparr>)) = map (\<lambda>k. if job_id k = job_id j then j else k) (db_jobs (adm_db a))"
    by (simp add: write_job_def)
  then show "ids_ok a \<Longrightarrow> ?thesis" unfolding ids_ok_def by (simp only: same)
qed

lemma admin_ids: "ids_ok a \<Longrightarrow> ids_ok (admin_do sx op a)"
proof (cases op)
  case StartScheduler
  then show "ids_ok a \<Longrightarrow> ?thesis" by (simp add: admin_do_def start_scheduler_def ids_ok_def)
next
  case (Create p)
  assume ids: "ids_ok a"
  show ?thesis
  proof (cases "create_job sx p a")
    case (Inr a')
    then show ?thesis using create_jobD [OF Inr] ids_append [OF ids] Create by (auto simp: admin_do_def settle_admin_def)
  qed (simp add: Create admin_do_def settle_admin_def ids)
next
  case (Update i p)
  assume ids: "ids_ok a"
  show ?thesis
  proof (cases "update_job sx i p a")
    case (Inr a')
    then show ?thesis using update_jobD [OF Inr] ids_write [OF ids] Update by (auto simp: admin_do_def settle_admin_def)
  qed (simp add: Update admin_do_def settle_admin_def ids)
next
  case (Remove i)
  then show "ids_ok a \<Longrightarrow> ?thesis" using ids_delete by (auto simp: admin_do_def settle_admin_def remove_job_def)
next
  case (RemoveForm i)
  then show "ids_ok a \<Longrightarrow> ?thesis" using ids_delete by (auto simp: admin_do_def remove_job_form_def)
qed

definition patches :: "admin_op \<Rightarrow> bool" where
  "patches op \<longleftrightarrow> (case op of Update i p \<Rightarrow> True | _ \<Rightarrow> False)"

definition follows :: "'trig scheduler_ext \<Rightarrow> 'trig admin \<Rightarrow> bool" where
  "follows sx a \<longleftrightarrow> ids_ok a \<and> (adm_running a \<longrightarrow> schedule_ok_for sx a)"

lemma followsI: "ids_ok a \<Longrightarrow> (adm_running a \<Longrightarrow> schedule_ok_for sx a) \<Longrightarrow> follows sx a"
  by (simp add: follows_def)

lemma admin_follows:
  assumes "follows sx a" "\<not> patches op"
  shows "follows sx (admin_do sx op a)"
proof (rule followsI)
  have ids: "ids_ok a" using assms(1) by (simp add: follows_def)
  show "ids_ok (admin_do sx op a)" by (rule admin_ids [OF ids])
  assume run: "adm_running (admin_do sx op a)"
  have resync: "schedule_ok_for sx (resync_schedule sx b)" if "ids_ok b" "adm_running b" for b
    using resync_ok that by blast
  show "schedule_ok_for sx (admin_do sx op a)"
  proof (cases op)
    case StartScheduler
    have "ids_ok (a\<lparr>adm_running := True\<rparr>)" using ids by (simp add: ids_ok_def)
    then show ?thesis using StartScheduler by (simp add: admin_do_def start_scheduler_def reload_ok)
  next
    case (Create p)
    show ?thesis
    proof (cases "create_job sx p a")
      case (Inl code)
      then show ?thesis using assms(1) run Create by (simp add: admin_do_def settle_admin_def follows_def)
    next
      case (Inr a')
      then show ?thesis
        using create_jobD [OF Inr] ids_append [OF ids] run resync Create by (auto simp: admin_do_def settle_admin_def)
    qed
  next
    case (Update i p)
    then show ?thesis using assms(2) by (simp add: patches_def)
  next
    case (Remove i)
    then show ?thesis
      using assms(1) run ids_delete [OF ids] resync
      by (auto simp: admin_do_def settle_admin_def remove_job_def follows_def split: if_splits)
  next
    case (RemoveForm i)
    then show ?thesis
      using assms(1) run ids_delete [OF ids] resync
      by (auto simp: admin_do_def remove_job_form_def follows_def split: if_splits)
  qed
qed


subsection \<open>What is saved is consistent\<close>

definition job_consistent :: "'trig scheduler_ext \<Rightarrow> job \<Rightarrow> bool" where
  "job_consistent sx j \<longleftrightarrow>
     0 \<le> max_delete_pct j \<and> max_delete_pct j \<le> 100 \<and>
     (job_direction j = Bidirectional \<longrightarrow> job_delete_mode j = DelNone \<and> \<not> continuous j) \<and>
     (continuous j \<longrightarrow> \<not> scheduled (schedule_cron j) \<and> 5 \<le> continuous_interval_seconds j \<and>
        continuous_interval_seconds j \<le> continuous_idle_interval_seconds j) \<and>
     (job_archive_base j \<notin> {None, Some []} \<longrightarrow> job_delete_mode j = DelArchive) \<and>
     (job_enabled j \<and> scheduled (schedule_cron j) \<longrightarrow> trigger_of sx j \<noteq> None) \<and>
     \<not> (conn_id (source_connection j) = conn_id (dest_connection j) \<and>
        strip_slash (source_path j) = strip_slash (dest_path j))"

lemma find_connection_Some: "find_connection cs i = Some c \<Longrightarrow> conn_id c = i"
  by (auto simp: find_connection_def find_Some_iff)

lemma validated_schedule:
  assumes "validate_cron sx c zone = Inr ()" "scheduled c"
  shows "\<exists>e t. c = Some e \<and> build_trigger sx e zone = Inr t"
proof (cases c)
  case None
  then show ?thesis using assms(2) by (simp add: scheduled_def py_strip_def strip_if_def)
next
  case (Some e)
  then have "py_strip e \<noteq> []" using assms(2) by (simp add: scheduled_def)
  then show ?thesis using assms(1) Some by (cases "build_trigger sx e zone") (auto simp: validate_cron_def)
qed

lemma build_trigger_utc: "build_trigger sx e (if z = [] then ''UTC'' else z) = Inr t \<longleftrightarrow> build_trigger sx e z = Inr t"
  by (auto simp: build_trigger_def Let_def split: crontab.splits)

lemma applied_consistent:
  assumes v: "validate_job sx p = None" and c: "require_connections (adm_connections a) p"
    and ap: "apply_payload a p j = Some j'"
  shows "job_consistent sx j'"
proof -
  have chk: "check_consistency sx p = None" and rng: "fields_in_range p"
    using v by (auto simp: validate_job_def split: if_splits)
  have f: "max_delete_pct j' = pl_max_delete_pct p" "job_direction j' = pl_direction p" "job_delete_mode j' = pl_delete_mode p"
    "continuous j' = pl_continuous p" "schedule_cron j' = pl_schedule p" "job_archive_base j' = pl_archive_base p"
    "continuous_interval_seconds j' = pl_interval p" "continuous_idle_interval_seconds j' = pl_idle_interval p"
    "job_timezone j' = pl_timezone p" "source_path j' = pl_source_path p" "dest_path j' = pl_dest_path p"
    "source_connection j' = the (find_connection (adm_connections a) (pl_source p))"
    "dest_connection j' = the (find_connection (adm_connections a) (pl_dest p))"
    using ap by (auto simp: apply_payload_def Let_def split: if_splits)
  obtain cs cd where "find_connection (adm_connections a) (pl_source p) = Some cs"
    "find_connection (adm_connections a) (pl_dest p) = Some cd"
    using c by (auto simp: require_connections_def)
  then have ids: "conn_id (source_connection j') = pl_source p" "conn_id (dest_connection j') = pl_dest p"
    using find_connection_Some f by auto
  have sch: "trigger_of sx j' \<noteq> None" if en: "job_enabled j'" and sched: "scheduled (pl_schedule p)"
  proof -
    have "validate_cron sx (pl_schedule p) (pl_timezone p) = Inr ()"
      using chk sched by (auto simp: check_consistency_def split: if_splits sum.splits)
    then obtain e t where e: "pl_schedule p = Some e" "build_trigger sx e (pl_timezone p) = Inr t"
      using validated_schedule sched by blast
    then have "build_trigger sx e (if pl_timezone p = [] then ''UTC'' else pl_timezone p) = Inr t"
      by (simp only: build_trigger_utc)
    then have "trigger_of sx j' = Some t"
      using en sched unfolding trigger_of_def f e(1) option.case by simp
    then show ?thesis by simp
  qed
  have rest: "\<not> (pl_source p = pl_dest p \<and> strip_slash (pl_source_path p) = strip_slash (pl_dest_path p))"
    "pl_direction p = Bidirectional \<Longrightarrow> pl_delete_mode p = DelNone \<and> \<not> pl_continuous p"
    "pl_continuous p \<Longrightarrow> \<not> scheduled (pl_schedule p) \<and> pl_interval p \<le> pl_idle_interval p"
    "pl_archive_base p \<notin> {None, Some []} \<Longrightarrow> pl_delete_mode p = DelArchive"
    using chk by (auto simp: check_consistency_def split: if_splits)
  show ?thesis
    unfolding job_consistent_def ids unfolding f using sch rest rng by (auto simp: fields_in_range_def)
qed

lemma consistent_created:
  assumes "create_job sx p a = Inr a'"
  shows "\<exists>j. job_consistent sx j \<and> db_jobs (adm_db a') = db_jobs (adm_db a) @ [j]"
proof -
  obtain j where j: "apply_payload a p (new_job (next_job_id (adm_db a))) = Some j" "validate_job sx p = None"
    "require_connections (adm_connections a) p"
    "a' = resync_schedule sx (a\<lparr>adm_db := (adm_db a)\<lparr>db_jobs := db_jobs (adm_db a) @ [j]\<rparr>\<rparr>)"
    using create_jobD [OF assms] by blast
  show ?thesis using applied_consistent [OF j(2,3,1)] by (simp add: j(4))
qed

lemma admin_consistent:
  assumes "list_all (job_consistent sx) (db_jobs (adm_db a))"
  shows "list_all (job_consistent sx) (db_jobs (adm_db (admin_do sx op a)))"
proof (cases op)
  case StartScheduler
  then show ?thesis using assms by (simp add: admin_do_def start_scheduler_def)
next
  case (Create p)
  show ?thesis
  proof (cases "create_job sx p a")
    case (Inr a')
    then show ?thesis
      using consistent_created [OF Inr] assms Create Inr by (auto simp: admin_do_def settle_admin_def)
  qed (simp add: Create admin_do_def settle_admin_def assms)
next
  case (Update i p)
  show ?thesis
  proof (cases "update_job sx i p a")
    case (Inr a')
    then obtain j' where "job_consistent sx j'" "a' = a\<lparr>adm_db := write_job j' (adm_db a)\<rparr>"
      using update_jobD [OF Inr] applied_consistent by blast
    then show ?thesis using assms Inr Update by (simp add: admin_do_def settle_admin_def write_job_def list_all_iff) blast
  qed (simp add: Update admin_do_def settle_admin_def assms)
next
  case (Remove i)
  then show ?thesis using assms by (auto simp: admin_do_def settle_admin_def remove_job_def delete_job_row_def Let_def list_all_iff)
next
  case (RemoveForm i)
  then show ?thesis using assms by (auto simp: admin_do_def remove_job_form_def delete_job_row_def Let_def list_all_iff)
qed


subsection \<open>Concrete values\<close>

definition sample_payload_job :: job_payload where
  "sample_payload_job =
     \<lparr>pl_name = ''nightly'', pl_enabled = True, pl_source = 1, pl_source_path = ''a'', pl_dest = 1, pl_dest_path = ''b'',
      pl_engine = EngRclone, pl_direction = SourceToDest, pl_delete_mode = DelNone, pl_archive_base = None,
      pl_archive_layout = TimestampedDir, pl_retention_days = None, pl_continuous = False, pl_interval = 60,
      pl_idle_interval = 900, pl_quiet_period = 0,
      pl_filters = \<lparr>flt_include = [''*.jpg''], flt_exclude = [], flt_min_size = None, flt_max_age = None\<rparr>,
      pl_presets = [], pl_compare_mode = MtimeSize, pl_modify_window = ''1s'', pl_transfers = None, pl_checkers = None,
      pl_bwlimit = None, pl_max_delete_pct = 20, pl_conflict_resolve = CRNewer, pl_check_access = False,
      pl_schedule = Some ''30 2 * * *'', pl_timezone = ''UTC'', pl_timeout = None, pl_notify_on = NotifyFailure\<rparr>"

definition sample_cron :: "string scheduler_ext" where
  "sample_cron = \<lparr>from_crontab = (\<lambda>e z. if length (py_split e) = 5 then Trigger e else Malformed), next_fire = (\<lambda>t p c. None)\<rparr>"

definition sample_admin :: "string admin" where
  "sample_admin = \<lparr>adm_db = \<lparr>db_jobs = [], db_runs = [], db_changes = []\<rparr>, adm_connections = [sample_connection],
                   adm_presets = [], adm_running = False, adm_schedule = []\<rparr>"

lemma sample_admin_runs:
  "adm_running (fold (admin_do sample_cron) [StartScheduler, Create sample_payload_job] sample_admin)"
  "map job_name (db_jobs (adm_db (fold (admin_do sample_cron) [StartScheduler, Create sample_payload_job] sample_admin))) =
     [''nightly'']"
  "adm_schedule (fold (admin_do sample_cron) [StartScheduler, Create sample_payload_job] sample_admin) = [(1, ''30 2 * * *'')]"
  by code_simp+



subsection \<open>What falls outside\<close>

text \<open>An edit through the API leaves the scheduler with the schedule of before.\<close>

lemma patch_leaves_schedule:
  "adm_schedule (fold (admin_do sample_cron)
     [StartScheduler, Create sample_payload_job, Update 1 (sample_payload_job\<lparr>pl_schedule := Some ''0 5 * * *''\<rparr>)] sample_admin) =
     [(1, ''30 2 * * *'')]"
  "map schedule_cron (db_jobs (adm_db (fold (admin_do sample_cron)
     [StartScheduler, Create sample_payload_job, Update 1 (sample_payload_job\<lparr>pl_schedule := Some ''0 5 * * *''\<rparr>)] sample_admin))) =
     [Some ''0 5 * * *'']"
  by code_simp+

text \<open>The check against syncing a directory onto itself compares paths as they are written, where the run drops the
  components that are a dot; and it lets a destination inside the source through.\<close>

lemma dotted_path_accepted:
  "validate_job sample_cron (sample_payload_job\<lparr>pl_dest_path := ''./a''\<rparr>) = None"
  "validate_job sample_cron (sample_payload_job\<lparr>pl_dest_path := ''a/b''\<rparr>) = None"
  "join_subpath ''/srv'' (Some ''./a'') = join_subpath ''/srv'' (Some ''a'')"
  by code_simp+

text \<open>Whatever the form holds, a job saved through the page has no includes, no limits on size and age, no retention of its
  own and no time limit: what the API had set there is gone.\<close>

lemma page_drops_filters:
  assumes "form_payload pint f preset_ids = Some p"
  shows "flt_include (pl_filters p) = [] \<and> flt_min_size (pl_filters p) = None \<and> flt_max_age (pl_filters p) = None \<and>
         pl_retention_days p = None \<and> pl_timeout p = None"
  using assms by (auto simp: form_payload_def bind_eq_Some_conv)

text \<open>A bidirectional job is described as one way.\<close>

lemma bidirectional_described_one_way:
  "suffix '' Nothing will be written back to nas.'' (describe_job (sample_job\<lparr>job_direction := Bidirectional, job_delete_mode := DelNone\<rparr>))"
  by code_simp

end
