(* ===== verification/Catalog.thy ===== *)
theory Catalog
  imports JobAdmin Engine
begin

text \<open>
  Credentials, connections and filter presets: \<open>app/schemas/connection.py\<close> and \<open>credential.py\<close>, the endpoints of
  \<open>app/api/connections.py\<close>, \<open>credentials.py\<close> and \<open>presets.py\<close>, the forms of \<open>app/web\<close> for presets and for deleting
  connections, and \<open>app/filter_presets.py\<close>. The tables are those of \<open>JobAdmin\<close> with the credentials added. A row that
  another row refers to is held there as the object the relationship loads, so writing a row writes it
  everywhere it is referred to. \<open>enc\<close> is the encryption and \<open>loads\<close> is \<open>json.loads\<close>. An endpoint returns the status
  code of its refusal on the left.
\<close>

record 'trig catalog =
  cat_admin :: "'trig admin"
  cat_credentials :: "credential list"

definition cat_connections :: "'trig catalog \<Rightarrow> connection list" where
  "cat_connections s = adm_connections (cat_admin s)"

definition cat_presets :: "'trig catalog \<Rightarrow> filter_preset list" where
  "cat_presets s = adm_presets (cat_admin s)"

definition cat_jobs :: "'trig catalog \<Rightarrow> job list" where
  "cat_jobs s = db_jobs (adm_db (cat_admin s))"

subsection \<open>Statements\<close>

definition with_connections :: "(connection list \<Rightarrow> connection list) \<Rightarrow> 'trig catalog \<Rightarrow> 'trig catalog" where
  "with_connections f s = s\<lparr>cat_admin := (cat_admin s)\<lparr>adm_connections := f (cat_connections s)\<rparr>\<rparr>"

definition with_presets :: "(filter_preset list \<Rightarrow> filter_preset list) \<Rightarrow> 'trig catalog \<Rightarrow> 'trig catalog" where
  "with_presets f s = s\<lparr>cat_admin := (cat_admin s)\<lparr>adm_presets := f (cat_presets s)\<rparr>\<rparr>"

definition with_jobs :: "(job list \<Rightarrow> job list) \<Rightarrow> 'trig catalog \<Rightarrow> 'trig catalog" where
  "with_jobs f s = s\<lparr>cat_admin := (cat_admin s)\<lparr>adm_db := (adm_db (cat_admin s))\<lparr>db_jobs := f (cat_jobs s)\<rparr>\<rparr>\<rparr>"

definition next_id :: "('a \<Rightarrow> nat) \<Rightarrow> 'a list \<Rightarrow> nat" where
  "next_id key xs = Suc (foldr (\<lambda>x m. max (key x) m) xs 0)"

definition replace_by :: "('a \<Rightarrow> nat) \<Rightarrow> 'a \<Rightarrow> 'a \<Rightarrow> 'a" where
  "replace_by key new old = (if key old = key new then new else old)"

definition map_endpoints :: "(connection \<Rightarrow> connection) \<Rightarrow> job \<Rightarrow> job" where
  "map_endpoints f j = j\<lparr>source_connection := f (source_connection j), dest_connection := f (dest_connection j)\<rparr>"

definition write_connection :: "connection \<Rightarrow> 'trig catalog \<Rightarrow> 'trig catalog" where
  "write_connection c s =
     with_jobs (map (map_endpoints (replace_by conn_id c))) (with_connections (map (replace_by conn_id c)) s)"

definition map_credential :: "(credential \<Rightarrow> credential) \<Rightarrow> connection \<Rightarrow> connection" where
  "map_credential f c = c\<lparr>conn_credential := map_option f (conn_credential c)\<rparr>"

definition write_credential :: "credential \<Rightarrow> 'trig catalog \<Rightarrow> 'trig catalog" where
  "write_credential cr s =
     (let f = map_credential (replace_by cred_id cr)
      in with_jobs (map (map_endpoints f)) (with_connections (map f)
           (s\<lparr>cat_credentials := map (replace_by cred_id cr) (cat_credentials s)\<rparr>)))"

definition map_presets :: "(filter_preset \<Rightarrow> filter_preset) \<Rightarrow> job \<Rightarrow> job" where
  "map_presets f j = j\<lparr>job_filter_presets := map f (job_filter_presets j)\<rparr>"

definition write_preset :: "filter_preset \<Rightarrow> 'trig catalog \<Rightarrow> 'trig catalog" where
  "write_preset p s =
     with_jobs (map (map_presets (replace_by preset_id p))) (with_presets (map (replace_by preset_id p)) s)"

definition taken :: "('a \<Rightarrow> nat) \<Rightarrow> ('a \<Rightarrow> string) \<Rightarrow> 'a list \<Rightarrow> nat \<Rightarrow> string \<Rightarrow> bool" where
  "taken key name_of xs i name \<longleftrightarrow> list_ex (\<lambda>x. name_of x = name \<and> key x \<noteq> i) xs"

definition row :: "('a \<Rightarrow> nat) \<Rightarrow> 'a list \<Rightarrow> nat \<Rightarrow> 'a option" where
  "row key xs i = List.find (\<lambda>x. key x = i) xs"

subsection \<open>Credentials\<close>

record credential_create =
  cc_name :: string
  cc_kind :: credential_kind
  cc_secret :: string
  cc_passphrase :: "string option"
  cc_obscured :: bool

record credential_update =
  cu_name :: "string option"
  cu_secret :: "string option"
  cu_passphrase :: "string option"
  cu_obscured :: "bool option"

definition MAX_SECRET_LENGTH :: nat where "MAX_SECRET_LENGTH = 65536"

definition name_fits :: "string \<Rightarrow> bool" where
  "name_fits name \<longleftrightarrow> 1 \<le> length name \<and> length name \<le> 128"

definition secret_fits :: "string \<Rightarrow> bool" where
  "secret_fits s \<longleftrightarrow> 1 \<le> length s \<and> length s \<le> MAX_SECRET_LENGTH"

definition holds_some :: "string option \<Rightarrow> bool" where
  "holds_some v \<longleftrightarrow> v \<notin> {None, Some []}"

definition valid_credential :: "(string \<Rightarrow> json option) \<Rightarrow> credential_create \<Rightarrow> bool" where
  "valid_credential loads p \<longleftrightarrow>
     name_fits (cc_name p) \<and> secret_fits (cc_secret p) \<and> at_most MAX_SECRET_LENGTH (cc_passphrase p) \<and>
     (cc_kind p = CkBackendSecret \<longrightarrow> (case loads (cc_secret p) of Some (JObj d) \<Rightarrow> d \<noteq> [] | _ \<Rightarrow> False)) \<and>
     (holds_some (cc_passphrase p) \<longrightarrow> cc_kind p = CkSshKey)"

definition encrypted :: "(string \<Rightarrow> string) \<Rightarrow> string option \<Rightarrow> string option" where
  "encrypted enc v = (if holds_some v then map_option enc v else None)"

definition create_credential ::
  "(string \<Rightarrow> string) \<Rightarrow> (string \<Rightarrow> json option) \<Rightarrow> credential_create \<Rightarrow> 'trig catalog \<Rightarrow> nat + 'trig catalog" where
  "create_credential enc loads p s =
     (let i = next_id cred_id (cat_credentials s)
      in if \<not> valid_credential loads p then Inl 422
         else if taken cred_id cred_name (cat_credentials s) i (cc_name p) then Inl 409
         else Inr (s\<lparr>cat_credentials := cat_credentials s @
                [\<lparr>cred_id = i, cred_name = cc_name p, cred_kind = cc_kind p, secret_ciphertext = enc (cc_secret p),
                  key_passphrase_ciphertext = encrypted enc (cc_passphrase p), is_obscured = cc_obscured p\<rparr>]\<rparr>))"

definition valid_credential_update :: "credential_update \<Rightarrow> bool" where
  "valid_credential_update p \<longleftrightarrow>
     (case cu_name p of None \<Rightarrow> True | Some n \<Rightarrow> name_fits n) \<and>
     (case cu_secret p of None \<Rightarrow> True | Some s \<Rightarrow> secret_fits s) \<and> at_most MAX_SECRET_LENGTH (cu_passphrase p)"

definition apply_credential :: "(string \<Rightarrow> string) \<Rightarrow> credential_update \<Rightarrow> credential \<Rightarrow> credential" where
  "apply_credential enc p cr =
     cr\<lparr>cred_name := (case cu_name p of None \<Rightarrow> cred_name cr | Some n \<Rightarrow> n),
        secret_ciphertext := (case cu_secret p of None \<Rightarrow> secret_ciphertext cr | Some v \<Rightarrow> enc v),
        key_passphrase_ciphertext :=
          (if cu_passphrase p = None then key_passphrase_ciphertext cr else encrypted enc (cu_passphrase p)),
        is_obscured := (case cu_obscured p of None \<Rightarrow> is_obscured cr | Some b \<Rightarrow> b)\<rparr>"

definition update_credential ::
  "(string \<Rightarrow> string) \<Rightarrow> nat \<Rightarrow> credential_update \<Rightarrow> 'trig catalog \<Rightarrow> nat + 'trig catalog" where
  "update_credential enc i p s =
     (if \<not> valid_credential_update p then Inl 422
      else (case row cred_id (cat_credentials s) i of
              None \<Rightarrow> Inl 404
            | Some cr \<Rightarrow>
                (let cr' = apply_credential enc p cr
                 in if taken cred_id cred_name (cat_credentials s) i (cred_name cr') then Inl 409
                    else Inr (write_credential cr' s))))"

definition users_of :: "'trig catalog \<Rightarrow> nat \<Rightarrow> string list" where
  "users_of s i =
     map conn_name (filter (\<lambda>c. map_option cred_id (conn_credential c) = Some i) (cat_connections s))"

definition delete_credential :: "nat \<Rightarrow> 'trig catalog \<Rightarrow> nat + 'trig catalog" where
  "delete_credential i s =
     (if row cred_id (cat_credentials s) i = None then Inl 404
      else if users_of s i \<noteq> [] then Inl 409
      else Inr (s\<lparr>cat_credentials := filter (\<lambda>cr. cred_id cr \<noteq> i) (cat_credentials s)\<rparr>))"

subsection \<open>Connections\<close>

record connection_payload =
  cp_name :: string
  cp_type :: connection_type
  cp_host :: "string option"
  cp_port :: "nat option"
  cp_share :: "string option"
  cp_base_path :: string
  cp_username :: "string option"
  cp_credential :: "nat option"
  cp_extra_opts :: "(string \<times> json) list"
  cp_rclone_mode :: "rclone_mode option"
  cp_remote_name :: "string option"
  cp_backend_type :: "string option"
  cp_sentinel :: "string option"

datatype connection_error =
    FieldOutOfRange
  | HostMissing
  | ShareMissing
  | ShareElsewhere
  | ModeMissing
  | BackendMissing
  | RemoteMissing
  | ModeElsewhere
  | SentinelElsewhere
  | BasePathMissing

definition connection_fields_fit :: "connection_payload \<Rightarrow> bool" where
  "connection_fields_fit p \<longleftrightarrow>
     name_fits (cp_name p) \<and> at_most 255 (cp_host p) \<and> between 1 65535 (map_option int (cp_port p)) \<and>
     at_most 255 (cp_share p) \<and> at_most 255 (cp_username p) \<and> at_most 128 (cp_remote_name p) \<and>
     at_most 64 (cp_backend_type p) \<and> at_most 255 (cp_sentinel p)"

definition mode_error :: "connection_payload \<Rightarrow> connection_error option" where
  "mode_error p =
     (if cp_type p = CtRcloneRemote then
        (case cp_rclone_mode p of
           None \<Rightarrow> Some ModeMissing
         | Some RmInline \<Rightarrow> if holds_some (cp_backend_type p) then None else Some BackendMissing
         | Some RmImported \<Rightarrow> if holds_some (cp_remote_name p) then None else Some RemoteMissing)
      else if cp_rclone_mode p \<noteq> None then Some ModeElsewhere else None)"

definition check_connection :: "connection_payload \<Rightarrow> connection_error option" where
  "check_connection p =
     (if \<not> connection_fields_fit p then Some FieldOutOfRange
      else if cp_type p \<in> {CtSftp, CtFtp, CtFtps, CtSmb} \<and> \<not> holds_some (cp_host p) then Some HostMissing
      else if cp_type p = CtSmb \<and> \<not> holds_some (cp_share p) then Some ShareMissing
      else if cp_type p \<noteq> CtSmb \<and> holds_some (cp_share p) then Some ShareElsewhere
      else if mode_error p \<noteq> None then mode_error p
      else if holds_some (cp_sentinel p) \<and> cp_type p \<noteq> CtLocal then Some SentinelElsewhere
      else if cp_type p = CtLocal \<and> cp_base_path p = [] then Some BasePathMissing
      else None)"

text \<open>The credential the column names, None a foreign key that fails.\<close>

definition credential_named :: "credential list \<Rightarrow> nat option \<Rightarrow> credential option option" where
  "credential_named crs v = (case v of None \<Rightarrow> Some None | Some i \<Rightarrow> map_option Some (row cred_id crs i))"

definition apply_connection :: "connection_payload \<Rightarrow> credential option \<Rightarrow> connection \<Rightarrow> connection" where
  "apply_connection p cr c =
     c\<lparr>conn_name := cp_name p, conn_type := cp_type p, conn_host := cp_host p, conn_port := cp_port p,
       conn_share := cp_share p, base_path := cp_base_path p, conn_username := cp_username p, conn_credential := cr,
       extra_opts := cp_extra_opts p, conn_rclone_mode := cp_rclone_mode p, rclone_remote_name := cp_remote_name p,
       rclone_backend_type := cp_backend_type p, sentinel_file := cp_sentinel p\<rparr>"

definition identity_of :: "connection \<Rightarrow> connection_type \<times> string option \<times> nat option \<times> string option" where
  "identity_of c = (conn_type c, conn_host c, conn_port c, conn_share c)"

text \<open>A new row has the defaults of its columns.\<close>

definition new_connection :: "nat \<Rightarrow> connection" where
  "new_connection i =
     \<lparr>conn_id = i, conn_name = [], conn_type = CtLocal, conn_host = None, conn_port = None, conn_share = None,
      base_path = [], conn_username = None, conn_credential = None, extra_opts = [], conn_rclone_mode = None,
      rclone_remote_name = None, rclone_backend_type = None, conn_capabilities = None, capabilities_probed_at = None,
      sentinel_file = None, host_keys = None, host_keys_trusted = False, last_test_at = None, last_test_ok = None,
      last_test_error = None\<rparr>"

definition create_connection :: "connection_payload \<Rightarrow> 'trig catalog \<Rightarrow> nat + 'trig catalog" where
  "create_connection p s =
     (let i = next_id conn_id (cat_connections s)
      in if check_connection p \<noteq> None then Inl 422
         else (case credential_named (cat_credentials s) (cp_credential p) of
                 None \<Rightarrow> Inl 409
               | Some cr \<Rightarrow>
                   if taken conn_id conn_name (cat_connections s) i (cp_name p) then Inl 409
                   else Inr (with_connections (\<lambda>cs. cs @ [apply_connection p cr (new_connection i)]) s)))"

definition edit_connection :: "connection_payload \<Rightarrow> credential option \<Rightarrow> connection \<Rightarrow> connection" where
  "edit_connection p cr c =
     (let c' = apply_connection p cr c
      in if identity_of c' \<noteq> identity_of c then
           c'\<lparr>conn_capabilities := None, capabilities_probed_at := None, last_test_ok := None, last_test_error := None\<rparr>
         else c')"

definition update_connection :: "nat \<Rightarrow> connection_payload \<Rightarrow> 'trig catalog \<Rightarrow> nat + 'trig catalog" where
  "update_connection i p s =
     (if check_connection p \<noteq> None then Inl 422
      else (case row conn_id (cat_connections s) i of
              None \<Rightarrow> Inl 404
            | Some c \<Rightarrow>
                (case credential_named (cat_credentials s) (cp_credential p) of
                   None \<Rightarrow> Inl 409
                 | Some cr \<Rightarrow>
                     if taken conn_id conn_name (cat_connections s) i (cp_name p) then Inl 409
                     else Inr (write_connection (edit_connection p cr c) s))))"

definition jobs_on :: "'trig catalog \<Rightarrow> nat \<Rightarrow> string list" where
  "jobs_on s i =
     map job_name (filter (\<lambda>j. conn_id (source_connection j) = i \<or> conn_id (dest_connection j) = i) (cat_jobs s))"

definition delete_connection :: "nat \<Rightarrow> 'trig catalog \<Rightarrow> nat + 'trig catalog" where
  "delete_connection i s =
     (if row conn_id (cat_connections s) i = None then Inl 404
      else if jobs_on s i \<noteq> [] then Inl 409
      else Inr (with_connections (filter (\<lambda>c. conn_id c \<noteq> i)) s))"

subsection \<open>Filter presets\<close>

record preset_write =
  pw_name :: string
  pw_exclude :: "string list"
  pw_include :: "string list"

definition valid_preset :: "preset_write \<Rightarrow> bool" where
  "valid_preset p \<longleftrightarrow> name_fits (pw_name p) \<and> py_strip (pw_name p) \<noteq> []"

definition preset_users :: "'trig catalog \<Rightarrow> nat \<Rightarrow> string list" where
  "preset_users s i = map job_name (filter (\<lambda>j. i \<in> preset_id ` set (job_filter_presets j)) (cat_jobs s))"

definition add_preset :: "string \<Rightarrow> bool \<Rightarrow> string list \<Rightarrow> string list \<Rightarrow> 'trig catalog \<Rightarrow> 'trig catalog" where
  "add_preset name builtin exclude include s =
     with_presets (\<lambda>ps. ps @ [\<lparr>preset_id = next_id preset_id ps, preset_name = name, preset_builtin = builtin,
                              preset_exclude = exclude, preset_include = include\<rparr>]) s"

definition create_preset :: "preset_write \<Rightarrow> 'trig catalog \<Rightarrow> nat + 'trig catalog" where
  "create_preset p s =
     (if \<not> valid_preset p then Inl 422
      else if py_strip (pw_name p) \<in> preset_name ` set (cat_presets s) then Inl 409
      else Inr (add_preset (py_strip (pw_name p)) False (pw_exclude p) (pw_include p) s))"

definition editable :: "'trig catalog \<Rightarrow> nat \<Rightarrow> nat + filter_preset" where
  "editable s i =
     (case row preset_id (cat_presets s) i of
        None \<Rightarrow> Inl 404
      | Some p \<Rightarrow> if preset_builtin p then Inl 409 else Inr p)"

definition update_preset :: "nat \<Rightarrow> preset_write \<Rightarrow> 'trig catalog \<Rightarrow> nat + 'trig catalog" where
  "update_preset i w s =
     (if \<not> valid_preset w then Inl 422
      else bind_res (editable s i) (\<lambda>p.
        if taken preset_id preset_name (cat_presets s) i (py_strip (pw_name w)) then Inl 409
        else Inr (write_preset
               (p\<lparr>preset_name := py_strip (pw_name w), preset_exclude := pw_exclude w, preset_include := pw_include w\<rparr>) s)))"

definition delete_preset :: "nat \<Rightarrow> 'trig catalog \<Rightarrow> nat + 'trig catalog" where
  "delete_preset i s =
     bind_res (editable s i) (\<lambda>p.
       if preset_users s i \<noteq> [] then Inl 409 else Inr (with_presets (filter (\<lambda>q. preset_id q \<noteq> i)) s))"

text \<open>The forms of the page: the redirect and the tables.\<close>

definition rule_lines :: "string \<Rightarrow> string list" where
  "rule_lines raw = nonblank_lines raw"

datatype preset_notice = NoNotice | NameNotice | DuplicateNotice | BuiltinNotice | InUseNotice

text \<open>\<open>save_filter_preset_form\<close>, \<open>target\<close> the preset the form names, if it names one.\<close>

definition save_preset_form ::
  "nat option \<Rightarrow> string \<Rightarrow> string \<Rightarrow> string \<Rightarrow> 'trig catalog \<Rightarrow> preset_notice \<times> 'trig catalog" where
  "save_preset_form target name exclude include s =
     (if py_strip name = [] then (NameNotice, s)
      else (case target of
              None \<Rightarrow>
                if py_strip name \<in> preset_name ` set (cat_presets s) then (DuplicateNotice, s)
                else (NoNotice, add_preset (py_strip name) False (rule_lines exclude) (rule_lines include) s)
            | Some i \<Rightarrow>
                (case row preset_id (cat_presets s) i of
                   None \<Rightarrow> (NoNotice, s)
                 | Some p \<Rightarrow>
                     if preset_builtin p then (BuiltinNotice, s)
                     else if taken preset_id preset_name (cat_presets s) i (py_strip name) then (DuplicateNotice, s)
                     else (NoNotice, write_preset
                            (p\<lparr>preset_name := py_strip name, preset_exclude := rule_lines exclude,
                               preset_include := rule_lines include\<rparr>) s))))"

definition delete_preset_form :: "nat \<Rightarrow> 'trig catalog \<Rightarrow> preset_notice \<times> 'trig catalog" where
  "delete_preset_form i s =
     (case row preset_id (cat_presets s) i of
        None \<Rightarrow> (NoNotice, s)
      | Some p \<Rightarrow>
          if preset_builtin p then (BuiltinNotice, s)
          else if preset_users s i \<noteq> [] then (InUseNotice, s)
          else (NoNotice, with_presets (filter (\<lambda>q. preset_id q \<noteq> i)) s))"

definition BUILTIN_PRESETS :: "(string \<times> string list) list" where
  "BUILTIN_PRESETS =
     [(''Synology / DSM'',
       [''@eaDir/**'', ''@tmp/**'', ''/#recycle/**'', ''#snapshot/**'', ''.DS_Store'', ''Thumbs.db'', ''desktop.ini'']),
      (''Downloads in progress'',
       [''*.part'', ''*.partial'', ''*.!qB'', ''*.!ut'', ''*.bc!'', ''*.crdownload'', ''*.filepart'', ''*.tmp'', ''*.temp'',
        ''incomplete/**'', ''_UNPACK_*/**'', ''_FAILED_*/**'']),
      (''Common junk'',
       [''.DS_Store'', ''Thumbs.db'', ''desktop.ini'', ''*.tmp'', ''~$*'', ''.Trash-*/**'', ''lost+found/**''])]"

text \<open>One step of \<open>seed_builtin_presets\<close>, with the rows it read before the loop. None is the failure of the commit
  where a name belongs to a preset of the operator.\<close>

definition seed_one :: "filter_preset list \<Rightarrow> string \<times> string list \<Rightarrow> 'trig catalog \<Rightarrow> 'trig catalog option" where
  "seed_one existing np s =
     (case List.find (\<lambda>p. preset_name p = fst np) (rev existing) of
        None \<Rightarrow> if fst np \<in> preset_name ` set (cat_presets s) then None else Some (add_preset (fst np) True (snd np) [] s)
      | Some p \<Rightarrow>
          if preset_exclude p \<noteq> snd np \<or> preset_include p \<noteq> []
          then Some (write_preset (p\<lparr>preset_exclude := snd np, preset_include := []\<rparr>) s) else Some s)"

definition seed_builtin_presets :: "'trig catalog \<Rightarrow> 'trig catalog option" where
  "seed_builtin_presets s =
     fold (\<lambda>np acc. Option.bind acc (seed_one (filter preset_builtin (cat_presets s)) np)) BUILTIN_PRESETS (Some s)"

subsection \<open>Lemmas: keys and references\<close>

lemma catalog_simps [simp]:
  "cat_connections (with_connections f s) = f (cat_connections s)" "cat_presets (with_connections f s) = cat_presets s"
  "cat_jobs (with_connections f s) = cat_jobs s" "cat_credentials (with_connections f s) = cat_credentials s"
  "cat_connections (with_presets g s) = cat_connections s" "cat_presets (with_presets g s) = g (cat_presets s)"
  "cat_jobs (with_presets g s) = cat_jobs s" "cat_credentials (with_presets g s) = cat_credentials s"
  "cat_connections (with_jobs h s) = cat_connections s" "cat_presets (with_jobs h s) = cat_presets s"
  "cat_jobs (with_jobs h s) = h (cat_jobs s)" "cat_credentials (with_jobs h s) = cat_credentials s"
  by (simp_all add: cat_connections_def cat_presets_def cat_jobs_def with_connections_def with_presets_def with_jobs_def)

lemma catalog_update_simps [simp]:
  "cat_connections (s\<lparr>cat_credentials := x\<rparr>) = cat_connections s" "cat_presets (s\<lparr>cat_credentials := x\<rparr>) = cat_presets s"
  "cat_jobs (s\<lparr>cat_credentials := x\<rparr>) = cat_jobs s"
  by (simp_all add: cat_connections_def cat_presets_def cat_jobs_def)

definition keyed :: "('a \<Rightarrow> nat) \<Rightarrow> ('a \<Rightarrow> string) \<Rightarrow> 'a list \<Rightarrow> bool" where
  "keyed key name_of xs \<longleftrightarrow> distinct (map key xs) \<and> distinct (map name_of xs)"

lemma keyed_Nil [simp]: "keyed key name_of []"
  by (simp add: keyed_def)

lemma next_id_fresh: "next_id key xs \<notin> key ` set xs"
proof -
  have "x \<in> set xs \<Longrightarrow> key x \<le> foldr (\<lambda>x m. max (key x) m) xs 0" for x
    by (induction xs) auto
  then show ?thesis by (fastforce simp: next_id_def)
qed

lemma taken_fresh: "taken key name_of xs (next_id key xs) name \<longleftrightarrow> name \<in> name_of ` set xs"
  using next_id_fresh [of key xs] by (force simp: taken_def list_ex_iff)

lemma not_taken_fresh: "\<not> taken key name_of xs i name \<Longrightarrow> i \<notin> key ` set xs \<Longrightarrow> name \<notin> name_of ` set xs"
  unfolding taken_def list_ex_iff by blast

lemma keyed_append:
  "keyed key name_of xs \<Longrightarrow> key x = next_id key xs \<Longrightarrow> name_of x \<notin> name_of ` set xs \<Longrightarrow> keyed key name_of (xs @ [x])"
  using next_id_fresh [of key xs] by (auto simp: keyed_def)

lemma keyed_filter: "keyed key name_of xs \<Longrightarrow> keyed key name_of (filter P xs)"
  by (simp add: keyed_def distinct_map_filter)

lemma keyed_map:
  assumes "\<And>x. key (f x) = key x" "\<And>x. name_of (f x) = name_of x"
  shows "keyed key name_of (map f xs) = keyed key name_of xs"
  using assms by (simp add: keyed_def comp_def)

lemma replace_by_key [simp]: "key (replace_by key new old) = key old"
  by (simp add: replace_by_def)

lemma replace_by_other: "key new \<notin> key ` set xs \<Longrightarrow> map (replace_by key new) xs = xs"
  by (induction xs) (auto simp: replace_by_def)

lemma keyed_replace:
  assumes "keyed key name_of xs" "\<not> taken key name_of xs (key x) (name_of x)"
  shows "keyed key name_of (map (replace_by key x) xs)"
proof -
  have "distinct (map name_of (map (replace_by key x) xs)) \<and>
        name_of ` set (map (replace_by key x) xs) \<subseteq> insert (name_of x) (name_of ` set xs)"
    using assms
  proof (induction xs)
    case (Cons y ys)
    have ys: "keyed key name_of ys" "\<not> taken key name_of ys (key x) (name_of x)"
      using Cons.prems by (auto simp: keyed_def taken_def)
    show ?case
    proof (cases "key y = key x")
      case True
      then have "key x \<notin> key ` set ys" using Cons.prems(1) by (auto simp: keyed_def)
      moreover from this have "name_of x \<notin> name_of ` set ys" by (rule not_taken_fresh [OF ys(2)])
      ultimately show ?thesis
        using True ys(1) by (auto simp: replace_by_def [of key x y] replace_by_other keyed_def)
    next
      case False
      then have "name_of y \<noteq> name_of x" using Cons.prems(2) by (auto simp: taken_def)
      then show ?thesis using Cons.IH [OF ys] False Cons.prems(1) by (auto simp: replace_by_def [of key x y] keyed_def)
    qed
  qed simp
  then show ?thesis using assms(1) by (simp add: keyed_def comp_def)
qed

lemma row_Some: "row key xs i = Some x \<Longrightarrow> x \<in> set xs \<and> key x = i"
  by (auto simp: row_def find_Some_iff)

lemma row_None: "row key xs i = None \<longleftrightarrow> i \<notin> key ` set xs"
  by (auto simp: row_def find_None_iff)

text \<open>Every row a row refers to is in its table, as it is there.\<close>

definition credential_ok :: "credential list \<Rightarrow> connection \<Rightarrow> bool" where
  "credential_ok crs c \<longleftrightarrow> set_option (conn_credential c) \<subseteq> set crs"

definition job_refs_ok :: "connection list \<Rightarrow> filter_preset list \<Rightarrow> job \<Rightarrow> bool" where
  "job_refs_ok cs ps j \<longleftrightarrow>
     source_connection j \<in> set cs \<and> dest_connection j \<in> set cs \<and> set (job_filter_presets j) \<subseteq> set ps"

definition coherent :: "'trig catalog \<Rightarrow> bool" where
  "coherent s \<longleftrightarrow>
     keyed cred_id cred_name (cat_credentials s) \<and> keyed conn_id conn_name (cat_connections s) \<and>
     keyed preset_id preset_name (cat_presets s) \<and> keyed job_id job_name (cat_jobs s) \<and>
     (\<forall>c \<in> set (cat_connections s). credential_ok (cat_credentials s) c) \<and>
     (\<forall>j \<in> set (cat_jobs s). job_refs_ok (cat_connections s) (cat_presets s) j)"

lemma map_endpoints_simps [simp]:
  "job_id (map_endpoints f j) = job_id j" "job_name (map_endpoints f j) = job_name j"
  "source_connection (map_endpoints f j) = f (source_connection j)" "dest_connection (map_endpoints f j) = f (dest_connection j)"
  "job_filter_presets (map_endpoints f j) = job_filter_presets j"
  by (simp_all add: map_endpoints_def)

lemma map_presets_simps [simp]:
  "job_id (map_presets g j) = job_id j" "job_name (map_presets g j) = job_name j"
  "source_connection (map_presets g j) = source_connection j" "dest_connection (map_presets g j) = dest_connection j"
  "job_filter_presets (map_presets g j) = map g (job_filter_presets j)"
  by (simp_all add: map_presets_def)

lemma map_credential_simps [simp]:
  "conn_id (map_credential f c) = conn_id c" "conn_name (map_credential f c) = conn_name c"
  "conn_credential (map_credential f c) = map_option f (conn_credential c)"
  by (simp_all add: map_credential_def)

lemma job_refs_map:
  "job_refs_ok cs ps j \<Longrightarrow> job_refs_ok (map f cs) ps (map_endpoints f j)"
  "job_refs_ok cs ps j \<Longrightarrow> job_refs_ok cs (map g ps) (map_presets g j)"
  by (auto simp: job_refs_ok_def)

lemma job_refs_mono: "job_refs_ok cs ps j \<Longrightarrow> set cs \<subseteq> set cs' \<Longrightarrow> set ps \<subseteq> set ps' \<Longrightarrow> job_refs_ok cs' ps' j"
  by (auto simp: job_refs_ok_def)

lemma coherent_write_connection:
  assumes "coherent s" "\<not> taken conn_id conn_name (cat_connections s) (conn_id c) (conn_name c)"
    and "credential_ok (cat_credentials s) c"
  shows "coherent (write_connection c s)"
proof -
  have "keyed conn_id conn_name (map (replace_by conn_id c) (cat_connections s))"
    using assms by (intro keyed_replace) (auto simp: coherent_def)
  moreover have "credential_ok (cat_credentials s) (replace_by conn_id c d)" if "d \<in> set (cat_connections s)" for d
    using assms that by (simp add: coherent_def replace_by_def)
  ultimately show ?thesis
    using assms(1) job_refs_map(1) by (auto simp: coherent_def write_connection_def keyed_map)
qed

lemma coherent_write_credential:
  assumes "coherent s" "\<not> taken cred_id cred_name (cat_credentials s) (cred_id cr) (cred_name cr)"
  shows "coherent (write_credential cr s)"
proof -
  have "keyed cred_id cred_name (map (replace_by cred_id cr) (cat_credentials s))"
    using assms by (intro keyed_replace) (auto simp: coherent_def)
  moreover have "credential_ok (map (replace_by cred_id cr) (cat_credentials s)) (map_credential (replace_by cred_id cr) d)"
    if "d \<in> set (cat_connections s)" for d
    using assms(1) that by (force simp: coherent_def credential_ok_def)
  ultimately show ?thesis
    using assms(1) job_refs_map(1) by (auto simp: coherent_def write_credential_def Let_def keyed_map)
qed

lemma coherent_write_preset:
  assumes "coherent s" "\<not> taken preset_id preset_name (cat_presets s) (preset_id p) (preset_name p)"
  shows "coherent (write_preset p s)"
proof -
  have "keyed preset_id preset_name (map (replace_by preset_id p) (cat_presets s))"
    using assms by (intro keyed_replace) (auto simp: coherent_def)
  then show ?thesis
    using assms(1) job_refs_map(2) by (auto simp: coherent_def write_preset_def keyed_map)
qed

lemma coherent_add_preset:
  "coherent s \<Longrightarrow> name \<notin> preset_name ` set (cat_presets s) \<Longrightarrow> coherent (add_preset name b ex inc s)"
  by (auto simp: coherent_def add_preset_def intro!: keyed_append elim!: job_refs_mono)

lemma coherent_drop_preset:
  assumes "coherent s" "preset_users s i = []"
  shows "coherent (with_presets (filter (\<lambda>q. preset_id q \<noteq> i)) s)"
  using assms by (fastforce simp: coherent_def keyed_filter preset_users_def filter_empty_conv job_refs_ok_def)

subsection \<open>Every operation keeps the references\<close>

datatype catalog_op =
    NewCredential credential_create
  | ChangeCredential nat credential_update
  | DropCredential nat
  | NewConnection connection_payload
  | ChangeConnection nat connection_payload
  | DropConnection nat
  | NewPreset preset_write
  | ChangePreset nat preset_write
  | DropPreset nat
  | SavePresetForm "nat option" string string string
  | DropPresetForm nat
  | SeedPresets
  | OnJobs admin_op

definition settle_catalog :: "'trig catalog \<Rightarrow> nat + 'trig catalog \<Rightarrow> 'trig catalog" where
  "settle_catalog s r = (case r of Inl code \<Rightarrow> s | Inr s' \<Rightarrow> s')"

definition catalog_do ::
  "(string \<Rightarrow> string) \<Rightarrow> (string \<Rightarrow> json option) \<Rightarrow> 'trig scheduler_ext \<Rightarrow> catalog_op \<Rightarrow> 'trig catalog \<Rightarrow> 'trig catalog" where
  "catalog_do enc loads sx op s =
     (case op of
        NewCredential p \<Rightarrow> settle_catalog s (create_credential enc loads p s)
      | ChangeCredential i p \<Rightarrow> settle_catalog s (update_credential enc i p s)
      | DropCredential i \<Rightarrow> settle_catalog s (delete_credential i s)
      | NewConnection p \<Rightarrow> settle_catalog s (create_connection p s)
      | ChangeConnection i p \<Rightarrow> settle_catalog s (update_connection i p s)
      | DropConnection i \<Rightarrow> settle_catalog s (delete_connection i s)
      | NewPreset p \<Rightarrow> settle_catalog s (create_preset p s)
      | ChangePreset i p \<Rightarrow> settle_catalog s (update_preset i p s)
      | DropPreset i \<Rightarrow> settle_catalog s (delete_preset i s)
      | SavePresetForm t n ex inc \<Rightarrow> snd (save_preset_form t n ex inc s)
      | DropPresetForm i \<Rightarrow> snd (delete_preset_form i s)
      | SeedPresets \<Rightarrow> (case seed_builtin_presets s of None \<Rightarrow> s | Some s' \<Rightarrow> s')
      | OnJobs op' \<Rightarrow> s\<lparr>cat_admin := admin_do sx op' (cat_admin s)\<rparr>)"

lemma coherent_create_credential:
  assumes "coherent s" "create_credential enc loads p s = Inr s'"
  shows "coherent s'"
proof -
  obtain cr where s': "s' = s\<lparr>cat_credentials := cat_credentials s @ [cr]\<rparr>"
    and cr: "cred_id cr = next_id cred_id (cat_credentials s)" "cred_name cr \<notin> cred_name ` set (cat_credentials s)"
    using assms(2) by (auto simp: create_credential_def Let_def taken_fresh split: if_splits)
  have "keyed cred_id cred_name (cat_credentials s @ [cr])"
    using assms(1) cr by (intro keyed_append) (simp_all add: coherent_def)
  then show ?thesis using assms(1) by (auto simp: s' coherent_def credential_ok_def)
qed

lemma coherent_update_credential:
  assumes "coherent s" "update_credential enc i p s = Inr s'"
  shows "coherent s'"
proof -
  obtain cr where cr: "row cred_id (cat_credentials s) i = Some cr" "s' = write_credential (apply_credential enc p cr) s"
      "\<not> taken cred_id cred_name (cat_credentials s) i (cred_name (apply_credential enc p cr))"
    using assms(2) by (auto simp: update_credential_def Let_def split: if_splits option.splits)
  moreover have "cred_id (apply_credential enc p cr) = i" using row_Some [OF cr(1)] by (simp add: apply_credential_def)
  ultimately show ?thesis using assms(1) coherent_write_credential by metis
qed

lemma coherent_delete_credential:
  assumes "coherent s" "delete_credential i s = Inr s'"
  shows "coherent s'"
proof -
  have unused: "map_option cred_id (conn_credential c) \<noteq> Some i" if "c \<in> set (cat_connections s)" for c
    using assms(2) that by (auto simp: delete_credential_def users_of_def filter_empty_conv split: if_splits)
  have s': "s' = s\<lparr>cat_credentials := filter (\<lambda>cr. cred_id cr \<noteq> i) (cat_credentials s)\<rparr>"
    using assms(2) by (simp add: delete_credential_def split: if_splits)
  have "credential_ok (filter (\<lambda>cr. cred_id cr \<noteq> i) (cat_credentials s)) c" if "c \<in> set (cat_connections s)" for c
    using assms(1) unused [OF that] that by (auto simp: coherent_def credential_ok_def)
  then show ?thesis using assms(1) by (simp add: s' coherent_def keyed_filter)
qed

lemma credential_named_ok:
  "credential_named crs v = Some cr \<Longrightarrow> set_option cr \<subseteq> set crs"
  using row_Some by (fastforce simp: credential_named_def split: option.splits)

lemma edit_connection_simps [simp]:
  "conn_id (edit_connection p cr c) = conn_id c" "conn_name (edit_connection p cr c) = cp_name p"
  "conn_credential (edit_connection p cr c) = cr" "host_keys (edit_connection p cr c) = host_keys c"
  "host_keys_trusted (edit_connection p cr c) = host_keys_trusted c"
  by (simp_all add: edit_connection_def apply_connection_def Let_def)

lemma coherent_create_connection:
  assumes "coherent s" "create_connection p s = Inr s'"
  shows "coherent s'"
proof -
  obtain cr where cr: "credential_named (cat_credentials s) (cp_credential p) = Some cr"
      "s' = with_connections (\<lambda>cs. cs @ [apply_connection p cr (new_connection (next_id conn_id (cat_connections s)))]) s"
      "cp_name p \<notin> conn_name ` set (cat_connections s)"
    using assms(2) by (auto simp: create_connection_def Let_def taken_fresh split: if_splits option.splits)
  let ?c = "apply_connection p cr (new_connection (next_id conn_id (cat_connections s)))"
  have "keyed conn_id conn_name (cat_connections s @ [?c])"
    using assms(1) cr(3) by (intro keyed_append) (simp_all add: coherent_def apply_connection_def new_connection_def)
  moreover have "credential_ok (cat_credentials s) ?c"
    using credential_named_ok [OF cr(1)] by (simp add: credential_ok_def apply_connection_def)
  ultimately show ?thesis using assms(1) by (auto simp: cr(2) coherent_def elim!: job_refs_mono)
qed

lemma coherent_update_connection:
  assumes "coherent s" "update_connection i p s = Inr s'"
  shows "coherent s'"
proof -
  obtain c cr where cr: "row conn_id (cat_connections s) i = Some c"
      "credential_named (cat_credentials s) (cp_credential p) = Some cr"
      "\<not> taken conn_id conn_name (cat_connections s) i (cp_name p)" "s' = write_connection (edit_connection p cr c) s"
    using assms(2) by (auto simp: update_connection_def split: if_splits option.splits)
  show ?thesis unfolding cr(4)
    using assms(1) cr row_Some [OF cr(1)] credential_named_ok [OF cr(2)]
    by (intro coherent_write_connection) (simp_all add: credential_ok_def)
qed

lemma coherent_delete_connection:
  assumes "coherent s" "delete_connection i s = Inr s'"
  shows "coherent s'"
proof -
  have unused: "conn_id (source_connection j) \<noteq> i \<and> conn_id (dest_connection j) \<noteq> i" if "j \<in> set (cat_jobs s)" for j
    using assms(2) that by (auto simp: delete_connection_def jobs_on_def filter_empty_conv split: if_splits)
  have "s' = with_connections (filter (\<lambda>c. conn_id c \<noteq> i)) s"
    using assms(2) by (simp add: delete_connection_def split: if_splits)
  then show ?thesis using assms(1) unused by (simp add: coherent_def keyed_filter job_refs_ok_def)
qed

lemma coherent_presets:
  assumes "coherent s"
  shows "create_preset w s = Inr s' \<Longrightarrow> coherent s'" "update_preset i w s = Inr s' \<Longrightarrow> coherent s'"
    "delete_preset i s = Inr s' \<Longrightarrow> coherent s'"
proof -
  show "create_preset w s = Inr s' \<Longrightarrow> coherent s'"
    using coherent_add_preset [OF assms] by (auto simp: create_preset_def split: if_splits)
  show "delete_preset i s = Inr s' \<Longrightarrow> coherent s'"
    using coherent_drop_preset [OF assms] by (auto simp: delete_preset_def bind_res_Inr split: if_splits)
  assume "update_preset i w s = Inr s'"
  then obtain p where "row preset_id (cat_presets s) i = Some p" "\<not> taken preset_id preset_name (cat_presets s) i (py_strip (pw_name w))"
      "s' = write_preset (p\<lparr>preset_name := py_strip (pw_name w), preset_exclude := pw_exclude w, preset_include := pw_include w\<rparr>) s"
    by (auto simp: update_preset_def editable_def bind_res_Inr split: if_splits option.splits)
  then show "coherent s'" using row_Some coherent_write_preset [OF assms] by fastforce
qed

lemma coherent_preset_forms:
  assumes "coherent s"
  shows "coherent (snd (save_preset_form t n ex inc s))" "coherent (snd (delete_preset_form i s))"
proof -
  show "coherent (snd (delete_preset_form i s))"
    using assms coherent_drop_preset [OF assms] by (simp add: delete_preset_form_def split: option.split)
  show "coherent (snd (save_preset_form t n ex inc s))"
  proof (cases t)
    case None
    then show ?thesis using assms coherent_add_preset [OF assms] by (simp add: save_preset_form_def)
  next
    case (Some k)
    then show ?thesis
      using assms coherent_write_preset [OF assms]
      by (auto simp: save_preset_form_def dest: row_Some split: option.split)
  qed
qed

lemma keyed_same_name:
  "keyed key name_of xs \<Longrightarrow> x \<in> set xs \<Longrightarrow> y \<in> set xs \<Longrightarrow> name_of x = name_of y \<Longrightarrow> x = y"
  by (auto simp: keyed_def distinct_map inj_on_def)

lemma find_member: "List.find P xs = Some x \<Longrightarrow> x \<in> set xs \<and> P x"
  by (auto simp: find_Some_iff)

definition still_there :: "filter_preset list \<Rightarrow> 'trig catalog \<Rightarrow> bool" where
  "still_there ps s \<longleftrightarrow> (\<forall>p \<in> set ps. \<exists>q \<in> set (cat_presets s). preset_id q = preset_id p \<and> preset_name q = preset_name p)"

lemma seed_one_coherent:
  assumes "coherent s" "still_there ps s" "seed_one ps np s = Some s'"
  shows "coherent s' \<and> still_there ps s'"
proof (cases "List.find (\<lambda>p. preset_name p = fst np) (rev ps)")
  case None
  then have "s' = add_preset (fst np) True (snd np) [] s" "fst np \<notin> preset_name ` set (cat_presets s)"
    using assms(3) by (auto simp: seed_one_def split: if_splits)
  then show ?thesis using assms(1,2) coherent_add_preset by (auto simp: still_there_def add_preset_def)
next
  case (Some p)
  then have p: "p \<in> set ps" using find_member by fastforce
  let ?p' = "p\<lparr>preset_exclude := snd np, preset_include := []\<rparr>"
  obtain q where q: "q \<in> set (cat_presets s)" "preset_id q = preset_id p" "preset_name q = preset_name p"
    using assms(2) p by (auto simp: still_there_def)
  have "\<not> taken preset_id preset_name (cat_presets s) (preset_id p) (preset_name p)"
    unfolding taken_def list_ex_iff
  proof
    assume "\<exists>x \<in> set (cat_presets s). preset_name x = preset_name p \<and> preset_id x \<noteq> preset_id p"
    then obtain x where x: "x \<in> set (cat_presets s)" "preset_name x = preset_name q" "preset_id x \<noteq> preset_id q"
      using q by auto
    have "keyed preset_id preset_name (cat_presets s)" using assms(1) by (simp add: coherent_def)
    then have "x = q" by (rule keyed_same_name [OF _ x(1) q(1) x(2)])
    then show False using x(3) by simp
  qed
  then have "coherent (write_preset ?p' s)" using coherent_write_preset [OF assms(1), of ?p'] by simp
  moreover have "still_there ps (write_preset ?p' s)"
    unfolding still_there_def
  proof
    fix r assume "r \<in> set ps"
    then obtain q' where q': "q' \<in> set (cat_presets s)" "preset_id q' = preset_id r" "preset_name q' = preset_name r"
      using assms(2) by (auto simp: still_there_def)
    let ?q'' = "replace_by preset_id ?p' q'"
    have "preset_name ?q'' = preset_name q'"
    proof (cases "preset_id q' = preset_id p")
      case True
      then have "q' = q" using q q' assms(1) by (auto simp: coherent_def keyed_def distinct_map inj_on_def)
      then show ?thesis using q by (simp add: replace_by_def)
    qed (simp add: replace_by_def)
    then show "\<exists>q \<in> set (cat_presets (write_preset ?p' s)). preset_id q = preset_id r \<and> preset_name q = preset_name r"
      using q' by (intro bexI [of _ ?q'']) (auto simp: write_preset_def)
  qed
  ultimately show ?thesis using assms Some by (auto simp: seed_one_def split: if_splits)
qed

lemma seed_fold_None: "fold (\<lambda>np acc. Option.bind acc (seed_one ps np)) nps None = None"
  by (induction nps) auto

lemma seed_fold_coherent:
  "coherent s \<Longrightarrow> still_there ps s \<Longrightarrow>
   fold (\<lambda>np acc. Option.bind acc (seed_one ps np)) nps (Some s) = Some s' \<Longrightarrow> coherent s'"
proof (induction nps arbitrary: s)
  case (Cons np nps)
  obtain s1 where s1: "seed_one ps np s = Some s1"
    using Cons.prems(3) by (cases "seed_one ps np s") (auto simp: seed_fold_None)
  then show ?case using Cons.IH [of s1] Cons.prems(3) seed_one_coherent [OF Cons.prems(1,2) s1] by simp
qed simp

lemma coherent_seed: "coherent s \<Longrightarrow> seed_builtin_presets s = Some s' \<Longrightarrow> coherent s'"
  unfolding seed_builtin_presets_def
  by (rule seed_fold_coherent [where s = s]) (auto simp: still_there_def)

lemma find_connection_member: "find_connection cs i \<noteq> None \<Longrightarrow> the (find_connection cs i) \<in> set cs"
  using find_member by (fastforce simp: find_connection_def)

lemma applied_refs:
  assumes "apply_payload a p j = Some j'" "require_connections (adm_connections a) p"
  shows "job_refs_ok (adm_connections a) (adm_presets a) j' \<and> job_name j' = pl_name p"
proof -
  have "the (find_connection (adm_connections a) (pl_source p)) \<in> set (adm_connections a)"
    "the (find_connection (adm_connections a) (pl_dest p)) \<in> set (adm_connections a)"
    using assms(2) by (simp_all add: require_connections_def find_connection_member)
  moreover have "source_connection j' = the (find_connection (adm_connections a) (pl_source p)) \<and>
      dest_connection j' = the (find_connection (adm_connections a) (pl_dest p)) \<and> job_name j' = pl_name p \<and>
      set (job_filter_presets j') \<subseteq> set (adm_presets a)"
    using assms(1) unfolding apply_payload_def Let_def by (auto split: if_splits)
  ultimately show ?thesis by (simp add: job_refs_ok_def)
qed

lemma resync_tables [simp]: "adm_connections (resync_schedule sx a) = adm_connections a"
  "adm_presets (resync_schedule sx a) = adm_presets a"
  by (simp_all add: resync_schedule_def reload_def)

lemma admin_tables: "adm_connections (admin_do sx op a) = adm_connections a \<and> adm_presets (admin_do sx op a) = adm_presets a"
proof (cases op)
  case (Create p)
  show ?thesis
    by (cases "create_job sx p a") (auto simp: Create admin_do_def settle_admin_def dest!: create_jobD)
next
  case (Update i p)
  show ?thesis
    by (cases "update_job sx i p a") (auto simp: Update admin_do_def settle_admin_def dest!: update_jobD)
qed (simp_all add: admin_do_def settle_admin_def start_scheduler_def reload_def remove_job_def remove_job_form_def)

definition jobs_ok :: "connection list \<Rightarrow> filter_preset list \<Rightarrow> job list \<Rightarrow> bool" where
  "jobs_ok cs ps js \<longleftrightarrow> keyed job_id job_name js \<and> (\<forall>j \<in> set js. job_refs_ok cs ps j)"

lemma name_taken_iff: "name_taken st i n \<longleftrightarrow> taken job_id job_name (db_jobs st) i n"
  by (simp add: name_taken_def taken_def)

lemma next_job_id_iff: "next_job_id st = next_id job_id (db_jobs st)"
  by (simp add: next_job_id_def next_id_def)

lemma jobs_ok_create:
  assumes "jobs_ok (adm_connections a) (adm_presets a) (db_jobs (adm_db a))" "create_job sx p a = Inr a'"
  shows "jobs_ok (adm_connections a) (adm_presets a) (db_jobs (adm_db a'))"
proof -
  obtain j where j: "apply_payload a p (new_job (next_job_id (adm_db a))) = Some j" "job_id j = next_job_id (adm_db a)"
      "require_connections (adm_connections a) p" "db_jobs (adm_db a') = db_jobs (adm_db a) @ [j]"
    using create_jobD [OF assms(2)] by auto
  have "\<not> name_taken (adm_db a) (next_job_id (adm_db a)) (pl_name p)"
    using assms(2) by (auto simp: create_job_def Let_def split: if_splits option.splits)
  then have "job_name j \<notin> job_name ` set (db_jobs (adm_db a))"
    using applied_refs [OF j(1,3)] by (simp add: name_taken_iff next_job_id_iff taken_fresh)
  then have "keyed job_id job_name (db_jobs (adm_db a) @ [j])"
    using assms(1) j(2) by (intro keyed_append) (simp_all add: jobs_ok_def next_job_id_iff)
  then show ?thesis using assms(1) applied_refs [OF j(1,3)] j(4) by (auto simp: jobs_ok_def)
qed

lemma jobs_ok_update:
  assumes "jobs_ok (adm_connections a) (adm_presets a) (db_jobs (adm_db a))" "update_job sx i p a = Inr a'"
  shows "jobs_ok (adm_connections a) (adm_presets a) (db_jobs (adm_db a'))"
proof -
  obtain j j' where j: "find_job (adm_db a) i = Some j" "apply_payload a p j = Some j'" "job_id j' = job_id j"
      "require_connections (adm_connections a) p" "a' = a\<lparr>adm_db := write_job j' (adm_db a)\<rparr>"
    using update_jobD [OF assms(2)] by auto
  have "job_id j = i" using j(1) by (auto simp: find_job_def find_Some_iff)
  moreover have "\<not> name_taken (adm_db a) i (pl_name p)"
    using assms(2) by (auto simp: update_job_def split: if_splits option.splits)
  ultimately have "\<not> taken job_id job_name (db_jobs (adm_db a)) (job_id j') (job_name j')"
    using applied_refs [OF j(2,4)] j(3) by (simp add: name_taken_iff)
  moreover have eq: "db_jobs (adm_db a') = map (replace_by job_id j') (db_jobs (adm_db a))"
    by (simp add: j(5) write_job_def replace_by_def)
  ultimately show ?thesis
    using assms(1) applied_refs [OF j(2,4)] keyed_replace [of job_id job_name "db_jobs (adm_db a)" j']
    by (auto simp: jobs_ok_def replace_by_def)
qed

lemma jobs_ok_admin:
  assumes "jobs_ok (adm_connections a) (adm_presets a) (db_jobs (adm_db a))"
  shows "jobs_ok (adm_connections a) (adm_presets a) (db_jobs (adm_db (admin_do sx op a)))"
proof (cases op)
  case (Create p)
  show ?thesis
    using assms jobs_ok_create [OF assms] by (cases "create_job sx p a") (auto simp: Create admin_do_def settle_admin_def)
next
  case (Update i p)
  show ?thesis
    using assms jobs_ok_update [OF assms] by (cases "update_job sx i p a") (auto simp: Update admin_do_def settle_admin_def)
qed (use assms in \<open>simp_all add: admin_do_def settle_admin_def start_scheduler_def remove_job_def
       remove_job_form_def delete_job_row_def Let_def jobs_ok_def keyed_filter\<close>)

lemma coherent_on_jobs: "coherent s \<Longrightarrow> coherent (s\<lparr>cat_admin := admin_do sx op (cat_admin s)\<rparr>)"
  using jobs_ok_admin [of "cat_admin s" sx op] admin_tables [of sx op "cat_admin s"]
  by (simp add: coherent_def jobs_ok_def cat_connections_def cat_presets_def cat_jobs_def)

lemma coherent_do:
  assumes "coherent s"
  shows "coherent (catalog_do enc loads sx op s)"
proof (cases op)
  case SeedPresets
  then show ?thesis
    using assms coherent_seed [OF assms] by (cases "seed_builtin_presets s") (auto simp: catalog_do_def)
next
  case (OnJobs op')
  then show ?thesis using coherent_on_jobs [OF assms] by (simp add: catalog_do_def)
qed (auto simp: catalog_do_def settle_catalog_def coherent_preset_forms assms split: sum.split
       dest: coherent_create_credential [OF assms] coherent_update_credential [OF assms] coherent_delete_credential [OF assms]
         coherent_create_connection [OF assms] coherent_update_connection [OF assms] coherent_delete_connection [OF assms]
         coherent_presets [OF assms])

definition empty_catalog :: "'trig catalog" where
  "empty_catalog =
     \<lparr>cat_admin = \<lparr>adm_db = \<lparr>db_jobs = [], db_runs = [], db_changes = []\<rparr>, adm_connections = [], adm_presets = [],
                   adm_running = False, adm_schedule = []\<rparr>, cat_credentials = []\<rparr>"


subsection \<open>What a refusal protects\<close>

text \<open>A credential, a connection or a preset that is used is refused with 409 and nothing changes; an unused one goes.\<close>

lemma delete_connection_cases:
  "delete_connection i s =
     (if i \<notin> conn_id ` set (cat_connections s) then Inl 404
      else if \<exists>j \<in> set (cat_jobs s). i \<in> {conn_id (source_connection j), conn_id (dest_connection j)} then Inl 409
      else Inr (with_connections (filter (\<lambda>c. conn_id c \<noteq> i)) s))"
  by (auto simp: delete_connection_def jobs_on_def row_None filter_empty_conv)

subsection \<open>What falls outside\<close>

text \<open>A remote whose backend is changed keeps the probe of the old one: the identity the endpoint compares leaves out the
  columns that say which remote it is.\<close>

lemma repointed_remote_keeps_probe:
  "conn_capabilities (edit_connection (p\<lparr>cp_type := CtRcloneRemote, cp_host := None, cp_port := None, cp_share := None,
       cp_rclone_mode := Some RmInline, cp_backend_type := Some ''b2''\<rparr>) cr
     (c\<lparr>conn_type := CtRcloneRemote, conn_host := None, conn_port := None, conn_share := None,
        rclone_backend_type := Some ''s3'', conn_capabilities := Some probe\<rparr>)) = Some probe"
  by (simp add: edit_connection_def apply_connection_def identity_of_def)

text \<open>The includes of a preset are stored and shown, and no run sees them.\<close>

lemma preset_includes_ignored:
  "filter_args (j\<lparr>job_filter_presets := map (preset_include_update (\<lambda>_. rules)) (job_filter_presets j)\<rparr>) = filter_args j"
  by (simp add: filter_args_def comp_def)

text \<open>What a new credential must look like is not asked of a changed one.\<close>

lemma changed_credential_unchecked:
  assumes "cat_credentials s = [cr]" "cred_kind cr = CkBackendSecret"
  shows "\<exists>s' cr'. update_credential enc (cred_id cr) \<lparr>cu_name = None, cu_secret = Some ''hunter2'', cu_passphrase = None,
      cu_obscured = None\<rparr> s = Inr s' \<and> cat_credentials s' = [cr'] \<and> cred_kind cr' = CkBackendSecret \<and>
      secret_ciphertext cr' = enc ''hunter2''"
  using assms
  by (auto simp: update_credential_def valid_credential_update_def secret_fits_def at_most_def row_def taken_def
      apply_credential_def write_credential_def with_jobs_def with_connections_def replace_by_def MAX_SECRET_LENGTH_def Let_def)

end
