(* ===== verification/Probe.thy ===== *)
theory Probe
  imports Catalog
begin

text \<open>
  Testing a connection and trusting its host keys: \<open>app/probe.py\<close>, \<open>app/engines/inspect.py\<close>, and the endpoints of
  \<open>app/api/connections.py\<close> that reach them. What is not under \<open>src/\<close>: \<open>rc\<close> gives the outcome of a command, and
  \<open>sha\<close> the digest of a key, SHA256 of the decoded text in base 64 without padding, None where the text does not
  decode. The sentences shown to the operator are constructors that carry what they are formatted from.
\<close>

subsection \<open>Inspection commands\<close>

datatype inspect_error =
    BackendsNotListed string
  | BackendsOdd
  | ConfigNotMounted string
  | ConfigEncrypted
  | ConfigUnreadable string
  | FeaturesFailed string
  | FeaturesOdd
  | NotListed string
  | NotJson string

datatype failure = FailedInspect inspect_error | FailedPrepare prep_error

type_synonym rc = "string list \<Rightarrow> raw_outcome"

definition FAIL_FAST_ARGS :: "string list" where
  "FAIL_FAST_ARGS =
     [''--contimeout'', ''10s'', ''--timeout'', ''20s'', ''--retries'', ''1'', ''--low-level-retries'', ''2'']"

definition parse_json :: "ext \<Rightarrow> command_result \<Rightarrow> string \<Rightarrow> inspect_error + json" where
  "parse_json x res what = (case ext_loads x (res_stdout res) of None \<Rightarrow> Inl (NotJson what) | Some v \<Rightarrow> Inr v)"

definition list_backends :: "ext \<Rightarrow> rc \<Rightarrow> inspect_error + json list" where
  "list_backends x rc =
     (let argv = [''rclone'', ''--config'', [], ''config'', ''providers'']; res = run_command [] argv (rc argv)
      in if \<not> result_ok res then Inl (BackendsNotListed (failure_summary res))
         else bind_res (parse_json x res ''the backend list'')
                (\<lambda>v. case v of JArr xs \<Rightarrow> Inr xs | _ \<Rightarrow> Inl BackendsOdd))"

definition list_imported_remotes :: "ext \<Rightarrow> rc \<Rightarrow> inspect_error + string list" where
  "list_imported_remotes x rc =
     (if \<not> ext_user_conf_exists x then Inl (ConfigNotMounted (ext_user_conf x))
      else
        (let argv = [''rclone'', ''--config'', ext_user_conf x, ''listremotes'']; res = run_command [] argv (rc argv)
         in if \<not> result_ok res then
              (let summary = failure_summary res
               in Inl (if contains ''password'' (py_lower summary) \<or> contains ''encrypted'' (py_lower summary)
                       then ConfigEncrypted else ConfigUnreadable summary))
            else Inr (map (rstrip_if (\<lambda>c. c = CHR '':'')) (nonblank_lines (res_stdout res)))))"

text \<open>\<open>prepared.endpoints[alias]\<close>: the aliases asked for are those \<open>prepare\<close> was given.\<close>

definition remote_of :: "prepared \<Rightarrow> string \<Rightarrow> string" where
  "remote_of p alias = (case map_of (endpoints p) alias of None \<Rightarrow> [] | Some e \<Rightarrow> ep_alias e @ '':'')"

definition run_prepared :: "rc \<Rightarrow> prepared \<Rightarrow> string list \<Rightarrow> command_result" where
  "run_prepared rc p args = run_command (secrets p) (prep_argv p args) (rc (prep_argv p args))"

definition probe_features :: "ext \<Rightarrow> rc \<Rightarrow> prepared \<Rightarrow> string \<Rightarrow> inspect_error + (string \<times> json) list" where
  "probe_features x rc p alias =
     (let res = run_prepared rc p ([''backend'', ''features'', remote_of p alias] @ FAIL_FAST_ARGS)
      in if \<not> result_ok res then Inl (FeaturesFailed (failure_summary res))
         else bind_res (parse_json x res ''the capability probe'')
                (\<lambda>v. case v of
                       JObj d \<Rightarrow> if jget d ''Features'' = None then Inl FeaturesOdd else Inr d
                     | _ \<Rightarrow> Inl FeaturesOdd))"

record dir_entry =
  de_name :: string
  de_is_dir :: bool

definition read_entry :: "string \<Rightarrow> dir_entry" where
  "read_entry name =
     (if suffix ''/'' name then \<lparr>de_name = rstrip_slash name, de_is_dir = True\<rparr>
      else \<lparr>de_name = name, de_is_dir = False\<rparr>)"

definition sort_entries :: "dir_entry list \<Rightarrow> dir_entry list" where
  "sort_entries es = sort_key (\<lambda>e. \<not> de_is_dir e) (sort_key (\<lambda>e. py_lower (de_name e)) es)"

definition list_dirs :: "rc \<Rightarrow> prepared \<Rightarrow> string \<Rightarrow> string \<Rightarrow> failure + dir_entry list" where
  "list_dirs rc p alias subpath =
     bind_res (map_err FailedPrepare (prep_spec p alias subpath)) (\<lambda>target.
       let res = run_prepared rc p ([''lsf'', ''--format'', ''p'', ''--dir-slash'', target] @ FAIL_FAST_ARGS)
       in if \<not> result_ok res then Inl (FailedInspect (NotListed (failure_summary res)))
          else Inr (sort_entries (map read_entry (nonblank_lines (res_stdout res)))))"

definition check_reachable :: "rc \<Rightarrow> prepared \<Rightarrow> string \<Rightarrow> failure + command_result" where
  "check_reachable rc p alias =
     bind_res (map_err FailedPrepare (prep_spec p alias []))
       (\<lambda>target. Inr (run_prepared rc p ([''lsd'', target] @ FAIL_FAST_ARGS)))"

subsection \<open>Host keys\<close>

record host_key =
  hk_type :: string
  hk_entry :: string
  hk_fingerprint :: string

definition fingerprint :: "(string \<Rightarrow> string option) \<Rightarrow> string \<Rightarrow> string \<Rightarrow> string" where
  "fingerprint sha key_type key_b64 =
     (case sha key_b64 of None \<Rightarrow> [] | Some digest \<Rightarrow> key_type @ '' SHA256:'' @ digest)"

definition scan_line :: "(string \<Rightarrow> string option) \<Rightarrow> string \<Rightarrow> host_key list" where
  "scan_line sha line =
     (if prefix ''#'' line \<or> py_strip line = [] then []
      else (case py_split line of
              h # t # k # ps \<Rightarrow> [\<lparr>hk_type = t, hk_entry = t @ '' '' @ k, hk_fingerprint = fingerprint sha t k\<rparr>]
            | _ \<Rightarrow> []))"

definition key_rank :: "host_key \<Rightarrow> nat" where
  "key_rank k =
     (if hk_type k = ''ssh-ed25519'' then 0 else if hk_type k = ''ecdsa-sha2-nistp256'' then 1
      else if hk_type k = ''ssh-rsa'' then 2 else 3)"

definition scan_argv :: "string \<Rightarrow> nat \<Rightarrow> string list" where
  "scan_argv host port = [''ssh-keyscan'', ''-p'', str_nat port, ''-T'', ''10'', host]"

definition scan_host_keys :: "(string \<Rightarrow> string option) \<Rightarrow> rc \<Rightarrow> string \<Rightarrow> nat \<Rightarrow> host_key list" where
  "scan_host_keys sha rc host port =
     (let res = run_command [] (scan_argv host port) (rc (scan_argv host port))
      in sort_key key_rank (concat (map (scan_line sha) (py_splitlines (res_stdout res)))))"

definition line_fingerprint :: "(string \<Rightarrow> string option) \<Rightarrow> string \<Rightarrow> string list" where
  "line_fingerprint sha line = (case py_split line of t # k # ps \<Rightarrow> [fingerprint sha t k] | _ \<Rightarrow> [])"

definition fingerprints_of :: "(string \<Rightarrow> string option) \<Rightarrow> string \<Rightarrow> string list" where
  "fingerprints_of sha entries = concat (map (line_fingerprint sha) (py_splitlines entries))"

subsection \<open>A test\<close>

datatype diagnosis =
    HostKeyChanged string
  | AuthRefused string
  | HostUnknown string
  | ConnectionRefused string
  | BasePathMissing "string option" string
  | OtherFailure string

datatype test_message =
    KeyUnreadable
  | KeyNotTrusted
  | NotReachable diagnosis
  | SentinelMissing string
  | ProbeBroken inspect_error
  | Connected
  | NotPrepared remote_reason
  | NotInspected inspect_error

datatype test_warning = NoHashTypesOn | NoModtimeOn | NoMoveOn

record test_outcome =
  to_ok :: bool
  to_message :: test_message
  to_payload :: "(string \<times> json) list option"
  to_host_key :: "host_key list option"
  to_warnings :: "test_warning list"
  to_command :: "string option"

text \<open>What a test lets through: a credential that does not decrypt, and a payload that makes \<open>from_probe\<close> raise.\<close>

datatype uncaught = UncaughtPrepare prep_error | UncaughtPayload

definition port_of :: "connection \<Rightarrow> nat" where
  "port_of c = (case conn_port c of None \<Rightarrow> 22 | Some p \<Rightarrow> if p = 0 then 22 else p)"

definition host_of :: "connection \<Rightarrow> string" where
  "host_of c = (case conn_host c of None \<Rightarrow> [] | Some h \<Rightarrow> h)"

definition needs_host_key_trust :: "connection \<Rightarrow> bool" where
  "needs_host_key_trust c \<longleftrightarrow> conn_type c = CtSftp \<and> \<not> host_keys_trusted c"

text \<open>None where no key could be read.\<close>

definition host_key_prompt :: "(string \<Rightarrow> string option) \<Rightarrow> rc \<Rightarrow> connection \<Rightarrow> host_key list option" where
  "host_key_prompt sha rc c =
     (let scanned = scan_host_keys sha rc (host_of c) (port_of c) in if scanned = [] then None else Some scanned)"

definition relative_hint :: "connection \<Rightarrow> string option" where
  "relative_hint c =
     (if absolute_path_type (conn_type c) \<and> base_path c \<noteq> [] \<and> \<not> prefix ''/'' (base_path c)
      then Some (''/'' @ strip_slash (base_path c)) else None)"

definition interpret_failure :: "connection \<Rightarrow> string \<Rightarrow> diagnosis" where
  "interpret_failure c summary =
     (let has = (\<lambda>s. contains s (py_lower summary))
      in if has ''host key'' \<or> has ''knownhosts'' then HostKeyChanged summary
         else if has ''permission denied'' \<or> has ''auth'' then AuthRefused summary
         else if has ''no such host'' \<or> has ''lookup'' then HostUnknown summary
         else if has ''connection refused'' then ConnectionRefused summary
         else if has ''directory not found'' \<or> has ''not found'' then BasePathMissing (relative_hint c) summary
         else OtherFailure summary)"

definition not_ok :: "test_message \<Rightarrow> test_outcome" where
  "not_ok m = \<lparr>to_ok = False, to_message = m, to_payload = None, to_host_key = None, to_warnings = [], to_command = None\<rparr>"

definition sentinel_of :: "connection \<Rightarrow> string" where
  "sentinel_of c = py_strip (case sentinel_file c of None \<Rightarrow> [] | Some s \<Rightarrow> s)"

definition guarded_by_sentinel :: "connection \<Rightarrow> bool" where
  "guarded_by_sentinel c \<longleftrightarrow> sentinel_of c \<noteq> [] \<and> conn_type c = CtLocal"

definition warnings_for :: "capabilities \<Rightarrow> test_warning list" where
  "warnings_for caps =
     (if hashes caps = {} then [NoHashTypesOn] else []) @ (if \<not> can_set_modtime caps then [NoModtimeOn] else []) @
     (if \<not> supports_move caps then [NoMoveOn] else [])"

text \<open>What \<open>except RemoteConfigError\<close> and \<open>except InspectError\<close> make of an exception.\<close>

definition caught :: "failure \<Rightarrow> uncaught + test_outcome" where
  "caught e =
     (case e of
        FailedInspect i \<Rightarrow> Inr (not_ok (NotInspected i))
      | FailedPrepare (RemoteConfigError r) \<Rightarrow> Inr (not_ok (NotPrepared r))
      | FailedPrepare pe \<Rightarrow> Inl (UncaughtPrepare pe))"

text \<open>The guards after a listing that worked, \<open>cmd\<close> the listing.\<close>

definition probe_reached :: "ext \<Rightarrow> rc \<Rightarrow> connection \<Rightarrow> prepared \<Rightarrow> string \<Rightarrow> uncaught + test_outcome" where
  "probe_reached x rc c p cmd =
     (case (if guarded_by_sentinel c then map_err caught (list_dirs rc p ALIAS_PROBE []) else Inr []) of
        Inl r \<Rightarrow> r
      | Inr entries \<Rightarrow>
          if guarded_by_sentinel c \<and> sentinel_of c \<notin> de_name ` set entries
          then Inr ((not_ok (SentinelMissing (sentinel_of c)))\<lparr>to_command := Some cmd\<rparr>)
          else
            (case probe_features x rc p ALIAS_PROBE of
               Inl e \<Rightarrow> Inr ((not_ok (ProbeBroken e))\<lparr>to_command := Some cmd\<rparr>)
             | Inr payload \<Rightarrow>
                 (case from_probe x payload None of
                    None \<Rightarrow> Inl UncaughtPayload
                  | Some caps \<Rightarrow>
                      Inr \<lparr>to_ok = True, to_message = Connected, to_payload = Some payload, to_host_key = None,
                           to_warnings = warnings_for caps, to_command = Some cmd\<rparr>)))"

definition probe_connection :: "ext \<Rightarrow> rc \<Rightarrow> connection \<Rightarrow> uncaught + test_outcome" where
  "probe_connection x rc c =
     (case map_err FailedPrepare (prepare x [(ALIAS_PROBE, c)]) of
        Inl e \<Rightarrow> caught e
      | Inr p \<Rightarrow>
          (case check_reachable rc p ALIAS_PROBE of
             Inl e \<Rightarrow> caught e
           | Inr res \<Rightarrow>
               if \<not> result_ok res then
                 Inr ((not_ok (NotReachable (interpret_failure c (failure_summary res))))\<lparr>to_command := Some (command_line res)\<rparr>)
               else probe_reached x rc c p (command_line res)))"

text \<open>\<open>_run_test\<close>: the connection comes back with the keys it recorded.\<close>

definition run_test :: "(string \<Rightarrow> string option) \<Rightarrow> ext \<Rightarrow> rc \<Rightarrow> connection \<Rightarrow> uncaught + (connection \<times> test_outcome)" where
  "run_test sha x rc c =
     (if needs_host_key_trust c then
        Inr (case host_key_prompt sha rc c of
               None \<Rightarrow> (c, not_ok KeyUnreadable)
             | Some keys \<Rightarrow>
                 (c\<lparr>host_keys := Some (join_with [CHR 0x0A] (map hk_entry keys)), host_keys_trusted := False\<rparr>,
                  (not_ok KeyNotTrusted)\<lparr>to_host_key := Some keys\<rparr>))
      else map_sum id (Pair c) (probe_connection x rc c))"

text \<open>\<open>test_connection\<close>, at the moments \<open>t\<close> and \<open>t'\<close> of its two calls of \<open>utcnow\<close>.\<close>

definition test_connection ::
  "(string \<Rightarrow> string option) \<Rightarrow> ext \<Rightarrow> rc \<Rightarrow> (test_message \<Rightarrow> string) \<Rightarrow> datetime \<Rightarrow> datetime \<Rightarrow> connection
     \<Rightarrow> uncaught + (connection \<times> test_outcome)" where
  "test_connection sha x rc say t t' c =
     map_sum id
       (\<lambda>(c', out).
          (let c1 = c'\<lparr>last_test_at := Some t, last_test_ok := Some (to_ok out),
                       last_test_error := (if to_ok out then None else Some (say (to_message out)))\<rparr>
           in (case to_payload out of
                 None \<Rightarrow> c1
               | Some d \<Rightarrow> c1\<lparr>conn_capabilities := Some (JObj d), capabilities_probed_at := Some t'\<rparr>), out))
       (run_test sha x rc c)"

datatype trust_error = NothingRecorded | FingerprintUnknown

definition trust_host_key :: "(string \<Rightarrow> string option) \<Rightarrow> string \<Rightarrow> connection \<Rightarrow> trust_error + connection" where
  "trust_host_key sha fp c =
     (let recorded = py_strip (case host_keys c of None \<Rightarrow> [] | Some k \<Rightarrow> k)
      in if recorded = [] then Inl NothingRecorded
         else if fp \<notin> set (fingerprints_of sha recorded) then Inl FingerprintUnknown
         else Inr (c\<lparr>host_keys_trusted := True\<rparr>))"

definition forget_host_key :: "connection \<Rightarrow> connection" where
  "forget_host_key c = c\<lparr>host_keys := None, host_keys_trusted := False\<rparr>"

definition browse :: "ext \<Rightarrow> rc \<Rightarrow> connection \<Rightarrow> string option \<Rightarrow> failure + dir_entry list" where
  "browse x rc c subpath =
     bind_res (map_err FailedPrepare (prepare x [(ALIAS_PROBE, c)]))
       (\<lambda>p. list_dirs rc p ALIAS_PROBE (case subpath of None \<Rightarrow> [] | Some s \<Rightarrow> s))"

text \<open>\<open>resolved_path\<close>: the outer None is an exception it does not catch.\<close>

definition resolved_path :: "ext \<Rightarrow> connection \<Rightarrow> string option option" where
  "resolved_path x c =
     (case prepare x [(ALIAS_PROBE, c)] of
        Inl (RemoteConfigError r) \<Rightarrow> Some None
      | Inl e \<Rightarrow> None
      | Inr p \<Rightarrow>
          (case map_of (endpoints p) ALIAS_PROBE of
             None \<Rightarrow> None
           | Some e \<Rightarrow>
               Some (Some ((if conn_type c = CtRcloneRemote \<and> conn_rclone_mode c \<noteq> None \<and> ep_alias e \<noteq> ALIAS_PROBE
                            then ep_alias e else conn_name c) @ '':'' @ ep_path e))))"

subsection \<open>Lemmas: what a scan records\<close>

definition plain_word :: "string \<Rightarrow> bool" where
  "plain_word w \<longleftrightarrow> w \<noteq> [] \<and> (\<forall>c \<in> set w. \<not> py_space c)"

lemma line_break_space: "line_break c \<Longrightarrow> py_space c"
proof -
  have "{10, 11, 12, 13, 28, 29, 30, 133} \<subseteq> {9, 10, 11, 12, 13, 28, 29, 30, 31, 32, 133, 160 :: nat}" by simp
  then show "line_break c \<Longrightarrow> py_space c" unfolding line_break_def py_space_def by (rule subsetD)
qed

lemma words_acc_plain:
  "\<forall>c \<in> set acc. \<not> py_space c \<Longrightarrow> w \<in> set (words_acc acc s) \<Longrightarrow> plain_word w"
proof (induction acc s rule: words_acc.induct)
  case (1 acc)
  then show ?case by (auto simp: plain_word_def split: if_splits)
next
  case (2 acc c cs)
  show ?case
  proof (cases "py_space c")
    case True
    then show ?thesis using 2 by (cases "acc = []") (auto simp: plain_word_def)
  next
    case False
    then show ?thesis using 2 by simp
  qed
qed

lemma py_split_plain: "w \<in> set (py_split s) \<Longrightarrow> plain_word w"
  unfolding py_split_def by (rule words_acc_plain) simp_all

lemma words_acc_append:
  "\<forall>c \<in> set w. \<not> py_space c \<Longrightarrow> words_acc acc (w @ rest) = words_acc (rev w @ acc) rest"
  by (induction w arbitrary: acc) auto

lemma py_split_two: "plain_word t \<Longrightarrow> plain_word k \<Longrightarrow> py_split (t @ CHR '' '' # k) = [t, k]"
  using words_acc_append [of k "[]" "[]"] words_acc_append [of t "[]" "CHR '' '' # k"]
  by (simp add: py_split_def plain_word_def py_space_def)

lemma splitlines_acc_append:
  "\<forall>c \<in> set l. \<not> line_break c \<Longrightarrow> splitlines_acc acc (l @ rest) = splitlines_acc (rev l @ acc) rest"
proof (induction l arbitrary: acc)
  case (Cons c l)
  then have "\<not> line_break c" "c \<noteq> CHR 0x0D" by (auto simp: line_break_def)
  then show ?case using Cons by simp
qed simp

lemma py_splitlines_join:
  "\<forall>l \<in> set ls. l \<noteq> [] \<and> (\<forall>c \<in> set l. \<not> line_break c) \<Longrightarrow> py_splitlines (join_with [CHR 0x0A] ls) = ls"
proof (induction ls)
  case (Cons l ls)
  show ?case
  proof (cases ls)
    case Nil
    then show ?thesis using Cons.prems splitlines_acc_append [of l "[]" "[]"] by (simp add: py_splitlines_def)
  next
    case (Cons m ms)
    then have "py_splitlines (join_with [CHR 0x0A] (l # ls)) = splitlines_acc [] (l @ CHR 0x0A # join_with [CHR 0x0A] ls)"
      by (simp add: py_splitlines_def)
    also have "\<dots> = l # py_splitlines (join_with [CHR 0x0A] ls)"
      using Cons.prems splitlines_acc_append [of l "[]"] by (simp add: py_splitlines_def line_break_def)
    finally show ?thesis using Cons.prems Cons.IH by simp
  qed
qed (simp add: py_splitlines_def)

definition wf_key :: "(string \<Rightarrow> string option) \<Rightarrow> host_key \<Rightarrow> bool" where
  "wf_key sha key \<longleftrightarrow>
     (\<exists>t k. plain_word t \<and> plain_word k \<and> hk_entry key = t @ CHR '' '' # k \<and> hk_fingerprint key = fingerprint sha t k)"

lemma scan_line_wf: "key \<in> set (scan_line sha line) \<Longrightarrow> wf_key sha key"
proof -
  assume key: "key \<in> set (scan_line sha line)"
  then obtain h t k ps where split: "py_split line = h # t # k # ps"
      and eq: "key = \<lparr>hk_type = t, hk_entry = t @ '' '' @ k, hk_fingerprint = fingerprint sha t k\<rparr>"
    by (auto simp: scan_line_def intro: that [OF sym] split: if_splits list.splits)
  have "plain_word t" "plain_word k" using py_split_plain [of _ line] split by auto
  then show ?thesis using eq by (auto simp: wf_key_def)
qed

lemma scan_wf: "key \<in> set (scan_host_keys sha rc host port) \<Longrightarrow> wf_key sha key"
  using scan_line_wf by (auto simp: scan_host_keys_def Let_def)

definition recorded_text :: "host_key list \<Rightarrow> string" where
  "recorded_text keys = join_with [CHR 0x0A] (map hk_entry keys)"

lemma wf_entry:
  assumes "wf_key sha key"
  shows "hk_entry key \<noteq> []" "c \<in> set (hk_entry key) \<Longrightarrow> \<not> line_break c" "\<not> py_space (hd (hk_entry key))"
    "\<not> py_space (last (hk_entry key))" "line_fingerprint sha (hk_entry key) = [hk_fingerprint key]"
proof -
  obtain t k where e: "plain_word t" "plain_word k" "hk_entry key = t @ CHR '' '' # k" "hk_fingerprint key = fingerprint sha t k"
    using assms by (auto simp: wf_key_def)
  show "hk_entry key \<noteq> []" by (simp add: e(3))
  show "c \<in> set (hk_entry key) \<Longrightarrow> \<not> line_break c"
    using e(1,2) line_break_space [of c] by (auto simp: e(3) plain_word_def line_break_def)
  show "\<not> py_space (hd (hk_entry key))" using e(1) by (cases t) (auto simp: e(3) plain_word_def)
  show "\<not> py_space (last (hk_entry key))" using e(2) by (auto simp: e(3) plain_word_def)
  show "line_fingerprint sha (hk_entry key) = [hk_fingerprint key]"
    by (simp add: line_fingerprint_def e(3,4) py_split_two [OF e(1,2)])
qed

lemma splitlines_recorded: "\<forall>key \<in> set keys. wf_key sha key \<Longrightarrow> py_splitlines (recorded_text keys) = map hk_entry keys"
  unfolding recorded_text_def by (rule py_splitlines_join) (use wf_entry(1,2) in fastforce)

lemma hd_join_with: "l \<noteq> [] \<Longrightarrow> hd (join_with sep (l # ls)) = hd l"
  by (cases ls) auto

lemma last_join_with: "ls \<noteq> [] \<Longrightarrow> last ls \<noteq> [] \<Longrightarrow> last (join_with sep ls) = last (last ls)"
  by (induction sep ls rule: join_with.induct) (auto simp: last_append dest: last_in_set)

lemma strip_recorded:
  assumes "\<forall>key \<in> set keys. wf_key sha key"
  shows "py_strip (recorded_text keys) = recorded_text keys"
proof (cases keys)
  case (Cons key rest)
  have "last keys \<in> set keys" "key \<in> set keys" using Cons by auto
  then have wf: "wf_key sha (last keys)" "wf_key sha key" using assms by auto
  have last: "last (map hk_entry keys) = hk_entry (last keys)" using Cons by (subst last_map) auto
  show ?thesis
    unfolding py_strip_def
  proof (rule strip_if_id, intro disjI2 conjI)
    show "\<not> py_space (hd (recorded_text keys))"
      using wf_entry(1,3) [OF wf(2)] by (simp add: recorded_text_def Cons hd_join_with)
    show "\<not> py_space (last (recorded_text keys))"
      unfolding recorded_text_def
      using wf_entry(1,4) [OF wf(1)] Cons last by (subst last_join_with) auto
  qed
qed (simp add: recorded_text_def py_strip_def strip_if_def)

lemma recorded_Nil: "\<forall>key \<in> set keys. wf_key sha key \<Longrightarrow> recorded_text keys = [] \<longleftrightarrow> keys = []"
  using wf_entry(1) by (auto simp: recorded_text_def)

lemma fingerprints_recorded:
  "\<forall>key \<in> set keys. wf_key sha key \<Longrightarrow> fingerprints_of sha (recorded_text keys) = map hk_fingerprint keys"
  unfolding fingerprints_of_def splitlines_recorded map_map
  by (induction keys) (auto simp: wf_entry(5))

subsection \<open>Trust on first use\<close>

text \<open>The requests that touch one connection, and what an operator saw and said.\<close>

datatype conn_event = Shown "host_key list" | Approved string | Forgotten

datatype conn_request =
    TestIt ext rc datetime datetime
  | TrustIt string
  | ForgetIt
  | EditIt connection_payload "credential option"

definition shown_by :: "test_outcome \<Rightarrow> conn_event list" where
  "shown_by out = (case to_host_key out of None \<Rightarrow> [] | Some keys \<Rightarrow> [Shown keys])"

definition conn_do ::
  "(string \<Rightarrow> string option) \<Rightarrow> (test_message \<Rightarrow> string) \<Rightarrow> conn_request \<Rightarrow> connection \<times> conn_event list
     \<Rightarrow> connection \<times> conn_event list" where
  "conn_do sha say req = (\<lambda>(c, evs).
     (case req of
        TestIt x rc t t' \<Rightarrow>
          (case test_connection sha x rc say t t' c of Inl e \<Rightarrow> (c, evs) | Inr (c', out) \<Rightarrow> (c', evs @ shown_by out))
      | TrustIt fp \<Rightarrow> (case trust_host_key sha fp c of Inl e \<Rightarrow> (c, evs) | Inr c' \<Rightarrow> (c', evs @ [Approved fp]))
      | ForgetIt \<Rightarrow> (forget_host_key c, evs @ [Forgotten])
      | EditIt p cr \<Rightarrow> (edit_connection p cr c, evs)))"

definition keys_pinned :: "(string \<Rightarrow> string option) \<Rightarrow> connection \<Rightarrow> conn_event list \<Rightarrow> host_key list \<Rightarrow> string list \<Rightarrow> bool" where
  "keys_pinned sha c evs keys fps \<longleftrightarrow>
     suffix (Shown keys # map Approved fps) evs \<and> keys \<noteq> [] \<and> (\<forall>key \<in> set keys. wf_key sha key) \<and>
     host_keys c = Some (recorded_text keys) \<and> set fps \<subseteq> hk_fingerprint ` set keys \<and>
     (host_keys_trusted c \<longleftrightarrow> fps \<noteq> [])"

definition tofu :: "(string \<Rightarrow> string option) \<Rightarrow> connection \<times> conn_event list \<Rightarrow> bool" where
  "tofu sha s \<longleftrightarrow>
     host_keys (fst s) = None \<and> \<not> host_keys_trusted (fst s) \<or> (\<exists>keys fps. keys_pinned sha (fst s) (snd s) keys fps)"

lemma map_err_case: "map_err f r = (case r of Inl e \<Rightarrow> Inl (f e) | Inr v \<Rightarrow> Inr v)"
  by (cases r) simp_all

lemma probe_shows_nothing: "probe_connection x rc c = Inr out \<Longrightarrow> to_host_key out = None"
  by (auto simp: probe_connection_def probe_reached_def caught_def not_ok_def map_err_case Let_def
      split: sum.splits if_splits option.splits failure.splits prep_error.splits)

lemma test_keys:
  assumes "test_connection sha x rc say t t' c = Inr (c', out)"
  shows "to_host_key out = None \<and> host_keys c' = host_keys c \<and> host_keys_trusted c' = host_keys_trusted c \<or>
    (\<exists>keys. host_key_prompt sha rc c = Some keys \<and> to_host_key out = Some keys \<and> \<not> host_keys_trusted c \<and>
      host_keys c' = Some (recorded_text keys) \<and> \<not> host_keys_trusted c')"
proof (cases "needs_host_key_trust c")
  case True
  then show ?thesis
    using assms
    by (auto simp: test_connection_def run_test_def needs_host_key_trust_def not_ok_def recorded_text_def Let_def
        split: option.splits)
next
  case False
  then obtain o' where o': "probe_connection x rc c = Inr o'"
    using assms by (cases "probe_connection x rc c") (simp_all add: test_connection_def run_test_def)
  then show ?thesis
    using assms False probe_shows_nothing [OF o']
    by (auto simp: test_connection_def run_test_def Let_def split: option.splits)
qed

lemma prompt_wf: "host_key_prompt sha rc c = Some keys \<Longrightarrow> keys \<noteq> [] \<and> (\<forall>key \<in> set keys. wf_key sha key)"
  using scan_wf by (fastforce simp: host_key_prompt_def Let_def split: if_splits)

lemma trust_cases:
  assumes "keys_pinned sha c evs keys fps"
  shows "trust_host_key sha fp c =
     (if fp \<in> hk_fingerprint ` set keys then Inr (c\<lparr>host_keys_trusted := True\<rparr>) else Inl FingerprintUnknown)"
  using assms strip_recorded [of keys sha] fingerprints_recorded [of keys sha] recorded_Nil [of keys sha]
  by (simp add: trust_host_key_def keys_pinned_def Let_def)

lemma tofu_test: "tofu sha (c, evs) \<Longrightarrow> tofu sha (conn_do sha say (TestIt x rc t t') (c, evs))"
proof (cases "test_connection sha x rc say t t' c")
  case (Inr r)
  assume inv: "tofu sha (c, evs)"
  obtain c' out where r: "r = (c', out)" by (cases r)
  consider "to_host_key out = None" "host_keys c' = host_keys c" "host_keys_trusted c' = host_keys_trusted c"
    | keys where "host_key_prompt sha rc c = Some keys" "to_host_key out = Some keys"
        "host_keys c' = Some (recorded_text keys)" "\<not> host_keys_trusted c'"
    using test_keys [OF Inr [unfolded r]] by (elim disjE exE conjE) simp_all
  then show ?thesis
  proof cases
    case 1
    then show ?thesis using inv Inr r by (simp add: conn_do_def shown_by_def tofu_def keys_pinned_def)
  next
    case 2
    then have "keys_pinned sha c' (evs @ [Shown keys]) keys []"
      using prompt_wf [OF 2(1)] by (simp add: keys_pinned_def)
    then show ?thesis using Inr r 2(2) by (auto simp: conn_do_def shown_by_def tofu_def)
  qed
qed (simp add: conn_do_def)

lemma tofu_trust: "tofu sha (c, evs) \<Longrightarrow> tofu sha (conn_do sha say (TrustIt fp) (c, evs))"
proof -
  assume "tofu sha (c, evs)"
  then consider "host_keys c = None" "\<not> host_keys_trusted c" | keys fps where "keys_pinned sha c evs keys fps"
    by (auto simp: tofu_def)
  then show ?thesis
  proof cases
    case 1
    then have "trust_host_key sha fp c = Inl NothingRecorded"
      by (simp add: trust_host_key_def py_strip_def strip_if_def)
    then show ?thesis using 1 by (simp add: conn_do_def tofu_def)
  next
    case 2
    show ?thesis
    proof (cases "fp \<in> hk_fingerprint ` set keys")
      case True
      then have "keys_pinned sha (c\<lparr>host_keys_trusted := True\<rparr>) (evs @ [Approved fp]) keys (fps @ [fp])"
        using 2 by (auto simp: keys_pinned_def suffix_def)
      then show ?thesis using True trust_cases [OF 2, of fp] by (auto simp: conn_do_def tofu_def)
    next
      case False
      then show ?thesis using 2 trust_cases [OF 2, of fp] by (auto simp: conn_do_def tofu_def)
    qed
  qed
qed

lemma tofu_do: "tofu sha s \<Longrightarrow> tofu sha (conn_do sha say req s)"
proof (cases s; cases req)
  fix c evs x rc t t'
  assume "tofu sha s" "s = (c, evs)" "req = TestIt x rc t t'"
  then show ?thesis using tofu_test by simp
next
  fix c evs fp
  assume "tofu sha s" "s = (c, evs)" "req = TrustIt fp"
  then show ?thesis using tofu_trust by simp
qed (auto simp: conn_do_def tofu_def forget_host_key_def keys_pinned_def)

lemma nonblank_recorded:
  assumes "\<forall>key \<in> set keys. wf_key sha key"
  shows "nonblank_lines (recorded_text keys) = map hk_entry keys"
proof -
  have "py_strip (hk_entry key) = hk_entry key" if "key \<in> set keys" for key
    unfolding py_strip_def
    by (rule strip_if_id) (use wf_entry(3,4) [of sha key] assms that in simp)
  then have "map py_strip (map hk_entry keys) = map hk_entry keys" by simp
  moreover have "filter (\<lambda>l. l \<noteq> []) (map hk_entry keys) = map hk_entry keys"
    using wf_entry(1) assms by (auto simp: filter_id_conv)
  ultimately show ?thesis by (simp only: nonblank_lines_def splitlines_recorded [OF assms])
qed

definition known_target :: "connection \<Rightarrow> string" where
  "known_target c = (if port_of c \<noteq> 22 then ''['' @ host_of c @ '']:'' @ str_nat (port_of c) else host_of c)"

lemma known_hosts_pinned:
  assumes "keys_pinned sha c evs keys fps" "host_keys_trusted c"
  shows "known_hosts_content c =
     Some (join_with [CHR 0x0A] (map (\<lambda>key. known_target c @ '' '' @ hk_entry key) keys) @ [CHR 0x0A])"
proof -
  have wf: "\<forall>key \<in> set keys. wf_key sha key" and keys: "keys \<noteq> []" "host_keys c = Some (recorded_text keys)"
    using assms(1) by (simp_all add: keys_pinned_def)
  have "(case host_keys c of None \<Rightarrow> [] | Some k \<Rightarrow> k) = recorded_text keys" by (simp add: keys(2))
  then show ?thesis
    using assms(2) keys(1) recorded_Nil [OF wf]
    by (simp add: known_hosts_content_def strip_recorded [OF wf] nonblank_recorded [OF wf] Let_def known_target_def
        port_of_def host_of_def comp_def)
qed

text \<open>C15. What a run pins was shown and approved. Start from a connection with no recorded keys and let any requests test
  it, approve fingerprints, forget its keys and edit it, one after the other. If it is trusted in the end, the last scan
  that was shown is followed by approvals only, at least one, each of a fingerprint that scan showed; and the known hosts
  file of a run names the host of the connection with exactly the keys of that scan.\<close>

theorem trusted_keys_approved:
  assumes "host_keys c = None" "\<not> host_keys_trusted c"
    and "fold (conn_do sha say) reqs (c, []) = (c', evs)" "host_keys_trusted c'"
  shows "\<exists>earlier keys fps.
     evs = earlier @ Shown keys # map Approved fps \<and> fps \<noteq> [] \<and> set fps \<subseteq> hk_fingerprint ` set keys \<and>
     known_hosts_content c' =
       Some (join_with [CHR 0x0A] (map (\<lambda>key. known_target c' @ '' '' @ hk_entry key) keys) @ [CHR 0x0A])"
proof -
  have "tofu sha s \<Longrightarrow> tofu sha (fold (conn_do sha say) reqs s)" for s
    by (induction reqs arbitrary: s) (auto simp: tofu_do)
  moreover have "tofu sha (c, [])" using assms(1,2) by (simp add: tofu_def)
  ultimately have "tofu sha (c', evs)" using assms(3) by metis
  then obtain keys fps where pinned: "keys_pinned sha c' evs keys fps" using assms(4) by (auto simp: tofu_def)
  then obtain earlier where "evs = earlier @ Shown keys # map Approved fps" by (auto simp: keys_pinned_def suffix_def)
  then show ?thesis using pinned assms(4) known_hosts_pinned [OF pinned assms(4)] by (auto simp: keys_pinned_def)
qed

definition reaches :: "rc \<Rightarrow> prepared \<Rightarrow> bool" where
  "reaches rc p \<longleftrightarrow> (case check_reachable rc p ALIAS_PROBE of Inl e \<Rightarrow> False | Inr res \<Rightarrow> result_ok res)"

definition sees_sentinel :: "rc \<Rightarrow> prepared \<Rightarrow> connection \<Rightarrow> bool" where
  "sees_sentinel rc p c \<longleftrightarrow>
     (if guarded_by_sentinel c
      then (case list_dirs rc p ALIAS_PROBE [] of Inl e \<Rightarrow> False | Inr es \<Rightarrow> sentinel_of c \<in> de_name ` set es) else True)"

lemma not_ok_simps [simp]: "to_ok (not_ok m) = False" "to_payload (not_ok m) = None"
  by (simp_all add: not_ok_def)

lemma caught_not_ok: "caught e = Inr out \<Longrightarrow> \<not> to_ok out \<and> to_payload out = None"
  by (auto simp: caught_def split: failure.splits prep_error.splits)

lemma probe_reached_ok:
  assumes "probe_reached x rc c p cmd = Inr out"
  shows "to_ok out \<longleftrightarrow> sees_sentinel rc p c \<and> (\<exists>payload. probe_features x rc p ALIAS_PROBE = Inr payload)"
    and "to_payload out = (if to_ok out then Some (projr (probe_features x rc p ALIAS_PROBE)) else None)"
  using assms
  by (auto simp: probe_reached_def sees_sentinel_def map_err_case
      dest: caught_not_ok split: sum.splits if_splits option.splits)

definition probes :: "ext \<Rightarrow> rc \<Rightarrow> connection \<Rightarrow> (string \<times> json) list \<Rightarrow> bool" where
  "probes x rc c payload \<longleftrightarrow>
     (case prepare x [(ALIAS_PROBE, c)] of
        Inl e \<Rightarrow> False
      | Inr p \<Rightarrow> reaches rc p \<and> sees_sentinel rc p c \<and> probe_features x rc p ALIAS_PROBE = Inr payload)"

lemma probe_connection_ok:
  assumes "probe_connection x rc c = Inr out"
  shows "(to_ok out \<longleftrightarrow> (\<exists>payload. probes x rc c payload)) \<and>
         (case to_payload out of None \<Rightarrow> \<not> to_ok out | Some payload \<Rightarrow> to_ok out \<and> probes x rc c payload)"
proof (cases "prepare x [(ALIAS_PROBE, c)]")
  case (Inl e)
  then show ?thesis using assms by (auto simp: probe_connection_def probes_def dest: caught_not_ok)
next
  case (Inr p)
  show ?thesis
  proof (cases "check_reachable rc p ALIAS_PROBE")
    case (Inl e)
    then show ?thesis using assms Inr by (auto simp: probe_connection_def probes_def reaches_def dest: caught_not_ok)
  next
    case res: (Inr res)
    show ?thesis
    proof (cases "result_ok res")
      case True
      then have "probe_reached x rc c p (command_line res) = Inr out"
        using assms Inr res by (simp add: probe_connection_def)
      from probe_reached_ok [OF this] show ?thesis using Inr res True by (auto simp: probes_def reaches_def)
    next
      case False
      then show ?thesis using assms Inr res by (auto simp: probe_connection_def probes_def reaches_def)
    qed
  qed
qed

text \<open>C22. What a green test proves. A test that returns stores its verdict on the row. It is green exactly when the host key
  does not wait for approval, the connection can be addressed, the base path was listed, the sentinel file of a guarded
  local mount is there and the capability probe was read; then the capabilities of the row are that probe. A test that is
  not green leaves the capabilities as they were, and says why.\<close>

theorem green_test_proves:
  assumes "test_connection sha x rc say t t' c = Inr (c', out)"
  shows "last_test_ok c' = Some (to_ok out) \<and> last_test_at c' = Some t \<and>
    (to_ok out \<longleftrightarrow> \<not> (conn_type c = CtSftp \<and> \<not> host_keys_trusted c) \<and> (\<exists>payload. probes x rc c payload)) \<and>
    (if to_ok out
     then \<exists>payload. probes x rc c payload \<and> conn_capabilities c' = Some (JObj payload) \<and>
            capabilities_probed_at c' = Some t' \<and> last_test_error c' = None
     else conn_capabilities c' = conn_capabilities c \<and> last_test_error c' = Some (say (to_message out)))"
proof (cases "needs_host_key_trust c")
  case True
  then show ?thesis
    using assms by (auto simp: test_connection_def run_test_def needs_host_key_trust_def Let_def split: option.splits)
next
  case False
  then obtain o' where o': "probe_connection x rc c = Inr o'"
    using assms by (cases "probe_connection x rc c") (simp_all add: test_connection_def run_test_def)
  then have out: "out = o'" and c': "c' =
      (let c1 = c\<lparr>last_test_at := Some t, last_test_ok := Some (to_ok out),
                  last_test_error := (if to_ok out then None else Some (say (to_message out)))\<rparr>
       in (case to_payload out of None \<Rightarrow> c1
           | Some d \<Rightarrow> c1\<lparr>conn_capabilities := Some (JObj d), capabilities_probed_at := Some t'\<rparr>))"
    using assms False by (auto simp: test_connection_def run_test_def)
  show ?thesis
    using probe_connection_ok [OF o'] False unfolding out [symmetric] c'
    by (cases "to_payload out") (auto simp: needs_host_key_trust_def)
qed

text \<open>A test that overlaps an approval. The columns a request writes back are those that differ from what it read.\<close>

definition commit_test :: "connection \<Rightarrow> connection \<Rightarrow> connection \<Rightarrow> connection" where
  "commit_test before after cur =
     cur\<lparr>host_keys := (if host_keys after = host_keys before then host_keys cur else host_keys after),
         host_keys_trusted := (if host_keys_trusted after = host_keys_trusted before then host_keys_trusted cur
                               else host_keys_trusted after),
         last_test_at := (if last_test_at after = last_test_at before then last_test_at cur else last_test_at after),
         last_test_ok := (if last_test_ok after = last_test_ok before then last_test_ok cur else last_test_ok after),
         last_test_error := (if last_test_error after = last_test_error before then last_test_error cur
                             else last_test_error after)\<rparr>"

text \<open>A test reads the row while it is untrusted; while it scans, the operator approves a key an earlier test had shown;
  then the test commits. The keys it found, which nobody was shown before, are the ones that are trusted.\<close>

lemma overlapping_test_trusts_unseen:
  assumes "conn_type c = CtSftp" "\<not> host_keys_trusted c" "trust_host_key sha fp c = Inr approved"
    and "host_key_prompt sha rc c = Some keys" "host_keys c \<noteq> Some (recorded_text keys)"
    and "test_connection sha x rc say t t' c = Inr (tested, out)"
  shows "host_keys_trusted (commit_test c tested approved) \<and>
         host_keys (commit_test c tested approved) = Some (recorded_text keys)"
proof -
  have "host_keys tested = Some (recorded_text keys)" "\<not> host_keys_trusted tested"
    using assms
    by (auto simp: test_connection_def run_test_def needs_host_key_trust_def recorded_text_def Let_def not_ok_def)
  moreover have "host_keys_trusted approved"
    using assms(3) by (auto simp: trust_host_key_def Let_def split: if_splits)
  ultimately show ?thesis using assms(2,5) by (simp add: commit_test_def)
qed

text \<open>A credential that does not decrypt ends a test with an exception, which the operator gets as an error page.\<close>

lemma undecryptable_raises:
  assumes "\<not> (conn_type c = CtSftp \<and> \<not> host_keys_trusted c)" "prepare x [(ALIAS_PROBE, c)] = Inl SecretDecryptError"
  shows "test_connection sha x rc say t t' c = Inl (UncaughtPrepare SecretDecryptError)"
  using assms by (simp add: test_connection_def run_test_def needs_host_key_trust_def probe_connection_def caught_def)

subsection \<open>Concrete values\<close>

definition sample_scan :: rc where
  "sample_scan argv = Completed 0 (''nas.lan ssh-ed25519 AAAA'' @ [CHR 0x0A]) []"

definition sample_requests :: "conn_request list" where
  "sample_requests = [TestIt sample_ext sample_scan 1 2, TrustIt ''ssh-ed25519 SHA256:AAAA'']"

lemma sample_scanned:
  "scan_host_keys Some sample_scan host port =
     [\<lparr>hk_type = ''ssh-ed25519'', hk_entry = ''ssh-ed25519 AAAA'', hk_fingerprint = ''ssh-ed25519 SHA256:AAAA''\<rparr>]"
proof -
  have "concat (map (scan_line Some) (py_splitlines (''nas.lan ssh-ed25519 AAAA'' @ [CHR 0x0A]))) =
     [\<lparr>hk_type = ''ssh-ed25519'', hk_entry = ''ssh-ed25519 AAAA'', hk_fingerprint = ''ssh-ed25519 SHA256:AAAA''\<rparr>]"
    by code_simp
  then show ?thesis
    by (simp add: scan_host_keys_def sample_scan_def run_without_secrets Let_def del: append.simps)
qed

lemma sample_trusted: "fst (fold (conn_do Some (\<lambda>m. [])) sample_requests (sample_connection, [])) =
  sample_connection\<lparr>last_test_at := Some 1, last_test_ok := Some False, last_test_error := Some [],
    host_keys := Some ''ssh-ed25519 AAAA'', host_keys_trusted := True\<rparr>"
proof -
  let ?c = "sample_connection\<lparr>last_test_at := Some 1, last_test_ok := Some False, last_test_error := Some [],
    host_keys := Some ''ssh-ed25519 AAAA''\<rparr>"
  have "test_connection Some sample_ext sample_scan (\<lambda>m. []) 1 2 sample_connection =
      Inr (?c, (not_ok KeyNotTrusted)\<lparr>to_host_key := Some (scan_host_keys Some sample_scan ''nas.lan'' 22)\<rparr>)"
    by (simp add: test_connection_def run_test_def needs_host_key_trust_def host_key_prompt_def sample_scanned
        sample_connection_def host_of_def port_of_def not_ok_def)
  moreover have "trust_host_key Some ''ssh-ed25519 SHA256:AAAA'' ?c = Inr (?c\<lparr>host_keys_trusted := True\<rparr>)"
    by code_simp
  ultimately show ?thesis by (simp add: sample_requests_def conn_do_def)
qed

theorem trusted_keys_approved_witness:
  "\<exists>earlier keys fps.
     snd (fold (conn_do Some (\<lambda>m. [])) sample_requests (sample_connection, [])) =
       earlier @ Shown keys # map Approved fps \<and> fps \<noteq> [] \<and> set fps \<subseteq> hk_fingerprint ` set keys"
proof -
  obtain c' evs where f: "fold (conn_do Some (\<lambda>m. [])) sample_requests (sample_connection, []) = (c', evs)"
    by (cases "fold (conn_do Some (\<lambda>m. [])) sample_requests (sample_connection, [])")
  have "host_keys sample_connection = None" "\<not> host_keys_trusted sample_connection"
    by (simp_all add: sample_connection_def)
  moreover have "host_keys_trusted c'" using sample_trusted f by simp
  ultimately show ?thesis using trusted_keys_approved [OF _ _ f] f by auto
qed

definition sample_share :: connection where
  "sample_share = sample_connection\<lparr>conn_type := CtLocal, base_path := ''/data'', sentinel_file := Some ''.mounted''\<rparr>"

definition sample_probe :: rc where
  "sample_probe argv = Completed 0 (if ''lsf'' \<in> set argv then ''.mounted'' else []) []"

definition sample_probe_ext :: ext where
  "sample_probe_ext = sample_ext\<lparr>ext_loads := (\<lambda>s. Some (JObj [(''Features'', JObj [])]))\<rparr>"

lemma probes_returns:
  assumes "probes x rc c payload" "from_probe x payload None \<noteq> None"
  shows "\<exists>out. probe_connection x rc c = Inr out"
proof -
  obtain p where p: "prepare x [(ALIAS_PROBE, c)] = Inr p" "reaches rc p" "sees_sentinel rc p c"
      "probe_features x rc p ALIAS_PROBE = Inr payload"
    using assms(1) by (auto simp: probes_def split: sum.splits)
  obtain res where res: "check_reachable rc p ALIAS_PROBE = Inr res" "result_ok res"
    using p(2) by (auto simp: reaches_def split: sum.splits)
  have "\<exists>out. probe_reached x rc c p cmd = Inr out" for cmd
    using p(3,4) assms(2) by (auto simp: probe_reached_def sees_sentinel_def split: sum.splits option.splits if_splits)
  then show ?thesis using p(1) res by (simp add: probe_connection_def)
qed

definition sample_prep :: prepared where
  "sample_prep =
     (let env = [(''RCLONE_CONFIG_HS_PROBE_TYPE'', ''local'')]
      in \<lparr>endpoints = [(ALIAS_PROBE, \<lparr>ep_alias = ALIAS_PROBE, ep_path = ''/data'', ep_env = env, ep_redactable = [],
                                    uses_user_config = False\<rparr>)],
          prep_env = env, base_args = [''--config'', []], secrets = []\<rparr>)"

lemma sample_share_prepared: "prepare sample_probe_ext [(ALIAS_PROBE, sample_share)] = Inr sample_prep"
  by code_simp

lemma sample_share_probes: "probes sample_probe_ext sample_probe sample_share [(''Features'', JObj [])]"
proof -
  have sec: "secrets sample_prep = []" and sp: "prep_spec sample_prep ALIAS_PROBE [] = Inr ''hs_probe:/data''"
    and sent: "sentinel_of sample_share = ''.mounted''" by code_simp+
  have run: "result_ok (run_prepared sample_probe sample_prep args)"
      "res_stdout (run_prepared sample_probe sample_prep args) = (if ''lsf'' \<in> set (prep_argv sample_prep args) then ''.mounted'' else [])"
    for args
    by (simp_all add: run_prepared_def sample_probe_def sec run_command_ok run_without_secrets)
  have reach: "reaches sample_probe sample_prep"
    by (simp add: reaches_def check_reachable_def sp run(1))
  have lines: "nonblank_lines ''.mounted'' = [''.mounted'']" by code_simp
  have "list_dirs sample_probe sample_prep ALIAS_PROBE [] = Inr [\<lparr>de_name = ''.mounted'', de_is_dir = False\<rparr>]"
    by (simp add: list_dirs_def sp run prep_argv_def lines Let_def sort_entries_def read_entry_def suffix_def)
  then have "sees_sentinel sample_probe sample_prep sample_share"
    by (simp add: sees_sentinel_def sent)
  moreover have "probe_features sample_probe_ext sample_probe sample_prep ALIAS_PROBE = Inr [(''Features'', JObj [])]"
    by (simp add: probe_features_def run(1) parse_json_def sample_probe_ext_def Let_def jget_def)
  ultimately show ?thesis by (simp add: probes_def sample_share_prepared reach)
qed

theorem green_test_proves_witness:
  "\<exists>c' out. test_connection Some sample_probe_ext sample_probe (\<lambda>m. []) 1 2 sample_share = Inr (c', out) \<and>
     to_ok out \<and> conn_capabilities c' = Some (JObj [(''Features'', JObj [])])"
proof -
  have n: "\<not> needs_host_key_trust sample_share" by code_simp
  have "probe_connection sample_probe_ext sample_probe sample_share \<noteq> Inl e" for e
    using probes_returns [OF sample_share_probes] by (auto simp: from_probe_def read_features_def read_hashes_def falsy_get_def jget_def)
  then obtain c' out where r: "test_connection Some sample_probe_ext sample_probe (\<lambda>m. []) 1 2 sample_share = Inr (c', out)"
    using n by (cases "probe_connection sample_probe_ext sample_probe sample_share")
      (auto simp: test_connection_def run_test_def)
  note green = green_test_proves [OF r]
  have ok: "to_ok out" using green sample_share_probes n unfolding needs_host_key_trust_def by blast
  then obtain payload where payload: "probes sample_probe_ext sample_probe sample_share payload"
      "conn_capabilities c' = Some (JObj payload)"
    using green by auto
  have "payload = [(''Features'', JObj [])]"
    using payload(1) sample_share_probes by (simp only: probes_def sample_share_prepared sum.case) simp
  then show ?thesis using r ok payload(2) by blast
qed

end
