(* ===== verification/Portable.thy ===== *)
theory Portable
  imports Catalog Preferences
begin

text \<open>
  \<open>app/portable.py\<close>, and the import of \<open>app/web\<close>: the configuration as a document, and a document applied to an instance.
  A decoded document is an association list. A row the import writes may land in three ways: SQLAlchemy or SQLite
  raises, and then nothing of the import is committed; the row is stored with a value its column's type does not have, a word
  no enum has for one, and the typed rows of the model end there; or it lands. What is not under \<open>src/\<close> is the record
  \<open>driver\<close>: how a decoded value is stored in a text and in an integer column, what \<open>str\<close> makes of a value that is not a
  string, and how pydantic reads an integer.

  The sessions of the program do not flush on their own (\<open>create_session_factory\<close> of \<open>app/db.py\<close>), so a query sees
  the rows the import has added only after \<open>session.flush()\<close>.
\<close>

datatype 'a landed = Raised | Foreign | Landed 'a

fun and_then :: "'a landed \<Rightarrow> ('a \<Rightarrow> 'b landed) \<Rightarrow> 'b landed" where
  "and_then Raised f = Raised"
| "and_then Foreign f = Foreign"
| "and_then (Landed x) f = f x"

fun each :: "('e \<Rightarrow> 's \<Rightarrow> 's landed) \<Rightarrow> 'e list \<Rightarrow> 's \<Rightarrow> 's landed" where
  "each step [] s = Landed s"
| "each step (e # es) s = and_then (step e s) (each step es)"

record driver =
  dv_text :: "json \<Rightarrow> string landed"
  dv_int :: "json \<Rightarrow> int landed"
  dv_str :: "json \<Rightarrow> string"
  dv_pydantic_int :: "json \<Rightarrow> int option"

definition driver_ok :: "driver \<Rightarrow> bool" where
  "driver_ok dv \<longleftrightarrow>
     (\<forall>s. dv_text dv (JStr s) = Landed s) \<and> (\<forall>n. dv_int dv (JInt n) = Landed n) \<and>
     (\<forall>n. dv_pydantic_int dv (JInt n) = Some n)"

definition FORMAT_VERSION :: int where "FORMAT_VERSION = 1"

definition PREFERENCE_EXCLUDES :: "string list" where
  "PREFERENCE_EXCLUDES = [''notify_webhook_url'', ''notify_ntfy_topic'', ''base_url'']"

record 'trig installation =
  in_catalog :: "'trig catalog"
  in_settings :: settings

datatype import_warning =
    CredentialNeeded string string
  | PresetNeeded string string
  | PreferencesRefused

datatype import_error =
    WrongVersion
  | ConnectionUnnamed
  | JobUnnamed
  | EndpointMissing string "json option"

record import_report =
  connections_created :: nat
  connections_skipped :: nat
  jobs_created :: nat
  jobs_skipped :: nat
  presets_created :: nat
  preferences_applied :: bool
  ir_warnings :: "import_warning list"
  ir_errors :: "import_error list"

definition empty_report :: import_report where
  "empty_report =
     \<lparr>connections_created = 0, connections_skipped = 0, jobs_created = 0, jobs_skipped = 0, presets_created = 0,
      preferences_applied = False, ir_warnings = [], ir_errors = []\<rparr>"

definition import_ok :: "import_report \<Rightarrow> bool" where
  "import_ok r \<longleftrightarrow> ir_errors r = []"

subsection \<open>Values of the enums\<close>

fun direction_value :: "direction \<Rightarrow> string" where
  "direction_value SourceToDest = ''source_to_dest''"
| "direction_value DestToSource = ''dest_to_source''"
| "direction_value Bidirectional = ''bidirectional''"

fun delete_mode_value :: "delete_mode \<Rightarrow> string" where
  "delete_mode_value DelNone = ''none''"
| "delete_mode_value DelDelete = ''delete''"
| "delete_mode_value DelArchive = ''archive''"

fun compare_mode_value :: "compare_mode \<Rightarrow> string" where
  "compare_mode_value MtimeSize = ''mtime_size''"
| "compare_mode_value CompareChecksum = ''checksum''"
| "compare_mode_value SizeOnly = ''size_only''"

fun layout_value :: "archive_layout \<Rightarrow> string" where
  "layout_value TimestampedDir = ''timestamped_dir''"
| "layout_value SuffixLayout = ''suffix''"

fun notify_value :: "notify_on \<Rightarrow> string" where
  "notify_value NotifyNever = ''never''"
| "notify_value NotifyFailure = ''failure''"
| "notify_value NotifyAlways = ''always''"

fun type_value :: "connection_type \<Rightarrow> string" where
  "type_value CtLocal = ''local''"
| "type_value CtSftp = ''sftp''"
| "type_value CtFtp = ''ftp''"
| "type_value CtFtps = ''ftps''"
| "type_value CtSmb = ''smb''"
| "type_value CtRcloneRemote = ''rclone_remote''"

definition type_named :: "string \<Rightarrow> connection_type option" where
  "type_named s = List.find (\<lambda>t. type_value t = s) [CtLocal, CtSftp, CtFtp, CtFtps, CtSmb, CtRcloneRemote]"

fun rclone_mode_value :: "rclone_mode \<Rightarrow> string" where
  "rclone_mode_value RmInline = ''inline''"
| "rclone_mode_value RmImported = ''imported''"

definition rclone_mode_named :: "string \<Rightarrow> rclone_mode option" where
  "rclone_mode_named s = List.find (\<lambda>t. rclone_mode_value t = s) [RmInline, RmImported]"

fun kind_value :: "credential_kind \<Rightarrow> string" where
  "kind_value CkPassword = ''password''"
| "kind_value CkSshKey = ''ssh_key''"
| "kind_value CkSmbNtlm = ''smb_ntlm''"
| "kind_value CkBackendSecret = ''backend_secret''"

definition engine_named :: "string \<Rightarrow> engine option" where
  "engine_named s = (if s = ''rclone'' then Some EngRclone else None)"

lemma named_value [simp]:
  "direction_named (direction_value d) = Some d" "delete_mode_named (delete_mode_value m) = Some m"
  "compare_mode_named (compare_mode_value c) = Some c" "layout_named (layout_value l) = Some l"
  "notify_named (notify_value n) = Some n" "type_named (type_value t) = Some t"
  "rclone_mode_named (rclone_mode_value r) = Some r" "resolve_named (conflict_value v) = Some v"
proof -
  show "direction_named (direction_value d) = Some d" by (cases d) (simp_all add: direction_named_def)
  show "delete_mode_named (delete_mode_value m) = Some m" by (cases m) (simp_all add: delete_mode_named_def)
  show "compare_mode_named (compare_mode_value c) = Some c" by (cases c) (simp_all add: compare_mode_named_def)
  show "layout_named (layout_value l) = Some l" by (cases l) (simp_all add: layout_named_def)
  show "notify_named (notify_value n) = Some n" by (cases n) (simp_all add: notify_named_def)
  show "type_named (type_value t) = Some t" by (cases t) (simp_all add: type_named_def)
  show "rclone_mode_named (rclone_mode_value r) = Some r" by (cases r) (simp_all add: rclone_mode_named_def)
  show "resolve_named (conflict_value v) = Some v" by (cases v) (simp_all add: resolve_named_def)
qed

subsection \<open>Export\<close>

definition jtext :: "string option \<Rightarrow> json" where
  "jtext v = (case v of None \<Rightarrow> JNull | Some s \<Rightarrow> JStr s)"

definition jint_of :: "int option \<Rightarrow> json" where
  "jint_of v = (case v of None \<Rightarrow> JNull | Some n \<Rightarrow> JInt n)"

definition jstrs :: "string list \<Rightarrow> json" where
  "jstrs xs = JArr (map JStr xs)"

definition connection_entry :: "connection \<Rightarrow> (string \<times> json) list" where
  "connection_entry c =
     [(''name'', JStr (conn_name c)), (''type'', JStr (type_value (conn_type c))), (''host'', jtext (conn_host c)),
      (''port'', jint_of (map_option int (conn_port c))), (''share'', jtext (conn_share c)), (''base_path'', JStr (base_path c)),
      (''username'', jtext (conn_username c)), (''extra_opts'', JObj (extra_opts c)),
      (''rclone_mode'', jtext (map_option rclone_mode_value (conn_rclone_mode c))),
      (''rclone_remote_name'', jtext (rclone_remote_name c)), (''rclone_backend_type'', jtext (rclone_backend_type c)),
      (''sentinel_file'', jtext (sentinel_file c)),
      (''credential_name'', jtext (map_option cred_name (conn_credential c)))]"

text \<open>The column as the API fills it, with \<open>model_dump(exclude_none=True)\<close>.\<close>

definition filters_json :: "job_filters \<Rightarrow> (string \<times> json) list" where
  "filters_json f =
     [(''include'', jstrs (flt_include f)), (''exclude'', jstrs (flt_exclude f))] @
     (case flt_min_size f of None \<Rightarrow> [] | Some s \<Rightarrow> [(''min_size'', JStr s)]) @
     (case flt_max_age f of None \<Rightarrow> [] | Some s \<Rightarrow> [(''max_age'', JStr s)])"

definition job_entry :: "job \<Rightarrow> (string \<times> json) list" where
  "job_entry j =
     [(''name'', JStr (job_name j)), (''enabled'', JBool (job_enabled j)), (''source_path'', JStr (source_path j)),
      (''dest_path'', JStr (dest_path j)), (''engine'', JStr ''rclone''),
      (''direction'', JStr (direction_value (job_direction j))),
      (''delete_mode'', JStr (delete_mode_value (job_delete_mode j))), (''archive_base'', jtext (job_archive_base j)),
      (''archive_layout'', JStr (layout_value (job_archive_layout j))),
      (''archive_retention_days'', jint_of (archive_retention_days j)), (''filters'', JObj (filters_json (job_filters_of j))),
      (''compare_mode'', JStr (compare_mode_value (job_compare_mode j))), (''modify_window'', JStr (modify_window j)),
      (''transfers'', jint_of (map_option int (job_transfers j))), (''checkers'', jint_of (map_option int (job_checkers j))),
      (''bwlimit'', jtext (job_bwlimit j)), (''max_delete_pct'', JInt (max_delete_pct j)),
      (''conflict_resolve'', JStr (conflict_value (job_conflict_resolve j))), (''check_access'', JBool (check_access j)),
      (''schedule_cron'', jtext (schedule_cron j)), (''timezone'', JStr (job_timezone j)),
      (''timeout_seconds'', jint_of (timeout_seconds j)), (''notify_on'', JStr (notify_value (job_notify_on j))),
      (''source_connection'', JStr (conn_name (source_connection j))),
      (''dest_connection'', JStr (conn_name (dest_connection j))),
      (''filter_presets'', jstrs (map preset_name (job_filter_presets j)))]"

text \<open>The rules as the endpoints store them.\<close>

definition rules_json :: "filter_preset \<Rightarrow> (string \<times> json) list" where
  "rules_json p = [(''exclude'', jstrs (preset_exclude p)), (''include'', jstrs (preset_include p))]"

definition preset_entry :: "filter_preset \<Rightarrow> (string \<times> json) list" where
  "preset_entry p = [(''name'', JStr (preset_name p)), (''rules'', JObj (rules_json p))]"

text \<open>\<open>Preferences.model_dump()\<close>.\<close>

definition model_dump :: "preferences \<Rightarrow> (string \<times> json) list" where
  "model_dump p =
     [(''notify_target'', JStr (target_value (notify_target_of p))), (''notify_webhook_url'', JStr (notify_webhook_url p)),
      (''notify_ntfy_server'', JStr (notify_ntfy_server p)), (''notify_ntfy_topic'', JStr (notify_ntfy_topic p)),
      (''notify_timeout_seconds'', JInt (notify_timeout_seconds p)), (''base_url'', JStr (pref_base_url p)),
      (''archive_retention_days'', jint_of (pref_archive_retention_days p)), (''run_history_keep'', JInt (run_history_keep p)),
      (''log_retention_days'', JInt (log_retention_days p)), (''log_max_total_mb'', JInt (log_max_total_mb p)),
      (''max_concurrent_runs'', JInt (max_concurrent_runs p)), (''display_timezone'', JStr (display_timezone p)),
      (''clock'', JStr (clock_value (clock_of p)))]"

definition travelling :: "(string \<times> json) list \<Rightarrow> (string \<times> json) list" where
  "travelling d = filter (\<lambda>(k, v). k \<notin> set PREFERENCE_EXCLUDES) d"

definition export_note :: string where
  "export_note =
     ''Contains no credentials, not even encrypted ones. Re-enter each secret listed under credentials_required after importing.''"

definition export_config :: "(string \<Rightarrow> int option) \<Rightarrow> (string \<Rightarrow> bool) \<Rightarrow> 'trig installation \<Rightarrow> (string \<times> json) list" where
  "export_config pint zone i =
     (let s = in_catalog i
      in [(''format_version'', JInt FORMAT_VERSION), (''note'', JStr export_note),
          (''connections'', JArr (map (JObj \<circ> connection_entry) (sort_key conn_name (cat_connections s)))),
          (''jobs'', JArr (map (JObj \<circ> job_entry) (sort_key job_name (cat_jobs s)))),
          (''filter_presets'',
             JArr (map (JObj \<circ> preset_entry) (sort_key preset_name (filter (\<lambda>p. \<not> preset_builtin p) (cat_presets s))))),
          (''preferences'', JObj (travelling (model_dump (load_preferences pint zone (in_settings i))))),
          (''credentials_required'',
             JArr (map (\<lambda>cr. JObj [(''name'', JStr (cred_name cr)), (''kind'', JStr (kind_value (cred_kind cr)))])
               (sort_key cred_name (cat_credentials s))))])"

subsection \<open>Columns\<close>

definition nullable :: "(json \<Rightarrow> 'a landed) \<Rightarrow> json option \<Rightarrow> 'a option landed" where
  "nullable col v = (if v \<in> {None, Some JNull} then Landed None else and_then (col (the v)) (\<lambda>x. Landed (Some x)))"

text \<open>A column with a default takes it for a null too: SQLAlchemy leaves a null out of the insert.\<close>

definition defaulted :: "'a \<Rightarrow> (json \<Rightarrow> 'a landed) \<Rightarrow> json option \<Rightarrow> 'a landed" where
  "defaulted d col v = (if v \<in> {None, Some JNull} then Landed d else col (the v))"

definition required :: "(json \<Rightarrow> 'a landed) \<Rightarrow> json option \<Rightarrow> 'a landed" where
  "required col v = (if v \<in> {None, Some JNull} then Raised else col (the v))"

definition bool_col :: "json \<Rightarrow> bool landed" where
  "bool_col v = (case v of JBool b \<Rightarrow> Landed b
                 | _ \<Rightarrow> if v \<in> {JInt 0, JFloat 0} then Landed False else if v \<in> {JInt 1, JFloat 1} then Landed True else Raised)"

text \<open>A word no enum has is stored as it is: \<open>str_enum\<close> neither checks strings nor puts a constraint on the table.\<close>

definition enum_col :: "(string \<Rightarrow> 'a option) \<Rightarrow> json \<Rightarrow> 'a landed" where
  "enum_col parse v = (case v of JStr s \<Rightarrow> (case parse s of None \<Rightarrow> Foreign | Some e \<Rightarrow> Landed e) | _ \<Rightarrow> Raised)"

definition nat_col :: "driver \<Rightarrow> json \<Rightarrow> nat landed" where
  "nat_col dv v = and_then (dv_int dv v) (\<lambda>n. if 0 \<le> n then Landed (nat n) else Foreign)"

text \<open>A decoded object as the dict it is, the last value of a repeated key at the place of the first.\<close>

definition py_dict :: "(string \<times> json) list \<Rightarrow> (string \<times> json) list" where
  "py_dict d = fold (\<lambda>(k, v). dict_put k v) d []"

definition dict_col :: "json option \<Rightarrow> (string \<times> json) list landed" where
  "dict_col v = (case v of None \<Rightarrow> Landed [] | Some (JObj d) \<Rightarrow> Landed (py_dict d) | Some w \<Rightarrow> Foreign)"

fun json_strings :: "json list \<Rightarrow> string list option" where
  "json_strings [] = Some []"
| "json_strings (JStr s # vs) = map_option ((#) s) (json_strings vs)"
| "json_strings (v # vs) = None"

definition rules_of :: "(string \<times> json) list \<Rightarrow> string \<Rightarrow> string list landed" where
  "rules_of d k =
     (case falsy_get d k of
        None \<Rightarrow> Landed []
      | Some (JArr vs) \<Rightarrow> (case json_strings vs of None \<Rightarrow> Foreign | Some ss \<Rightarrow> Landed ss)
      | Some v \<Rightarrow> Foreign)"

definition limit_of :: "(string \<times> json) list \<Rightarrow> string \<Rightarrow> string option landed" where
  "limit_of d k = (case jget d k of None \<Rightarrow> Landed None | Some (JStr s) \<Rightarrow> Landed (Some s) | Some v \<Rightarrow> Foreign)"

definition filters_of :: "json option \<Rightarrow> job_filters landed" where
  "filters_of v = and_then (dict_col v) (\<lambda>d.
     and_then (rules_of d ''include'') (\<lambda>inc. and_then (rules_of d ''exclude'') (\<lambda>ex.
     and_then (limit_of d ''min_size'') (\<lambda>small. and_then (limit_of d ''max_age'') (\<lambda>old.
       Landed \<lparr>flt_include = inc, flt_exclude = ex, flt_min_size = small, flt_max_age = old\<rparr>)))))"

subsection \<open>Import\<close>

text \<open>\<open>str(value)\<close>, and \<open>str(entry.get(key) or "")\<close>.\<close>

definition to_str :: "driver \<Rightarrow> json \<Rightarrow> string" where
  "to_str dv v = (case v of JStr s \<Rightarrow> s | _ \<Rightarrow> dv_str dv v)"

definition str_get :: "driver \<Rightarrow> (string \<times> json) list \<Rightarrow> string \<Rightarrow> string" where
  "str_get dv e k = (case falsy_get e k of None \<Rightarrow> [] | Some v \<Rightarrow> to_str dv v)"

definition name_in :: "driver \<Rightarrow> (string \<times> json) list \<Rightarrow> string" where
  "name_in dv e = py_strip (str_get dv e ''name'')"

text \<open>\<open>document.get(key) or []\<close>, iterated over entries that are read with \<open>get\<close>. An entry that is no object
  raises when it is reached, and so does a value that is no list.\<close>

fun objects :: "json list \<Rightarrow> (string \<times> json) list list landed" where
  "objects [] = Landed []"
| "objects (JObj d # vs) = and_then (objects vs) (\<lambda>ds. Landed (d # ds))"
| "objects (v # vs) = Raised"

definition entries_of :: "(string \<times> json) list \<Rightarrow> string \<Rightarrow> (string \<times> json) list list landed" where
  "entries_of doc k =
     (case falsy_get doc k of None \<Rightarrow> Landed [] | Some (JArr vs) \<Rightarrow> objects vs | Some v \<Rightarrow> Raised)"

definition version_ok :: "(string \<times> json) list \<Rightarrow> bool" where
  "version_ok doc \<longleftrightarrow> jget doc ''format_version'' \<in> {Some (JInt FORMAT_VERSION), Some (JBool True), Some (JFloat 1)}"

definition import_preset ::
  "driver \<Rightarrow> (string \<times> json) list \<Rightarrow> 'trig catalog \<times> import_report \<Rightarrow> ('trig catalog \<times> import_report) landed" where
  "import_preset dv e sr =
     (let (s, r) = sr; name = name_in dv e
      in if name = [] \<or> name \<in> preset_name ` set (cat_presets s) then Landed (s, r)
         else and_then (dict_col (falsy_get e ''rules'')) (\<lambda>d.
              and_then (rules_of d ''exclude'') (\<lambda>ex. and_then (rules_of d ''include'') (\<lambda>inc.
                Landed (add_preset name False ex inc s, r\<lparr>presets_created := Suc (presets_created r)\<rparr>)))))"

text \<open>\<open>Connection(**fields)\<close> as the row it becomes, \<open>cr\<close> the credential its column names.\<close>

definition decode_connection ::
  "driver \<Rightarrow> string \<Rightarrow> credential option \<Rightarrow> (string \<times> json) list \<Rightarrow> nat \<Rightarrow> connection landed" where
  "decode_connection dv name cr e i =
     and_then (required (enum_col type_named) (jget e ''type'')) (\<lambda>type.
     and_then (nullable (dv_text dv) (jget e ''host'')) (\<lambda>host.
     and_then (nullable (nat_col dv) (jget e ''port'')) (\<lambda>port.
     and_then (nullable (dv_text dv) (jget e ''share'')) (\<lambda>share.
     and_then (defaulted [] (dv_text dv) (jget e ''base_path'')) (\<lambda>base.
     and_then (nullable (dv_text dv) (jget e ''username'')) (\<lambda>user.
     and_then (dict_col (jget e ''extra_opts'')) (\<lambda>opts.
     and_then (nullable (enum_col rclone_mode_named) (jget e ''rclone_mode'')) (\<lambda>mode.
     and_then (nullable (dv_text dv) (jget e ''rclone_remote_name'')) (\<lambda>remote.
     and_then (nullable (dv_text dv) (jget e ''rclone_backend_type'')) (\<lambda>backend.
     and_then (nullable (dv_text dv) (jget e ''sentinel_file'')) (\<lambda>sentinel.
       Landed ((new_connection i)\<lparr>conn_name := name, conn_type := type, conn_host := host, conn_port := port,
         conn_share := share, base_path := base, conn_username := user, conn_credential := cr, extra_opts := opts,
         conn_rclone_mode := mode, rclone_remote_name := remote, rclone_backend_type := backend,
         sentinel_file := sentinel\<rparr>))))))))))))"

text \<open>The credential an entry is linked to, and the warning where there is none of its name.\<close>

definition link_credential ::
  "driver \<Rightarrow> credential list \<Rightarrow> string \<Rightarrow> (string \<times> json) list \<Rightarrow> credential option \<times> import_warning list" where
  "link_credential dv crs name e =
     (case falsy_get e ''credential_name'' of
        None \<Rightarrow> (None, [])
      | Some v \<Rightarrow>
          (case List.find (\<lambda>cr. cred_name cr = to_str dv v) crs of
             None \<Rightarrow> (None, [CredentialNeeded name (to_str dv v)])
           | Some cr \<Rightarrow> (Some cr, [])))"

definition import_connection ::
  "driver \<Rightarrow> (string \<times> json) list \<Rightarrow> 'trig catalog \<times> import_report \<Rightarrow> ('trig catalog \<times> import_report) landed" where
  "import_connection dv e sr =
     (let (s, r) = sr; name = name_in dv e
      in if name = [] then Landed (s, r\<lparr>ir_errors := ir_errors r @ [ConnectionUnnamed]\<rparr>)
         else if name \<in> conn_name ` set (cat_connections s) then
           Landed (s, r\<lparr>connections_skipped := Suc (connections_skipped r)\<rparr>)
         else
           (let (cr, ws) = link_credential dv (cat_credentials s) name e
            in and_then (decode_connection dv name cr e (next_id conn_id (cat_connections s))) (\<lambda>c.
                 Landed (with_connections (\<lambda>cs. cs @ [c]) s,
                         r\<lparr>ir_warnings := ir_warnings r @ ws, connections_created := Suc (connections_created r)\<rparr>))))"

definition decode_job ::
  "driver \<Rightarrow> string \<Rightarrow> connection \<Rightarrow> connection \<Rightarrow> filter_preset list \<Rightarrow> (string \<times> json) list \<Rightarrow> nat \<Rightarrow> job landed" where
  "decode_job dv name source dest presets e i =
     and_then (defaulted True bool_col (jget e ''enabled'')) (\<lambda>enabled.
     and_then (defaulted [] (dv_text dv) (jget e ''source_path'')) (\<lambda>src_path.
     and_then (defaulted [] (dv_text dv) (jget e ''dest_path'')) (\<lambda>dst_path.
     and_then (defaulted EngRclone (enum_col engine_named) (jget e ''engine'')) (\<lambda>eng.
     and_then (defaulted SourceToDest (enum_col direction_named) (jget e ''direction'')) (\<lambda>dir.
     and_then (defaulted DelNone (enum_col delete_mode_named) (jget e ''delete_mode'')) (\<lambda>dm.
     and_then (nullable (dv_text dv) (jget e ''archive_base'')) (\<lambda>archive.
     and_then (defaulted TimestampedDir (enum_col layout_named) (jget e ''archive_layout'')) (\<lambda>layout.
     and_then (nullable (dv_int dv) (jget e ''archive_retention_days'')) (\<lambda>days.
     and_then (filters_of (jget e ''filters'')) (\<lambda>filters.
     and_then (defaulted MtimeSize (enum_col compare_mode_named) (jget e ''compare_mode'')) (\<lambda>cmp.
     and_then (defaulted ''1s'' (dv_text dv) (jget e ''modify_window'')) (\<lambda>window.
     and_then (nullable (nat_col dv) (jget e ''transfers'')) (\<lambda>transfers.
     and_then (nullable (nat_col dv) (jget e ''checkers'')) (\<lambda>checkers.
     and_then (nullable (dv_text dv) (jget e ''bwlimit'')) (\<lambda>bw.
     and_then (defaulted 20 (dv_int dv) (jget e ''max_delete_pct'')) (\<lambda>pct.
     and_then (defaulted CRNewer (enum_col resolve_named) (jget e ''conflict_resolve'')) (\<lambda>resolve.
     and_then (defaulted False bool_col (jget e ''check_access'')) (\<lambda>access.
     and_then (nullable (dv_text dv) (jget e ''schedule_cron'')) (\<lambda>cron.
     and_then (defaulted ''UTC'' (dv_text dv) (jget e ''timezone'')) (\<lambda>zone.
     and_then (nullable (dv_int dv) (jget e ''timeout_seconds'')) (\<lambda>timeout.
     and_then (defaulted NotifyFailure (enum_col notify_named) (jget e ''notify_on'')) (\<lambda>notify.
       if \<not> distinct (map preset_id presets) then Raised
       else Landed ((new_job i)\<lparr>job_name := name, job_enabled := enabled, source_connection := source,
         source_path := src_path, dest_connection := dest, dest_path := dst_path, job_engine := eng, job_direction := dir,
         job_delete_mode := dm, job_archive_base := archive, job_archive_layout := layout, archive_retention_days := days,
         job_filters_of := filters, job_filter_presets := presets, job_compare_mode := cmp, modify_window := window,
         job_transfers := transfers, job_checkers := checkers, job_bwlimit := bw, max_delete_pct := pct,
         job_conflict_resolve := resolve, check_access := access, schedule_cron := cron, job_timezone := zone,
         timeout_seconds := timeout, job_notify_on := notify, continuous := False, continuous_interval_seconds := 60,
         continuous_idle_interval_seconds := 900, quiet_period_seconds := 0\<rparr>)))))))))))))))))))))))"

text \<open>\<open>for preset_name in entry.get("filter_presets") or []\<close>, with the names made strings: None raises.\<close>

definition preset_names :: "driver \<Rightarrow> (string \<times> json) list \<Rightarrow> string list option" where
  "preset_names dv e =
     (case falsy_get e ''filter_presets'' of
        None \<Rightarrow> Some []
      | Some (JArr vs) \<Rightarrow> Some (map (to_str dv) vs)
      | Some (JStr t) \<Rightarrow> Some (map (\<lambda>c. [c]) t)
      | Some (JObj d) \<Rightarrow> Some (map fst (py_dict d))
      | Some v \<Rightarrow> None)"

definition preset_by_name :: "filter_preset list \<Rightarrow> string \<Rightarrow> filter_preset option" where
  "preset_by_name ps n = List.find (\<lambda>p. preset_name p = n) ps"

definition by_conn_name :: "connection list \<Rightarrow> string \<Rightarrow> connection option" where
  "by_conn_name cs n = List.find (\<lambda>c. conn_name c = n) cs"

text \<open>The endpoint an error names: \<open>missing\<close>, the source unless it was found or has no name, then the destination.\<close>

definition missing_endpoint :: "connection option \<Rightarrow> (string \<times> json) list \<Rightarrow> json option" where
  "missing_endpoint source e =
     (case (if source = None then falsy_get e ''source_connection'' else None) of
        None \<Rightarrow> jget e ''dest_connection''
      | Some v \<Rightarrow> Some v)"

text \<open>\<open>known\<close> are the presets that were in the table before the import.\<close>

definition import_job ::
  "driver \<Rightarrow> filter_preset list \<Rightarrow> (string \<times> json) list \<Rightarrow> 'trig catalog \<times> import_report
     \<Rightarrow> ('trig catalog \<times> import_report) landed" where
  "import_job dv known e sr =
     (let (s, r) = sr; name = name_in dv e
      in if name = [] then Landed (s, r\<lparr>ir_errors := ir_errors r @ [JobUnnamed]\<rparr>)
         else if name \<in> job_name ` set (cat_jobs s) then Landed (s, r\<lparr>jobs_skipped := Suc (jobs_skipped r)\<rparr>)
         else
           (case (by_conn_name (cat_connections s) (str_get dv e ''source_connection''),
                  by_conn_name (cat_connections s) (str_get dv e ''dest_connection'')) of
              (Some source, Some dest) \<Rightarrow>
                (case preset_names dv e of
                   None \<Rightarrow> Raised
                 | Some names \<Rightarrow>
                     (let found = concat (map (\<lambda>n. case preset_by_name known n of None \<Rightarrow> [] | Some p \<Rightarrow> [p]) names);
                          lost = filter (\<lambda>n. preset_by_name known n = None) names
                      in and_then (decode_job dv name source dest found e (next_id job_id (cat_jobs s))) (\<lambda>j.
                           Landed (with_jobs (\<lambda>js. js @ [j]) s,
                             r\<lparr>ir_warnings := ir_warnings r @ map (PresetNeeded name) lost,
                               jobs_created := Suc (jobs_created r)\<rparr>))))
            | (source, dest) \<Rightarrow>
                Landed (s, r\<lparr>ir_errors := ir_errors r @ [EndpointMissing name (missing_endpoint source e)]\<rparr>)))"

subsection \<open>Preferences\<close>

definition text_value :: "json option \<Rightarrow> string option" where
  "text_value v = (case v of Some (JStr s) \<Rightarrow> Some s | _ \<Rightarrow> None)"

definition ranged :: "driver \<Rightarrow> int \<Rightarrow> int \<Rightarrow> json option \<Rightarrow> int option" where
  "ranged dv lo hi v =
     Option.bind v (\<lambda>w. Option.bind (dv_pydantic_int dv w) (\<lambda>n. if lo \<le> n \<and> n \<le> hi then Some n else None))"

definition optional_days :: "driver \<Rightarrow> json option \<Rightarrow> int option option" where
  "optional_days dv v =
     (if v = Some JNull then Some None
      else Option.bind v (\<lambda>w. Option.bind (dv_pydantic_int dv w) (\<lambda>n. if 1 \<le> n then Some (Some n) else None)))"

text \<open>\<open>Preferences.model_validate\<close> on decoded values, all of whose fields are given.\<close>

definition validate_values :: "driver \<Rightarrow> (string \<Rightarrow> bool) \<Rightarrow> (string \<Rightarrow> json option) \<Rightarrow> preferences option" where
  "validate_values dv zone get =
     Option.bind (Option.bind (text_value (get ''notify_target'')) target_of) (\<lambda>target.
     Option.bind (text_value (get ''notify_webhook_url'')) (\<lambda>url. Option.bind (text_value (get ''notify_ntfy_server'')) (\<lambda>server.
     Option.bind (text_value (get ''notify_ntfy_topic'')) (\<lambda>topic.
     Option.bind (ranged dv 1 60 (get ''notify_timeout_seconds'')) (\<lambda>timeout.
     Option.bind (text_value (get ''base_url'')) (\<lambda>base. Option.bind (optional_days dv (get ''archive_retention_days'')) (\<lambda>days.
     Option.bind (ranged dv 10 10000 (get ''run_history_keep'')) (\<lambda>keep.
     Option.bind (ranged dv 1 3650 (get ''log_retention_days'')) (\<lambda>logs.
     Option.bind (ranged dv 16 102400 (get ''log_max_total_mb'')) (\<lambda>mb.
     Option.bind (ranged dv 0 32 (get ''max_concurrent_runs'')) (\<lambda>runs.
     Option.bind (Option.bind (text_value (get ''display_timezone'')) (\<lambda>s. zone_field zone (Some s))) (\<lambda>tz.
     Option.bind (Option.bind (text_value (get ''clock'')) clock_named) (\<lambda>c.
       Some \<lparr>notify_target_of = target, notify_webhook_url = url, notify_ntfy_server = server, notify_ntfy_topic = topic,
             notify_timeout_seconds = timeout, pref_base_url = base, pref_archive_retention_days = days,
             run_history_keep = keep, log_retention_days = logs, log_max_total_mb = mb, max_concurrent_runs = runs,
             display_timezone = tz, clock_of = c\<rparr>)))))))))))))"

definition updated :: "(string \<times> json) list \<Rightarrow> (string \<times> json) list \<Rightarrow> string \<Rightarrow> json option" where
  "updated current incoming k = (case jget incoming k of None \<Rightarrow> jget current k | Some v \<Rightarrow> Some v)"

definition import_preferences ::
  "driver \<Rightarrow> (string \<Rightarrow> int option) \<Rightarrow> (string \<Rightarrow> bool) \<Rightarrow> (string \<times> json) list \<Rightarrow> settings \<times> import_report
     \<Rightarrow> settings \<times> import_report" where
  "import_preferences dv pint zone doc sr =
     (let (rows, r) = sr
      in (case jget doc ''preferences'' of
            Some (JObj d) \<Rightarrow>
              if d = [] then sr
              else (case validate_values dv zone (updated (model_dump (load_preferences pint zone rows)) (travelling d)) of
                      None \<Rightarrow> (rows, r\<lparr>ir_warnings := ir_warnings r @ [PreferencesRefused]\<rparr>)
                    | Some p \<Rightarrow> (save_preferences p rows, r\<lparr>preferences_applied := True\<rparr>))
          | _ \<Rightarrow> sr))"

definition import_tables ::
  "driver \<Rightarrow> (string \<times> json) list \<Rightarrow> 'trig catalog \<Rightarrow> ('trig catalog \<times> import_report) landed" where
  "import_tables dv doc s =
     and_then (entries_of doc ''filter_presets'') (\<lambda>ps. and_then (each (import_preset dv) ps (s, empty_report)) (\<lambda>s1.
     and_then (entries_of doc ''connections'') (\<lambda>cs. and_then (each (import_connection dv) cs s1) (\<lambda>s2.
     and_then (entries_of doc ''jobs'') (\<lambda>js. each (import_job dv (cat_presets s)) js s2)))))"

definition import_document ::
  "driver \<Rightarrow> (string \<Rightarrow> int option) \<Rightarrow> (string \<Rightarrow> bool) \<Rightarrow> (string \<times> json) list \<Rightarrow> 'trig installation
     \<Rightarrow> ('trig installation \<times> import_report) landed" where
  "import_document dv pint zone doc i =
     (if \<not> version_ok doc then Landed (i, empty_report\<lparr>ir_errors := [WrongVersion]\<rparr>)
      else and_then (import_tables dv doc (in_catalog i)) (\<lambda>(s, r).
        let (rows, r') = import_preferences dv pint zone doc (in_settings i, r)
        in Landed (\<lparr>in_catalog = s, in_settings = rows\<rparr>, r')))"

text \<open>The endpoint of the API: None is the refusal of a document that brought neither a connection nor a job.\<close>

definition import_configuration ::
  "driver \<Rightarrow> (string \<Rightarrow> int option) \<Rightarrow> (string \<Rightarrow> bool) \<Rightarrow> (string \<times> json) list \<Rightarrow> 'trig installation
     \<Rightarrow> ('trig installation \<times> import_report option) landed" where
  "import_configuration dv pint zone doc i =
     and_then (import_document dv pint zone doc i) (\<lambda>(i', r).
       Landed (i', if \<not> import_ok r \<and> connections_created r = 0 \<and> jobs_created r = 0 then None else Some r))"

text \<open>The form of the page, \<open>parsed\<close> what \<open>json.loads\<close> makes of it: None where it is no JSON. The schedule is rebuilt.\<close>

definition import_configuration_form ::
  "driver \<Rightarrow> (string \<Rightarrow> int option) \<Rightarrow> (string \<Rightarrow> bool) \<Rightarrow> 'trig scheduler_ext \<Rightarrow> json option \<Rightarrow> 'trig installation
     \<Rightarrow> ('trig installation \<times> import_report option) landed" where
  "import_configuration_form dv pint zone sx parsed i =
     (case parsed of
        None \<Rightarrow> Landed (i, None)
      | Some (JObj doc) \<Rightarrow>
          and_then (import_document dv pint zone doc i) (\<lambda>(i', r).
            Landed (i'\<lparr>in_catalog := (in_catalog i')\<lparr>cat_admin := resync_schedule sx (cat_admin (in_catalog i'))\<rparr>\<rparr>, Some r))
      | Some v \<Rightarrow> Raised)"

subsection \<open>Lemmas: documents and columns\<close>

lemma and_then_Landed: "and_then r f = Landed y \<longleftrightarrow> (\<exists>x. r = Landed x \<and> f x = Landed y)"
  by (cases r) auto

lemma each_append: "each step (xs @ ys) s = and_then (each step xs s) (each step ys)"
proof (induction xs arbitrary: s)
  case (Cons x xs)
  then show ?case by (cases "step x s") auto
qed simp

lemma objects_map: "objects (map (\<lambda>x. JObj (f x)) xs) = Landed (map f xs)"
  by (induction xs) auto

lemma entries_listed: "jget doc k = Some (JArr (map (\<lambda>x. JObj (f x)) xs)) \<Longrightarrow> entries_of doc k = Landed (map f xs)"
  by (cases xs) (simp_all add: entries_of_def falsy_get_def objects_map)

lemma column_simps [simp]:
  "driver_ok dv \<Longrightarrow> nullable (dv_text dv) (Some (jtext v)) = Landed v"
  "driver_ok dv \<Longrightarrow> nullable (dv_int dv) (Some (jint_of w)) = Landed w"
  "driver_ok dv \<Longrightarrow> nullable (nat_col dv) (Some (jint_of (map_option int n))) = Landed n"
  "driver_ok dv \<Longrightarrow> defaulted d (dv_text dv) (Some (JStr s)) = Landed s"
  "driver_ok dv \<Longrightarrow> defaulted i (dv_int dv) (Some (JInt m)) = Landed m"
  "defaulted b bool_col (Some (JBool b')) = Landed b'"
  by (auto simp: nullable_def defaulted_def jtext_def jint_of_def driver_ok_def nat_col_def bool_col_def split: option.split)

lemma enum_simps [simp]:
  "parse (val e) = Some e \<Longrightarrow> required (enum_col parse) (Some (JStr (val e))) = Landed e"
  "parse (val e) = Some e \<Longrightarrow> defaulted d (enum_col parse) (Some (JStr (val e))) = Landed e"
  "(\<And>e. parse (val e) = Some e) \<Longrightarrow> nullable (enum_col parse) (Some (jtext (map_option val v))) = Landed v"
  by (auto simp: required_def defaulted_def nullable_def enum_col_def jtext_def split: option.splits)

lemma json_strings_map [simp]: "json_strings (map JStr ss) = Some ss"
  by (induction ss) auto

lemma rules_listed: "jget d k = Some (jstrs ss) \<Longrightarrow> rules_of d k = Landed ss"
  by (cases ss) (simp_all add: rules_of_def falsy_get_def jstrs_def)

lemma fold_dict_put: "distinct (map fst (acc @ d)) \<Longrightarrow> fold (\<lambda>(k, v). dict_put k v) d acc = acc @ d"
proof (induction d arbitrary: acc)
  case (Cons kv d)
  obtain k v where kv: "kv = (k, v)" by (cases kv)
  have "k \<notin> fst ` set acc \<Longrightarrow> dict_put k v acc = acc @ [(k, v)]" for acc :: "('a \<times> 'b) list"
    by (induction acc) auto
  then have "dict_put k v acc = acc @ [kv]" using Cons.prems kv by auto
  then show ?case using Cons.IH [of "acc @ [kv]"] Cons.prems kv by simp
qed simp

lemma py_dict_id: "distinct (map fst d) \<Longrightarrow> py_dict d = d"
  using fold_dict_put [of "[]" d] by (simp add: py_dict_def)

lemma filters_back: "filters_of (Some (JObj (filters_json f))) = Landed f"
proof -
  have d: "py_dict (filters_json f) = filters_json f"
    by (rule py_dict_id) (simp add: filters_json_def split: option.split)
  have "rules_of (filters_json f) ''include'' = Landed (flt_include f)"
    by (rule rules_listed) (simp add: filters_json_def jget_def split: option.split)
  moreover have "rules_of (filters_json f) ''exclude'' = Landed (flt_exclude f)"
    by (rule rules_listed) (simp add: filters_json_def jget_def split: option.split)
  moreover have "limit_of (filters_json f) ''min_size'' = Landed (flt_min_size f)"
    "limit_of (filters_json f) ''max_age'' = Landed (flt_max_age f)"
    by (simp_all add: limit_of_def filters_json_def jget_def split: option.split)
  ultimately show ?thesis by (simp add: filters_of_def dict_col_def d)
qed

subsection \<open>Lemmas: one row there and back\<close>

definition config_of :: "connection \<Rightarrow> connection" where
  "config_of c =
     (new_connection 0)\<lparr>conn_name := conn_name c, conn_type := conn_type c, conn_host := conn_host c, conn_port := conn_port c,
       conn_share := conn_share c, base_path := base_path c, conn_username := conn_username c, extra_opts := extra_opts c,
       conn_rclone_mode := conn_rclone_mode c, rclone_remote_name := rclone_remote_name c,
       rclone_backend_type := rclone_backend_type c, sentinel_file := sentinel_file c\<rparr>"

lemma jget_connection_entry:
  "jget (connection_entry c) ''name'' = Some (JStr (conn_name c))"
  "jget (connection_entry c) ''type'' = Some (JStr (type_value (conn_type c)))"
  "jget (connection_entry c) ''host'' = Some (jtext (conn_host c))"
  "jget (connection_entry c) ''port'' = Some (jint_of (map_option int (conn_port c)))"
  "jget (connection_entry c) ''share'' = Some (jtext (conn_share c))"
  "jget (connection_entry c) ''base_path'' = Some (JStr (base_path c))"
  "jget (connection_entry c) ''username'' = Some (jtext (conn_username c))"
  "jget (connection_entry c) ''extra_opts'' = Some (JObj (extra_opts c))"
  "jget (connection_entry c) ''rclone_mode'' = Some (jtext (map_option rclone_mode_value (conn_rclone_mode c)))"
  "jget (connection_entry c) ''rclone_remote_name'' = Some (jtext (rclone_remote_name c))"
  "jget (connection_entry c) ''rclone_backend_type'' = Some (jtext (rclone_backend_type c))"
  "jget (connection_entry c) ''sentinel_file'' = Some (jtext (sentinel_file c))"
  "jget (connection_entry c) ''credential_name'' = Some (jtext (map_option cred_name (conn_credential c)))"
  by (simp_all add: jget_def connection_entry_def)

lemma connection_back:
  assumes "driver_ok dv" "distinct (map fst (extra_opts c))"
  shows "decode_connection dv (conn_name c) cr (connection_entry c) i =
     Landed ((config_of c)\<lparr>conn_id := i, conn_credential := cr\<rparr>)"
proof -
  have "dict_col (Some (JObj (extra_opts c))) = Landed (extra_opts c)"
    using assms(2) by (simp add: dict_col_def py_dict_id)
  then show ?thesis
    using assms(1) by (simp add: decode_connection_def jget_connection_entry config_of_def new_connection_def)
qed

text \<open>What a job keeps when it travels.\<close>

definition settings_of :: "job \<Rightarrow> job" where
  "settings_of j =
     j\<lparr>job_id := 0, source_connection := config_of (source_connection j), dest_connection := config_of (dest_connection j),
       job_filter_presets := [], continuous := False, continuous_interval_seconds := 60,
       continuous_idle_interval_seconds := 900, quiet_period_seconds := 0, last_checked_at := None,
       bisync_initialized := False\<rparr>"

lemma jget_job_entry:
  "jget (job_entry j) ''name'' = Some (JStr (job_name j))" "jget (job_entry j) ''enabled'' = Some (JBool (job_enabled j))"
  "jget (job_entry j) ''source_path'' = Some (JStr (source_path j))"
  "jget (job_entry j) ''dest_path'' = Some (JStr (dest_path j))"
  "jget (job_entry j) ''engine'' = Some (JStr ''rclone'')"
  "jget (job_entry j) ''direction'' = Some (JStr (direction_value (job_direction j)))"
  "jget (job_entry j) ''delete_mode'' = Some (JStr (delete_mode_value (job_delete_mode j)))"
  "jget (job_entry j) ''archive_base'' = Some (jtext (job_archive_base j))"
  "jget (job_entry j) ''archive_layout'' = Some (JStr (layout_value (job_archive_layout j)))"
  "jget (job_entry j) ''archive_retention_days'' = Some (jint_of (archive_retention_days j))"
  "jget (job_entry j) ''filters'' = Some (JObj (filters_json (job_filters_of j)))"
  "jget (job_entry j) ''compare_mode'' = Some (JStr (compare_mode_value (job_compare_mode j)))"
  "jget (job_entry j) ''modify_window'' = Some (JStr (modify_window j))"
  by (simp_all add: jget_def job_entry_def)

lemma jget_job_entry':
  "jget (job_entry j) ''transfers'' = Some (jint_of (map_option int (job_transfers j)))"
  "jget (job_entry j) ''checkers'' = Some (jint_of (map_option int (job_checkers j)))"
  "jget (job_entry j) ''bwlimit'' = Some (jtext (job_bwlimit j))"
  "jget (job_entry j) ''max_delete_pct'' = Some (JInt (max_delete_pct j))"
  "jget (job_entry j) ''conflict_resolve'' = Some (JStr (conflict_value (job_conflict_resolve j)))"
  "jget (job_entry j) ''check_access'' = Some (JBool (check_access j))"
  "jget (job_entry j) ''schedule_cron'' = Some (jtext (schedule_cron j))"
  "jget (job_entry j) ''timezone'' = Some (JStr (job_timezone j))"
  "jget (job_entry j) ''timeout_seconds'' = Some (jint_of (timeout_seconds j))"
  "jget (job_entry j) ''notify_on'' = Some (JStr (notify_value (job_notify_on j)))"
  "jget (job_entry j) ''source_connection'' = Some (JStr (conn_name (source_connection j)))"
  "jget (job_entry j) ''dest_connection'' = Some (JStr (conn_name (dest_connection j)))"
  "jget (job_entry j) ''filter_presets'' = Some (jstrs (map preset_name (job_filter_presets j)))"
  by (simp_all add: jget_def job_entry_def)

lemma engine_back [simp]: "defaulted d (enum_col engine_named) (Some (JStr ''rclone'')) = Landed EngRclone"
  by (simp add: defaulted_def enum_col_def engine_named_def)

lemma job_back:
  assumes "driver_ok dv" "distinct (map preset_id ps)"
  shows "decode_job dv (job_name j) source dest ps (job_entry j) i =
     Landed ((settings_of j)\<lparr>job_id := i, source_connection := source, dest_connection := dest, job_filter_presets := ps\<rparr>)"
proof -
  have eng: "job_engine j = EngRclone" by (cases "job_engine j") simp
  show ?thesis
    unfolding decode_job_def jget_job_entry jget_job_entry' filters_back
    using assms by (simp add: settings_of_def new_job_def sample_job_def eng)
qed

subsection \<open>Lemmas: the loops on an export\<close>

definition neat_name :: "string \<Rightarrow> bool" where
  "neat_name n \<longleftrightarrow> n \<noteq> [] \<and> py_strip n = n"

lemma str_get_text: "jget e k = Some (JStr n) \<Longrightarrow> str_get dv e k = n"
  by (cases n) (simp_all add: str_get_def falsy_get_def to_str_def)

lemma name_in_neat: "jget e ''name'' = Some (JStr n) \<Longrightarrow> neat_name n \<Longrightarrow> name_in dv e = n"
  by (simp add: name_in_def str_get_text neat_name_def)

definition same_but :: "import_report \<Rightarrow> import_report \<Rightarrow> bool" where
  "same_but r r' \<longleftrightarrow> ir_errors r' = ir_errors r \<and> connections_skipped r' = connections_skipped r \<and> jobs_skipped r' = jobs_skipped r"

definition neat_connection :: "connection \<Rightarrow> bool" where
  "neat_connection c \<longleftrightarrow>
     neat_name (conn_name c) \<and> distinct (map fst (extra_opts c)) \<and>
     (case conn_credential c of None \<Rightarrow> True | Some cr \<Rightarrow> cred_name cr \<noteq> [])"

definition relinked :: "credential list \<Rightarrow> connection \<Rightarrow> credential option" where
  "relinked crs c = Option.bind (conn_credential c) (\<lambda>cr. List.find (\<lambda>k. cred_name k = cred_name cr) crs)"

definition arrived :: "credential list \<Rightarrow> connection \<Rightarrow> connection \<Rightarrow> bool" where
  "arrived crs c c' \<longleftrightarrow> config_of c' = config_of c \<and> conn_credential c' = relinked crs c"

lemma config_of_simps [simp]:
  "config_of (c\<lparr>conn_id := i\<rparr>) = config_of c" "config_of (c\<lparr>conn_credential := cr\<rparr>) = config_of c"
  "config_of (config_of c) = config_of c" "conn_name (config_of c) = conn_name c"
  by (simp_all add: config_of_def new_connection_def)

lemma link_entry:
  assumes "neat_connection c"
  shows "fst (link_credential dv crs name (connection_entry c)) = relinked crs c"
  using assms
  by (cases "conn_credential c")
    (auto simp: link_credential_def falsy_get_def jget_connection_entry jtext_def relinked_def neat_connection_def
      to_str_def split: option.splits)

lemma import_connection_entry:
  assumes "driver_ok dv" "neat_connection c" "conn_name c \<notin> conn_name ` set (cat_connections s)"
  shows "\<exists>c' r'. import_connection dv (connection_entry c) (s, r) = Landed (with_connections (\<lambda>cs. cs @ [c']) s, r') \<and>
     arrived (cat_credentials s) c c' \<and> same_but r r' \<and> connections_created r' = Suc (connections_created r) \<and>
     jobs_created r' = jobs_created r"
proof -
  have name: "name_in dv (connection_entry c) = conn_name c" "conn_name c \<noteq> []" "distinct (map fst (extra_opts c))"
    using assms(2) name_in_neat [OF jget_connection_entry(1)] by (auto simp: neat_connection_def neat_name_def)
  obtain cr ws where l: "link_credential dv (cat_credentials s) (conn_name c) (connection_entry c) = (cr, ws)"
    by (cases "link_credential dv (cat_credentials s) (conn_name c) (connection_entry c)")
  then have cr: "cr = relinked (cat_credentials s) c" using link_entry [OF assms(2), of dv "cat_credentials s" "conn_name c"] by simp
  show ?thesis
    using assms(3) name(2)
    by (intro exI [of _ "(config_of c)\<lparr>conn_id := next_id conn_id (cat_connections s), conn_credential := cr\<rparr>"])
      (simp add: import_connection_def name(1) l connection_back [OF assms(1) name(3)] arrived_def cr same_but_def)
qed

lemma import_connections_back:
  assumes "driver_ok dv" "list_all neat_connection cs" "distinct (map conn_name cs)"
    and "conn_name ` set cs \<inter> conn_name ` set (cat_connections s) = {}"
  shows "\<exists>s' r' new. each (import_connection dv) (map connection_entry cs) (s, r) = Landed (s', r') \<and>
     cat_connections s' = cat_connections s @ new \<and> list_all2 (arrived (cat_credentials s)) cs new \<and>
     cat_presets s' = cat_presets s \<and> cat_jobs s' = cat_jobs s \<and> same_but r r' \<and>
     connections_created r' = connections_created r + length cs \<and> jobs_created r' = jobs_created r"
  using assms(2-4)
proof (induction cs arbitrary: s r)
  case Nil
  show ?case by (auto simp: same_but_def)
next
  case (Cons c cs)
  obtain c' r1 where one: "import_connection dv (connection_entry c) (s, r) = Landed (with_connections (\<lambda>cs. cs @ [c']) s, r1)"
      "arrived (cat_credentials s) c c'" "same_but r r1" "connections_created r1 = Suc (connections_created r)"
      "jobs_created r1 = jobs_created r"
    using import_connection_entry [OF assms(1), of c s r] Cons.prems by auto
  have "conn_name c' = conn_name c" using one(2) by (metis arrived_def config_of_simps(4))
  then have "conn_name ` set cs \<inter> conn_name ` set (cat_connections (with_connections (\<lambda>cs. cs @ [c']) s)) = {}"
    using Cons.prems by auto
  then obtain s' r' new where rest: "each (import_connection dv) (map connection_entry cs) (with_connections (\<lambda>cs. cs @ [c']) s, r1) = Landed (s', r')"
      "cat_connections s' = cat_connections s @ c' # new" "list_all2 (arrived (cat_credentials s)) cs new"
      "cat_presets s' = cat_presets s" "cat_jobs s' = cat_jobs s" "same_but r1 r'"
      "connections_created r' = connections_created r1 + length cs" "jobs_created r' = jobs_created r1"
    using Cons.IH [of "with_connections (\<lambda>cs. cs @ [c']) s" r1] Cons.prems by auto
  then show ?case using one by (intro exI [of _ s'] exI [of _ r'] exI [of _ "c' # new"]) (auto simp: same_but_def)
qed

lemma jget_preset_entry:
  "jget (preset_entry p) ''name'' = Some (JStr (preset_name p))" "jget (preset_entry p) ''rules'' = Some (JObj (rules_json p))"
  by (simp_all add: jget_def preset_entry_def)

definition preset_content :: "filter_preset \<Rightarrow> string \<times> string list \<times> string list" where
  "preset_content q = (preset_name q, preset_exclude q, preset_include q)"

lemma import_preset_entry:
  assumes "neat_name (preset_name p)"
  shows "\<exists>s' r' new. import_preset dv (preset_entry p) (s, r) = Landed (s', r') \<and> cat_presets s' = cat_presets s @ new \<and>
     preset_name p \<in> preset_name ` set (cat_presets s') \<and>
     (\<forall>q \<in> set new. preset_content q = preset_content p) \<and>
     cat_connections s' = cat_connections s \<and> cat_jobs s' = cat_jobs s \<and> cat_credentials s' = cat_credentials s \<and>
     same_but r r' \<and> connections_created r' = connections_created r \<and> jobs_created r' = jobs_created r"
proof -
  have name: "name_in dv (preset_entry p) = preset_name p" "preset_name p \<noteq> []"
    using assms name_in_neat [OF jget_preset_entry(1)] by (auto simp: neat_name_def)
  have d: "py_dict (rules_json p) = rules_json p" by (rule py_dict_id) (simp add: rules_json_def)
  have rules: "rules_of (rules_json p) ''exclude'' = Landed (preset_exclude p)"
    "rules_of (rules_json p) ''include'' = Landed (preset_include p)"
    by (rule rules_listed, simp add: rules_json_def jget_def)+
  have "falsy_get (preset_entry p) ''rules'' = Some (JObj (rules_json p))"
    by (simp add: falsy_get_def jget_preset_entry rules_json_def)
  then have col: "dict_col (falsy_get (preset_entry p) ''rules'') = Landed (rules_json p)" by (simp add: dict_col_def d)
  show ?thesis
    by (cases "preset_name p \<in> preset_name ` set (cat_presets s)")
      (simp_all add: import_preset_def name col rules add_preset_def same_but_def preset_content_def)
qed

lemma import_presets_back:
  "list_all (\<lambda>p. neat_name (preset_name p)) ps \<Longrightarrow>
   \<exists>s' r' new. each (import_preset dv) (map preset_entry ps) (s, r) = Landed (s', r') \<and> cat_presets s' = cat_presets s @ new \<and>
     preset_name ` set ps \<subseteq> preset_name ` set (cat_presets s') \<and>
     preset_content ` set new \<subseteq> preset_content ` set ps \<and>
     cat_connections s' = cat_connections s \<and> cat_jobs s' = cat_jobs s \<and> cat_credentials s' = cat_credentials s \<and>
     same_but r r' \<and> connections_created r' = connections_created r \<and> jobs_created r' = jobs_created r"
proof (induction ps arbitrary: s r)
  case Nil
  show ?case by (auto simp: same_but_def)
next
  case (Cons p ps)
  obtain s1 r1 new1 where one: "import_preset dv (preset_entry p) (s, r) = Landed (s1, r1)" "cat_presets s1 = cat_presets s @ new1"
      "preset_name p \<in> preset_name ` set (cat_presets s1)"
      "\<forall>q \<in> set new1. preset_content q = preset_content p"
      "cat_connections s1 = cat_connections s" "cat_jobs s1 = cat_jobs s" "cat_credentials s1 = cat_credentials s" "same_but r r1"
      "connections_created r1 = connections_created r" "jobs_created r1 = jobs_created r"
    using import_preset_entry [of p dv s r] Cons.prems by auto
  obtain s' r' new where rest: "each (import_preset dv) (map preset_entry ps) (s1, r1) = Landed (s', r')"
      "cat_presets s' = cat_presets s1 @ new" "preset_name ` set ps \<subseteq> preset_name ` set (cat_presets s')"
      "preset_content ` set new \<subseteq> preset_content ` set ps"
      "cat_connections s' = cat_connections s1" "cat_jobs s' = cat_jobs s1" "cat_credentials s' = cat_credentials s1" "same_but r1 r'"
      "connections_created r' = connections_created r1" "jobs_created r' = jobs_created r1"
    using Cons.IH [of s1 r1] Cons.prems by auto
  have "preset_content ` set (new1 @ new) \<subseteq> preset_content ` set (p # ps)" using one(4) rest(4) by auto
  moreover have "preset_name ` set (p # ps) \<subseteq> preset_name ` set (cat_presets s')" using one(3) rest(2,3) by auto
  moreover have "same_but r r'" using one(8) rest(8) by (simp add: same_but_def)
  ultimately show ?case
    using one rest by (intro exI [of _ s'] exI [of _ r'] exI [of _ "new1 @ new"]) simp
qed

definition found_presets :: "filter_preset list \<Rightarrow> string list \<Rightarrow> filter_preset list" where
  "found_presets known names = concat (map (\<lambda>n. case preset_by_name known n of None \<Rightarrow> [] | Some p \<Rightarrow> [p]) names)"

lemma preset_by_name_Some: "preset_by_name known n = Some p \<Longrightarrow> p \<in> set known \<and> preset_name p = n"
  using find_member by (fastforce simp: preset_by_name_def)

lemma preset_by_name_None: "preset_by_name known n = None \<longleftrightarrow> n \<notin> preset_name ` set known"
  by (auto simp: preset_by_name_def find_None_iff)

lemma found_names: "map preset_name (found_presets known names) = filter (\<lambda>n. n \<in> preset_name ` set known) names"
proof (induction names)
  case (Cons n names)
  show ?case
  proof (cases "preset_by_name known n")
    case None
    moreover from this have "n \<notin> preset_name ` set known" by (simp add: preset_by_name_None)
    ultimately show ?thesis using Cons by (simp add: found_presets_def)
  next
    case (Some p)
    then have "n \<in> preset_name ` set known" "preset_name p = n" using preset_by_name_Some [OF Some] by auto
    then show ?thesis using Cons Some by (simp add: found_presets_def)
  qed
qed (simp add: found_presets_def)

lemma found_known: "set (found_presets known names) \<subseteq> set known"
  using preset_by_name_Some by (fastforce simp: found_presets_def split: option.splits)

lemma found_distinct:
  assumes "keyed preset_id preset_name known" "distinct names"
  shows "distinct (map preset_id (found_presets known names))"
proof -
  have "distinct (map preset_name (found_presets known names))" using assms(2) by (simp add: found_names)
  moreover have "inj_on preset_id (set known)" using assms(1) by (simp add: keyed_def distinct_map)
  ultimately show ?thesis
    using found_known [of known names] by (auto simp: distinct_map intro: inj_on_subset)
qed

lemma names_back: "preset_names dv (job_entry j) = Some (map preset_name (job_filter_presets j))"
  by (cases "job_filter_presets j")
    (simp_all add: preset_names_def falsy_get_def jget_job_entry' jstrs_def to_str_def comp_def)

definition neat_job :: "job \<Rightarrow> bool" where
  "neat_job j \<longleftrightarrow> neat_name (job_name j) \<and> distinct (map preset_name (job_filter_presets j))"

text \<open>A job that came through: the presets it keeps are those the table held before.\<close>

definition arrived_job :: "filter_preset list \<Rightarrow> job \<Rightarrow> job \<Rightarrow> bool" where
  "arrived_job known j j' \<longleftrightarrow>
     settings_of j' = settings_of j \<and>
     map preset_name (job_filter_presets j') = filter (\<lambda>n. n \<in> preset_name ` set known) (map preset_name (job_filter_presets j)) \<and>
     set (job_filter_presets j') \<subseteq> set known"

definition reachable_from :: "connection list \<Rightarrow> connection \<Rightarrow> bool" where
  "reachable_from cs c \<longleftrightarrow> (case by_conn_name cs (conn_name c) of None \<Rightarrow> False | Some c' \<Rightarrow> config_of c' = config_of c)"

lemma import_job_entry:
  assumes "driver_ok dv" "neat_job j" "job_name j \<notin> job_name ` set (cat_jobs s)" "keyed preset_id preset_name known"
    and "reachable_from (cat_connections s) (source_connection j)" "reachable_from (cat_connections s) (dest_connection j)"
  shows "\<exists>j' r'. import_job dv known (job_entry j) (s, r) = Landed (with_jobs (\<lambda>js. js @ [j']) s, r') \<and> arrived_job known j j' \<and>
     same_but r r' \<and> connections_created r' = connections_created r \<and> jobs_created r' = Suc (jobs_created r)"
proof -
  let ?names = "map preset_name (job_filter_presets j)"
  have name: "name_in dv (job_entry j) = job_name j" "job_name j \<noteq> []"
    using assms(2) name_in_neat [OF jget_job_entry(1)] by (auto simp: neat_job_def neat_name_def)
  obtain source dest where ends: "by_conn_name (cat_connections s) (conn_name (source_connection j)) = Some source"
      "by_conn_name (cat_connections s) (conn_name (dest_connection j)) = Some dest"
      "config_of source = config_of (source_connection j)" "config_of dest = config_of (dest_connection j)"
    using assms(5,6) by (auto simp: reachable_from_def split: option.splits)
  have strs: "str_get dv (job_entry j) ''source_connection'' = conn_name (source_connection j)"
    "str_get dv (job_entry j) ''dest_connection'' = conn_name (dest_connection j)"
    by (simp_all add: str_get_text jget_job_entry')
  have d: "distinct (map preset_id (found_presets known ?names))"
    using assms(2,4) found_distinct by (simp add: neat_job_def)
  let ?j = "(settings_of j)\<lparr>job_id := next_id job_id (cat_jobs s), source_connection := source, dest_connection := dest,
    job_filter_presets := found_presets known ?names\<rparr>"
  have "arrived_job known j ?j"
    using ends(3,4) found_known [of known ?names] by (simp add: arrived_job_def found_names settings_of_def)
  then show ?thesis
    using assms(3) name(2) job_back [OF assms(1) d]
    by (intro exI [of _ ?j])
      (simp add: import_job_def Let_def name(1) strs ends(1,2) names_back found_presets_def [symmetric] same_but_def del: map_map)
qed

lemma import_jobs_back:
  assumes "driver_ok dv" "keyed preset_id preset_name known"
    and "list_all neat_job js" "distinct (map job_name js)" "job_name ` set js \<inter> job_name ` set (cat_jobs s) = {}"
    and "list_all (\<lambda>j. reachable_from (cat_connections s) (source_connection j) \<and> reachable_from (cat_connections s) (dest_connection j)) js"
  shows "\<exists>s' r' new. each (import_job dv known) (map job_entry js) (s, r) = Landed (s', r') \<and>
     cat_jobs s' = cat_jobs s @ new \<and> list_all2 (arrived_job known) js new \<and> cat_connections s' = cat_connections s \<and>
     cat_presets s' = cat_presets s \<and> same_but r r' \<and> connections_created r' = connections_created r \<and>
     jobs_created r' = jobs_created r + length js"
  using assms(3-6)
proof (induction js arbitrary: s r)
  case Nil
  show ?case by (auto simp: same_but_def)
next
  case (Cons j js)
  obtain j' r1 where one: "import_job dv known (job_entry j) (s, r) = Landed (with_jobs (\<lambda>js. js @ [j']) s, r1)"
      "arrived_job known j j'" "same_but r r1" "connections_created r1 = connections_created r"
      "jobs_created r1 = Suc (jobs_created r)"
    using import_job_entry [OF assms(1) _ _ assms(2), of j s r] Cons.prems by auto
  have "job_name (settings_of k) = job_name k" for k by (simp add: settings_of_def)
  then have "job_name j' = job_name j" using one(2) by (metis arrived_job_def)
  then have "job_name ` set js \<inter> job_name ` set (cat_jobs (with_jobs (\<lambda>js. js @ [j']) s)) = {}"
    using Cons.prems by auto
  then obtain s' r' new where rest: "each (import_job dv known) (map job_entry js) (with_jobs (\<lambda>js. js @ [j']) s, r1) = Landed (s', r')"
      "cat_jobs s' = cat_jobs s @ j' # new" "list_all2 (arrived_job known) js new" "cat_connections s' = cat_connections s"
      "cat_presets s' = cat_presets s" "same_but r1 r'" "connections_created r' = connections_created r1"
      "jobs_created r' = jobs_created r1 + length js"
    using Cons.IH [of "with_jobs (\<lambda>js. js @ [j']) s" r1] Cons.prems by auto
  have "same_but r r'" using one(3) rest(6) by (simp add: same_but_def)
  then show ?case using one rest by (intro exI [of _ s'] exI [of _ r'] exI [of _ "j' # new"]) simp
qed

lemma arrived_name: "arrived crs c c' \<Longrightarrow> conn_name c' = conn_name c"
  by (metis arrived_def config_of_simps(4))

lemma arrived_reachable:
  "list_all2 (arrived crs) cs new \<Longrightarrow> distinct (map conn_name cs) \<Longrightarrow> c \<in> set cs \<Longrightarrow> reachable_from new c"
proof (induction cs new rule: list_all2_induct)
  case (Cons d ds d' ds')
  show ?case
  proof (cases "conn_name d = conn_name c")
    case True
    then have "c = d" using Cons.prems by (auto simp: image_iff)
    then show ?thesis
      using Cons.hyps(1) arrived_name [OF Cons.hyps(1)] by (simp add: reachable_from_def by_conn_name_def arrived_def)
  next
    case False
    then have "reachable_from ds' c" using Cons by auto
    then show ?thesis using False arrived_name [OF Cons.hyps(1)] by (simp add: reachable_from_def by_conn_name_def)
  qed
qed simp

lemma sorted_names: "keyed key name_of xs \<Longrightarrow> distinct (map name_of (sort_key name_of xs))"
  by (simp add: keyed_def distinct_map)

definition neat :: "'trig catalog \<Rightarrow> bool" where
  "neat s \<longleftrightarrow> list_all neat_connection (cat_connections s) \<and> list_all neat_job (cat_jobs s) \<and>
     list_all (\<lambda>p. neat_name (preset_name p)) (cat_presets s)"

lemma export_entries:
  "entries_of (export_config pint zone i) ''connections'' =
     Landed (map connection_entry (sort_key conn_name (cat_connections (in_catalog i))))"
  "entries_of (export_config pint zone i) ''jobs'' = Landed (map job_entry (sort_key job_name (cat_jobs (in_catalog i))))"
  "entries_of (export_config pint zone i) ''filter_presets'' =
     Landed (map preset_entry (sort_key preset_name (filter (\<lambda>p. \<not> preset_builtin p) (cat_presets (in_catalog i)))))"
  by (rule entries_listed, simp add: export_config_def jget_def Let_def comp_def)+

lemma export_version: "version_ok (export_config pint zone i)"
  by (simp add: version_ok_def export_config_def jget_def Let_def)

lemma import_tables_back:
  assumes "driver_ok dv" "coherent (in_catalog i)" "neat (in_catalog i)" "coherent s"
    and "cat_connections s = []" "cat_jobs s = []"
  shows "\<exists>s' r. import_tables dv (export_config pint zone i) s = Landed (s', r) \<and> ir_errors r = [] \<and>
     connections_created r = length (cat_connections (in_catalog i)) \<and> jobs_created r = length (cat_jobs (in_catalog i)) \<and>
     list_all2 (arrived (cat_credentials s)) (sort_key conn_name (cat_connections (in_catalog i))) (cat_connections s') \<and>
     list_all2 (arrived_job (cat_presets s)) (sort_key job_name (cat_jobs (in_catalog i))) (cat_jobs s') \<and>
     preset_name ` set (filter (\<lambda>p. \<not> preset_builtin p) (cat_presets (in_catalog i))) \<subseteq> preset_name ` set (cat_presets s')"
proof -
  let ?c = "in_catalog i"
  let ?ps = "sort_key preset_name (filter (\<lambda>p. \<not> preset_builtin p) (cat_presets ?c))"
  let ?cs = "sort_key conn_name (cat_connections ?c)" and ?js = "sort_key job_name (cat_jobs ?c)"
  obtain s1 r1 new1 where one: "each (import_preset dv) (map preset_entry ?ps) (s, empty_report) = Landed (s1, r1)"
      "preset_name ` set ?ps \<subseteq> preset_name ` set (cat_presets s1)"
      "cat_connections s1 = []" "cat_jobs s1 = []" "cat_credentials s1 = cat_credentials s" "same_but empty_report r1"
      "connections_created r1 = 0" "jobs_created r1 = 0"
    using import_presets_back [of ?ps dv s empty_report] assms(3,5,6)
    by (auto simp: neat_def list_all_iff empty_report_def)
  have dc: "distinct (map conn_name ?cs)" and dj: "distinct (map job_name ?js)"
    using assms(2) by (auto simp: coherent_def intro: sorted_names)
  obtain s2 r2 new where two: "each (import_connection dv) (map connection_entry ?cs) (s1, r1) = Landed (s2, r2)"
      "cat_connections s2 = new" "list_all2 (arrived (cat_credentials s)) ?cs new" "cat_presets s2 = cat_presets s1"
      "cat_jobs s2 = []" "same_but r1 r2" "connections_created r2 = length ?cs" "jobs_created r2 = 0"
    using import_connections_back [OF assms(1) _ dc, of s1 r1] assms(3) one by (auto simp: neat_def list_all_iff)
  have reach: "reachable_from (cat_connections s2) c" if "c \<in> set (cat_connections ?c)" for c
    using arrived_reachable [OF two(3) dc] that two(2) by simp
  have "list_all (\<lambda>j. reachable_from (cat_connections s2) (source_connection j) \<and> reachable_from (cat_connections s2) (dest_connection j)) ?js"
    using reach assms(2) by (auto simp: list_all_iff coherent_def job_refs_ok_def)
  then obtain s3 r3 new3 where three: "each (import_job dv (cat_presets s)) (map job_entry ?js) (s2, r2) = Landed (s3, r3)"
      "cat_jobs s3 = new3" "list_all2 (arrived_job (cat_presets s)) ?js new3" "cat_connections s3 = cat_connections s2"
      "cat_presets s3 = cat_presets s2" "same_but r2 r3" "connections_created r3 = connections_created r2"
      "jobs_created r3 = length ?js"
    using import_jobs_back [OF assms(1) _ _ dj, of "cat_presets s" s2 r2] assms(3,4) two(5,8)
    by (auto simp: neat_def list_all_iff coherent_def)
  have "import_tables dv (export_config pint zone i) s = Landed (s3, r3)"
    by (simp add: import_tables_def export_entries one(1) two(1) three(1))
  moreover have "ir_errors r3 = []" using one(6) two(6) three(6) by (simp add: same_but_def empty_report_def)
  ultimately show ?thesis
    using one(2) two three by (intro exI [of _ s3] exI [of _ r3]) simp
qed

definition merged :: "preferences \<Rightarrow> preferences \<Rightarrow> preferences" where
  "merged here there =
     there\<lparr>notify_webhook_url := notify_webhook_url here, notify_ntfy_topic := notify_ntfy_topic here,
           pref_base_url := pref_base_url here\<rparr>"

lemma travelled_values:
  "updated (model_dump p) (travelling (model_dump q)) k =
     (if k \<in> set PREFERENCE_EXCLUDES then jget (model_dump p) k
      else case jget (model_dump q) k of None \<Rightarrow> jget (model_dump p) k | Some v \<Rightarrow> Some v)"
proof -
  have "map_of (filter (\<lambda>(k, v). k \<notin> X) d) k = (if k \<in> X then None else map_of d k)" for X and d :: "(string \<times> json) list"
    by (induction d) auto
  then show ?thesis by (simp add: updated_def jget_def travelling_def rev_filter)
qed

lemma ranged_back: "driver_ok dv \<Longrightarrow> lo \<le> n \<Longrightarrow> n \<le> hi \<Longrightarrow> ranged dv lo hi (Some (JInt n)) = Some n"
  by (simp add: ranged_def driver_ok_def)

lemma preferences_back:
  assumes "driver_ok dv" "valid_preferences zone q"
  shows "validate_values dv zone (updated (model_dump p) (travelling (model_dump q))) = Some (merged p q)"
proof -
  let ?get = "updated (model_dump p) (travelling (model_dump q))"
  have get: "?get ''notify_target'' = Some (JStr (target_value (notify_target_of q)))"
    "?get ''notify_webhook_url'' = Some (JStr (notify_webhook_url p))"
    "?get ''notify_ntfy_server'' = Some (JStr (notify_ntfy_server q))"
    "?get ''notify_ntfy_topic'' = Some (JStr (notify_ntfy_topic p))"
    "?get ''notify_timeout_seconds'' = Some (JInt (notify_timeout_seconds q))"
    "?get ''base_url'' = Some (JStr (pref_base_url p))"
    "?get ''archive_retention_days'' = Some (jint_of (pref_archive_retention_days q))"
    "?get ''run_history_keep'' = Some (JInt (run_history_keep q))"
    "?get ''log_retention_days'' = Some (JInt (log_retention_days q))"
    "?get ''log_max_total_mb'' = Some (JInt (log_max_total_mb q))"
    "?get ''max_concurrent_runs'' = Some (JInt (max_concurrent_runs q))"
    "?get ''display_timezone'' = Some (JStr (display_timezone q))" "?get ''clock'' = Some (JStr (clock_value (clock_of q)))"
    unfolding travelled_values by (simp_all add: PREFERENCE_EXCLUDES_def jget_def model_dump_def)
  have days: "optional_days dv (Some (jint_of (pref_archive_retention_days q))) = Some (pref_archive_retention_days q)"
    using assms by (cases "pref_archive_retention_days q") (simp_all add: optional_days_def jint_of_def driver_ok_def valid_preferences_def)
  have tz: "zone_field zone (Some (display_timezone q)) = Some (display_timezone q)"
    using assms(2) by (auto simp: zone_field_def valid_preferences_def)
  show ?thesis
    using assms unfolding validate_values_def get
    by (simp add: days tz ranged_back text_value_def valid_preferences_def merged_def)
qed

lemma import_preferences_back:
  assumes "driver_ok dv" "valid_preferences zone q" "jget doc ''preferences'' = Some (JObj (travelling (model_dump q)))"
  shows "import_preferences dv pint zone doc (rows, r) =
     (save_preferences (merged (load_preferences pint zone rows) q) rows, r\<lparr>preferences_applied := True\<rparr>)"
proof -
  have "travelling (travelling d) = travelling d" for d by (simp add: travelling_def)
  moreover have "travelling (model_dump q) \<noteq> []" by (simp add: travelling_def model_dump_def PREFERENCE_EXCLUDES_def)
  ultimately show ?thesis
    using preferences_back [OF assms(1,2), of "load_preferences pint zone rows"]
    by (simp add: import_preferences_def assms(3))
qed


subsection \<open>An import only adds\<close>

lemma decode_connectionD:
  "decode_connection dv name cr e i = Landed c \<Longrightarrow> conn_id c = i \<and> conn_name c = name \<and> conn_credential c = cr"
  by (auto simp: decode_connection_def and_then_Landed new_connection_def)

lemma decode_jobD:
  "decode_job dv name source dest ps e i = Landed j \<Longrightarrow>
   job_id j = i \<and> job_name j = name \<and> source_connection j = source \<and> dest_connection j = dest \<and> job_filter_presets j = ps"
  by (auto simp: decode_job_def and_then_Landed new_job_def split: if_splits)

definition grown :: "'trig catalog \<Rightarrow> 'trig catalog \<Rightarrow> bool" where
  "grown s s' \<longleftrightarrow>
     prefix (cat_connections s) (cat_connections s') \<and> prefix (cat_presets s) (cat_presets s') \<and>
     prefix (cat_jobs s) (cat_jobs s') \<and> cat_credentials s' = cat_credentials s \<and>
     adm_schedule (cat_admin s') = adm_schedule (cat_admin s)"

lemma schedule_kept [simp]:
  "adm_schedule (cat_admin (with_connections f t)) = adm_schedule (cat_admin t)"
  "adm_schedule (cat_admin (with_presets g t)) = adm_schedule (cat_admin t)"
  "adm_schedule (cat_admin (with_jobs h t)) = adm_schedule (cat_admin t)"
  by (simp_all add: with_connections_def with_presets_def with_jobs_def)

lemma grown_refl [simp]: "grown s s"
  by (simp add: grown_def)

lemma grown_trans: "grown s t \<Longrightarrow> grown t u \<Longrightarrow> grown s u"
  by (auto simp: grown_def)

definition quiet :: "import_report \<Rightarrow> import_report \<Rightarrow> bool" where
  "quiet r r' \<longleftrightarrow> connections_created r' = connections_created r \<and> jobs_created r' = jobs_created r \<and>
     presets_created r' = presets_created r"

definition preset_settled :: "driver \<Rightarrow> (string \<times> json) list \<Rightarrow> 'trig catalog \<Rightarrow> bool" where
  "preset_settled dv e s \<longleftrightarrow> name_in dv e = [] \<or> name_in dv e \<in> preset_name ` set (cat_presets s)"

definition connection_settled :: "driver \<Rightarrow> (string \<times> json) list \<Rightarrow> 'trig catalog \<Rightarrow> bool" where
  "connection_settled dv e s \<longleftrightarrow> name_in dv e = [] \<or> name_in dv e \<in> conn_name ` set (cat_connections s)"

text \<open>A job entry is settled once its job is there or one of its endpoints is not.\<close>

definition job_settled :: "driver \<Rightarrow> (string \<times> json) list \<Rightarrow> 'trig catalog \<Rightarrow> bool" where
  "job_settled dv e s \<longleftrightarrow>
     name_in dv e = [] \<or> name_in dv e \<in> job_name ` set (cat_jobs s) \<or>
     by_conn_name (cat_connections s) (str_get dv e ''source_connection'') = None \<or>
     by_conn_name (cat_connections s) (str_get dv e ''dest_connection'') = None"

lemma settled_steps:
  "preset_settled dv e s \<Longrightarrow> \<exists>r'. import_preset dv e (s, r) = Landed (s, r') \<and> quiet r r'"
  "connection_settled dv e s \<Longrightarrow> \<exists>r'. import_connection dv e (s, r) = Landed (s, r') \<and> quiet r r'"
  "job_settled dv e s \<Longrightarrow> \<exists>r'. import_job dv known e (s, r) = Landed (s, r') \<and> quiet r r'"
proof -
  show "preset_settled dv e s \<Longrightarrow> \<exists>r'. import_preset dv e (s, r) = Landed (s, r') \<and> quiet r r'"
    by (simp add: import_preset_def preset_settled_def Let_def quiet_def)
  show "connection_settled dv e s \<Longrightarrow> \<exists>r'. import_connection dv e (s, r) = Landed (s, r') \<and> quiet r r'"
    by (cases "name_in dv e = []") (simp_all add: import_connection_def connection_settled_def Let_def quiet_def)
  assume "job_settled dv e s"
  then consider "name_in dv e = []" | "name_in dv e \<noteq> []" "name_in dv e \<in> job_name ` set (cat_jobs s)"
    | "name_in dv e \<noteq> []" "name_in dv e \<notin> job_name ` set (cat_jobs s)"
      "by_conn_name (cat_connections s) (str_get dv e ''source_connection'') = None"
    | c where "name_in dv e \<noteq> []" "name_in dv e \<notin> job_name ` set (cat_jobs s)"
      "by_conn_name (cat_connections s) (str_get dv e ''source_connection'') = Some c"
      "by_conn_name (cat_connections s) (str_get dv e ''dest_connection'') = None"
    by (auto simp: job_settled_def)
  then show "\<exists>r'. import_job dv known e (s, r) = Landed (s, r') \<and> quiet r r'"
    by cases (simp_all add: import_job_def Let_def quiet_def)
qed

lemma import_presetD:
  assumes "import_preset dv e (s, r) = Landed (s', r')"
  shows "grown s s' \<and> cat_connections s' = cat_connections s \<and> cat_jobs s' = cat_jobs s \<and>
     preset_settled dv e s' \<and> (coherent s \<longrightarrow> coherent s')"
proof (cases "preset_settled dv e s")
  case True
  then show ?thesis using assms settled_steps(1) [OF True, of r] by auto
next
  case False
  then obtain ex inc where s': "s' = add_preset (name_in dv e) False ex inc s"
    using assms by (auto simp: import_preset_def preset_settled_def Let_def and_then_Landed)
  then show ?thesis
    using False coherent_add_preset [of s "name_in dv e"] by (auto simp: add_preset_def grown_def preset_settled_def)
qed

lemma import_connectionD:
  assumes "import_connection dv e (s, r) = Landed (s', r')"
  shows "grown s s' \<and> cat_presets s' = cat_presets s \<and> cat_jobs s' = cat_jobs s \<and>
     connection_settled dv e s' \<and> (coherent s \<longrightarrow> coherent s')"
proof (cases "connection_settled dv e s")
  case True
  then show ?thesis using assms settled_steps(2) [OF True, of r] by auto
next
  case False
  obtain cr ws where link: "link_credential dv (cat_credentials s) (name_in dv e) e = (cr, ws)"
    by (cases "link_credential dv (cat_credentials s) (name_in dv e) e")
  then obtain c where c: "decode_connection dv (name_in dv e) cr e (next_id conn_id (cat_connections s)) = Landed c"
      "s' = with_connections (\<lambda>cs. cs @ [c]) s"
    using assms False by (auto simp: import_connection_def connection_settled_def Let_def and_then_Landed)
  have "set_option cr \<subseteq> set (cat_credentials s)"
    using link find_member by (fastforce simp: link_credential_def split: option.splits)
  then have "credential_ok (cat_credentials s) c" using decode_connectionD [OF c(1)] by (simp add: credential_ok_def)
  moreover have "keyed conn_id conn_name (cat_connections s) \<Longrightarrow> keyed conn_id conn_name (cat_connections s @ [c])"
    using decode_connectionD [OF c(1)] False by (intro keyed_append) (auto simp: connection_settled_def)
  ultimately have "coherent s \<Longrightarrow> coherent s'" by (auto simp: c(2) coherent_def elim!: job_refs_mono)
  then show ?thesis using decode_connectionD [OF c(1)] by (simp add: c(2) grown_def connection_settled_def)
qed

lemma import_jobD:
  assumes "import_job dv known e (s, r) = Landed (s', r')" "set known \<subseteq> set (cat_presets s)"
  shows "grown s s' \<and> cat_presets s' = cat_presets s \<and> cat_connections s' = cat_connections s \<and> job_settled dv e s' \<and>
     (coherent s \<longrightarrow> coherent s')"
proof (cases "job_settled dv e s")
  case True
  then show ?thesis using assms(1) settled_steps(3) [OF True, of known r] by auto
next
  case False
  then obtain source dest where ends: "by_conn_name (cat_connections s) (str_get dv e ''source_connection'') = Some source"
      "by_conn_name (cat_connections s) (str_get dv e ''dest_connection'') = Some dest"
    by (auto simp: job_settled_def)
  have new: "name_in dv e \<noteq> []" "name_in dv e \<notin> job_name ` set (cat_jobs s)" using False by (auto simp: job_settled_def)
  obtain names j where j: "s' = with_jobs (\<lambda>js. js @ [j]) s"
      "decode_job dv (name_in dv e) source dest (found_presets known names) e (next_id job_id (cat_jobs s)) = Landed j"
    using assms(1) ends new
    by (auto simp: import_job_def found_presets_def Let_def and_then_Landed split: option.splits)
  have "source \<in> set (cat_connections s)" "dest \<in> set (cat_connections s)"
    using ends find_member by (fastforce simp: by_conn_name_def)+
  then have "job_refs_ok (cat_connections s) (cat_presets s) j"
    using decode_jobD [OF j(2)] found_known [of known names] assms(2) by (auto simp: job_refs_ok_def)
  moreover have "keyed job_id job_name (cat_jobs s) \<Longrightarrow> keyed job_id job_name (cat_jobs s @ [j])"
    using decode_jobD [OF j(2)] new(2) by (intro keyed_append) auto
  ultimately have "coherent s \<Longrightarrow> coherent s'" by (auto simp: j(1) coherent_def)
  then show ?thesis using decode_jobD [OF j(2)] by (simp add: j(1) grown_def job_settled_def)
qed

definition extends :: "'trig catalog \<Rightarrow> 'trig catalog \<Rightarrow> bool" where
  "extends s s' \<longleftrightarrow> grown s s' \<and> (coherent s \<longrightarrow> coherent s')"

lemma extends_refl [simp]: "extends s s"
  by (simp add: extends_def)

lemma extends_trans: "extends s t \<Longrightarrow> extends t u \<Longrightarrow> extends s u"
  using grown_trans by (auto simp: extends_def)

lemma prefix_image: "prefix xs ys \<Longrightarrow> f ` set xs \<subseteq> f ` set ys"
  using set_mono_prefix by blast

lemma settled_extends:
  "preset_settled dv e s \<Longrightarrow> extends s s' \<Longrightarrow> preset_settled dv e s'"
  "connection_settled dv e s \<Longrightarrow> extends s s' \<Longrightarrow> connection_settled dv e s'"
  "job_settled dv e s \<Longrightarrow> extends s s' \<Longrightarrow> cat_connections s' = cat_connections s \<Longrightarrow> job_settled dv e s'"
proof -
  have presets: "grown s s' \<Longrightarrow> preset_name ` set (cat_presets s) \<subseteq> preset_name ` set (cat_presets s')"
    and conns: "grown s s' \<Longrightarrow> conn_name ` set (cat_connections s) \<subseteq> conn_name ` set (cat_connections s')"
    and jobs: "grown s s' \<Longrightarrow> job_name ` set (cat_jobs s) \<subseteq> job_name ` set (cat_jobs s')"
    unfolding grown_def by (blast intro!: prefix_image)+
  show "preset_settled dv e s \<Longrightarrow> extends s s' \<Longrightarrow> preset_settled dv e s'"
    using presets by (auto simp: preset_settled_def extends_def)
  show "connection_settled dv e s \<Longrightarrow> extends s s' \<Longrightarrow> connection_settled dv e s'"
    using conns by (auto simp: connection_settled_def extends_def)
  show "job_settled dv e s \<Longrightarrow> extends s s' \<Longrightarrow> cat_connections s' = cat_connections s \<Longrightarrow> job_settled dv e s'"
    using jobs by (auto simp: job_settled_def extends_def)
qed

lemma each_chain:
  assumes "each step es (s, r) = Landed (s', r')" "Q s"
    and step: "\<And>e s r s' r'. Q s \<Longrightarrow> step e (s, r) = Landed (s', r') \<Longrightarrow> R s s' \<and> P e s' \<and> Q s'"
    and keep: "\<And>e s s'. P e s \<Longrightarrow> R s s' \<Longrightarrow> P e s'"
    and refl: "\<And>s. R s s" and trans: "\<And>s t u. R s t \<Longrightarrow> R t u \<Longrightarrow> R s u"
  shows "R s s' \<and> (\<forall>e \<in> set es. P e s')"
  using assms(1,2)
proof (induction es arbitrary: s r)
  case (Cons e es)
  obtain s1 r1 where one: "step e (s, r) = Landed (s1, r1)" "each step es (s1, r1) = Landed (s', r')"
    using Cons.prems(1) by (auto simp: and_then_Landed)
  have "R s s1 \<and> P e s1 \<and> Q s1" using step [OF Cons.prems(2) one(1)] .
  moreover from this have "R s1 s' \<and> (\<forall>e \<in> set es. P e s')" using Cons.IH [OF one(2)] by blast
  ultimately show ?case using keep trans by auto
qed (simp add: refl)

lemma each_quiet:
  assumes "\<And>e r. e \<in> set es \<Longrightarrow> \<exists>r'. step e (s, r) = Landed (s, r') \<and> quiet r r'"
  shows "\<exists>r'. each step es (s, r) = Landed (s, r') \<and> quiet r r'"
  using assms
proof (induction es arbitrary: r)
  case (Cons e es)
  obtain r1 where one: "step e (s, r) = Landed (s, r1)" "quiet r r1" using Cons.prems [of e r] by auto
  obtain r' where "each step es (s, r1) = Landed (s, r')" "quiet r1 r'" using Cons.IH [of r1] Cons.prems by auto
  then show ?case using one by (auto simp: quiet_def)
qed (simp add: quiet_def)

lemma import_tables_adds:
  assumes "import_tables dv doc s = Landed (s', r)"
  shows "extends s s' \<and> (\<exists>r'. import_tables dv doc s' = Landed (s', r') \<and> quiet empty_report r')"
proof -
  obtain ps cs js s1 r1 s2 r2 where e: "entries_of doc ''filter_presets'' = Landed ps" "entries_of doc ''connections'' = Landed cs"
      "entries_of doc ''jobs'' = Landed js" "each (import_preset dv) ps (s, empty_report) = Landed (s1, r1)"
      "each (import_connection dv) cs (s1, r1) = Landed (s2, r2)" "each (import_job dv (cat_presets s)) js (s2, r2) = Landed (s', r)"
    using assms by (auto simp: import_tables_def and_then_Landed)
  have presets: "extends s s1 \<and> (\<forall>e \<in> set ps. preset_settled dv e s1)"
    by (rule each_chain [OF e(4), where Q = "\<lambda>s. True"])
      (auto simp: extends_def dest: import_presetD settled_extends(1) [unfolded extends_def] intro: grown_trans)
  have conns: "extends s1 s2 \<and> (\<forall>e \<in> set cs. connection_settled dv e s2)"
    by (rule each_chain [OF e(5), where Q = "\<lambda>s. True"])
      (auto simp: extends_def dest: import_connectionD settled_extends(2) [unfolded extends_def] intro: grown_trans)
  have "set (cat_presets s) \<subseteq> set (cat_presets s2)"
    using presets conns by (auto simp: extends_def grown_def dest!: set_mono_prefix)
  then have jobs: "(extends s2 s' \<and> cat_connections s' = cat_connections s2) \<and> (\<forall>e \<in> set js. job_settled dv e s')"
  proof (intro each_chain [OF e(6), where Q = "\<lambda>t. set (cat_presets s) \<subseteq> set (cat_presets t)"
        and R = "\<lambda>s t. extends s t \<and> cat_connections t = cat_connections s"])
    fix e t rt t' rt'
    assume "set (cat_presets s) \<subseteq> set (cat_presets t)" "import_job dv (cat_presets s) e (t, rt) = Landed (t', rt')"
    then show "(extends t t' \<and> cat_connections t' = cat_connections t) \<and> job_settled dv e t' \<and>
        set (cat_presets s) \<subseteq> set (cat_presets t')"
      using import_jobD [of dv "cat_presets s" e t rt t' rt'] by (simp add: extends_def)
  qed (auto intro: settled_extends(3) extends_trans)
  have all: "extends s1 s'" "extends s s'" using presets conns jobs extends_trans by blast+
  obtain r1' where one: "each (import_preset dv) ps (s', empty_report) = Landed (s', r1')" "quiet empty_report r1'"
    using each_quiet [of ps "import_preset dv" s' empty_report] presets all(1) settled_extends(1) settled_steps(1) by blast
  obtain r2' where two: "each (import_connection dv) cs (s', r1') = Landed (s', r2')" "quiet r1' r2'"
    using each_quiet [of cs "import_connection dv" s' r1'] conns jobs settled_extends(2) settled_steps(2) by blast
  obtain r3' where three: "each (import_job dv (cat_presets s')) js (s', r2') = Landed (s', r3')" "quiet r2' r3'"
    using each_quiet [of js "import_job dv (cat_presets s')" s' r2'] jobs settled_steps(3) by blast
  have "import_tables dv doc s' = Landed (s', r3')"
    by (simp add: import_tables_def e(1-3) one(1) two(1) three(1))
  moreover have "quiet empty_report r3'" using one(2) two(2) three(2) by (simp add: quiet_def)
  ultimately show ?thesis using all(2) by blast
qed


subsection \<open>An export gives nothing away\<close>

text \<open>What is blanked: ciphertexts, numbers, everything a probe, a test or a run left, and the preferences that may carry
  a token.\<close>

definition public_credential :: "credential \<Rightarrow> credential" where
  "public_credential cr =
     cr\<lparr>cred_id := 0, secret_ciphertext := [], key_passphrase_ciphertext := None, is_obscured := False\<rparr>"

definition public_connection :: "connection \<Rightarrow> connection" where
  "public_connection c = (config_of c)\<lparr>conn_credential := map_option public_credential (conn_credential c)\<rparr>"

definition public_job :: "job \<Rightarrow> job" where
  "public_job j =
     j\<lparr>job_id := 0, source_connection := public_connection (source_connection j),
       dest_connection := public_connection (dest_connection j),
       job_filter_presets := map (preset_id_update (\<lambda>i. 0)) (job_filter_presets j), last_checked_at := None,
       bisync_initialized := False\<rparr>"

definition public_preferences :: "preferences \<Rightarrow> preferences" where
  "public_preferences p = p\<lparr>notify_webhook_url := [], notify_ntfy_topic := [], pref_base_url := []\<rparr>"

lemma insort_map: "(\<And>x. key (h x) = key x) \<Longrightarrow> insort_key key (h x) (map h ys) = map h (insort_key key x ys)"
  by (induction ys) auto

lemma sort_map: "(\<And>x. key (h x) = key x) \<Longrightarrow> sort_key key (map h xs) = map h (sort_key key xs)"
  by (induction xs) (simp_all add: insort_map)

text \<open>Two lists that look the same through a view look the same, sorted, through what factors through the view.\<close>

lemma same_view:
  assumes "map h xs = map h ys" "\<And>x. key (h x) = key x" "\<And>x. g (h x) = g x"
  shows "map g (sort_key key xs) = map g (sort_key key ys)"
proof -
  have g: "map g (sort_key key zs) = map g (sort_key key (map h zs))" for zs
    using assms(3) by (simp add: sort_map [of key h, OF assms(2)] comp_def)
  show ?thesis unfolding g [of xs] g [of ys] assms(1) ..
qed

lemma public_entries:
  "connection_entry (public_connection c) = connection_entry c" "job_entry (public_job j) = job_entry j"
  "travelling (model_dump (public_preferences p)) = travelling (model_dump p)"
  by (simp_all add: connection_entry_def public_connection_def config_of_def new_connection_def public_credential_def
      job_entry_def public_job_def travelling_def model_dump_def public_preferences_def PREFERENCE_EXCLUDES_def
      option.map_comp comp_def)

lemma public_names [simp]: "conn_name (public_connection c) = conn_name c" "job_name (public_job j) = job_name j"
  by (simp_all add: public_connection_def public_job_def)

text \<open>C21. An export gives nothing away. Two instances that differ in any secret, in encrypted form or not, in what their
  probes found, which host keys they trust, what they ran, or in the addresses and topics they notify, export the same
  document, to the letter.\<close>

theorem export_hides:
  assumes "map public_credential (cat_credentials (in_catalog a)) = map public_credential (cat_credentials (in_catalog b))"
    and "map public_connection (cat_connections (in_catalog a)) = map public_connection (cat_connections (in_catalog b))"
    and "map public_job (cat_jobs (in_catalog a)) = map public_job (cat_jobs (in_catalog b))"
    and "map (preset_id_update (\<lambda>i. 0)) (cat_presets (in_catalog a)) = map (preset_id_update (\<lambda>i. 0)) (cat_presets (in_catalog b))"
    and "public_preferences (load_preferences pint zone (in_settings a)) =
         public_preferences (load_preferences pint zone (in_settings b))"
  shows "export_config pint zone a = export_config pint zone b"
proof -
  let ?custom = "filter (\<lambda>p. \<not> preset_builtin p)"
  have conns: "map (JObj \<circ> connection_entry) (sort_key conn_name (cat_connections (in_catalog a))) =
      map (JObj \<circ> connection_entry) (sort_key conn_name (cat_connections (in_catalog b)))"
    by (rule same_view [OF assms(2)]) (simp_all add: public_entries)
  have jobs: "map (JObj \<circ> job_entry) (sort_key job_name (cat_jobs (in_catalog a))) =
      map (JObj \<circ> job_entry) (sort_key job_name (cat_jobs (in_catalog b)))"
    by (rule same_view [OF assms(3)]) (simp_all add: public_entries)
  have "map (preset_id_update (\<lambda>i. 0)) (?custom ps) = ?custom (map (preset_id_update (\<lambda>i. 0)) ps)" for ps :: "filter_preset list"
    by (induction ps) auto
  then have "map (preset_id_update (\<lambda>i. 0)) (?custom (cat_presets (in_catalog a))) =
      map (preset_id_update (\<lambda>i. 0)) (?custom (cat_presets (in_catalog b)))"
    by (simp add: assms(4))
  then have presets: "map (JObj \<circ> preset_entry) (sort_key preset_name (?custom (cat_presets (in_catalog a)))) =
      map (JObj \<circ> preset_entry) (sort_key preset_name (?custom (cat_presets (in_catalog b))))"
    by (rule same_view) (simp_all add: preset_entry_def rules_json_def)
  let ?cred = "\<lambda>cr. JObj [(''name'', JStr (cred_name cr)), (''kind'', JStr (kind_value (cred_kind cr)))]"
  have creds: "map ?cred (sort_key cred_name (cat_credentials (in_catalog a))) =
      map ?cred (sort_key cred_name (cat_credentials (in_catalog b)))"
    by (rule same_view [OF assms(1)]) (simp_all add: public_credential_def)
  have prefs: "travelling (model_dump (load_preferences pint zone (in_settings a))) =
      travelling (model_dump (load_preferences pint zone (in_settings b)))"
    using arg_cong [OF assms(5), of "\<lambda>p. travelling (model_dump p)"] by (simp only: public_entries)
  show ?thesis unfolding export_config_def Let_def conns jobs presets creds prefs ..
qed

subsection \<open>What falls outside\<close>

text \<open>Continuous mode is not among the fields that travel.\<close>

lemma import_forgets_continuous:
  "decode_job dv name source dest ps e i = Landed j \<Longrightarrow>
   \<not> continuous j \<and> continuous_interval_seconds j = 60 \<and> continuous_idle_interval_seconds j = 900 \<and> quiet_period_seconds j = 0"
  by (auto simp: decode_job_def and_then_Landed split: if_splits)

text \<open>Nothing the schema asks of a job is asked of an imported one: a brake of 500 percent is taken as it is.\<close>

lemma import_takes_any_brake:
  assumes "driver_ok dv"
  shows "\<exists>j. decode_job dv name source dest [] [(''name'', JStr name), (''delete_mode'', JStr ''delete''), (''max_delete_pct'', JInt 500)] i =
      Landed j \<and> max_delete_pct j = 500 \<and> job_delete_mode j = DelDelete"
  using assms
  by (simp add: decode_job_def jget_def nullable_def defaulted_def enum_col_def delete_mode_named_def filters_of_def dict_col_def
      py_dict_def rules_of_def falsy_get_def limit_of_def driver_ok_def)

text \<open>The endpoint of the API leaves the scheduler as it was: imported schedules wait for the next reload.\<close>

lemma import_leaves_schedule:
  assumes "import_tables dv doc s = Landed (s', r)"
  shows "adm_schedule (cat_admin s') = adm_schedule (cat_admin s)"
  using import_tables_adds [OF assms] by (auto simp: extends_def grown_def)

subsection \<open>Concrete values\<close>

definition sample_driver :: driver where
  "sample_driver =
     \<lparr>dv_text = (\<lambda>v. case v of JStr s \<Rightarrow> Landed s | _ \<Rightarrow> Raised), dv_int = (\<lambda>v. case v of JInt n \<Rightarrow> Landed n | _ \<Rightarrow> Raised),
      dv_str = (\<lambda>v. []), dv_pydantic_int = (\<lambda>v. case v of JInt n \<Rightarrow> Some n | _ \<Rightarrow> None)\<rparr>"

lemma sample_driver_ok: "driver_ok sample_driver"
  by (simp add: driver_ok_def sample_driver_def)

definition sample_junk :: filter_preset where
  "sample_junk = \<lparr>preset_id = 4, preset_name = ''Junk'', preset_builtin = False, preset_exclude = [''*.tmp''], preset_include = []\<rparr>"

definition sample_source :: "string installation" where
  "sample_source =
     \<lparr>in_catalog =
        \<lparr>cat_admin = \<lparr>adm_db = \<lparr>db_jobs = [sample_job\<lparr>job_filter_presets := [sample_junk]\<rparr>], db_runs = [], db_changes = []\<rparr>,
                      adm_connections = [sample_connection], adm_presets = [sample_junk], adm_running = False,
                      adm_schedule = []\<rparr>,
         cat_credentials = []\<rparr>,
      in_settings = []\<rparr>"

definition sample_fresh :: "string installation" where
  "sample_fresh = \<lparr>in_catalog = empty_catalog, in_settings = []\<rparr>"

text \<open>A job and the preset it uses are imported together. The job arrives without it, and the warning says the file lacks
  what the file holds: the presets were looked up before the flush.\<close>

lemma imported_preset_is_lost:
  "case import_tables sample_driver (export_config sample_pint (\<lambda>z. False) sample_source) (empty_catalog :: string catalog) of
     Landed (s, r) \<Rightarrow>
       map preset_name (cat_presets s) = [''Junk''] \<and> map job_filter_presets (cat_jobs s) = [[]] \<and>
       ir_warnings r = [PresetNeeded ''Media/Backup'' ''Junk'']
   | _ \<Rightarrow> False"
  by code_simp

lemma sample_source_facts: "coherent (in_catalog sample_source)" "neat (in_catalog sample_source)"
  "coherent (in_catalog sample_fresh)" "cat_connections (in_catalog sample_fresh) = []" "cat_jobs (in_catalog sample_fresh) = []"
  by code_simp+


definition sample_document :: "(string \<times> json) list" where
  "sample_document =
     [(''format_version'', JInt 1),
      (''connections'', JArr [JObj [(''name'', JStr '' attic ''), (''type'', JStr ''local''), (''base_path'', JStr ''/attic'')]])]"


theorem export_hides_witness:
  "export_config sample_pint (\<lambda>z. False) (sample_source\<lparr>in_catalog := (in_catalog sample_source)\<lparr>cat_credentials := [sample_credential ''one'']\<rparr>\<rparr>) =
   export_config sample_pint (\<lambda>z. False) (sample_source\<lparr>in_catalog := (in_catalog sample_source)\<lparr>cat_credentials := [sample_credential ''two'']\<rparr>\<rparr>)"
  by (rule export_hides) (simp_all add: public_credential_def sample_credential_def)

end
