(* ===== verification/Metrics.thy ===== *)
theory Metrics
  imports Runs Access
begin

text \<open>
  \<open>app/metrics.py\<close> and \<open>app/api/metrics.py\<close>: the exposition Prometheus scrapes, computed from the tables, and who may read
  it. A figure is the rational number it stands for, the rounding of Python's floats left out; \<open>repr\<close> is how one
  that is no integer is written. A query is its result: a group is the filtered rows.
\<close>

definition newline :: char where "newline = CHR 0x0A"
definition quote :: char where "quote = CHR 0x22"
definition backslash :: char where "backslash = CHR 0x5C"

definition escape_label :: "string \<Rightarrow> string" where
  "escape_label v =
     replace_all [newline] [backslash, CHR ''n'']
       (replace_all [quote] [backslash, quote] (replace_all [backslash] [backslash, backslash] v))"

definition labels_text :: "(string \<times> string) list \<Rightarrow> string" where
  "labels_text pairs =
     (if pairs = [] then []
      else ''{'' @ join_with '','' (map (\<lambda>(name, value). name @ ''='' @ [quote] @ escape_label value @ [quote]) pairs) @ ''}'')"

type_synonym sample = "(string \<times> string) list \<times> rat"

record family =
  fam_name :: string
  fam_kind :: string
  fam_help :: string
  fam_samples :: "sample list"

definition value_text :: "(rat \<Rightarrow> string) \<Rightarrow> rat \<Rightarrow> string" where
  "value_text repr v = (if of_int \<lfloor>v\<rfloor> = v then str_int \<lfloor>v\<rfloor> else repr v)"

definition sample_line :: "(rat \<Rightarrow> string) \<Rightarrow> string \<Rightarrow> sample \<Rightarrow> string" where
  "sample_line repr name s = name @ labels_text (fst s) @ '' '' @ value_text repr (snd s)"

definition render_family :: "(rat \<Rightarrow> string) \<Rightarrow> family \<Rightarrow> string list" where
  "render_family repr f =
     (''# HELP '' @ fam_name f @ '' '' @ fam_help f) # (''# TYPE '' @ fam_name f @ '' '' @ fam_kind f) #
     map (sample_line repr (fam_name f)) (fam_samples f)"

subsection \<open>The families\<close>

definition job_labels :: "job list \<Rightarrow> nat \<Rightarrow> (string \<times> string) list" where
  "job_labels jobs i =
     [(''job'', case List.find (\<lambda>j. job_id j = i) jobs of None \<Rightarrow> ''deleted-'' @ str_nat i | Some j \<Rightarrow> job_name j)]"

definition RUN_STATUSES :: "run_status list" where
  "RUN_STATUSES = [Queued, Running, Success, Failed, Cancelled, Skipped]"

definition runs_of :: "nat \<Rightarrow> store \<Rightarrow> job_run list" where
  "runs_of i st = filter (\<lambda>r. run_job_id r = i) (db_runs st)"

definition run_totals :: "store \<Rightarrow> family" where
  "run_totals st =
     \<lparr>fam_name = ''hivesync_run_total'', fam_kind = ''counter'', fam_help = ''Runs recorded, by job and final status.'',
      fam_samples = concat (map (\<lambda>i. map (\<lambda>s. (job_labels (db_jobs st) i @ [(''status'', status_value s)],
          of_nat (length (filter (\<lambda>r. run_status_of r = s) (runs_of i st))))) RUN_STATUSES) (map job_id (db_jobs st)))\<rparr>"

definition get_rat :: "nat \<Rightarrow> (nat \<times> rat) list \<Rightarrow> rat" where
  "get_rat k d = (case map_of d k of None \<Rightarrow> 0 | Some v \<Rightarrow> v)"

definition seconds_of :: "int \<Rightarrow> rat" where
  "seconds_of t = of_int t / of_int second"

definition add_duration :: "job_run \<Rightarrow> (nat \<times> rat) list \<times> (nat \<times> rat) list \<Rightarrow> (nat \<times> rat) list \<times> (nat \<times> rat) list" where
  "add_duration r tc =
     (case (started_at r, finished_at r) of
        (Some t, Some t') \<Rightarrow>
          (dict_put (run_job_id r) (get_rat (run_job_id r) (fst tc) + seconds_of (t' - t)) (fst tc),
           dict_put (run_job_id r) (get_rat (run_job_id r) (snd tc) + 1) (snd tc))
      | _ \<Rightarrow> tc)"

definition durations :: "store \<Rightarrow> family list" where
  "durations st =
     (let (totals, counts) = fold add_duration (db_runs st) ([], [])
      in [\<lparr>fam_name = ''hivesync_run_duration_seconds_sum'', fam_kind = ''counter'',
           fam_help = ''Total seconds spent in finished runs, by job.'',
           fam_samples = map (\<lambda>i. (job_labels (db_jobs st) i, get_rat i totals)) (map job_id (db_jobs st))\<rparr>,
          \<lparr>fam_name = ''hivesync_run_duration_seconds_count'', fam_kind = ''counter'',
           fam_help = ''Finished runs contributing to the duration total, by job.'',
           fam_samples = map (\<lambda>i. (job_labels (db_jobs st) i, get_rat i counts)) (map job_id (db_jobs st))\<rparr>])"

definition COUNTER_COLUMNS :: "(string \<times> (job_run \<Rightarrow> int) \<times> string) list" where
  "COUNTER_COLUMNS =
     [(''hivesync_files_transferred_total'', files_transferred, ''Files transferred, by job.''),
      (''hivesync_files_deleted_total'', files_deleted,
       ''Files removed from the destination, by job. Includes archived files, which leave the destination too.''),
      (''hivesync_files_archived_total'', files_archived, ''Files moved into the archive, by job.''),
      (''hivesync_bytes_transferred_total'', bytes_transferred, ''Bytes transferred, by job.'')]"

definition counters :: "store \<Rightarrow> family list" where
  "counters st =
     map (\<lambda>(name, column, help).
       \<lparr>fam_name = name, fam_kind = ''counter'', fam_help = help,
        fam_samples = map (\<lambda>i. (job_labels (db_jobs st) i,
          of_int (sum_list (map column (filter (\<lambda>r. run_mode_of r = Live) (runs_of i st)))))) (map job_id (db_jobs st))\<rparr>)
       COUNTER_COLUMNS"

text \<open>\<open>func.max\<close>, which leaves a null out.\<close>

definition latest_of :: "datetime option list \<Rightarrow> datetime option" where
  "latest_of ts = (case List.map_filter id ts of [] \<Rightarrow> None | t # us \<Rightarrow> Some (fold max us t))"

definition last_success :: "store \<Rightarrow> family" where
  "last_success st =
     \<lparr>fam_name = ''hivesync_last_success_timestamp'', fam_kind = ''gauge'',
      fam_help = ''Unix time of the last successful live run, by job. Zero means never.'',
      fam_samples = map (\<lambda>i. (job_labels (db_jobs st) i,
        case latest_of (map finished_at (filter (\<lambda>r. run_status_of r = Success \<and> run_mode_of r = Live) (runs_of i st))) of
          None \<Rightarrow> 0 | Some t \<Rightarrow> seconds_of t)) (map job_id (db_jobs st))\<rparr>"

definition job_info :: "store \<Rightarrow> family" where
  "job_info st =
     \<lparr>fam_name = ''hivesync_job_enabled'', fam_kind = ''gauge'',
      fam_help = ''1 when the job is enabled, 0 when it is disabled.'',
      fam_samples = map (\<lambda>j. ([(''job'', job_name j)], if job_enabled j then 1 else 0)) (db_jobs st)\<rparr>"

definition families :: "store \<Rightarrow> family list" where
  "families st = [run_totals st] @ durations st @ counters st @ [last_success st, job_info st]"

definition render :: "(rat \<Rightarrow> string) \<Rightarrow> store \<Rightarrow> string" where
  "render repr st = join_with [newline] (concat (map (render_family repr) (families st))) @ [newline]"

subsection \<open>The endpoint\<close>

text \<open>\<open>_token_ok\<close>, the comparison of \<open>security\<close> made with the token of the metrics.\<close>

definition metrics_token_ok :: "string option \<Rightarrow> access_settings \<Rightarrow> request \<Rightarrow> bool option" where
  "metrics_token_ok token s rq = bearer_matches (s\<lparr>api_token := token\<rparr>) rq"

text \<open>The response, the left its status where it is no exposition. None is an exception.\<close>

definition prometheus_metrics ::
  "access_ext \<Rightarrow> access_settings \<Rightarrow> string option \<Rightarrow> request \<Rightarrow> user list \<Rightarrow> (rat \<Rightarrow> string) \<Rightarrow> store \<Rightarrow> (nat + string) option" where
  "prometheus_metrics x s token rq us repr st =
     Option.bind (metrics_token_ok token s rq) (\<lambda>ok.
       if ok then Some (Inr (render repr st))
       else Option.bind (current_user x s rq us) (\<lambda>(u, c).
              Some (if u = None then Inl 401 else Inr (render repr st))))"

subsection \<open>The format\<close>

text \<open>How a scraper reads the text format: lines, comments, a name, labels in braces with escapes, a value.\<close>

fun read_label :: "string \<Rightarrow> (string \<times> string) option" where
  "read_label [] = None"
| "read_label (c # cs) =
     (if c = quote then Some ([], cs)
      else if c = backslash then
        (case cs of
           [] \<Rightarrow> None
         | d # ds \<Rightarrow> map_option (apfst ((#) (if d = CHR ''n'' then newline else d))) (read_label ds))
      else map_option (apfst ((#) c)) (read_label cs))"

lemma read_label_shorter: "read_label s = Some (v, rest) \<Longrightarrow> length rest < length s"
proof (induction s arbitrary: v rest rule: read_label.induct)
  case (2 c cs)
  show ?case
  proof (cases "c = quote")
    case True
    then show ?thesis using 2 by simp
  next
    case other: False
    show ?thesis
    proof (cases "c = backslash")
      case True
      obtain d ds where cs: "cs = d # ds" using "2.prems" other True by (cases cs) auto
      obtain p where "read_label ds = Some p" "rest = snd p"
        using "2.prems" other True cs by (auto simp: apfst_def map_prod_def split: prod.splits)
      then have "length rest < length ds" using "2.IH" (1) [OF other True cs] by (cases p) auto
      then show ?thesis by (simp add: cs)
    next
      case False
      obtain p where "read_label cs = Some p" "rest = snd p"
        using "2.prems" other False by (auto simp: apfst_def map_prod_def split: prod.splits)
      then have "length rest < length cs" using "2.IH" (2) [OF other False] by (cases p) auto
      then show ?thesis by simp
    qed
  qed
qed simp

function read_labels :: "string \<Rightarrow> ((string \<times> string) list \<times> string) option" where
  "read_labels s =
     (let name = takeWhile (\<lambda>c. c \<noteq> CHR ''='') s; after = drop (length name) s
      in if \<not> prefix [CHR ''='', quote] after then None
         else (case read_label (drop 2 after) of
                 None \<Rightarrow> None
               | Some (v, rest) \<Rightarrow>
                   if prefix '','' rest then map_option (apfst ((#) (name, v))) (read_labels (drop 1 rest))
                   else if prefix ''}'' rest then Some ([(name, v)], drop 1 rest) else None))"
  by pat_completeness auto
termination
proof (relation "measure length")
  fix s name after v rest p
  assume *: "name = takeWhile (\<lambda>c. c \<noteq> CHR ''='') s" "after = drop (length name) s" "\<not> \<not> prefix [CHR ''='', quote] after"
    "read_label (drop 2 after) = Some p" "(v, rest) = p" "prefix '','' rest"
  then have "length rest < length (drop 2 after)" using read_label_shorter by metis
  then show "(drop 1 rest, s) \<in> measure length" using * by auto
qed simp

declare read_labels.simps [simp del]

definition read_sample :: "string \<Rightarrow> (string \<times> (string \<times> string) list \<times> string) option" where
  "read_sample line =
     (let name = takeWhile (\<lambda>c. c \<noteq> CHR ''{'' \<and> c \<noteq> CHR '' '') line; after = drop (length name) line
      in if prefix ''{'' after then
           (case read_labels (drop 1 after) of
              Some (ls, rest) \<Rightarrow> if prefix '' '' rest then Some (name, ls, drop 1 rest) else None
            | None \<Rightarrow> None)
         else if prefix '' '' after then Some (name, [], drop 1 after) else None)"

definition scrape :: "string \<Rightarrow> (string \<times> (string \<times> string) list \<times> string) list option" where
  "scrape t =
     (let ls = split_on newline t
      in if last ls \<noteq> [] then None
         else those (map read_sample (filter (\<lambda>l. \<not> prefix ''#'' l) (butlast ls))))"


subsection \<open>Lemmas: what is written is read\<close>

lemma replace_all_char: "replace_all [c] new s = concat (map (\<lambda>x. if x = c then new else [x]) s)"
  by (induction s) auto

lemma special_chars [simp]: "quote \<noteq> backslash" "newline \<noteq> backslash" "newline \<noteq> quote" "CHR ''n'' \<noteq> quote" "newline \<noteq> CHR ''n''"
  "backslash \<noteq> quote" "quote \<noteq> newline" "backslash \<noteq> newline"
  by (simp_all add: quote_def backslash_def newline_def)

definition escaped :: "char \<Rightarrow> string" where
  "escaped c =
     (if c = backslash then [backslash, backslash] else if c = quote then [backslash, quote]
      else if c = newline then [backslash, CHR ''n''] else [c])"

lemma escape_label_escaped: "escape_label v = concat (map escaped v)"
proof -
  have "CHR ''n'' \<noteq> backslash" by (simp add: backslash_def)
  then show ?thesis by (induction v) (auto simp: escape_label_def replace_all_char escaped_def)
qed

lemma read_escaped: "read_label (escaped c @ t) = map_option (apfst ((#) c)) (read_label t)"
proof -
  have n: "backslash \<noteq> CHR ''n''" "quote \<noteq> CHR ''n''" by (simp_all add: backslash_def quote_def)
  show ?thesis using n by (simp add: escaped_def)
qed

lemma read_label_escape: "read_label (escape_label v @ quote # rest) = Some (v, rest)"
  unfolding escape_label_escaped by (induction v) (simp_all add: read_escaped)

lemma newline_escape: "newline \<notin> set (escape_label v)"
  unfolding escape_label_escaped by (auto simp: escaped_def split: if_splits)

definition plain_label :: "string \<Rightarrow> bool" where
  "plain_label name \<longleftrightarrow> CHR ''='' \<notin> set name \<and> newline \<notin> set name"

definition pair_text :: "string \<times> string \<Rightarrow> string" where
  "pair_text nv = fst nv @ ''='' @ [quote] @ escape_label (snd nv) @ [quote]"

lemma labels_text_pairs: "labels_text ps = (if ps = [] then [] else ''{'' @ join_with '','' (map pair_text ps) @ ''}'')"
  by (simp add: labels_text_def pair_text_def[abs_def] case_prod_unfold)

lemma takeWhile_to: "c \<notin> set xs \<Longrightarrow> takeWhile (\<lambda>x. x \<noteq> c) (xs @ c # ys) = xs"
  by (induction xs) auto

lemma read_labels_pair:
  assumes "plain_label (fst nv)"
  shows "read_labels (pair_text nv @ rest) =
     (if prefix '','' rest then map_option (apfst ((#) nv)) (read_labels (drop 1 rest))
      else if prefix ''}'' rest then Some ([nv], drop 1 rest) else None)"
  using assms by (subst read_labels.simps)
    (simp add: pair_text_def plain_label_def takeWhile_to read_label_escape)

lemma read_labels_join:
  "ps \<noteq> [] \<Longrightarrow> \<forall>nv \<in> set ps. plain_label (fst nv) \<Longrightarrow>
   read_labels (join_with '','' (map pair_text ps) @ CHR ''}'' # rest) = Some (ps, rest)"
proof (induction ps)
  case (Cons nv ps)
  show ?case
  proof (cases ps)
    case Nil
    then show ?thesis using Cons by (simp add: read_labels_pair)
  next
    case (Cons nv' ps')
    then show ?thesis using Cons.IH Cons.prems by (simp add: read_labels_pair)
  qed
qed simp

definition plain_name :: "string \<Rightarrow> bool" where
  "plain_name n \<longleftrightarrow> list_all (\<lambda>c. c \<noteq> CHR ''{'' \<and> c \<noteq> CHR '' '' \<and> c \<noteq> newline \<and> c \<noteq> CHR ''#'') n \<and> n \<noteq> []"

lemma takeWhile_name:
  "plain_name n \<Longrightarrow> c \<in> {CHR ''{'', CHR '' ''} \<Longrightarrow> takeWhile (\<lambda>c. c \<noteq> CHR ''{'' \<and> c \<noteq> CHR '' '') (n @ c # ys) = n"
  unfolding plain_name_def by (auto simp: takeWhile_append2 list_all_iff)

lemma read_sample_line:
  assumes "plain_name n" "\<forall>nv \<in> set (fst s). plain_label (fst nv)"
  shows "read_sample (sample_line repr n s) = Some (n, fst s, value_text repr (snd s))"
proof (cases "fst s = []")
  case True
  then show ?thesis using assms by (simp add: read_sample_def sample_line_def labels_text_pairs takeWhile_name)
next
  case False
  then show ?thesis using assms
    by (simp add: read_sample_def sample_line_def labels_text_pairs takeWhile_name read_labels_join)
qed

text \<open>A family a scraper can read.\<close>

definition readable_family :: "family \<Rightarrow> bool" where
  "readable_family f \<longleftrightarrow> plain_name (fam_name f) \<and> newline \<notin> set (fam_kind f) \<and> newline \<notin> set (fam_help f) \<and>
     (\<forall>s \<in> set (fam_samples f). \<forall>nv \<in> set (fst s). plain_label (fst nv))"

definition series :: "(rat \<Rightarrow> string) \<Rightarrow> family \<Rightarrow> (string \<times> (string \<times> string) list \<times> string) list" where
  "series repr f = map (\<lambda>s. (fam_name f, fst s, value_text repr (snd s))) (fam_samples f)"

lemma newline_number: "newline \<notin> set (str_int i)"
  by (auto simp: str_int_def newline_def ascii_digit_def dest!: str_nat_char)

lemma newline_pair: "plain_label (fst nv) \<Longrightarrow> newline \<notin> set (pair_text nv)"
  by (simp add: pair_text_def plain_label_def newline_escape) (simp add: newline_def)

lemma newline_labels: "\<forall>nv \<in> set ps. plain_label (fst nv) \<Longrightarrow> newline \<notin> set (labels_text ps)"
proof -
  assume plain: "\<forall>nv \<in> set ps. plain_label (fst nv)"
  have "newline \<notin> set '',''" "newline \<notin> set ''{''" "newline \<notin> set ''}''" by (simp_all add: newline_def)
  moreover have "newline \<notin> set (join_with '','' (map pair_text ps))"
    using set_join_with [of "'',''" "map pair_text ps"] newline_pair plain calculation(1) by fastforce
  ultimately show ?thesis by (simp add: labels_text_pairs)
qed

lemma newline_sample:
  assumes "plain_name n" "\<forall>nv \<in> set (fst x). plain_label (fst nv)" "\<forall>v. newline \<notin> set (repr v)"
  shows "newline \<notin> set (sample_line repr n x)"
proof -
  have "newline \<notin> set n" using assms(1) by (auto simp: plain_name_def list_all_iff)
  moreover have "newline \<noteq> CHR '' ''" by (simp add: newline_def)
  ultimately show ?thesis using assms newline_labels newline_number by (simp add: sample_line_def value_text_def)
qed

lemma newline_family:
  assumes "readable_family f" "\<forall>v. newline \<notin> set (repr v)" "l \<in> set (render_family repr f)"
  shows "newline \<notin> set l"
proof -
  have fixed: "newline \<notin> set ''# HELP ''" "newline \<notin> set ''# TYPE ''" "newline \<notin> set '' ''" by (simp_all add: newline_def)
  have name: "newline \<notin> set (fam_name f)" using assms(1) by (auto simp: readable_family_def plain_name_def list_all_iff)
  consider "l = ''# HELP '' @ fam_name f @ '' '' @ fam_help f" | "l = ''# TYPE '' @ fam_name f @ '' '' @ fam_kind f"
    | x where "x \<in> set (fam_samples f)" "l = sample_line repr (fam_name f) x"
    using assms(3) unfolding render_family_def by auto
  then show ?thesis
    using fixed name assms(1,2) newline_sample unfolding readable_family_def by cases simp_all
qed

lemma those_map: "(\<And>x. x \<in> set xs \<Longrightarrow> f x = Some (g x)) \<Longrightarrow> those (map f xs) = Some (map g xs)"
  by (induction xs) auto

lemma sample_line_comment: "plain_name n \<Longrightarrow> \<not> prefix ''#'' (sample_line repr n s)"
  by (cases n) (auto simp: sample_line_def plain_name_def)

lemma family_read:
  assumes "readable_family f"
  shows "those (map read_sample (filter (\<lambda>l. \<not> prefix ''#'' l) (render_family repr f))) = Some (series repr f)"
proof -
  have "filter (\<lambda>l. \<not> prefix ''#'' l) (render_family repr f) = map (sample_line repr (fam_name f)) (fam_samples f)"
    using assms by (auto simp: render_family_def readable_family_def sample_line_comment intro!: filter_True)
  then show ?thesis
    using assms by (auto simp: series_def readable_family_def comp_def intro!: those_map read_sample_line)
qed

lemma those_append: "those (xs @ ys) = Option.bind (those xs) (\<lambda>a. map_option ((@) a) (those ys))"
  by (induction xs) (auto split: option.splits simp: map_option_case Option.bind_eq_None_conv)

lemma families_read:
  "\<forall>f \<in> set fs. readable_family f \<Longrightarrow>
   those (map read_sample (filter (\<lambda>l. \<not> prefix ''#'' l) (concat (map (render_family repr) fs)))) =
     Some (concat (map (series repr) fs))"
  by (induction fs) (simp_all add: those_append family_read)

lemma scrape_families:
  assumes "\<forall>f \<in> set fs. readable_family f" "\<forall>v. newline \<notin> set (repr v)" "fs \<noteq> []"
  shows "scrape (join_with [newline] (concat (map (render_family repr) fs)) @ [newline]) =
     Some (concat (map (series repr) fs))"
proof -
  let ?ls = "concat (map (render_family repr) fs)"
  have "\<forall>l \<in> set ?ls. newline \<notin> set l" using assms newline_family by fastforce
  moreover have "?ls \<noteq> []" using assms(3) by (cases fs) (auto simp: render_family_def)
  ultimately have "split_on newline (join_with [newline] ?ls @ [newline]) = ?ls @ [[]]"
    by (simp add: split_on_snoc_sep split_join_with)
  then show ?thesis using families_read [OF assms(1)] by (simp add: scrape_def)
qed


subsection \<open>Lemmas: what the figures are\<close>

definition timed :: "job_run \<Rightarrow> bool" where
  "timed r \<longleftrightarrow> started_at r \<noteq> None \<and> finished_at r \<noteq> None"

definition elapsed :: "job_run \<Rightarrow> rat" where
  "elapsed r = seconds_of (the (finished_at r) - the (started_at r))"

lemma get_rat_put: "get_rat i (dict_put k v d) = (if i = k then v else get_rat i d)"
  by (simp add: get_rat_def map_of_dict_put)

lemma add_duration_sum:
  "get_rat i (fst (add_duration r tc)) = get_rat i (fst tc) + (if run_job_id r = i \<and> timed r then elapsed r else 0)"
  "get_rat i (snd (add_duration r tc)) = get_rat i (snd tc) + (if run_job_id r = i \<and> timed r then 1 else 0)"
  by (auto simp: add_duration_def timed_def elapsed_def get_rat_put split: option.splits)

lemma durations_fold:
  "get_rat i (fst (fold add_duration rs tc)) =
     get_rat i (fst tc) + sum_list (map elapsed (filter timed (filter (\<lambda>r. run_job_id r = i) rs)))"
  "get_rat i (snd (fold add_duration rs tc)) =
     get_rat i (snd tc) + of_nat (length (filter timed (filter (\<lambda>r. run_job_id r = i) rs)))"
  by (induction rs arbitrary: tc) (simp_all add: add_duration_sum)

lemma latest_of_Max:
  "latest_of ts = (let ends = {t. Some t \<in> set ts} in if ends = {} then None else Some (Max ends))"
proof -
  have s: "set (List.map_filter id ts) = {t. Some t \<in> set ts}" by (force simp: map_filter_def)
  show ?thesis
  proof (cases "List.map_filter id ts")
    case Nil
    then show ?thesis using s by (simp add: latest_of_def Let_def)
  next
    case (Cons t us)
    then have "{t. Some t \<in> set ts} = set (t # us)" using s by simp
    then show ?thesis using Cons Max.set_eq_fold [of t us] by (simp add: latest_of_def Let_def)
  qed
qed

lemma job_labels_of: "distinct (map job_id js) \<Longrightarrow> j \<in> set js \<Longrightarrow> job_labels js (job_id j) = [(''job'', job_name j)]"
proof -
  assume "distinct (map job_id js)" "j \<in> set js"
  then have "List.find (\<lambda>k. job_id k = job_id j) js = Some j" by (induction js) auto
  then show ?thesis by (simp add: job_labels_def)
qed

lemma map_job_labels:
  "distinct (map job_id js) \<Longrightarrow>
   map (\<lambda>i. (job_labels js i, f i)) (map job_id js) = map (\<lambda>j. ([(''job'', job_name j)], f (job_id j))) js"
  by (simp add: job_labels_of)

lemma plain_statuses: "\<forall>f \<in> set (families st). readable_family f"
proof -
  have l: "plain_label ''job''" "plain_label ''status''" by (simp_all add: plain_label_def newline_def)
  show ?thesis
    using l by (auto simp: families_def run_totals_def durations_def counters_def COUNTER_COLUMNS_def last_success_def
        job_info_def readable_family_def job_labels_def plain_name_def newline_def split: prod.splits)
qed

text \<open>The names of the families, in their order.\<close>

lemma family_names:
  "map fam_name (families st) =
     [''hivesync_run_total'', ''hivesync_run_duration_seconds_sum'', ''hivesync_run_duration_seconds_count'',
      ''hivesync_files_transferred_total'', ''hivesync_files_deleted_total'', ''hivesync_files_archived_total'',
      ''hivesync_bytes_transferred_total'', ''hivesync_last_success_timestamp'', ''hivesync_job_enabled'']"
  by (simp add: families_def run_totals_def durations_def counters_def COUNTER_COLUMNS_def last_success_def job_info_def
      split: prod.splits)

definition keys_of :: "family \<Rightarrow> (string \<times> (string \<times> string) list) list" where
  "keys_of f = map (\<lambda>s. (fam_name f, fst s)) (fam_samples f)"

lemma distinct_keys:
  assumes "distinct (map fam_name fs)" "\<forall>f \<in> set fs. distinct (map fst (fam_samples f))"
  shows "distinct (concat (map keys_of fs))"
  using assms
proof (induction fs)
  case (Cons f fs)
  have "distinct (keys_of f)" using Cons.prems(2) by (auto simp: keys_of_def distinct_map inj_on_def)
  moreover have "set (keys_of f) \<inter> (\<Union>g \<in> set fs. set (keys_of g)) = {}"
    using Cons.prems(1) by (force simp: keys_of_def)
  ultimately show ?case using Cons by simp
qed simp

lemma keys_series: "map (\<lambda>(n, ls, v). (n, ls)) (concat (map (series repr) fs)) = concat (map keys_of fs)"
  by (simp add: map_concat comp_def series_def keys_of_def [abs_def])

lemma distinct_job_labels: "distinct (map job_name js) \<Longrightarrow> distinct (map (\<lambda>j. [(''job'', job_name j)]) js)"
  by (induction js) auto

lemma fst_job_labels: "map fst (map (\<lambda>j. ([(''job'', job_name j)], g j)) js) = map (\<lambda>j. [(''job'', job_name j)]) js"
  by simp

lemma distinct_totals:
  assumes "distinct (map job_id (db_jobs st))" "distinct (map job_name (db_jobs st))"
  shows "distinct (map fst (fam_samples (run_totals st)))"
proof -
  have samples: "map fst (fam_samples (run_totals st)) =
      concat (map (\<lambda>j. map (\<lambda>s. [(''job'', job_name j), (''status'', status_value s)]) RUN_STATUSES) (db_jobs st))"
    by (simp add: run_totals_def map_concat comp_def job_labels_of [OF assms(1)] cong: map_cong)
  have "distinct (map job_name js) \<Longrightarrow>
      distinct (concat (map (\<lambda>j. map (\<lambda>s. [(''job'', job_name j), (''status'', status_value s)]) RUN_STATUSES) js))" for js
    by (induction js) (auto simp: RUN_STATUSES_def)
  then show ?thesis using samples assms(2) by simp
qed

lemma distinct_families:
  assumes "distinct (map job_id (db_jobs st))" "distinct (map job_name (db_jobs st))" "f \<in> set (families st)"
  shows "distinct (map fst (fam_samples f))"
  using assms(3) distinct_totals [OF assms(1,2)] distinct_job_labels [OF assms(2)]
  by (auto simp: families_def durations_def counters_def last_success_def job_info_def map_job_labels [OF assms(1)] fst_job_labels
      simp del: map_map split: prod.splits)


text \<open>The rows of the exposition, family by family.\<close>

lemma family_rows:
  fixes repr :: "rat \<Rightarrow> string"
  assumes "distinct (map job_id (db_jobs st))" "j \<in> set (db_jobs st)"
  defines "own \<equiv> filter (\<lambda>r. run_job_id r = job_id j) (db_runs st)"
  defines "ends \<equiv> {t. \<exists>r \<in> set own. run_mode_of r = Live \<and> run_status_of r = Success \<and> finished_at r = Some t}"
  defines "rows \<equiv> concat (map (series repr) (families st))"
  shows "(''hivesync_run_total'', [(''job'', job_name j), (''status'', status_value s)],
       value_text repr (of_nat (length (filter (\<lambda>r. run_status_of r = s) own)))) \<in> set rows"
    and "(''hivesync_run_duration_seconds_sum'', [(''job'', job_name j)],
       value_text repr (sum_list (map elapsed (filter timed own)))) \<in> set rows"
    and "(''hivesync_run_duration_seconds_count'', [(''job'', job_name j)],
       value_text repr (of_nat (length (filter timed own)))) \<in> set rows"
    and "(name, column, help) \<in> set COUNTER_COLUMNS \<Longrightarrow> (name, [(''job'', job_name j)],
       value_text repr (of_int (sum_list (map column (filter (\<lambda>r. run_mode_of r = Live) own))))) \<in> set rows"
    and "(''hivesync_last_success_timestamp'', [(''job'', job_name j)],
       value_text repr (if ends = {} then 0 else seconds_of (Max ends))) \<in> set rows"
    and "(''hivesync_job_enabled'', [(''job'', job_name j)], value_text repr (if job_enabled j then 1 else 0)) \<in> set rows"
proof -
  have member: "(n, ls, value_text repr v) \<in> set rows"
    if "f \<in> set (families st)" "n = fam_name f" "(ls, v) \<in> set (fam_samples f)" for f n ls v
    using that by (force simp: rows_def series_def)
  have own: "runs_of (job_id j) st = own" by (simp add: runs_of_def own_def)
  note labels = job_labels_of [OF assms(1,2)] and each = map_job_labels [OF assms(1)]
  have "s \<in> set RUN_STATUSES" by (cases s) (simp_all add: RUN_STATUSES_def)
  then show "(''hivesync_run_total'', [(''job'', job_name j), (''status'', status_value s)],
       value_text repr (of_nat (length (filter (\<lambda>r. run_status_of r = s) own)))) \<in> set rows"
    using assms(2) labels own
    by (intro member [of "run_totals st"]) (force simp: families_def run_totals_def)+
  obtain totals counts where fold: "fold add_duration (db_runs st) ([], []) = (totals, counts)" by (cases "fold add_duration (db_runs st) ([], [])")
  then have figures: "get_rat (job_id j) totals = sum_list (map elapsed (filter timed own))"
    "get_rat (job_id j) counts = of_nat (length (filter timed own))"
    using durations_fold [of "job_id j" "db_runs st" "([], [])"] by (simp_all add: own_def get_rat_def)
  show "(''hivesync_run_duration_seconds_sum'', [(''job'', job_name j)],
       value_text repr (sum_list (map elapsed (filter timed own)))) \<in> set rows"
    using assms(2) figures fold
    by (intro member [of "hd (durations st)"]) (auto simp: families_def durations_def each simp del: map_map)
  show "(''hivesync_run_duration_seconds_count'', [(''job'', job_name j)],
       value_text repr (of_nat (length (filter timed own)))) \<in> set rows"
    using assms(2) figures fold
    by (intro member [of "last (durations st)"]) (auto simp: families_def durations_def each simp del: map_map)
  show "(name, [(''job'', job_name j)],
       value_text repr (of_int (sum_list (map column (filter (\<lambda>r. run_mode_of r = Live) own))))) \<in> set rows"
    if column: "(name, column, help) \<in> set COUNTER_COLUMNS"
  proof (rule member)
    let ?f = "\<lparr>fam_name = name, fam_kind = ''counter'', fam_help = help,
        fam_samples = map (\<lambda>j. ([(''job'', job_name j)],
          of_int (sum_list (map column (filter (\<lambda>r. run_mode_of r = Live) (runs_of (job_id j) st)))))) (db_jobs st)\<rparr>"
    show "?f \<in> set (families st)"
      using column by (force simp: families_def counters_def each simp del: map_map)
    show "([(''job'', job_name j)], of_int (sum_list (map column (filter (\<lambda>r. run_mode_of r = Live) own)))) \<in> set (fam_samples ?f)"
      using assms(2) own by auto
  qed simp
  have "ends = {t. Some t \<in> set (map finished_at (filter (\<lambda>r. run_status_of r = Success \<and> run_mode_of r = Live) own))}"
    by (auto simp: ends_def image_iff)
  then have "(case latest_of (map finished_at (filter (\<lambda>r. run_status_of r = Success \<and> run_mode_of r = Live) own)) of
      None \<Rightarrow> 0 | Some t \<Rightarrow> seconds_of t) = (if ends = {} then 0 else seconds_of (Max ends))"
    by (simp add: latest_of_Max Let_def)
  then show "(''hivesync_last_success_timestamp'', [(''job'', job_name j)],
       value_text repr (if ends = {} then 0 else seconds_of (Max ends))) \<in> set rows"
    using assms(2) own
    by (intro member [of "last_success st"]) (force simp: families_def last_success_def each simp del: map_map)+
  show "(''hivesync_job_enabled'', [(''job'', job_name j)], value_text repr (if job_enabled j then 1 else 0)) \<in> set rows"
    using assms(2) by (intro member [of "job_info st"]) (auto simp: families_def job_info_def)
qed


subsection \<open>Properties\<close>

text \<open>C30. A scraper reads back the tables. Whatever the jobs are called, quotes, backslashes and line breaks included, the
  exposition parses: nine families of one sample per job, or one per job and status, no series twice. Each figure is that
  of the rows: the runs of a job in each status, the count and the summed duration of those that started and ended, the
  sums of its live runs, the latest end of a successful live run, 0 for none, and whether the job is enabled.\<close>

theorem metrics_scraped:
  assumes "distinct (map job_id (db_jobs st))" "distinct (map job_name (db_jobs st))"
    and "\<forall>v. newline \<notin> set (repr v)"
  shows "\<exists>rows. scrape (render repr st) = Some rows \<and> length rows = 14 * length (db_jobs st) \<and>
    distinct (map (\<lambda>(n, ls, v). (n, ls)) rows) \<and>
    (\<forall>j \<in> set (db_jobs st).
       let own = filter (\<lambda>r. run_job_id r = job_id j) (db_runs st);
           live = filter (\<lambda>r. run_mode_of r = Live) own;
           ends = {t. \<exists>r \<in> set own. run_mode_of r = Live \<and> run_status_of r = Success \<and> finished_at r = Some t};
           shows_figure = (\<lambda>n ls v. (n, (''job'', job_name j) # ls, value_text repr v) \<in> set rows)
       in (\<forall>s. shows_figure ''hivesync_run_total'' [(''status'', status_value s)]
             (of_nat (length (filter (\<lambda>r. run_status_of r = s) own)))) \<and>
          shows_figure ''hivesync_run_duration_seconds_sum'' [] (\<Sum>r\<leftarrow>filter timed own. elapsed r) \<and>
          shows_figure ''hivesync_run_duration_seconds_count'' [] (of_nat (length (filter timed own))) \<and>
          shows_figure ''hivesync_files_transferred_total'' [] (of_int (\<Sum>r\<leftarrow>live. files_transferred r)) \<and>
          shows_figure ''hivesync_files_deleted_total'' [] (of_int (\<Sum>r\<leftarrow>live. files_deleted r)) \<and>
          shows_figure ''hivesync_files_archived_total'' [] (of_int (\<Sum>r\<leftarrow>live. files_archived r)) \<and>
          shows_figure ''hivesync_bytes_transferred_total'' [] (of_int (\<Sum>r\<leftarrow>live. bytes_transferred r)) \<and>
          shows_figure ''hivesync_last_success_timestamp'' [] (if ends = {} then 0 else seconds_of (Max ends)) \<and>
          shows_figure ''hivesync_job_enabled'' [] (if job_enabled j then 1 else 0))"
proof (intro exI conjI ballI)
  let ?rows = "concat (map (series repr) (families st))"
  show "scrape (render repr st) = Some ?rows"
    unfolding render_def by (rule scrape_families) (use plain_statuses assms(3) in \<open>auto simp: families_def\<close>)
  show "length ?rows = 14 * length (db_jobs st)"
    by (simp add: families_def series_def run_totals_def durations_def counters_def COUNTER_COLUMNS_def last_success_def
        job_info_def RUN_STATUSES_def length_concat comp_def sum_list_triv split: prod.splits)
  show "distinct (map (\<lambda>(n, ls, v). (n, ls)) ?rows)"
    unfolding keys_series
    by (rule distinct_keys) (use distinct_families [OF assms(1,2)] in \<open>simp_all add: family_names\<close>)
  fix j assume j: "j \<in> set (db_jobs st)"
  note rows = family_rows [OF assms(1) j, where repr = repr]
  show "let own = filter (\<lambda>r. run_job_id r = job_id j) (db_runs st);
           live = filter (\<lambda>r. run_mode_of r = Live) own;
           ends = {t. \<exists>r \<in> set own. run_mode_of r = Live \<and> run_status_of r = Success \<and> finished_at r = Some t};
           shows_figure = (\<lambda>n ls v. (n, (''job'', job_name j) # ls, value_text repr v) \<in> set ?rows)
       in (\<forall>s. shows_figure ''hivesync_run_total'' [(''status'', status_value s)]
             (of_nat (length (filter (\<lambda>r. run_status_of r = s) own)))) \<and>
          shows_figure ''hivesync_run_duration_seconds_sum'' [] (\<Sum>r\<leftarrow>filter timed own. elapsed r) \<and>
          shows_figure ''hivesync_run_duration_seconds_count'' [] (of_nat (length (filter timed own))) \<and>
          shows_figure ''hivesync_files_transferred_total'' [] (of_int (\<Sum>r\<leftarrow>live. files_transferred r)) \<and>
          shows_figure ''hivesync_files_deleted_total'' [] (of_int (\<Sum>r\<leftarrow>live. files_deleted r)) \<and>
          shows_figure ''hivesync_files_archived_total'' [] (of_int (\<Sum>r\<leftarrow>live. files_archived r)) \<and>
          shows_figure ''hivesync_bytes_transferred_total'' [] (of_int (\<Sum>r\<leftarrow>live. bytes_transferred r)) \<and>
          shows_figure ''hivesync_last_success_timestamp'' [] (if ends = {} then 0 else seconds_of (Max ends)) \<and>
          shows_figure ''hivesync_job_enabled'' [] (if job_enabled j then 1 else 0)"
    unfolding Let_def by (intro conjI allI rows; simp add: COUNTER_COLUMNS_def)
qed

definition sample_table :: store where
  "sample_table =
     \<lparr>db_jobs = [sample_job, sample_job\<lparr>job_id := 2, job_name := ''a'' @ [quote, backslash, newline]\<rparr>],
      db_runs = [(new_run 2 TrigManual Live Success)\<lparr>run_id := 1, started_at := Some 0, finished_at := Some 1500000,
                   bytes_transferred := 7\<rparr>],
      db_changes = []\<rparr>"

theorem metrics_scraped_witness:
  "\<exists>rows. scrape (render (\<lambda>v. ''1.5'') sample_table) = Some rows \<and>
     (''hivesync_run_duration_seconds_sum'', [(''job'', ''a'' @ [quote, backslash, newline])], ''1.5'') \<in> set rows \<and>
     (''hivesync_bytes_transferred_total'', [(''job'', ''a'' @ [quote, backslash, newline])], ''7'') \<in> set rows"
proof -
  have "distinct (map job_id (db_jobs sample_table))" "distinct (map job_name (db_jobs sample_table))"
    "\<forall>v :: rat. newline \<notin> set ''1.5''"
    by (simp_all add: sample_table_def sample_job_def newline_def)
  from metrics_scraped [OF this] obtain rows where rows: "scrape (render (\<lambda>v. ''1.5'') sample_table) = Some rows"
    and figures: "(''hivesync_run_duration_seconds_sum'', [(''job'', ''a'' @ [quote, backslash, newline])],
        value_text (\<lambda>v. ''1.5'') (\<Sum>r\<leftarrow>filter timed (db_runs sample_table). elapsed r)) \<in> set rows"
      "(''hivesync_bytes_transferred_total'', [(''job'', ''a'' @ [quote, backslash, newline])],
        value_text (\<lambda>v. ''1.5'') (of_int (\<Sum>r\<leftarrow>db_runs sample_table. bytes_transferred r))) \<in> set rows"
    by (auto simp: sample_table_def Let_def new_run_def)
  have "value_text (\<lambda>v. ''1.5'') (\<Sum>r\<leftarrow>filter timed (db_runs sample_table). elapsed r) = ''1.5''"
    "value_text (\<lambda>v. ''1.5'') (of_int (\<Sum>r\<leftarrow>db_runs sample_table. bytes_transferred r)) = ''7''"
    by code_simp+
  then show ?thesis using rows figures by auto
qed

text \<open>The exposition is only for who presents the token of the metrics, where there is one, and for the accounts.\<close>

lemma metrics_guarded:
  assumes "prometheus_metrics x s token rq us repr st = Some (Inr body)"
  shows "body = render repr st \<and> (metrics_token_ok token s rq = Some True \<or> (\<exists>u c. current_user x s rq us = Some (Some u, c)))"
  using assms by (auto simp: prometheus_metrics_def bind_eq_Some_conv split: if_splits)

text \<open>What is declared a counter falls when the history of runs is pruned.\<close>

lemma pruned_run_lowers_counters:
  "map snd (fam_samples (last (counters sample_table))) = [0, 7]"
  "map snd (fam_samples (last (counters (delete_run 1 sample_table)))) = [0, 0]"
  by code_simp+

end
