(* ===== verification/Streaming.thy ===== *)
theory Streaming
  imports Runs
begin

text \<open>
  \<open>stream_run\<close> of \<open>app/api/jobs.py\<close>: the output of a run as server sent events, read from the broker while other
  requests and the run itself use it. An event stands for the text it is sent as. \<open>drain\<close> is the reading loop once
  nothing else happens: its None is a stream that never ends.
\<close>

definition done_event :: "string \<Rightarrow> run_event" where
  "done_event final = \<lparr>ev_kind = EvDone, ev_text = final, ev_data = []\<rparr>"

text \<open>What follows the last event.\<close>

definition closing :: "string \<Rightarrow> run_event list \<Rightarrow> run_event list" where
  "closing final out = (if EvDone \<in> ev_kind ` set out then [] else [done_event final])"

text \<open>The start of a response: what is sent at once, whether the stream then waits, the broker, and \<open>final\<close>. \<open>ch\<close> is the
  channel \<open>subscribe\<close> makes.\<close>

definition stream_run ::
  "nat \<Rightarrow> nat \<Rightarrow> store \<Rightarrow> run_broker \<Rightarrow> nat + (run_event list \<times> bool \<times> run_broker \<times> string)" where
  "stream_run ch i st b =
     (case find_run st i of
        None \<Rightarrow> Inl 404
      | Some r \<Rightarrow>
          (let final = status_value (run_status_of r) @ ''.'';
               (replay, waits, b') =
                 (if active_status (run_status_of r) then subscribe ch i b else (backlog_for i b, False, b))
           in Inr (replay, waits, b', final)))"

definition own_channel :: "nat \<Rightarrow> nat \<Rightarrow> run_broker \<Rightarrow> channel option" where
  "own_channel ch i b = List.find (\<lambda>c. ch_id c = ch) (get_list i (subscribers b))"

text \<open>A turn of the loop of \<open>subscribe\<close>: None where the channel gave the end sentinel.\<close>

definition stream_turn :: "nat \<Rightarrow> nat \<Rightarrow> run_broker \<Rightarrow> (run_event option \<times> run_broker) option" where
  "stream_turn ch i b =
     map_option (\<lambda>c. (fst (channel_get c), if fst (channel_get c) = None then unsubscribe ch i b else take_event ch i b))
       (own_channel ch i b)"

datatype stream_op =
    OpPublish nat run_event
  | OpFinish nat
  | OpJoin nat nat
  | OpTake nat nat
  | OpLeave nat nat
  | OpTurn

definition stream_do :: "nat \<Rightarrow> nat \<Rightarrow> stream_op \<Rightarrow> run_broker \<times> run_event list \<Rightarrow> run_broker \<times> run_event list" where
  "stream_do ch i op = (\<lambda>(b, out).
     (case op of
        OpPublish q e \<Rightarrow> (publish q e b, out)
      | OpFinish q \<Rightarrow> (finish q b, out)
      | OpJoin k q \<Rightarrow> (snd (snd (subscribe k q b)), out)
      | OpTake k q \<Rightarrow> (take_event k q b, out)
      | OpLeave k q \<Rightarrow> (unsubscribe k q b, out)
      | OpTurn \<Rightarrow>
          (case stream_turn ch i b of
             None \<Rightarrow> (b, out)
           | Some (None, b') \<Rightarrow> (b', out)
           | Some (Some e, b') \<Rightarrow> (b', out @ [e]))))"

partial_function (option) drain ::
  "nat \<Rightarrow> nat \<Rightarrow> run_broker \<Rightarrow> run_event list \<Rightarrow> (run_broker \<times> run_event list) option" where
  "drain ch i b out =
     (case stream_turn ch i b of
        None \<Rightarrow> Some (b, out)
      | Some (None, b') \<Rightarrow> Some (b', out)
      | Some (Some e, b') \<Rightarrow> drain ch i b' (out @ [e]))"


subsection \<open>Lemmas: the queue of the stream\<close>

definition own_queue :: "nat \<Rightarrow> nat \<Rightarrow> run_broker \<Rightarrow> run_event option list option" where
  "own_queue ch i b = map_option ch_queue (own_channel ch i b)"

lemma take_event_channels:
  "get_list i (subscribers (take_event k q b)) =
     (if q = i then map (\<lambda>c. if ch_id c = k then snd (channel_get c) else c) (get_list i (subscribers b))
      else get_list i (subscribers b))"
  by (auto simp: take_event_def get_list_def map_of_dict_put split: option.splits)

lemma unsubscribe_channels:
  "get_list i (subscribers (unsubscribe k q b)) =
     (if q = i then filter (\<lambda>c. ch_id c \<noteq> k) (get_list i (subscribers b)) else get_list i (subscribers b))"
  by (auto simp: unsubscribe_def get_list_def map_of_dict_put map_of_dict_del Let_def split: option.splits)

lemma publish_channels:
  "get_list i (subscribers (publish q e b)) =
     (if q = i then map (\<lambda>c. c\<lparr>ch_queue := queue_put (Some e) (ch_queue c)\<rparr>) (get_list i (subscribers b))
      else get_list i (subscribers b))"
  by (auto simp: publish_def Let_def get_list_dict_put)

lemma finish_channels:
  "get_list i (subscribers (finish q b)) =
     (if q = i then map put_sentinel (get_list i (subscribers b)) else get_list i (subscribers b))"
  by (auto simp: finish_def Let_def get_list_dict_put)

lemma subscribe_channels:
  "get_list i (subscribers (snd (snd (subscribe k q b)))) =
     get_list i (subscribers b) @ (if q = i \<and> q \<notin> set (finished b) then [\<lparr>ch_id = k, ch_queue = []\<rparr>] else [])"
  by (auto simp: subscribe_def get_list_dict_put)

lemma find_map_id:
  "(\<And>c. ch_id (f c) = ch_id c) \<Longrightarrow> List.find (\<lambda>c. ch_id c = ch) (map f cs) = map_option f (List.find (\<lambda>c. ch_id c = ch) cs)"
  by (induction cs) auto

lemma channel_get_id [simp]: "ch_id (snd (channel_get c)) = ch_id c"
  by (simp add: channel_get_def split: list.splits)

lemma put_sentinel_id [simp]: "ch_id (put_sentinel c) = ch_id c"
  by (simp add: put_sentinel_def)

lemma find_filter_id: "k \<noteq> ch \<Longrightarrow> List.find (\<lambda>c. ch_id c = ch) (filter (\<lambda>c. ch_id c \<noteq> k) cs) = List.find (\<lambda>c. ch_id c = ch) cs"
  by (induction cs) auto

lemma find_append: "List.find P (xs @ ys) = (case List.find P xs of None \<Rightarrow> List.find P ys | Some x \<Rightarrow> Some x)"
  by (induction xs) auto

lemma own_queue_publish:
  "own_queue ch i (publish q e b) = (if q = i then map_option (queue_put (Some e)) (own_queue ch i b) else own_queue ch i b)"
  by (simp add: own_queue_def own_channel_def publish_channels find_map_id option.map_comp comp_def)

lemma own_queue_finish:
  "own_queue ch i (finish q b) =
     (if q = i then map_option (\<lambda>u. if length u < QUEUE_SIZE then u @ [None] else u) (own_queue ch i b) else own_queue ch i b)"
  by (auto simp: own_queue_def own_channel_def finish_channels find_map_id option.map_comp comp_def put_sentinel_def
      intro!: option.map_cong)

lemma own_queue_subscribe: "k \<noteq> ch \<Longrightarrow> own_queue ch i (snd (snd (subscribe k q b))) = own_queue ch i b"
  by (simp add: own_queue_def own_channel_def subscribe_channels find_append split: option.splits)

lemma own_queue_take:
  "own_queue ch i (take_event k q b) = (if q = i \<and> k = ch then map_option tl (own_queue ch i b) else own_queue ch i b)"
proof -
  have "map_option ch_queue (List.find (\<lambda>c. ch_id c = ch) (map (\<lambda>c. if ch_id c = k then snd (channel_get c) else c) cs)) =
      (if k = ch then map_option (\<lambda>c. tl (ch_queue c)) (List.find (\<lambda>c. ch_id c = ch) cs)
       else map_option ch_queue (List.find (\<lambda>c. ch_id c = ch) cs))" for cs
    by (induction cs) (auto simp: channel_get_def split: list.splits)
  then show ?thesis
    by (auto simp: own_queue_def own_channel_def take_event_channels option.map_comp comp_def)
qed

lemma own_queue_leave: "k \<noteq> ch \<Longrightarrow> own_queue ch i (unsubscribe k q b) = own_queue ch i b"
  by (simp add: own_queue_def own_channel_def unsubscribe_channels find_filter_id)

lemma own_channel_left: "own_channel ch i (unsubscribe ch i b) = None"
  by (auto simp: own_channel_def unsubscribe_channels find_None_iff)

lemma stream_turn_queue:
  "stream_turn ch i b =
     (case own_queue ch i b of
        None \<Rightarrow> None
      | Some [] \<Rightarrow> Some (Some ping, take_event ch i b)
      | Some (None # u) \<Rightarrow> Some (None, unsubscribe ch i b)
      | Some (Some e # u) \<Rightarrow> Some (Some e, take_event ch i b))"
  by (auto simp: stream_turn_def own_queue_def channel_get_def split: option.splits list.splits)

text \<open>The loop ends exactly if a sentinel is in the queue, after the events before it.\<close>

lemma drain_ends:
  "own_queue ch i b = Some (map Some es @ None # u) \<Longrightarrow>
   \<exists>b'. drain ch i b out = Some (b', out @ es) \<and> own_channel ch i b' = None"
proof (induction es arbitrary: b out)
  case Nil
  then show ?case by (simp add: drain.simps stream_turn_queue own_channel_left)
next
  case (Cons e es)
  then have "own_queue ch i (take_event ch i b) = Some (map Some es @ None # u)" by (simp add: own_queue_take)
  from Cons.IH [OF this, of "out @ [e]"] Cons.prems show ?case
    by (subst drain.simps) (simp add: stream_turn_queue)
qed

lemma drain_needs_sentinel:
  assumes "drain ch i b out = Some y"
  shows "\<forall>u. own_queue ch i b = Some u \<longrightarrow> None \<in> set u"
proof (rule drain.raw_induct [OF _ assms, where P = "\<lambda>ch i b out y. \<forall>u. own_queue ch i b = Some u \<longrightarrow> None \<in> set u"])
  fix more ch i b out y
  assume IH: "\<And>ch i b out y. more ch i b out = Some y \<Longrightarrow> \<forall>u. own_queue ch i b = Some u \<longrightarrow> None \<in> set u"
    and body: "(case stream_turn ch i b of None \<Rightarrow> Some (b, out) | Some (None, b') \<Rightarrow> Some (b', out)
      | Some (Some e, b') \<Rightarrow> more ch i b' (out @ [e])) = Some y"
  show "\<forall>u. own_queue ch i b = Some u \<longrightarrow> None \<in> set u"
  proof (intro allI impI)
    fix u assume own: "own_queue ch i b = Some u"
    consider "u = []" | v where "u = None # v" | x v where "u = Some x # v" by (metis list.exhaust option.exhaust)
    then show "None \<in> set u"
    proof cases
      case 1
      then show ?thesis using own body IH [of ch i "take_event ch i b" "out @ [ping]" y]
        by (simp add: stream_turn_queue own_queue_take)
    next
      case 3
      then show ?thesis using own body IH [of ch i "take_event ch i b" "out @ [x]" y]
        by (simp add: stream_turn_queue own_queue_take)
    qed simp
  qed
qed


subsection \<open>Lemmas: what others do\<close>

text \<open>What happens before the run is finished, the channel touched by nobody but its stream.\<close>

definition before_end :: "nat \<Rightarrow> nat \<Rightarrow> stream_op \<Rightarrow> bool" where
  "before_end ch i op \<longleftrightarrow>
     (case op of OpFinish q \<Rightarrow> q \<noteq> i | OpJoin k q \<Rightarrow> k \<noteq> ch | OpTake k q \<Rightarrow> k \<noteq> ch | OpLeave k q \<Rightarrow> k \<noteq> ch | _ \<Rightarrow> True)"

definition reading :: "nat \<Rightarrow> nat \<Rightarrow> run_broker \<Rightarrow> bool" where
  "reading ch i b \<longleftrightarrow> (\<exists>es. own_queue ch i b = Some (map Some es) \<and> length es \<le> QUEUE_SIZE)"

lemma queue_put_events:
  "length es \<le> QUEUE_SIZE \<Longrightarrow> \<exists>es'. queue_put (Some e) (map Some es) = map Some es' \<and> length es' \<le> QUEUE_SIZE"
proof (cases "length es < QUEUE_SIZE")
  case True
  then show ?thesis by (intro exI [of _ "es @ [e]"]) (simp add: queue_put_def)
next
  case False
  moreover assume "length es \<le> QUEUE_SIZE"
  ultimately show ?thesis
    by (intro exI [of _ "tl es @ [e]"]) (cases es, auto simp: queue_put_def QUEUE_SIZE_def)
qed

lemma reading_do: "reading ch i b \<Longrightarrow> before_end ch i op \<Longrightarrow> reading ch i (fst (stream_do ch i op (b, out)))"
proof -
  assume "reading ch i b" and op: "before_end ch i op"
  then obtain es where own: "own_queue ch i b = Some (map Some es)" "length es \<le> QUEUE_SIZE" by (auto simp: reading_def)
  show ?thesis
  proof (cases op)
    case (OpPublish q e)
    then show ?thesis using own queue_put_events [OF own(2), of e]
      by (auto simp: reading_def stream_do_def own_queue_publish)
  next
    case OpTurn
    then show ?thesis using own
      by (cases es) (auto simp: reading_def stream_do_def stream_turn_queue own_queue_take intro: exI [of _ "[]"])
  qed (use op own in \<open>auto simp: reading_def before_end_def stream_do_def own_queue_finish own_queue_subscribe
      own_queue_take own_queue_leave\<close>)
qed

lemma reading_fold:
  "reading ch i b \<Longrightarrow> list_all (before_end ch i) ops \<Longrightarrow> reading ch i (fst (fold (stream_do ch i) ops (b, out)))"
proof (induction ops arbitrary: b out)
  case (Cons op ops)
  then have "reading ch i (fst (stream_do ch i op (b, out)))" by (simp add: reading_do)
  then show ?case using Cons.IH Cons.prems by (cases "stream_do ch i op (b, out)") simp
qed simp

lemma drain_after_finish:
  assumes "own_queue ch i b = Some (map Some es)"
  shows "if length es < QUEUE_SIZE
     then \<exists>b'. drain ch i (finish i b) out = Some (b', out @ es) \<and> own_channel ch i b' = None
     else drain ch i (finish i b) out = None"
proof (cases "length es < QUEUE_SIZE")
  case True
  then have "own_queue ch i (finish i b) = Some (map Some es @ None # [])" using assms by (simp add: own_queue_finish)
  from drain_ends [OF this] show ?thesis using True by simp
next
  case False
  then have own: "own_queue ch i (finish i b) = Some (map Some es)" using assms by (simp add: own_queue_finish)
  have "drain ch i (finish i b) out = None"
  proof (rule ccontr)
    assume "drain ch i (finish i b) out \<noteq> None"
    then obtain y where "drain ch i (finish i b) out = Some y" by blast
    from drain_needs_sentinel [OF this] own show False by auto
  qed
  then show ?thesis using False by simp
qed

lemma closing_done: "EvDone \<in> ev_kind ` set (out @ closing final out)"
  by (auto simp: closing_def done_event_def)

subsection \<open>Properties\<close>

text \<open>C24. When a stream ends. A response waits exactly for a run that is active in the table and not finished in the broker;
  any other is complete at once. One that waits, whatever is published, finished, joined, read and left meanwhile, ends
  once its run is finished exactly if fewer than 500 events are unread in its queue then: it sends them and its channel is
  gone. With 500 unread it never ends. A stream that ends has sent a done event.\<close>

theorem stream_ends:
  assumes "find_run st i = Some r" "\<forall>q. ch \<notin> ch_id ` set (get_list q (subscribers b))"
    and "stream_run ch i st b = Inr (replay, waits, b0, final)"
    and "list_all (before_end ch i) ops" "fold (stream_do ch i) ops (b0, replay) = (b1, out)"
  shows "(waits \<longleftrightarrow> active_status (run_status_of r) \<and> i \<notin> set (finished b)) \<and>
    (waits \<longrightarrow> (\<exists>unread. own_queue ch i b1 = Some (map Some unread) \<and> length unread \<le> 500 \<and>
       (if length unread < 500
        then \<exists>b2. drain ch i (finish i b1) out = Some (b2, out @ unread) \<and> own_channel ch i b2 = None
        else drain ch i (finish i b1) out = None))) \<and>
    (\<forall>sent. EvDone \<in> ev_kind ` set (sent @ closing final sent))"
proof (intro conjI impI allI)
  show waits: "waits \<longleftrightarrow> active_status (run_status_of r) \<and> i \<notin> set (finished b)"
    using assms(1,3) by (auto simp: stream_run_def subscribe_def Let_def split: if_splits prod.splits)
  assume w: waits
  have b0: "b0 = snd (snd (subscribe ch i b))"
    using assms(1,3) w waits by (auto simp: stream_run_def Let_def split: if_splits prod.splits)
  have "List.find (\<lambda>c. ch_id c = ch) (get_list i (subscribers b)) = None"
    using assms(2) by (metis (mono_tags) find_None_iff image_eqI)
  then have "own_channel ch i b0 = Some \<lparr>ch_id = ch, ch_queue = []\<rparr>"
    using w waits by (simp add: b0 own_channel_def subscribe_channels find_append)
  then have "reading ch i b0" by (auto simp: reading_def own_queue_def)
  from reading_fold [OF this assms(4), of replay] have "reading ch i b1" by (simp add: assms(5))
  then obtain unread where "own_queue ch i b1 = Some (map Some unread)" "length unread \<le> QUEUE_SIZE" by (auto simp: reading_def)
  with drain_after_finish [OF this(1), of out]
  show "\<exists>unread. own_queue ch i b1 = Some (map Some unread) \<and> length unread \<le> 500 \<and>
       (if length unread < 500
        then \<exists>b2. drain ch i (finish i b1) out = Some (b2, out @ unread) \<and> own_channel ch i b2 = None
        else drain ch i (finish i b1) out = None)"
    by (intro exI [of _ unread]) (simp add: QUEUE_SIZE_def)
qed (rule closing_done)

definition sample_running :: store where
  "sample_running = \<lparr>db_jobs = [sample_job], db_runs = [(new_run 1 TrigManual Live Running)\<lparr>run_id := 1\<rparr>], db_changes = []\<rparr>"

theorem stream_ends_witness:
  "\<exists>b. drain 0 1 (finish 1 (publish 1 (line_event ''b'') (snd (snd (subscribe 0 1 (publish 1 (line_event ''a'') empty_broker))))))
       [line_event ''a''] = Some (b, [line_event ''a'', line_event ''b''])"
proof -
  let ?b = "publish 1 (line_event ''a'') empty_broker" and ?ops = "[OpPublish 1 (line_event ''b'')]"
  have run: "find_run sample_running 1 = Some ((new_run 1 TrigManual Live Running)\<lparr>run_id := 1\<rparr>)"
    and fresh: "\<forall>q. 0 \<notin> ch_id ` set (get_list q (subscribers ?b))"
    by (simp_all add: sample_running_def find_run_def publish_def empty_broker_def line_event_def get_list_def)
  have start: "stream_run 0 1 sample_running ?b = Inr ([line_event ''a''], True, snd (snd (subscribe 0 1 ?b)), ''running.'')"
    by code_simp
  have ops: "list_all (before_end 0 1) ?ops" by (simp add: before_end_def)
  have fold: "fold (stream_do 0 1) ?ops (snd (snd (subscribe 0 1 ?b)), [line_event ''a'']) =
      (publish 1 (line_event ''b'') (snd (snd (subscribe 0 1 ?b))), [line_event ''a''])"
    by (simp add: stream_do_def)
  have own: "own_queue 0 1 (publish 1 (line_event ''b'') (snd (snd (subscribe 0 1 ?b)))) = Some [Some (line_event ''b'')]"
    by code_simp
  from stream_ends [OF run fresh start ops fold] own show ?thesis by (auto split: if_splits)
qed

end
