(* ===== verification/History.thy ===== *)
theory History
  imports Runs "HOL-Library.Option_ord" "HOL-Library.Multiset"
begin

text \<open>
  The recorded changes as they are listed: \<open>history_page\<close> and \<open>_run_context\<close> of \<open>app/web\<close>, \<open>get_run_changes\<close> and
  \<open>list_runs\<close> of \<open>app/api/jobs.py\<close>. A query is its result as SQLite computes it: \<open>LIKE\<close> and \<open>lower\<close> fold ASCII letters
  only, a null sorts first, a negative limit is none and a negative offset is zero. Changes are in the order of their ids,
  and rows a query leaves unordered come in that order.
\<close>

fun action_value :: "change_action \<Rightarrow> string" where
  "action_value ActNew = ''new''"
| "action_value ActUpdated = ''updated''"
| "action_value ActDeleted = ''deleted''"
| "action_value ActArchived = ''archived''"
| "action_value ActUnchanged = ''unchanged''"
| "action_value ActConflict = ''conflict''"
| "action_value ActError = ''error''"

definition sql_lower :: "string \<Rightarrow> string" where
  "sql_lower s = map (\<lambda>c. if CHR ''A'' \<le> c \<and> c \<le> CHR ''Z'' then lower_char c else c) s"

fun sql_like :: "string \<Rightarrow> string \<Rightarrow> bool" where
  "sql_like [] s \<longleftrightarrow> s = []"
| "sql_like (p # ps) [] \<longleftrightarrow> p = CHR ''%'' \<and> sql_like ps []"
| "sql_like (p # ps) (c # cs) \<longleftrightarrow>
     (if p = CHR ''%'' then sql_like ps (c # cs) \<or> sql_like (p # ps) cs
      else (p = CHR ''_'' \<or> p = c) \<and> sql_like ps cs)"

definition ilike :: "string \<Rightarrow> string \<Rightarrow> bool" where
  "ilike value pattern \<longleftrightarrow> sql_like (sql_lower pattern) (sql_lower value)"

definition sql_page :: "int \<Rightarrow> int \<Rightarrow> 'a list \<Rightarrow> 'a list" where
  "sql_page offset limit rows =
     (let rest = drop (nat offset) rows in if limit < 0 then rest else take (nat limit) rest)"

subsection \<open>The history page\<close>

type_synonym history_row = "job_run_change \<times> job_run \<times> job"

definition history_rows :: "store \<Rightarrow> history_row list" where
  "history_rows st =
     concat (map (\<lambda>c. case find_run st (chg_run_id c) of
                        None \<Rightarrow> []
                      | Some r \<Rightarrow> (case find_job st (run_job_id r) of None \<Rightarrow> [] | Some j \<Rightarrow> [(c, r, j)])) (db_changes st))"

datatype history_sort = SortWhen | SortJob | SortRun | SortAction | SortPath | SortSize | SortSpeed

text \<open>\<open>_HISTORY_SORTS\<close>, and the column of a name it does not have.\<close>

definition sort_named :: "string \<Rightarrow> history_sort" where
  "sort_named s =
     (if s = ''job'' then SortJob else if s = ''run'' then SortRun else if s = ''action'' then SortAction
      else if s = ''path'' then SortPath else if s = ''size'' then SortSize else if s = ''speed'' then SortSpeed else SortWhen)"

definition HISTORY_PAGE_SIZE :: nat where "HISTORY_PAGE_SIZE = 100"

text \<open>\<open>order_by(ordering, JobRunChange.id.desc())\<close>: a stable sort of the rows with the newest id first, or the reverse of
  a stable sort of the rows with the oldest first.\<close>

definition order_rows :: "(history_row \<Rightarrow> 'k :: linorder) \<Rightarrow> bool \<Rightarrow> history_row list \<Rightarrow> history_row list" where
  "order_rows key ascending rows = (if ascending then sort_key key (rev rows) else rev (sort_key key rows))"

definition history_order :: "history_sort \<Rightarrow> bool \<Rightarrow> history_row list \<Rightarrow> history_row list" where
  "history_order column ascending =
     (case column of
        SortWhen \<Rightarrow> order_rows (\<lambda>(c, r, j). started_at r) ascending
      | SortJob \<Rightarrow> order_rows (\<lambda>(c, r, j). job_name j) ascending
      | SortRun \<Rightarrow> order_rows (\<lambda>(c, r, j). chg_run_id c) ascending
      | SortAction \<Rightarrow> order_rows (\<lambda>(c, r, j). action_value (chg_action c)) ascending
      | SortPath \<Rightarrow> order_rows (\<lambda>(c, r, j). chg_path c) ascending
      | SortSize \<Rightarrow> order_rows (\<lambda>(c, r, j). chg_size c) ascending
      | SortSpeed \<Rightarrow> order_rows (\<lambda>(c, r, j). peak_speed_bps c) ascending)"

record history_view =
  hv_rows :: "history_row list"
  hv_query :: string
  hv_sort :: string
  hv_direction :: string
  hv_page :: int
  hv_pages :: nat
  hv_total :: nat

definition search_term :: "string option \<Rightarrow> string" where
  "search_term q = py_strip (case q of None \<Rightarrow> [] | Some s \<Rightarrow> s)"

definition matches_term :: "string \<Rightarrow> history_row \<Rightarrow> bool" where
  "matches_term t = (\<lambda>(c, r, j). ilike (chg_path c) (''%'' @ t @ ''%'') \<or> ilike (job_name j) (''%'' @ t @ ''%''))"

definition found_rows :: "string \<Rightarrow> store \<Rightarrow> history_row list" where
  "found_rows t st = (if t = [] then history_rows st else filter (matches_term t) (history_rows st))"

definition history_page :: "string option \<Rightarrow> string \<Rightarrow> string \<Rightarrow> int \<Rightarrow> store \<Rightarrow> history_view" where
  "history_page q column direction page st =
     (let t = search_term q; base = found_rows t st; total = length base;
          pages = max 1 ((total + HISTORY_PAGE_SIZE - 1) div HISTORY_PAGE_SIZE);
          current = min (max 1 page) (int pages);
          rows = sql_page ((current - 1) * int HISTORY_PAGE_SIZE) (int HISTORY_PAGE_SIZE)
                   (history_order (sort_named column) (direction = ''asc'') base)
      in \<lparr>hv_rows = rows, hv_query = t,
          hv_sort = (if column \<in> {''when'', ''job'', ''run'', ''action'', ''path'', ''size'', ''speed''} then column else ''when''),
          hv_direction = (if direction = ''asc'' then ''asc'' else ''desc''), hv_page = current, hv_pages = pages,
          hv_total = total\<rparr>)"

subsection \<open>The changes of a run\<close>

definition by_action_path :: "job_run_change list \<Rightarrow> job_run_change list" where
  "by_action_path cs = sort_key (\<lambda>c. action_value (chg_action c)) (sort_key chg_path cs)"

definition changes_of :: "nat \<Rightarrow> string option \<Rightarrow> store \<Rightarrow> job_run_change list" where
  "changes_of i action st =
     filter (\<lambda>c. chg_run_id c = i \<and> (case action of None \<Rightarrow> True | Some a \<Rightarrow> a = [] \<or> action_value (chg_action c) = a))
       (db_changes st)"

definition get_run_changes :: "nat \<Rightarrow> string option \<Rightarrow> int \<Rightarrow> int \<Rightarrow> store \<Rightarrow> nat + job_run_change list" where
  "get_run_changes i action page page_size st =
     (if find_run st i = None then Inl 404
      else Inr (sql_page (max 0 (page - 1) * page_size) (min page_size 1000) (by_action_path (changes_of i action st))))"

text \<open>The list of a run page, and the counts of its filter bar.\<close>

definition run_page_changes :: "nat \<Rightarrow> string option \<Rightarrow> store \<Rightarrow> job_run_change list" where
  "run_page_changes i action st = sql_page 0 1000 (by_action_path (changes_of i action st))"

definition change_counts :: "nat \<Rightarrow> store \<Rightarrow> (string \<times> nat) list" where
  "change_counts i st =
     map (\<lambda>a. (a, length (changes_of i (Some a) st))) (sort (remdups (map (\<lambda>c. action_value (chg_action c)) (changes_of i None st))))"

definition list_runs :: "nat \<Rightarrow> store \<Rightarrow> job_run list" where
  "list_runs j st = latest_runs 20 j st"


subsection \<open>Lemmas: pages\<close>

lemma concat_pages: "concat (map (\<lambda>k. take m (drop (k * m) xs)) [0..<n]) = take (n * m) xs"
proof (induction n)
  case (Suc n)
  then show ?case using take_add [of "n * m" m xs] by (simp add: add.commute)
qed simp

lemma pages_cover: "length xs \<le> n * m \<Longrightarrow> concat (map (\<lambda>k. take m (drop (k * m) xs)) [0..<n]) = xs"
  by (simp add: concat_pages)

lemma sql_page_nat: "sql_page (int k) (int m) xs = take m (drop k xs)"
  by (simp add: sql_page_def)

lemma mset_order_rows [simp]: "mset (order_rows key ascending rows) = mset rows"
  by (simp add: order_rows_def)

lemma mset_history_order [simp]: "mset (history_order column ascending rows) = mset rows"
  by (cases column) (simp_all add: history_order_def)

lemma length_history_order [simp]: "length (history_order column ascending rows) = length rows"
  using mset_history_order by (metis size_mset)

subsection \<open>Lemmas: order\<close>

definition row_le :: "history_sort \<Rightarrow> history_row \<Rightarrow> history_row \<Rightarrow> bool" where
  "row_le column a b =
     (case (column, a, b) of
        (SortWhen, (c, r, j), (c', r', j')) \<Rightarrow> started_at r \<le> started_at r'
      | (SortJob, (c, r, j), (c', r', j')) \<Rightarrow> job_name j \<le> job_name j'
      | (SortRun, (c, r, j), (c', r', j')) \<Rightarrow> chg_run_id c \<le> chg_run_id c'
      | (SortAction, (c, r, j), (c', r', j')) \<Rightarrow> action_value (chg_action c) \<le> action_value (chg_action c')
      | (SortPath, (c, r, j), (c', r', j')) \<Rightarrow> chg_path c \<le> chg_path c'
      | (SortSize, (c, r, j), (c', r', j')) \<Rightarrow> chg_size c \<le> chg_size c'
      | (SortSpeed, (c, r, j), (c', r', j')) \<Rightarrow> peak_speed_bps c \<le> peak_speed_bps c')"

lemma sorted_order_rows:
  "sorted_wrt (\<lambda>a b. key a \<le> key b) (order_rows key True rows)" "sorted_wrt (\<lambda>a b. key b \<le> key a) (order_rows key False rows)"
proof -
  have "sorted_wrt (\<lambda>a b. key a \<le> key b) (sort_key key xs)" for xs
    using sorted_sort_key [of key xs] by (simp add: sorted_map)
  then show "sorted_wrt (\<lambda>a b. key a \<le> key b) (order_rows key True rows)" "sorted_wrt (\<lambda>a b. key b \<le> key a) (order_rows key False rows)"
    by (simp_all add: order_rows_def sorted_wrt_rev)
qed

lemma sorted_history:
  "sorted_wrt (\<lambda>a b. if ascending then row_le column a b else row_le column b a) (history_order column ascending rows)"
  by (cases ascending; cases column) (simp_all add: history_order_def row_le_def case_prod_unfold sorted_order_rows)

subsection \<open>Lemmas: the search\<close>

definition no_wildcard :: "string \<Rightarrow> bool" where
  "no_wildcard t \<longleftrightarrow> CHR ''%'' \<notin> set t \<and> CHR ''_'' \<notin> set t"

lemma sql_like_any [simp]: "sql_like ''%'' s"
  by (induction s) simp_all

lemma sql_like_prefix: "no_wildcard t \<Longrightarrow> sql_like (t @ ''%'') s \<longleftrightarrow> prefix t s"
proof (induction t arbitrary: s)
  case (Cons p t)
  then show ?case by (cases s) (auto simp: no_wildcard_def)
qed simp

lemma sql_like_contains: "no_wildcard t \<Longrightarrow> sql_like (CHR ''%'' # t @ ''%'') s \<longleftrightarrow> contains t s"
proof (induction s)
  case Nil
  then show ?case using sql_like_prefix [of t "[]"] by simp
next
  case (Cons c s)
  then show ?case using sql_like_prefix [of t "c # s"] by simp
qed

lemma no_wildcard_lower: "no_wildcard t \<Longrightarrow> no_wildcard (sql_lower t)"
proof -
  have "lower_char c \<noteq> CHR ''%'' \<and> lower_char c \<noteq> CHR ''_''" if "CHR ''A'' \<le> c" "c \<le> CHR ''Z''" for c
  proof -
    have "65 \<le> (of_char c :: nat)" "(of_char c :: nat) \<le> 90" using that by (simp_all add: less_eq_char_def)
    then have "(of_char (lower_char c) :: nat) = of_char c + 32" "97 \<le> (of_char c :: nat) + 32"
      by (simp_all add: lower_char_def Let_def)
    then have "97 \<le> (of_char (lower_char c) :: nat)" by simp
    then show ?thesis by auto
  qed
  then show "no_wildcard t \<Longrightarrow> no_wildcard (sql_lower t)"
    by (auto simp: no_wildcard_def sql_lower_def split: if_splits) metis+
qed

lemma ilike_contains: "no_wildcard t \<Longrightarrow> ilike v (''%'' @ t @ ''%'') \<longleftrightarrow> contains (sql_lower t) (sql_lower v)"
  using sql_like_contains [OF no_wildcard_lower] by (simp add: ilike_def sql_lower_def)


subsection \<open>Properties\<close>

definition all_pages :: "string option \<Rightarrow> string \<Rightarrow> string \<Rightarrow> store \<Rightarrow> history_row list" where
  "all_pages q column direction st =
     concat (map (\<lambda>k. hv_rows (history_page q column direction (int k + 1) st))
       [0..<hv_pages (history_page q column direction 1 st)])"

lemma page_count: "hv_pages (history_page q column direction page st) = max 1 ((length (found_rows (search_term q) st) + 99) div 100)"
  by (simp add: history_page_def HISTORY_PAGE_SIZE_def Let_def)

lemma page_rows:
  "hv_rows (history_page q column direction page st) =
     take 100 (drop (nat ((min (max 1 page) (int (hv_pages (history_page q column direction 1 st))) - 1) * 100))
       (history_order (sort_named column) (direction = ''asc'') (found_rows (search_term q) st)))"
  unfolding page_count by (simp add: history_page_def HISTORY_PAGE_SIZE_def Let_def sql_page_def add.commute)

lemma all_pages_order:
  "all_pages q column direction st = history_order (sort_named column) (direction = ''asc'') (found_rows (search_term q) st)"
proof -
  let ?n = "hv_pages (history_page q column direction 1 st)"
  let ?ordered = "history_order (sort_named column) (direction = ''asc'') (found_rows (search_term q) st)"
  have "length (found_rows (search_term q) st) \<le> max 1 ((length (found_rows (search_term q) st) + 99) div 100) * 100" by linarith
  then have "length ?ordered \<le> ?n * 100" by (simp only: page_count length_history_order)
  then have "concat (map (\<lambda>k. take 100 (drop (k * 100) ?ordered)) [0..<?n]) = ?ordered" by (rule pages_cover)
  note covered = this
  have "hv_rows (history_page q column direction (int k + 1) st) = take 100 (drop (k * 100) ?ordered)" if "k < ?n" for k
  proof -
    have "nat ((min (max 1 (int k + 1)) (int ?n) - 1) * 100) = k * 100" using that by (simp add: nat_mult_distrib)
    then show ?thesis by (simp only: page_rows)
  qed
  then have "map (\<lambda>k. hv_rows (history_page q column direction (int k + 1) st)) [0..<?n] =
      map (\<lambda>k. take 100 (drop (k * 100) ?ordered)) [0..<?n]" by (intro map_cong) simp_all
  then show ?thesis using covered by (simp only: all_pages_def)
qed

lemma found_contains:
  assumes "no_wildcard t"
  shows "found_rows t st = filter (\<lambda>(c, r, j). contains (sql_lower t) (sql_lower (chg_path c)) \<or>
     contains (sql_lower t) (sql_lower (job_name j))) (history_rows st)"
proof (cases "t = []")
  case True
  then have "contains (sql_lower t) v" for v by (simp add: contains_iff_sublist sql_lower_def)
  then show ?thesis using True by (simp add: found_rows_def case_prod_unfold)
next
  case False
  then show ?thesis by (simp add: found_rows_def matches_term_def ilike_contains [OF assms, simplified])
qed

text \<open>C36. The history shows everything once. For a search term without wild cards, the pages of the history, put behind
  each other, are in the order asked for and hold exactly the changes whose path or job name contains the term, ASCII
  case aside, each as often as it was recorded. Every page has at most 100 rows and knows the number of rows, and
  asking for a page beyond either end shows the page at that end.\<close>

theorem history_complete:
  assumes "no_wildcard (search_term q)"
  shows "mset (all_pages q column direction st) =
       mset (filter (\<lambda>(c, r, j). contains (sql_lower (search_term q)) (sql_lower (chg_path c)) \<or>
         contains (sql_lower (search_term q)) (sql_lower (job_name j))) (history_rows st)) \<and>
    sorted_wrt (\<lambda>a b. if direction = ''asc'' then row_le (sort_named column) a b else row_le (sort_named column) b a)
      (all_pages q column direction st) \<and>
    (\<forall>page. length (hv_rows (history_page q column direction page st)) \<le> 100 \<and>
       hv_total (history_page q column direction page st) = length (all_pages q column direction st) \<and>
       history_page q column direction page st =
         history_page q column direction (min (max 1 page) (int (hv_pages (history_page q column direction 1 st)))) st)"
proof (intro conjI allI)
  fix page
  let ?n = "int (hv_pages (history_page q column direction 1 st))"
  have "min (max 1 (min (max 1 page) ?n)) ?n = min (max 1 page) ?n" by (simp add: page_count)
  then show "history_page q column direction page st = history_page q column direction (min (max 1 page) ?n) st"
    unfolding page_count by (simp add: history_page_def HISTORY_PAGE_SIZE_def Let_def add.commute)
qed (simp_all add: all_pages_order found_contains [OF assms] sorted_history page_rows,
     simp add: history_page_def Let_def found_contains [OF assms])

definition sample_history :: store where
  "sample_history =
     \<lparr>db_jobs = [sample_job], db_runs = [(new_run 1 TrigManual Live Success)\<lparr>run_id := 1\<rparr>],
      db_changes = map (\<lambda>p. \<lparr>chg_run_id = 1, chg_action = ActNew, chg_side = SideDest, chg_path = p, chg_size = None,
        peak_speed_bps = None, chg_mtime = None, chg_message = None\<rparr>) [''tv/Pilot'', ''film'', ''TV/finale'']\<rparr>"

theorem history_complete_witness:
  "mset (map (\<lambda>(c, r, j). chg_path c) (all_pages (Some '' tv/ '') ''path'' ''asc'' sample_history)) = {#''tv/Pilot'', ''TV/finale''#}"
proof -
  have "no_wildcard (search_term (Some '' tv/ ''))" by code_simp
  then have "mset (all_pages (Some '' tv/ '') ''path'' ''asc'' sample_history) =
      mset (filter (\<lambda>(c, r, j). contains (sql_lower (search_term (Some '' tv/ ''))) (sql_lower (chg_path c)) \<or>
        contains (sql_lower (search_term (Some '' tv/ ''))) (sql_lower (job_name j))) (history_rows sample_history))"
    by (rule history_complete [THEN conjunct1])
  then have "mset (map (\<lambda>(c, r, j). chg_path c) (all_pages (Some '' tv/ '') ''path'' ''asc'' sample_history)) =
      mset (map (\<lambda>(c, r, j). chg_path c)
        (filter (\<lambda>(c, r, j). contains (sql_lower (search_term (Some '' tv/ ''))) (sql_lower (chg_path c)) \<or>
          contains (sql_lower (search_term (Some '' tv/ ''))) (sql_lower (job_name j))) (history_rows sample_history)))"
    by (simp only: mset_map)
  also have "map (\<lambda>(c, r, j). chg_path c)
      (filter (\<lambda>(c, r, j). contains (sql_lower (search_term (Some '' tv/ ''))) (sql_lower (chg_path c)) \<or>
        contains (sql_lower (search_term (Some '' tv/ ''))) (sql_lower (job_name j))) (history_rows sample_history)) =
      [''tv/Pilot'', ''TV/finale'']"
    by code_simp
  finally show ?thesis by (simp only: mset.simps)
qed

text \<open>An underscore that was typed matches any character.\<close>

lemma underscore_is_wildcard: "matches_term ''a_b'' (c\<lparr>chg_path := ''axb''\<rparr>, r, j)"
  by (simp add: matches_term_def ilike_def) code_simp

text \<open>The pages of the changes of a run, of up to 1000 rows, cover them.\<close>

lemma changes_complete:
  assumes "find_run st i \<noteq> None" "0 < m" "m \<le> 1000" "length (changes_of i action st) \<le> n * m"
  shows "concat (map (\<lambda>k. case get_run_changes i action (int k + 1) (int m) st of Inl e \<Rightarrow> [] | Inr rows \<Rightarrow> rows) [0..<n]) =
    by_action_path (changes_of i action st)"
proof -
  have "get_run_changes i action (int k + 1) (int m) st = Inr (take m (drop (k * m) (by_action_path (changes_of i action st))))" for k
    using assms by (auto simp: get_run_changes_def sql_page_def nat_mult_distrib nat_int min_def)
  then show ?thesis using pages_cover [of "by_action_path (changes_of i action st)" n m] assms(4) by (simp add: by_action_path_def)
qed

text \<open>A larger page size is cut to 1000 rows while the pages are still that far apart: no page holds the row at index
  1000. A negative one lifts the limit.\<close>

lemma large_pages_skip_rows:
  assumes "find_run st i \<noteq> None" "1000 < page_size"
  shows "\<exists>offset. get_run_changes i action page page_size st = Inr (take 1000 (drop offset (by_action_path (changes_of i action st)))) \<and>
     \<not> (offset \<le> 1000 \<and> 1000 < offset + 1000)"
proof (cases "page \<le> 1")
  case True
  then show ?thesis using assms by (intro exI [of _ 0]) (simp add: get_run_changes_def sql_page_def)
next
  case False
  then have "1 * page_size \<le> (page - 1) * page_size" using assms(2) by (intro mult_right_mono) auto
  then have "\<not> nat ((page - 1) * page_size) \<le> 1000" using assms(2) by linarith
  then show ?thesis using assms False
    by (intro exI [of _ "nat ((page - 1) * page_size)"]) (auto simp: get_run_changes_def sql_page_def)
qed

lemma negative_page_is_unlimited:
  assumes "find_run st i \<noteq> None" "page_size < 0"
  shows "get_run_changes i action 1 page_size st = Inr (by_action_path (changes_of i action st))"
  using assms by (simp add: get_run_changes_def sql_page_def)

end
