(* ===== verification/Application.thy ===== *)
theory Application
  imports Portable Access
begin

text \<open>
  The process around the service: \<open>app/main.py\<close> (the checks of a start, the answer to a request without a session), the
  key handling of \<open>app/crypto.py\<close>, \<open>app/binaries.py\<close>, \<open>app/api/health.py\<close> and \<open>app/headers.py\<close>. Bytes are numbers below
  256. What is not under \<open>src/\<close>: \<open>hm\<close>, the hexadecimal HMAC of the fixed message under a key; how \<open>rclone version\<close> ran;
  and what \<open>access_ext\<close> holds.
\<close>

subsection \<open>The key\<close>

datatype key_error = KeyMissing | KeyNotBase64 | KeyLength nat

definition sextet :: "char \<Rightarrow> nat option" where
  "sextet c =
     (let n = (of_char c :: nat)
      in if 65 \<le> n \<and> n \<le> 90 then Some (n - 65) else if 97 \<le> n \<and> n \<le> 122 then Some (n - 71)
         else if 48 \<le> n \<and> n \<le> 57 then Some (n + 4) else if n = 43 then Some 62 else if n = 47 then Some 63 else None)"

definition sextet_char :: "nat \<Rightarrow> char" where
  "sextet_char v =
     char_of (if v < 26 then v + 65 else if v < 52 then v + 71 else if v < 62 then v - 4 else if v = 62 then 43 else 47)"

definition from_urlsafe :: "char \<Rightarrow> char" where
  "from_urlsafe c = (if c = CHR ''-'' then CHR ''+'' else if c = CHR ''_'' then CHR ''/'' else c)"

definition to_urlsafe :: "char \<Rightarrow> char" where
  "to_urlsafe c = (if c = CHR ''+'' then CHR ''-'' else if c = CHR ''/'' then CHR ''_'' else c)"

text \<open>\<open>base64.b64decode\<close>, which skips what is not of its alphabet: the position in a group of four, the bits left over and
  the pads seen. None is \<open>binascii.Error\<close>.\<close>

fun b64_scan :: "nat \<Rightarrow> nat \<Rightarrow> nat \<Rightarrow> string \<Rightarrow> nat list option" where
  "b64_scan q left pads [] = (if q = 0 then Some [] else None)"
| "b64_scan q left pads (c # cs) =
     (if c = CHR ''='' then
        (if 2 \<le> q \<and> 4 \<le> q + Suc pads then Some [] else b64_scan q left (if 2 \<le> q then Suc pads else pads) cs)
      else
        (case sextet c of
           None \<Rightarrow> b64_scan q left pads cs
         | Some v \<Rightarrow>
             if q = 0 then b64_scan 1 v 0 cs
             else if q = 1 then map_option ((#) (left * 4 + v div 16)) (b64_scan 2 (v mod 16) 0 cs)
             else if q = 2 then map_option ((#) (left * 16 + v div 4)) (b64_scan 3 (v mod 4) 0 cs)
             else map_option ((#) (left * 64 + v)) (b64_scan 0 0 0 cs)))"

definition urlsafe_b64decode :: "string \<Rightarrow> nat list option" where
  "urlsafe_b64decode s = b64_scan 0 0 0 (map from_urlsafe s)"

fun b64_encode :: "nat list \<Rightarrow> string" where
  "b64_encode [] = []"
| "b64_encode [a] = [sextet_char (a div 4), sextet_char (a mod 4 * 16)] @ ''==''"
| "b64_encode [a, b] = [sextet_char (a div 4), sextet_char (a mod 4 * 16 + b div 16), sextet_char (b mod 16 * 4)] @ ''=''"
| "b64_encode (a # b # c # r) =
     [sextet_char (a div 4), sextet_char (a mod 4 * 16 + b div 16), sextet_char (b mod 16 * 4 + c div 64), sextet_char (c mod 64)]
     @ b64_encode r"

definition urlsafe_b64encode :: "nat list \<Rightarrow> string" where
  "urlsafe_b64encode bs = map to_urlsafe (b64_encode bs)"

definition FERNET_KEY_BYTES :: nat where "FERNET_KEY_BYTES = 32"

definition key_bytes :: "string \<Rightarrow> key_error + nat list" where
  "key_bytes raw =
     (if raw = [] \<or> py_strip raw = [] then Inl KeyMissing
      else if \<not> ascii_only (py_strip raw) then Inl KeyNotBase64
      else (case urlsafe_b64decode (py_strip raw) of
              None \<Rightarrow> Inl KeyNotBase64
            | Some bs \<Rightarrow> if length bs \<noteq> FERNET_KEY_BYTES then Inl (KeyLength (length bs)) else Inr bs))"

definition key_fingerprint :: "(nat list \<Rightarrow> string) \<Rightarrow> nat list \<Rightarrow> string" where
  "key_fingerprint hm key = take 32 (hm key)"

text \<open>\<open>generate_key_suggestion\<close>, and what \<open>SecretBox\<close> hands to Fernet.\<close>

definition suggested_key :: "nat list \<Rightarrow> string" where
  "suggested_key random_bytes = urlsafe_b64encode random_bytes"

definition box_key :: "string \<Rightarrow> key_error + string" where
  "box_key raw = map_sum id urlsafe_b64encode (key_bytes raw)"

subsection \<open>Startup\<close>

record 'trig deployment =
  dp_installation :: "'trig installation"
  dp_users :: "user list"

datatype start_refusal = KeyUnusable key_error | KeyChanged | AdminRefused bootstrap_error | SeedRaised

definition SECRET_KEY_FINGERPRINT :: string where "SECRET_KEY_FINGERPRINT = ''secret_key_fingerprint''"

definition check_key_fingerprint :: "string \<Rightarrow> settings \<Rightarrow> settings option" where
  "check_key_fingerprint expected rows =
     (case map_of rows SECRET_KEY_FINGERPRINT of
        None \<Rightarrow> Some (dict_put SECRET_KEY_FINGERPRINT (Some expected) rows)
      | Some v \<Rightarrow> if v \<noteq> Some expected then None else Some rows)"

definition release_at_start :: "datetime \<Rightarrow> 'trig catalog \<Rightarrow> 'trig catalog" where
  "release_at_start t s = s\<lparr>cat_admin := (cat_admin s)\<lparr>adm_db := release_interrupted_runs t (adm_db (cat_admin s))\<rparr>\<rparr>"

text \<open>\<open>run_startup_checks\<close>: what refused the start, and the tables. Each part is committed before the next begins. \<open>t\<close> is
  the time of the account and of the release.\<close>

definition run_startup_checks ::
  "access_ext \<Rightarrow> access_settings \<Rightarrow> string \<Rightarrow> datetime \<Rightarrow> 'trig deployment \<Rightarrow> start_refusal option \<times> 'trig deployment" where
  "run_startup_checks x s fingerprint t d =
     (case check_key_fingerprint fingerprint (in_settings (dp_installation d)) of
        None \<Rightarrow> (Some KeyChanged, d)
      | Some rows \<Rightarrow>
          (let d1 = d\<lparr>dp_installation := (dp_installation d)\<lparr>in_settings := rows\<rparr>\<rparr>
           in case bootstrap_admin x s t (dp_users d1) of
                Inl e \<Rightarrow> (Some (AdminRefused e), d1)
              | Inr (new, us) \<Rightarrow>
                  (let d2 = d1\<lparr>dp_users := us\<rparr>
                   in case seed_builtin_presets (in_catalog (dp_installation d2)) of
                        None \<Rightarrow> (Some SeedRaised, d2)
                      | Some c \<Rightarrow>
                          (None, d2\<lparr>dp_installation := (dp_installation d2)\<lparr>in_catalog := release_at_start t c\<rparr>\<rparr>))))"

text \<open>\<open>create_app\<close> as far as it can refuse.\<close>

definition create_app ::
  "(nat list \<Rightarrow> string) \<Rightarrow> access_ext \<Rightarrow> access_settings \<Rightarrow> string \<Rightarrow> datetime \<Rightarrow> 'trig deployment
     \<Rightarrow> start_refusal option \<times> 'trig deployment" where
  "create_app hm x s raw t d =
     (case key_bytes raw of
        Inl e \<Rightarrow> (Some (KeyUnusable e), d)
      | Inr key \<Rightarrow> run_startup_checks x s (key_fingerprint hm key) t d)"

text \<open>\<open>main\<close>: the exit status where there is a message, None where the exception reaches the interpreter.\<close>

definition exit_status :: "start_refusal \<Rightarrow> nat option" where
  "exit_status r = (case r of SeedRaised \<Rightarrow> None | _ \<Rightarrow> Some 1)"

text \<open>The scheduler starts with the server.\<close>

definition serve :: "'trig scheduler_ext \<Rightarrow> 'trig deployment \<Rightarrow> 'trig deployment" where
  "serve sx d =
     d\<lparr>dp_installation := (dp_installation d)\<lparr>in_catalog := (in_catalog (dp_installation d))
        \<lparr>cat_admin := start_scheduler sx (cat_admin (in_catalog (dp_installation d)))\<rparr>\<rparr>\<rparr>"

subsection \<open>A request without a session\<close>

datatype unauthenticated = Json401 | ToSetup | ToLogin string

definition handle_unauthenticated :: "string \<Rightarrow> string \<Rightarrow> user list \<Rightarrow> unauthenticated" where
  "handle_unauthenticated path query us =
     (if prefix ''/api/'' path then Json401
      else if needs_setup us then ToSetup
      else ToLogin (''/login?next='' @ (if query = [] then path else path @ ''?'' @ query)))"

text \<open>The value of a parameter in the query of a URL, where nothing in it is percent encoded.\<close>

definition query_value :: "string \<Rightarrow> string \<Rightarrow> string option" where
  "query_value name url =
     map_of (map (\<lambda>piece. let k = takeWhile (\<lambda>c. c \<noteq> CHR ''='') piece in (k, drop (Suc (length k)) piece))
       (split_on (CHR ''&'') (drop 1 (dropWhile (\<lambda>c. c \<noteq> CHR ''?'') url)))) name"

subsection \<open>Response headers\<close>

definition CONTENT_SECURITY_POLICY :: string where
  "CONTENT_SECURITY_POLICY =
     join_with ''; '' [''default-src ''  @ [CHR 0x27] @ ''self'' @ [CHR 0x27],
       ''script-src '' @ [CHR 0x27] @ ''self'' @ [CHR 0x27] @ '' '' @ [CHR 0x27] @ ''unsafe-inline'' @ [CHR 0x27] @ '' '' @
         [CHR 0x27] @ ''unsafe-eval'' @ [CHR 0x27],
       ''style-src '' @ [CHR 0x27] @ ''self'' @ [CHR 0x27] @ '' '' @ [CHR 0x27] @ ''unsafe-inline'' @ [CHR 0x27],
       ''img-src '' @ [CHR 0x27] @ ''self'' @ [CHR 0x27] @ '' data:'',
       ''connect-src '' @ [CHR 0x27] @ ''self'' @ [CHR 0x27],
       ''form-action '' @ [CHR 0x27] @ ''self'' @ [CHR 0x27],
       ''frame-ancestors '' @ [CHR 0x27] @ ''none'' @ [CHR 0x27],
       ''base-uri '' @ [CHR 0x27] @ ''self'' @ [CHR 0x27],
       ''object-src '' @ [CHR 0x27] @ ''none'' @ [CHR 0x27]]"

definition HEADERS :: "(string \<times> string) list" where
  "HEADERS =
     [(''content-security-policy'', CONTENT_SECURITY_POLICY), (''x-content-type-options'', ''nosniff''),
      (''x-frame-options'', ''DENY''), (''referrer-policy'', ''same-origin'')]"

definition with_headers :: "(string \<times> string) list \<Rightarrow> (string \<times> string) list" where
  "with_headers hs = hs @ filter (\<lambda>(name, value). name \<notin> py_lower ` fst ` set hs) HEADERS"

subsection \<open>Binaries and health\<close>

datatype probe_outcome = NotOnPath | NoAnswer | CouldNotRun string | Answered string string

datatype binary_error = BinaryMissing | BinarySilent | BinaryBroken string | BinaryUnrecognised

record binary_info =
  bi_ok :: bool
  bi_version :: "string option"
  bi_error :: "binary_error option"

text \<open>\<open>_RCLONE_VERSION_RE\<close> at a place, searched for at the starts of lines, and \<open>_ANY_VERSION_RE\<close>.\<close>

definition rclone_version_at :: "string \<Rightarrow> string option" where
  "rclone_version_at s =
     (if \<not> prefix ''rclone'' s then None
      else (let spaces = takeWhile py_space (drop 6 s); r = drop (6 + length spaces) s; v = (if prefix ''v'' r then drop 1 r else r)
            in if spaces = [] then None
               else (case v of [] \<Rightarrow> None
                     | c # cs \<Rightarrow> if ascii_digit c then Some (c # takeWhile (\<lambda>c. \<not> py_space c) cs) else None)))"

fun rclone_version_in :: "bool \<Rightarrow> string \<Rightarrow> string option" where
  "rclone_version_in at_start [] = None"
| "rclone_version_in at_start (c # cs) =
     (case (if at_start then rclone_version_at (c # cs) else None) of
        Some v \<Rightarrow> Some v
      | None \<Rightarrow> rclone_version_in (c = CHR 0x0A) cs)"

definition version_at :: "string \<Rightarrow> string option" where
  "version_at s =
     (let a = takeWhile ascii_digit s; r = drop (length a) s; b = takeWhile ascii_digit (drop 1 r);
          r' = drop (Suc (length b)) r; c = takeWhile ascii_digit (drop 1 r')
      in if a = [] \<or> \<not> prefix ''.'' r \<or> b = [] then None
         else if prefix ''.'' r' \<and> c \<noteq> [] then Some (a @ ''.'' @ b @ ''.'' @ c) else Some (a @ ''.'' @ b))"

fun version_in :: "string \<Rightarrow> string option" where
  "version_in [] = None"
| "version_in (c # cs) = (case version_at (c # cs) of Some v \<Rightarrow> Some v | None \<Rightarrow> version_in cs)"

definition rclone_info :: "probe_outcome \<Rightarrow> binary_info" where
  "rclone_info p =
     (let failed = (\<lambda>e. \<lparr>bi_ok = False, bi_version = None, bi_error = Some e\<rparr>);
          found = (\<lambda>v. \<lparr>bi_ok = True, bi_version = Some v, bi_error = None\<rparr>)
      in case p of
           NotOnPath \<Rightarrow> failed BinaryMissing
         | NoAnswer \<Rightarrow> failed BinarySilent
         | CouldNotRun e \<Rightarrow> failed (BinaryBroken e)
         | Answered out err \<Rightarrow>
             (let output = out @ [CHR 0x0A] @ err
              in case rclone_version_in True output of
                   Some v \<Rightarrow> found v
                 | None \<Rightarrow> (case version_in output of Some v \<Rightarrow> found v | None \<Rightarrow> failed BinaryUnrecognised)))"

record binary_report =
  br_rclone :: binary_info
  br_expected :: "string option"

definition matches_expected :: "binary_report \<Rightarrow> bool option" where
  "matches_expected r =
     (case (br_expected r, bi_version (br_rclone r)) of (Some e, Some v) \<Rightarrow> Some (v = e) | _ \<Rightarrow> None)"

definition all_ok :: "binary_report \<Rightarrow> bool" where
  "all_ok r \<longleftrightarrow> bi_ok (br_rclone r) \<and> matches_expected r \<noteq> Some False"

datatype health = HealthOk | HealthDegraded | HealthError

definition health_status :: "bool \<Rightarrow> binary_report \<Rightarrow> health" where
  "health_status db_ok r = (if \<not> db_ok then HealthError else if all_ok r then HealthOk else HealthDegraded)"

text \<open>The status code and the answer: of the database the class of the exception, and of the detail the report.\<close>

definition health_code :: "health \<Rightarrow> nat" where
  "health_code h = (if h = HealthError then 503 else 200)"

definition liveness :: "string option \<Rightarrow> binary_report \<Rightarrow> nat \<times> health \<times> string option" where
  "liveness db_error r = (let h = health_status (db_error = None) r in (health_code h, h, db_error))"

definition health_detail :: "string option \<Rightarrow> binary_report \<Rightarrow> (nat \<times> health \<times> string option) \<times> binary_report \<times> bool option" where
  "health_detail db_error r = (liveness db_error r, r, matches_expected r)"


subsection \<open>Lemmas: the key\<close>

lemma of_char_sextet: "v < 64 \<Longrightarrow> (of_char (sextet_char v) :: nat) =
    (if v < 26 then v + 65 else if v < 52 then v + 71 else if v < 62 then v - 4 else if v = 62 then 43 else 47)"
  by (auto simp: sextet_char_def)

lemma sextet_char: "v < 64 \<Longrightarrow> sextet (sextet_char v) = Some v"
  unfolding sextet_def Let_def by (subst of_char_sextet, assumption)+ auto

lemma char_neqI: "(of_char c :: nat) \<noteq> of_char d \<Longrightarrow> c \<noteq> d"
  by auto

lemma urlsafe_sextet: "v < 64 \<Longrightarrow> from_urlsafe (to_urlsafe (sextet_char v)) = sextet_char v"
proof -
  assume "v < 64"
  then have "sextet_char v \<noteq> CHR ''-''" "sextet_char v \<noteq> CHR ''_''"
    by (auto intro!: char_neqI simp: of_char_sextet split: if_splits)
  then show ?thesis by (simp add: from_urlsafe_def to_urlsafe_def)
qed

lemma sextet_not_pad: "v < 64 \<Longrightarrow> sextet_char v \<noteq> CHR ''=''"
  by (auto intro!: char_neqI simp: of_char_sextet split: if_splits)

definition bytes_ok :: "nat list \<Rightarrow> bool" where
  "bytes_ok bs \<longleftrightarrow> (\<forall>b \<in> set bs. b < 256)"

lemma encode_chars: "bytes_ok bs \<Longrightarrow> c \<in> set (b64_encode bs) \<Longrightarrow> c = CHR ''='' \<or> (\<exists>v < 64. c = sextet_char v)"
proof (induction bs rule: b64_encode.induct)
  case (4 a b c' r)
  have "a < 256" "b < 256" "c' < 256" using "4.prems"(1) by (simp_all add: bytes_ok_def)
  then have "a div 4 < 64" "a mod 4 * 16 + b div 16 < 64" "b mod 16 * 4 + c' div 64 < 64" by linarith+
  moreover have "\<exists>v < 64. sextet_char (c' mod 64) = sextet_char v" by (rule exI [of _ "c' mod 64"]) simp
  ultimately show ?case using 4 by (auto simp: bytes_ok_def)
next
  case (3 a b)
  have "a < 256" "b < 256" using "3.prems"(1) by (simp_all add: bytes_ok_def)
  then have "a div 4 < 64" "a mod 4 * 16 + b div 16 < 64" by linarith+
  moreover have "\<exists>v < 64. sextet_char (b mod 16 * 4) = sextet_char v" by (rule exI [of _ "b mod 16 * 4"]) simp
  ultimately show ?case using 3 by auto
next
  case (2 a)
  have "a < 256" using "2.prems"(1) by (simp add: bytes_ok_def)
  then have "a div 4 < 64" by linarith
  moreover have "\<exists>v < 64. sextet_char (a mod 4 * 16) = sextet_char v" by (rule exI [of _ "a mod 4 * 16"]) simp
  ultimately show ?case using 2 by auto
qed simp

lemma urlsafe_encoded: "bytes_ok bs \<Longrightarrow> map from_urlsafe (urlsafe_b64encode bs) = b64_encode bs"
proof -
  assume ok: "bytes_ok bs"
  have "from_urlsafe (to_urlsafe c) = c" if "c \<in> set (b64_encode bs)" for c
  proof -
    have "from_urlsafe (to_urlsafe (CHR ''='')) = CHR ''=''" by (simp add: from_urlsafe_def to_urlsafe_def)
    then show ?thesis using encode_chars [OF ok that] urlsafe_sextet by metis
  qed
  then show ?thesis by (simp add: urlsafe_b64encode_def map_idI)
qed

lemma group_of_three:
  fixes a b c :: nat
  assumes "a < 256" "b < 256" "c < 256"
  shows "a div 4 * 4 + (a mod 4 * 16 + b div 16) div 16 = a"
    "(a mod 4 * 16 + b div 16) mod 16 * 16 + (b mod 16 * 4 + c div 64) div 4 = b"
    "(b mod 16 * 4 + c div 64) mod 4 * 64 + c mod 64 = c"
proof -
  have small: "b div 16 < 16" "c div 64 < 4" using assms by linarith+
  have "(a mod 4 * 16 + b div 16) div 16 = a mod 4" "(a mod 4 * 16 + b div 16) mod 16 = b div 16"
    "(b mod 16 * 4 + c div 64) div 4 = b mod 16" "(b mod 16 * 4 + c div 64) mod 4 = c div 64"
    using small by simp_all
  then show "a div 4 * 4 + (a mod 4 * 16 + b div 16) div 16 = a"
    "(a mod 4 * 16 + b div 16) mod 16 * 16 + (b mod 16 * 4 + c div 64) div 4 = b"
    "(b mod 16 * 4 + c div 64) mod 4 * 64 + c mod 64 = c"
    by (simp_all only: div_mult_mod_eq)
qed

lemma b64_roundtrip: "bytes_ok bs \<Longrightarrow> b64_scan 0 0 0 (b64_encode bs) = Some bs"
proof (induction bs rule: b64_encode.induct)
  case (4 a b c r)
  have "a < 256" "b < 256" "c < 256" using "4.prems" by (simp_all add: bytes_ok_def)
  then have v: "a div 4 < 64" "a mod 4 * 16 + b div 16 < 64" "b mod 16 * 4 + c div 64 < 64" "c mod 64 < 64" by linarith+
  note group = group_of_three [OF \<open>a < 256\<close> \<open>b < 256\<close> \<open>c < 256\<close>]
  have "b64_scan 0 0 0 (b64_encode r) = Some r" using 4 by (simp add: bytes_ok_def)
  then show ?case using v group by (simp add: sextet_char sextet_not_pad)
next
  case (3 a b)
  have "a < 256" "b < 256" using "3.prems" by (simp_all add: bytes_ok_def)
  then have v: "a div 4 < 64" "a mod 4 * 16 + b div 16 < 64" "b mod 16 * 4 < 64" by linarith+
  from group_of_three [OF \<open>a < 256\<close> \<open>b < 256\<close>, of 0]
  show ?case using v by (simp add: sextet_char sextet_not_pad)
next
  case (2 a)
  have "a < 256" using "2.prems" by (simp add: bytes_ok_def)
  then have v: "a div 4 < 64" "a mod 4 * 16 < 64" by linarith+
  from group_of_three(1) [OF \<open>a < 256\<close>, of 0 0]
  show ?case using v by (simp add: sextet_char sextet_not_pad)
qed simp

lemma decode_encode: "bytes_ok bs \<Longrightarrow> urlsafe_b64decode (urlsafe_b64encode bs) = Some bs"
  by (simp add: urlsafe_b64decode_def urlsafe_encoded b64_roundtrip)

lemma scan_bytes:
  "b64_scan q left pads s = Some bs \<Longrightarrow> (q = 1 \<longrightarrow> left < 64) \<and> (q = 2 \<longrightarrow> left < 16) \<and> (q \<notin> {0, 1, 2} \<longrightarrow> left < 4) \<Longrightarrow>
   bytes_ok bs"
proof (induction q left pads s arbitrary: bs rule: b64_scan.induct)
  case (2 q left pads c cs)
  show ?case
  proof (cases "c = CHR ''=''")
    case True
    then show ?thesis using 2 by (auto simp: bytes_ok_def split: if_splits)
  next
    case c: False
    show ?thesis
    proof (cases "sextet c")
      case None
      then show ?thesis using 2 c by simp
    next
      case (Some v)
      have v: "v < 64" using Some by (auto simp: sextet_def Let_def split: if_splits)
      consider "q = 0" | "q = 1" | "q = 2" | "q \<notin> {0, 1, 2}" by blast
      then show ?thesis
      proof cases
        case 1
        then show ?thesis using "2.IH"(3) [OF c Some] "2.prems" v c Some by simp
      next
        case 2
        then obtain r where r: "b64_scan 2 (v mod 16) 0 cs = Some r" "bs = (left * 4 + v div 16) # r"
          using "2.prems"(1) c Some by auto
        then have "bytes_ok r" using "2.IH"(4) [OF c Some] 2 by simp
        moreover have "left * 4 + v div 16 < 256" using "2.prems"(2) 2 v by linarith
        ultimately show ?thesis using r by (simp add: bytes_ok_def)
      next
        case 3
        then obtain r where r: "b64_scan 3 (v mod 4) 0 cs = Some r" "bs = (left * 16 + v div 4) # r"
          using "2.prems"(1) c Some by auto
        then have "bytes_ok r" using "2.IH"(5) [OF c Some] 3 by simp
        moreover have "left * 16 + v div 4 < 256" using "2.prems"(2) 3 v by linarith
        ultimately show ?thesis using r by (simp add: bytes_ok_def)
      next
        case 4
        then obtain r where r: "b64_scan 0 0 0 cs = Some r" "bs = (left * 64 + v) # r"
          using "2.prems"(1) c Some by auto
        then have "bytes_ok r" using "2.IH"(6) [OF c Some] 4 by simp
        moreover have "left * 64 + v < 256" using "2.prems"(2) 4 v by simp
        ultimately show ?thesis using r by (simp add: bytes_ok_def)
      qed
    qed
  qed
qed (auto simp: bytes_ok_def split: if_splits)


lemma encode_length_pos: "length bs = 32 \<Longrightarrow> urlsafe_b64encode bs \<noteq> []"
  by (cases bs rule: b64_encode.cases) (auto simp: urlsafe_b64encode_def)

lemma encoded_plain: "bytes_ok bs \<Longrightarrow> c \<in> set (urlsafe_b64encode bs) \<Longrightarrow> \<not> py_space c \<and> (of_char c :: nat) < 128"
proof -
  assume ok: "bytes_ok bs" and "c \<in> set (urlsafe_b64encode bs)"
  then obtain d where d: "d \<in> set (b64_encode bs)" "c = to_urlsafe d" by (auto simp: urlsafe_b64encode_def)
  have v: "v < 64 \<Longrightarrow> (of_char (sextet_char v) :: nat) \<in> {43, 47, 61} \<union> {48..57} \<union> {65..90} \<union> {97..122}" for v
    by (simp add: of_char_sextet) linarith
  have "(of_char d :: nat) \<in> {43, 47, 61} \<union> {48..57} \<union> {65..90} \<union> {97..122}"
    using encode_chars [OF ok d(1)]
  proof
    assume "\<exists>v < 64. d = sextet_char v"
    then show ?thesis using v by blast
  qed simp
  then show ?thesis by (auto simp: d(2) to_urlsafe_def py_space_def)
qed

lemma py_strip_around:
  assumes "\<forall>c \<in> set w. py_space c" "\<forall>c \<in> set w'. py_space c" "\<forall>c \<in> set t. \<not> py_space c" "t \<noteq> []"
  shows "py_strip (w @ t @ w') = t"
proof -
  have "dropWhile py_space (w @ t @ w') = t @ w'"
    using assms(1,3,4) by (cases t) (auto simp: dropWhile_append2)
  moreover have "rstrip_if py_space (t @ w') = t"
  proof -
    have "dropWhile py_space (rev w' @ rev t) = rev t"
      using assms(2-4) by (subst dropWhile_append2) (auto simp: dropWhile_eq_self_iff hd_rev)
    then show ?thesis by (simp add: rstrip_if_def)
  qed
  ultimately show ?thesis by (simp add: py_strip_def strip_if_def)
qed

text \<open>A key that was suggested is accepted, with white space around it too, and Fernet is handed the same key.\<close>

lemma suggested_key_accepted:
  assumes "length bs = 32" "bytes_ok bs" "\<forall>c \<in> set w. py_space c" "\<forall>c \<in> set w'. py_space c"
  shows "key_bytes (w @ suggested_key bs @ w') = Inr bs \<and> box_key (w @ suggested_key bs @ w') = Inr (suggested_key bs)"
proof -
  have "py_strip (w @ urlsafe_b64encode bs @ w') = urlsafe_b64encode bs"
    by (rule py_strip_around) (use assms encode_length_pos encoded_plain in auto)
  moreover have "ascii_only (urlsafe_b64encode bs)"
    using encoded_plain [OF assms(2)] by (simp add: ascii_only_def list_all_iff)
  ultimately show ?thesis
    using assms encode_length_pos decode_encode by (simp add: key_bytes_def box_key_def suggested_key_def FERNET_KEY_BYTES_def)
qed

lemma key_bytes_Inr: "key_bytes raw = Inr key \<Longrightarrow> length key = 32 \<and> bytes_ok key"
  using scan_bytes [of 0 0 0 "map from_urlsafe (py_strip raw)" key]
  by (auto simp: key_bytes_def urlsafe_b64decode_def FERNET_KEY_BYTES_def split: if_splits option.splits)

text \<open>What is not of the alphabet is dropped, so a mangled key is another key and not an error.\<close>

lemma mangled_key_accepted: "b64_scan q left pads (CHR ''!'' # s) = b64_scan q left pads s"
  by (simp add: sextet_def)

subsection \<open>Lemmas: the presets of the application\<close>

definition seeded :: "filter_preset list \<Rightarrow> string \<times> string list \<Rightarrow> bool" where
  "seeded ps np \<longleftrightarrow>
     (\<exists>p \<in> set ps. preset_name p = fst np \<and> preset_builtin p \<and> preset_exclude p = snd np \<and> preset_include p = [])"

lemma cat_presets_add [simp]:
  "cat_presets (add_preset n b ex inc s) = cat_presets s @
     [\<lparr>preset_id = next_id preset_id (cat_presets s), preset_name = n, preset_builtin = b, preset_exclude = ex, preset_include = inc\<rparr>]"
  by (simp add: add_preset_def)

lemma cat_presets_write [simp]: "cat_presets (write_preset p s) = map (replace_by preset_id p) (cat_presets s)"
  by (simp add: write_preset_def)

lemma seed_one_seeds:
  assumes "coherent s" "\<forall>p \<in> set ps. preset_builtin p" "\<forall>p \<in> set ps. preset_name p = fst np \<longrightarrow> p \<in> set (cat_presets s)"
    and "seed_one ps np s = Some s'"
  shows "seeded (cat_presets s') np"
    and "q \<in> set (cat_presets s) \<Longrightarrow> preset_name q \<noteq> fst np \<Longrightarrow> q \<in> set (cat_presets s')"
proof -
  have "seeded (cat_presets s') np \<and> (q \<in> set (cat_presets s) \<longrightarrow> preset_name q \<noteq> fst np \<longrightarrow> q \<in> set (cat_presets s'))"
  proof (cases "List.find (\<lambda>p. preset_name p = fst np) (rev ps)")
    case None
    then have "s' = add_preset (fst np) True (snd np) [] s" using assms(4) by (auto simp: seed_one_def split: if_splits)
    then show ?thesis by (simp add: seeded_def)
  next
    case (Some p)
    then have p: "p \<in> set ps" "preset_name p = fst np" using find_member by fastforce+
    then have row: "p \<in> set (cat_presets s)" and b: "preset_builtin p" using assms(2,3) by auto
    let ?p' = "p\<lparr>preset_exclude := snd np, preset_include := []\<rparr>"
    have s': "s' = write_preset ?p' s \<or> s' = s \<and> preset_exclude p = snd np \<and> preset_include p = []"
      using assms(4) Some by (auto simp: seed_one_def split: if_splits)
    have ids: "preset_id q \<noteq> preset_id p" if "q \<in> set (cat_presets s)" "preset_name q \<noteq> fst np"
      using assms(1) that row p(2) by (auto simp: coherent_def keyed_def distinct_map inj_on_def)
    have "?p' \<in> set (cat_presets (write_preset ?p' s))" using row by (force simp: replace_by_def)
    then have "seeded (cat_presets (write_preset ?p' s)) np" using p(2) b by (force simp: seeded_def)
    moreover have "q \<in> set (cat_presets (write_preset ?p' s))" if "q \<in> set (cat_presets s)" "preset_name q \<noteq> fst np"
      using ids [OF that] that(1) by (force simp: replace_by_def)
    moreover have "preset_exclude p = snd np \<Longrightarrow> preset_include p = [] \<Longrightarrow> seeded (cat_presets s) np"
      using row p(2) b by (auto simp: seeded_def)
    ultimately show ?thesis using s' by blast
  qed
  then show "seeded (cat_presets s') np"
    and "q \<in> set (cat_presets s) \<Longrightarrow> preset_name q \<noteq> fst np \<Longrightarrow> q \<in> set (cat_presets s')" by blast+
qed

lemma seed_fold_seeds:
  "coherent s \<Longrightarrow> still_there ps s \<Longrightarrow> \<forall>p \<in> set ps. preset_builtin p \<Longrightarrow> distinct (map fst nps) \<Longrightarrow>
   \<forall>p \<in> set ps. preset_name p \<in> fst ` set nps \<longrightarrow> p \<in> set (cat_presets s) \<Longrightarrow>
   fold (\<lambda>np acc. Option.bind acc (seed_one ps np)) nps (Some s) = Some s' \<Longrightarrow>
   (\<forall>np \<in> set nps. seeded (cat_presets s') np) \<and>
   (\<forall>q \<in> set (cat_presets s). preset_name q \<notin> fst ` set nps \<longrightarrow> q \<in> set (cat_presets s'))"
proof (induction nps arbitrary: s)
  case (Cons np nps)
  obtain s1 where s1: "seed_one ps np s = Some s1"
    using Cons.prems(6) by (cases "seed_one ps np s") (auto simp: seed_fold_None)
  have now: "seeded (cat_presets s1) np" "q \<in> set (cat_presets s) \<Longrightarrow> preset_name q \<noteq> fst np \<Longrightarrow> q \<in> set (cat_presets s1)" for q
    using seed_one_seeds [OF Cons.prems(1,3) _ s1] Cons.prems(5) by auto
  have c: "coherent s1" "still_there ps s1" using seed_one_coherent [OF Cons.prems(1,2) s1] by auto
  have names: "\<forall>p \<in> set ps. preset_name p \<in> fst ` set nps \<longrightarrow> p \<in> set (cat_presets s1)"
  proof (intro ballI impI)
    fix p assume p: "p \<in> set ps" "preset_name p \<in> fst ` set nps"
    then have "preset_name p \<noteq> fst np" using Cons.prems(4) by (metis distinct.simps(2) list.simps(9) set_map)
    then show "p \<in> set (cat_presets s1)" using p Cons.prems(5) now(2) by simp
  qed
  have rest: "(\<forall>np \<in> set nps. seeded (cat_presets s') np) \<and>
      (\<forall>q \<in> set (cat_presets s1). preset_name q \<notin> fst ` set nps \<longrightarrow> q \<in> set (cat_presets s'))"
    by (rule Cons.IH [OF c Cons.prems(3) _ names]) (use Cons.prems(4,6) s1 in \<open>simp_all\<close>)
  obtain p where p: "p \<in> set (cat_presets s1)" "preset_name p = fst np" "preset_builtin p" "preset_exclude p = snd np"
    "preset_include p = []" using now(1) by (auto simp: seeded_def)
  moreover have "p \<in> set (cat_presets s')" using rest p(1,2) Cons.prems(4) by simp
  ultimately have "seeded (cat_presets s') np" by (auto simp: seeded_def)
  then show ?case using rest now(2) by simp
qed simp

lemma seed_seeds:
  assumes "coherent s" "seed_builtin_presets s = Some s'"
  shows "np \<in> set BUILTIN_PRESETS \<Longrightarrow> seeded (cat_presets s') np"
proof -
  assume np: "np \<in> set BUILTIN_PRESETS"
  have "distinct (map fst BUILTIN_PRESETS)" by (simp add: BUILTIN_PRESETS_def)
  then have "\<forall>np \<in> set BUILTIN_PRESETS. seeded (cat_presets s') np"
    by (intro seed_fold_seeds [OF assms(1) _ _ _ _ assms(2) [unfolded seed_builtin_presets_def], THEN conjunct1])
      (auto simp: still_there_def)
  then show ?thesis using np by blast
qed


subsection \<open>Lemmas: a start\<close>

abbreviation deployed :: "'trig deployment \<Rightarrow> 'trig catalog" where
  "deployed d \<equiv> in_catalog (dp_installation d)"

abbreviation deployed_store :: "'trig deployment \<Rightarrow> store" where
  "deployed_store d \<equiv> adm_db (cat_admin (deployed d))"

lemma nothing_active: "active_runs (release_interrupted_runs t st) i = []"
  by (auto simp: active_runs_def release_interrupted_runs_def filter_empty_conv release_run_def active_status_def)

lemma release_idle: "\<forall>i. active_runs st i = [] \<Longrightarrow> release_interrupted_runs t st = st"
proof -
  assume "\<forall>i. active_runs st i = []"
  then have "map (release_run t) (db_runs st) = db_runs st"
    by (intro map_idI) (auto simp: active_runs_def filter_empty_conv release_run_def active_status_def)
  then show ?thesis by (simp add: release_interrupted_runs_def)
qed

lemma release_at_start_simps [simp]:
  "cat_presets (release_at_start t s) = cat_presets s" "cat_connections (release_at_start t s) = cat_connections s"
  "cat_jobs (release_at_start t s) = cat_jobs s" "cat_credentials (release_at_start t s) = cat_credentials s"
  "adm_db (cat_admin (release_at_start t s)) = release_interrupted_runs t (adm_db (cat_admin s))"
  by (simp_all add: release_at_start_def cat_presets_def cat_connections_def cat_jobs_def release_interrupted_runs_def)

lemma coherent_release: "coherent s \<Longrightarrow> coherent (release_at_start t s)"
  by (simp add: coherent_def)

lemma release_again: "\<forall>i. active_runs (adm_db (cat_admin s)) i = [] \<Longrightarrow> release_at_start t s = s"
  by (simp add: release_at_start_def release_idle)

lemma seed_one_again:
  assumes "coherent s" "seeded (cat_presets s) np"
  shows "seed_one (filter preset_builtin (cat_presets s)) np s = Some s"
proof -
  obtain p where p: "p \<in> set (cat_presets s)" "preset_name p = fst np" "preset_builtin p" "preset_exclude p = snd np"
    "preset_include p = []" using assms(2) by (auto simp: seeded_def)
  have "List.find (\<lambda>q. preset_name q = fst np) (rev (filter preset_builtin (cat_presets s))) \<noteq> None"
    using p by (auto simp: find_None_iff)
  then obtain q where q: "List.find (\<lambda>q. preset_name q = fst np) (rev (filter preset_builtin (cat_presets s))) = Some q" by blast
  then have "q \<in> set (cat_presets s)" "preset_name q = preset_name p" using find_member [OF q] p(2) by auto
  then have "q = p" using keyed_same_name [of preset_id preset_name] assms(1) p(1) by (auto simp: coherent_def)
  then show ?thesis using q p(4,5) by (simp add: seed_one_def)
qed

lemma seed_again:
  assumes "coherent s" "\<forall>np \<in> set BUILTIN_PRESETS. seeded (cat_presets s) np"
  shows "seed_builtin_presets s = Some s"
proof -
  have "set nps \<subseteq> set BUILTIN_PRESETS \<Longrightarrow>
      fold (\<lambda>np acc. Option.bind acc (seed_one (filter preset_builtin (cat_presets s)) np)) nps (Some s) = Some s" for nps
    by (induction nps) (simp_all add: seed_one_again assms)
  then show ?thesis by (simp add: seed_builtin_presets_def)
qed

lemma checked_fingerprint:
  "check_key_fingerprint fp rows = Some rows' \<Longrightarrow> map_of rows' SECRET_KEY_FINGERPRINT = Some (Some fp)"
  "check_key_fingerprint fp rows = Some rows' \<Longrightarrow> map_of rows SECRET_KEY_FINGERPRINT = Some v \<Longrightarrow> rows' = rows"
  by (auto simp: check_key_fingerprint_def map_of_dict_put split: option.splits if_splits)

lemma bootstrap_again:
  "bootstrap_admin x s t us = Inr (new, us') \<Longrightarrow> \<exists>new'. bootstrap_admin x s t' us' = Inr (new', us')"
  by (auto simp: bootstrap_admin_def split: if_splits option.splits)

text \<open>What the operator's settings screen saves never touches the fingerprint.\<close>

lemma fingerprint_not_a_preference:
  "map_of (save_preferences p rows) SECRET_KEY_FINGERPRINT = map_of rows SECRET_KEY_FINGERPRINT"
proof -
  have "SECRET_KEY_FINGERPRINT \<notin> (\<lambda>(k, v). PREFIX @ k) ` set kvs \<Longrightarrow>
      map_of (fold (\<lambda>(k, v). dict_put (PREFIX @ k) (Some v)) kvs rows) SECRET_KEY_FINGERPRINT =
        map_of rows SECRET_KEY_FINGERPRINT" for kvs
    by (induction kvs arbitrary: rows) (auto simp: map_of_dict_put)
  moreover have "SECRET_KEY_FINGERPRINT \<notin> (\<lambda>(k, v). PREFIX @ k) ` set kvs" for kvs :: "(string \<times> string) list"
    by (auto simp: SECRET_KEY_FINGERPRINT_def PREFIX_def)
  ultimately show ?thesis by (simp add: save_preferences_def)
qed

lemma startup_passed:
  assumes "run_startup_checks x s fp t d = (None, d')"
  obtains rows new c where "check_key_fingerprint fp (in_settings (dp_installation d)) = Some rows"
    "bootstrap_admin x s t (dp_users d) = Inr (new, dp_users d')" "seed_builtin_presets (deployed d) = Some c"
    "d' = d\<lparr>dp_installation := \<lparr>in_catalog = release_at_start t c, in_settings = rows\<rparr>, dp_users := dp_users d'\<rparr>"
  using assms by (auto simp: run_startup_checks_def Let_def split: option.splits sum.splits)


lemma started:
  assumes "coherent (deployed d)" "create_app hm x s raw t d = (None, d')"
  obtains key where "key_bytes raw = Inr key" "length key = 32"
    "map_of (in_settings (dp_installation d')) SECRET_KEY_FINGERPRINT = Some (Some (key_fingerprint hm key))"
    "\<forall>np \<in> set BUILTIN_PRESETS. seeded (cat_presets (deployed d')) np" "coherent (deployed d')"
    "\<forall>i. active_runs (deployed_store d') i = []" "dp_users d' = [] \<longrightarrow> admin_password s \<in> {None, Some []}"
    "\<forall>t'. create_app hm x s raw t' d' = (None, d')"
proof -
  obtain key where key: "key_bytes raw = Inr key" and run: "run_startup_checks x s (key_fingerprint hm key) t d = (None, d')"
    using assms(2) by (auto simp: create_app_def split: sum.splits)
  from run obtain rows new c where parts: "check_key_fingerprint (key_fingerprint hm key) (in_settings (dp_installation d)) = Some rows"
    "bootstrap_admin x s t (dp_users d) = Inr (new, dp_users d')" "seed_builtin_presets (deployed d) = Some c"
    "d' = d\<lparr>dp_installation := \<lparr>in_catalog = release_at_start t c, in_settings = rows\<rparr>, dp_users := dp_users d'\<rparr>"
    by (rule startup_passed)
  from parts(4) have "dp_installation d' = \<lparr>in_catalog = release_at_start t c, in_settings = rows\<rparr>"
    by (metis deployment.select_convs(1) deployment.surjective deployment.update_convs)
  then have d': "deployed d' = release_at_start t c" "in_settings (dp_installation d') = rows" by simp_all
  have fp: "map_of rows SECRET_KEY_FINGERPRINT = Some (Some (key_fingerprint hm key))" using checked_fingerprint(1) [OF parts(1)] .
  have seeds: "\<forall>np \<in> set BUILTIN_PRESETS. seeded (cat_presets (deployed d')) np"
    using seed_seeds [OF assms(1) parts(3)] by (simp add: d')
  have coherent: "coherent (deployed d')" using coherent_release coherent_seed [OF assms(1) parts(3)] by (simp add: d')
  have idle: "\<forall>i. active_runs (deployed_store d') i = []" by (simp add: d' nothing_active)
  have users: "dp_users d' = [] \<longrightarrow> admin_password s \<in> {None, Some []}"
    "bootstrap_admin x s t' (dp_users d') = Inr (False, dp_users d')" for t'
    using parts(2) by (auto simp: bootstrap_admin_def split: if_splits option.splits)
  have "create_app hm x s raw t' d' = (None, d')" for t'
    using fp users(2) seed_again [OF coherent seeds] release_again [OF idle]
    by (simp add: create_app_def key run_startup_checks_def check_key_fingerprint_def d'(2) Let_def)
  then show thesis
    using that [of key] key key_bytes_Inr [OF key] fp seeds coherent idle users(1) by (simp add: d'(2))
qed

lemma key_changed:
  assumes "map_of (in_settings (dp_installation d)) SECRET_KEY_FINGERPRINT = Some (Some fp)"
    and "key_bytes raw = Inr key" "key_fingerprint hm key \<noteq> fp"
  shows "create_app hm x s raw t d = (Some KeyChanged, d)"
  using assms by (auto simp: create_app_def run_startup_checks_def check_key_fingerprint_def)

lemma refused_keeps:
  assumes "create_app hm x s raw t d = (refused, d')"
  shows "refused \<noteq> None \<Longrightarrow> deployed d' = deployed d"
    and "map_of (in_settings (dp_installation d)) SECRET_KEY_FINGERPRINT = Some v \<Longrightarrow>
      map_of (in_settings (dp_installation d')) SECRET_KEY_FINGERPRINT = Some v"
proof -
  show "refused \<noteq> None \<Longrightarrow> deployed d' = deployed d"
    using assms by (auto simp: create_app_def run_startup_checks_def Let_def split: sum.splits option.splits)
  assume v: "map_of (in_settings (dp_installation d)) SECRET_KEY_FINGERPRINT = Some v"
  have "check_key_fingerprint fp (in_settings (dp_installation d)) = Some rows \<Longrightarrow> map_of rows SECRET_KEY_FINGERPRINT = Some v" for fp rows
    using checked_fingerprint(2) [OF _ v] v by metis
  then show "map_of (in_settings (dp_installation d')) SECRET_KEY_FINGERPRINT = Some v"
    using assms v by (auto simp: create_app_def run_startup_checks_def Let_def split: sum.splits option.splits)
qed

subsection \<open>Properties\<close>

text \<open>C25. What a start guarantees. An instance that starts holds the fingerprint of the key it started with, no run is
  active in it, every preset of the application is there as the code has it, it has an account unless none was asked for,
  and its tables are coherent. Starting again with the same key changes nothing, and starting with a key of another
  fingerprint is refused and changes nothing. A recorded fingerprint is never replaced, and a start that is refused leaves
  the catalog as it was.\<close>

theorem startup_sound:
  assumes "coherent (deployed d)" "create_app hm x s raw t d = (refused, d')"
  shows "(refused = None \<longrightarrow>
      (\<exists>key. key_bytes raw = Inr key \<and> length key = 32 \<and>
         map_of (in_settings (dp_installation d')) SECRET_KEY_FINGERPRINT = Some (Some (key_fingerprint hm key)) \<and>
         (\<forall>raw' key' s' t'. key_bytes raw' = Inr key' \<and> key_fingerprint hm key' \<noteq> key_fingerprint hm key \<longrightarrow>
            create_app hm x s' raw' t' d' = (Some KeyChanged, d'))) \<and>
      (\<forall>i. active_runs (deployed_store d') i = []) \<and>
      (\<forall>(name, rules) \<in> set BUILTIN_PRESETS. \<exists>p \<in> set (cat_presets (deployed d')).
         preset_name p = name \<and> preset_builtin p \<and> preset_exclude p = rules) \<and>
      (dp_users d' = [] \<longrightarrow> admin_password s \<in> {None, Some []}) \<and> coherent (deployed d') \<and>
      (\<forall>t'. create_app hm x s raw t' d' = (None, d'))) \<and>
    (\<forall>v. map_of (in_settings (dp_installation d)) SECRET_KEY_FINGERPRINT = Some v \<longrightarrow>
       map_of (in_settings (dp_installation d')) SECRET_KEY_FINGERPRINT = Some v) \<and>
    (refused \<noteq> None \<longrightarrow> deployed d' = deployed d)"
proof (intro conjI allI impI)
  assume "refused = None"
  then have "create_app hm x s raw t d = (None, d')" using assms(2) by simp
  from started [OF assms(1) this] obtain key where s: "key_bytes raw = Inr key" "length key = 32"
    "map_of (in_settings (dp_installation d')) SECRET_KEY_FINGERPRINT = Some (Some (key_fingerprint hm key))"
    "\<forall>np \<in> set BUILTIN_PRESETS. seeded (cat_presets (deployed d')) np" "coherent (deployed d')"
    "\<forall>i. active_runs (deployed_store d') i = []" "dp_users d' = [] \<longrightarrow> admin_password s \<in> {None, Some []}"
    "\<forall>t'. create_app hm x s raw t' d' = (None, d')" .
  show "\<exists>key. key_bytes raw = Inr key \<and> length key = 32 \<and>
      map_of (in_settings (dp_installation d')) SECRET_KEY_FINGERPRINT = Some (Some (key_fingerprint hm key)) \<and>
      (\<forall>raw' key' s' t'. key_bytes raw' = Inr key' \<and> key_fingerprint hm key' \<noteq> key_fingerprint hm key \<longrightarrow>
         create_app hm x s' raw' t' d' = (Some KeyChanged, d'))"
    using s(1-3) key_changed [OF s(3)] by blast
  show "\<forall>(name, rules) \<in> set BUILTIN_PRESETS. \<exists>p \<in> set (cat_presets (deployed d')).
      preset_name p = name \<and> preset_builtin p \<and> preset_exclude p = rules"
  proof (intro ballI, clarify)
    fix name rules assume "(name, rules) \<in> set BUILTIN_PRESETS"
    then have "seeded (cat_presets (deployed d')) (name, rules)" using s(4) by blast
    then show "\<exists>p \<in> set (cat_presets (deployed d')). preset_name p = name \<and> preset_builtin p \<and> preset_exclude p = rules"
      by (auto simp: seeded_def)
  qed
  show "active_runs (deployed_store d') i = []" for i using s(6) by blast
  show "dp_users d' = [] \<Longrightarrow> admin_password s \<in> {None, Some []}" using s(7) by blast
  show "coherent (deployed d')" by (rule s(5))
  show "create_app hm x s raw t' d' = (None, d')" for t' using s(8) by blast
qed (use refused_keeps [OF assms(2)] in blast)+


definition sample_deployment :: "string deployment" where
  "sample_deployment = \<lparr>dp_installation = sample_source, dp_users = []\<rparr>"

definition sample_key :: "nat \<Rightarrow> string" where
  "sample_key b = suggested_key (replicate 32 b)"

lemma sample_key_bytes: "b < 256 \<Longrightarrow> key_bytes (sample_key b) = Inr (replicate 32 b)"
  using suggested_key_accepted [of "replicate 32 b" "[]" "[]"] by (simp add: sample_key_def bytes_ok_def)

theorem startup_sound_witness:
  "\<exists>d. create_app (map (\<lambda>b. char_of b)) sample_access_ext sample_access (sample_key 65) 0 sample_deployment = (None, d) \<and>
     create_app (map (\<lambda>b. char_of b)) sample_access_ext sample_access (sample_key 66) 1 d = (Some KeyChanged, d)"
proof -
  let ?start = "create_app (map (\<lambda>b. char_of b)) sample_access_ext sample_access (sample_key 65) 0 sample_deployment"
  have run: "fst ?start = None"
    by (simp add: create_app_def sample_key_bytes) code_simp
  have "coherent (deployed sample_deployment)" using sample_source_facts(1) by (simp add: sample_deployment_def)
  from startup_sound [OF this prod.collapse [symmetric]] run
  have "\<exists>key. key_bytes (sample_key 65) = Inr key \<and> (\<forall>raw' key' s' t'. key_bytes raw' = Inr key' \<and>
      key_fingerprint (map (\<lambda>b. char_of b)) key' \<noteq> key_fingerprint (map (\<lambda>b. char_of b)) key \<longrightarrow>
      create_app (map (\<lambda>b. char_of b)) sample_access_ext s' raw' t' (snd ?start) = (Some KeyChanged, snd ?start))"
    by blast
  moreover have "key_fingerprint (map (\<lambda>b. char_of b)) (replicate 32 66) \<noteq> key_fingerprint (map (\<lambda>b. char_of b)) (replicate 32 65)"
    by code_simp
  ultimately have "create_app (map (\<lambda>b. char_of b)) sample_access_ext sample_access (sample_key 66) 1 (snd ?start) =
      (Some KeyChanged, snd ?start)"
    by (auto simp: sample_key_bytes)
  then show ?thesis using run by (intro exI [of _ "snd ?start"]) (simp add: prod_eq_iff)
qed

text \<open>A preset of the operator that has the name of one the application brings, as after an update that adds one, keeps the
  instance from starting, with a traceback instead of a message.\<close>

lemma operators_preset_stops_start:
  assumes "cat_presets (deployed d) = [\<lparr>preset_id = 1, preset_name = ''Downloads in progress'', preset_builtin = False,
      preset_exclude = [], preset_include = []\<rparr>]"
    and "bootstrap_admin x s t (dp_users d) = Inr (new, us)" "check_key_fingerprint fp (in_settings (dp_installation d)) = Some rows"
  shows "fst (run_startup_checks x s fp t d) = Some SeedRaised \<and> exit_status SeedRaised = None"
  using assms(2,3)
  by (simp add: run_startup_checks_def seed_builtin_presets_def BUILTIN_PRESETS_def seed_one_def assms(1) exit_status_def Let_def)

text \<open>A link to a filtered page comes back from the login without what follows the first ampersand.\<close>

lemma deep_link_loses_query:
  "handle_unauthenticated ''/history'' ''q=film&page=2'' [sample_user] = ToLogin ''/login?next=/history?q=film&page=2''"
  "query_value ''next'' ''/login?next=/history?q=film&page=2'' = Some ''/history?q=film''"
  by code_simp+

text \<open>Every response carries the four headers, what a route set goes before, and nothing is set twice.\<close>

lemma headers_sent:
  "name \<in> fst ` set HEADERS \<Longrightarrow> length (filter (\<lambda>(n, v). py_lower n = name) (with_headers hs)) =
     max 1 (length (filter (\<lambda>(n, v). py_lower n = name) hs))"
  "prefix hs (with_headers hs)"
proof -
  have lower: "map (py_lower \<circ> fst) HEADERS = map fst HEADERS" by code_simp
  have distinct: "distinct (map fst HEADERS)" by code_simp
  have keep: "py_lower n = n" if "(n, v) \<in> set HEADERS" for n v
    using arg_cong [OF lower, of "\<lambda>xs. xs"] that by (force simp: map_eq_conv)
  show "prefix hs (with_headers hs)" by (simp add: with_headers_def)
  assume name: "name \<in> fst ` set HEADERS"
  have count: "length (filter (\<lambda>(n, v). py_lower n = name) (filter P xs)) = (if P (name, the (map_of xs name)) then 1 else 0)"
    if "distinct (map fst xs)" "\<forall>(n, v) \<in> set xs. py_lower n = n" "name \<in> fst ` set xs" for P and xs :: "(string \<times> string) list"
    using that
  proof (induction xs)
    case (Cons y xs)
    obtain n v where y: "y = (n, v)" by (cases y)
    show ?case
    proof (cases "n = name")
      case True
      then have "filter (\<lambda>(n, v). py_lower n = name) (filter P xs) = []"
        using Cons.prems y by (fastforce simp: filter_empty_conv image_iff)
      then show ?thesis using Cons.prems True y by simp
    next
      case False
      then show ?thesis using Cons y by auto
    qed
  qed simp
  show "length (filter (\<lambda>(n, v). py_lower n = name) (with_headers hs)) =
      max 1 (length (filter (\<lambda>(n, v). py_lower n = name) hs))"
  proof (cases "name \<in> py_lower ` fst ` set hs")
    case True
    then have "filter (\<lambda>(n, v). py_lower n = name) hs \<noteq> []" by (auto simp: filter_empty_conv)
    then have "1 \<le> length (filter (\<lambda>(n, v). py_lower n = name) hs)" by (cases "filter (\<lambda>(n, v). py_lower n = name) hs") auto
    moreover have "filter (\<lambda>(n, v). py_lower n = name) (filter (\<lambda>(n, v). n \<notin> py_lower ` fst ` set hs) HEADERS) = []"
      unfolding filter_empty_conv
    proof
      fix x
      assume "x \<in> set (filter (\<lambda>(n, v). n \<notin> py_lower ` fst ` set hs) HEADERS)"
      then have x: "(fst x, snd x) \<in> set HEADERS" "fst x \<notin> py_lower ` fst ` set hs" by (simp_all add: case_prod_beta)
      then have "py_lower (fst x) \<noteq> name" using keep [OF x(1)] True by metis
      then show "\<not> (case x of (n, v) \<Rightarrow> py_lower n = name)" by (simp add: case_prod_beta)
    qed
    ultimately show ?thesis by (simp add: with_headers_def)
  next
    case False
    then have "filter (\<lambda>(n, v). py_lower n = name) hs = []" by (force simp: filter_empty_conv)
    moreover have "\<forall>(n, v) \<in> set HEADERS. py_lower n = n" using keep by blast
    ultimately show ?thesis using False count [OF distinct _ name, of "\<lambda>(n, v). n \<notin> py_lower ` fst ` set hs"]
      by (simp add: with_headers_def)
  qed
qed

text \<open>The answer anyone may read depends on the binaries only through whether they are in order.\<close>

lemma liveness_hides_versions: "all_ok r = all_ok r' \<Longrightarrow> liveness db_error r = liveness db_error r'"
  by (simp add: liveness_def health_status_def)

end
