(* ===== verification/Migrations.thy ===== *)
theory Migrations
  imports HS_Prelude
begin

text \<open>
  The schema: \<open>migrations/versions\<close> as operations on a database with rows, and the tables \<open>app/models\<close> declares. A
  column has the type SQLAlchemy renders for SQLite: an enum without a native type is a VARCHAR of its length. A value
  that is no integer is the text it is stored as. \<open>rec\<close> is Alembic's answer to whether a batch recreates its table; it is
  documented to do so if anything but added columns and indexes is in the batch. A table that is recreated is copied,
  dropped and renamed, and \<open>migrations/env.py\<close> runs with foreign keys on, so SQLite deletes the rows of the old one first,
  with what their deletion entails.
\<close>

subsection \<open>A database\<close>

datatype sql_type =
    Varchar nat | TextType | IntegerType | BigIntType | BooleanType | FloatType | DateTimeType | JsonType | BlobType

datatype sql_value = Null | Num int | Str string

datatype on_delete = Restrict | Cascade

record column =
  col_name :: string
  col_type :: sql_type
  col_null :: bool

record index =
  ix_name :: string
  ix_columns :: "string list"
  ix_unique :: bool
  ix_where :: "(string \<times> string list) option"

text \<open>A reference is a column, the table whose \<open>id\<close> it holds, and what the deletion of that row does.\<close>

record table =
  tab_name :: string
  tab_columns :: "column list"
  tab_key :: "string list"
  tab_unique :: "string list"
  tab_refs :: "(string \<times> string \<times> on_delete) list"
  tab_indexes :: "index list"

type_synonym sql_row = "(string \<times> sql_value) list"
type_synonym database = "(table \<times> sql_row list) list"

definition cell :: "sql_row \<Rightarrow> string \<Rightarrow> sql_value" where
  "cell r c = (case map_of r c of None \<Rightarrow> Null | Some v \<Rightarrow> v)"

definition entry :: "string \<Rightarrow> database \<Rightarrow> (table \<times> sql_row list) option" where
  "entry n db = List.find (\<lambda>e. tab_name (fst e) = n) db"

definition rows_of :: "string \<Rightarrow> database \<Rightarrow> sql_row list" where
  "rows_of n db = (case entry n db of None \<Rightarrow> [] | Some (t, rows) \<Rightarrow> rows)"

definition put_entry :: "string \<Rightarrow> table \<times> sql_row list \<Rightarrow> database \<Rightarrow> database" where
  "put_entry n new db = map (\<lambda>e. if tab_name (fst e) = n then new else e) db"

subsection \<open>Operations\<close>

datatype alter = AddColumn column sql_value | DropColumn string | CreateIndex index | DropIndex string

text \<open>\<open>AlterTable\<close> is \<open>op.add_column\<close> or \<open>op.drop_column\<close>; \<open>UpdateRows\<close> sets a column where another has a value.\<close>

datatype migration_op =
    CreateTable table
  | DropTable string
  | AlterTable string alter
  | BatchAlter string "alter list"
  | UpdateRows string "string \<times> sql_value" "string \<times> sql_value"

text \<open>The columns that keep a column from being dropped.\<close>

definition held_columns :: "table \<Rightarrow> string list" where
  "held_columns t = tab_key t @ tab_unique t @ map fst (tab_refs t) @ concat (map ix_columns (tab_indexes t))"

definition indexed :: "index \<Rightarrow> sql_row \<Rightarrow> bool" where
  "indexed i r = (case ix_where i of None \<Rightarrow> True | Some (c, vs) \<Rightarrow> cell r c \<in> Str ` set vs)"

fun alter_table :: "alter \<Rightarrow> table \<times> sql_row list \<Rightarrow> (table \<times> sql_row list) option" where
  "alter_table (AddColumn c d) (t, rows) =
     (if col_name c \<in> set (map col_name (tab_columns t)) \<or> (\<not> col_null c \<and> d = Null) then None
      else Some (t\<lparr>tab_columns := tab_columns t @ [c]\<rparr>, map (\<lambda>r. r @ [(col_name c, d)]) rows))"
| "alter_table (DropColumn n) (t, rows) =
     (if n \<notin> set (map col_name (tab_columns t)) \<or> n \<in> set (held_columns t) then None
      else Some (t\<lparr>tab_columns := filter (\<lambda>c. col_name c \<noteq> n) (tab_columns t)\<rparr>, map (filter (\<lambda>(c, v). c \<noteq> n)) rows))"
| "alter_table (CreateIndex i) (t, rows) =
     (if ix_name i \<in> set (map ix_name (tab_indexes t)) \<or>
         (ix_unique i \<and> \<not> distinct (map (\<lambda>r. map (cell r) (ix_columns i)) (filter (indexed i) rows))) then None
      else Some (t\<lparr>tab_indexes := tab_indexes t @ [i]\<rparr>, rows))"
| "alter_table (DropIndex n) (t, rows) =
     (if n \<notin> set (map ix_name (tab_indexes t)) then None
      else Some (t\<lparr>tab_indexes := filter (\<lambda>i. ix_name i \<noteq> n) (tab_indexes t)\<rparr>, rows))"

fun alter_all :: "alter list \<Rightarrow> table \<times> sql_row list \<Rightarrow> (table \<times> sql_row list) option" where
  "alter_all [] e = Some e"
| "alter_all (a # as) e = Option.bind (alter_table a e) (alter_all as)"

text \<open>The rows the deletion of others takes along, \<open>gone\<close> the tables and ids deleted so far; None where a reference
  restricts it. A table refers to tables made before it only.\<close>

definition refers :: "on_delete \<Rightarrow> (string \<times> sql_value) list \<Rightarrow> table \<Rightarrow> sql_row \<Rightarrow> bool" where
  "refers action gone t r = list_ex (\<lambda>(c, p, a). a = action \<and> cell r c \<noteq> Null \<and> (p, cell r c) \<in> set gone) (tab_refs t)"

fun cascade :: "(string \<times> sql_value) list \<Rightarrow> database \<Rightarrow> database option" where
  "cascade gone [] = Some []"
| "cascade gone ((t, rows) # db) =
     (if list_ex (refers Restrict gone t) rows then None
      else map_option ((#) (t, filter (\<lambda>r. \<not> refers Cascade gone t r) rows))
             (cascade (gone @ map (\<lambda>r. (tab_name t, cell r ''id'')) (filter (refers Cascade gone t) rows)) db))"

definition delete_all :: "string \<Rightarrow> database \<Rightarrow> database option" where
  "delete_all n db = cascade (map (\<lambda>r. (n, cell r ''id'')) (rows_of n db)) db"

definition set_cell :: "string \<times> sql_value \<Rightarrow> sql_row \<Rightarrow> sql_row" where
  "set_cell cv = map (\<lambda>(c, v). if c = fst cv then cv else (c, v))"

fun run_op :: "(alter list \<Rightarrow> bool) \<Rightarrow> migration_op \<Rightarrow> database \<Rightarrow> database option" where
  "run_op rec (CreateTable t) db = (if entry (tab_name t) db = None then Some (db @ [(t, [])]) else None)"
| "run_op rec (DropTable n) db =
     (if entry n db = None then None else map_option (filter (\<lambda>e. tab_name (fst e) \<noteq> n)) (delete_all n db))"
| "run_op rec (AlterTable n a) db =
     Option.bind (entry n db) (\<lambda>e. map_option (\<lambda>new. put_entry n new db) (alter_table a e))"
| "run_op rec (BatchAlter n as) db =
     Option.bind (entry n db) (\<lambda>e. Option.bind (alter_all as e) (\<lambda>new.
       map_option (put_entry n new) (if rec as then delete_all n db else Some db)))"
| "run_op rec (UpdateRows n test new) db =
     Option.bind (entry n db) (\<lambda>(t, rows).
       Some (put_entry n (t, map (\<lambda>r. if cell r (fst test) = snd test then set_cell new r else r) rows) db))"

fun run_ops :: "(alter list \<Rightarrow> bool) \<Rightarrow> migration_op list \<Rightarrow> database \<Rightarrow> database option" where
  "run_ops rec [] db = Some db"
| "run_ops rec (op # ops) db = Option.bind (run_op rec op db) (run_ops rec ops)"

definition required :: "string \<Rightarrow> sql_type \<Rightarrow> column" where
  "required n ty = \<lparr>col_name = n, col_type = ty, col_null = False\<rparr>"

definition nullable :: "string \<Rightarrow> sql_type \<Rightarrow> column" where
  "nullable n ty = \<lparr>col_name = n, col_type = ty, col_null = True\<rparr>"

definition plain_index :: "string \<Rightarrow> string list \<Rightarrow> index" where
  "plain_index n cs = \<lparr>ix_name = n, ix_columns = cs, ix_unique = False, ix_where = None\<rparr>"

text \<open>\<open>sa.false()\<close> as a server default.\<close>

definition sql_false :: sql_value where "sql_false = Num 0"

subsection \<open>The revisions\<close>

definition base_credential :: table where
  "base_credential =
     \<lparr>tab_name = ''credential'', tab_columns =
       [required ''id'' IntegerType, required ''name'' (Varchar 128), required ''kind'' (Varchar 32),
        required ''secret_ciphertext'' BlobType, nullable ''key_passphrase_ciphertext'' BlobType,
        required ''created_at'' DateTimeType, required ''updated_at'' DateTimeType],
      tab_key = [''id''], tab_unique = [''name''],
      tab_refs = [],
      tab_indexes = []\<rparr>"

definition base_filter_preset :: table where
  "base_filter_preset =
     \<lparr>tab_name = ''filter_preset'', tab_columns =
       [required ''id'' IntegerType, required ''name'' (Varchar 128), required ''builtin'' BooleanType,
        required ''rules'' JsonType, required ''created_at'' DateTimeType, required ''updated_at'' DateTimeType],
      tab_key = [''id''], tab_unique = [''name''],
      tab_refs = [],
      tab_indexes = []\<rparr>"

definition base_setting :: table where
  "base_setting =
     \<lparr>tab_name = ''setting'', tab_columns =
       [required ''key'' (Varchar 128), nullable ''value'' TextType, required ''updated_at'' DateTimeType],
      tab_key = [''key''], tab_unique = [],
      tab_refs = [],
      tab_indexes = []\<rparr>"

definition base_user :: table where
  "base_user =
     \<lparr>tab_name = ''user'', tab_columns =
       [required ''id'' IntegerType, required ''username'' (Varchar 128), required ''password_hash'' (Varchar 255),
        required ''role'' (Varchar 16), required ''must_change_password'' BooleanType,
        required ''created_at'' DateTimeType, nullable ''last_login_at'' DateTimeType],
      tab_key = [''id''], tab_unique = [''username''],
      tab_refs = [],
      tab_indexes = []\<rparr>"

definition base_connection :: table where
  "base_connection =
     \<lparr>tab_name = ''connection'', tab_columns =
       [required ''id'' IntegerType, required ''name'' (Varchar 128), required ''type'' (Varchar 32),
        nullable ''host'' (Varchar 255), nullable ''port'' IntegerType, nullable ''share'' (Varchar 255),
        required ''base_path'' TextType, nullable ''username'' (Varchar 255), nullable ''credential_id'' IntegerType,
        required ''extra_opts'' JsonType, nullable ''rclone_mode'' (Varchar 16),
        nullable ''rclone_remote_name'' (Varchar 128), nullable ''rclone_backend_type'' (Varchar 64),
        nullable ''capabilities'' JsonType, nullable ''capabilities_probed_at'' DateTimeType,
        nullable ''sentinel_file'' (Varchar 255), nullable ''host_key_fingerprint'' (Varchar 255),
        nullable ''last_test_at'' DateTimeType, nullable ''last_test_ok'' BooleanType,
        nullable ''last_test_error'' TextType, required ''created_at'' DateTimeType,
        required ''updated_at'' DateTimeType],
      tab_key = [''id''], tab_unique = [''name''],
      tab_refs = [(''credential_id'', ''credential'', Restrict)],
      tab_indexes = []\<rparr>"

definition base_job :: table where
  "base_job =
     \<lparr>tab_name = ''job'', tab_columns =
       [required ''id'' IntegerType, required ''name'' (Varchar 128), required ''enabled'' BooleanType,
        required ''source_connection_id'' IntegerType, required ''source_path'' TextType,
        required ''dest_connection_id'' IntegerType, required ''dest_path'' TextType,
        required ''engine'' (Varchar 16), required ''direction'' (Varchar 32), required ''delete_mode'' (Varchar 16),
        nullable ''archive_base'' TextType, required ''archive_layout'' (Varchar 32),
        nullable ''archive_retention_days'' IntegerType, required ''filters'' JsonType,
        required ''compare_mode'' (Varchar 32), required ''modify_window'' (Varchar 16),
        nullable ''transfers'' IntegerType, nullable ''checkers'' IntegerType, nullable ''bwlimit'' (Varchar 32),
        required ''max_delete_pct'' IntegerType, required ''conflict_resolve'' (Varchar 16),
        nullable ''schedule_cron'' (Varchar 128), required ''timezone'' (Varchar 64),
        nullable ''timeout_seconds'' IntegerType, required ''notify_on'' (Varchar 16),
        required ''bisync_initialized'' BooleanType, required ''created_at'' DateTimeType,
        required ''updated_at'' DateTimeType],
      tab_key = [''id''], tab_unique = [''name''],
      tab_refs = [(''dest_connection_id'', ''connection'', Restrict), (''source_connection_id'', ''connection'', Restrict)],
      tab_indexes = []\<rparr>"

definition base_job_filter_preset :: table where
  "base_job_filter_preset =
     \<lparr>tab_name = ''job_filter_preset'', tab_columns =
       [required ''job_id'' IntegerType, required ''filter_preset_id'' IntegerType],
      tab_key = [''job_id'', ''filter_preset_id''], tab_unique = [],
      tab_refs = [(''filter_preset_id'', ''filter_preset'', Restrict), (''job_id'', ''job'', Cascade)],
      tab_indexes = []\<rparr>"

definition base_job_run :: table where
  "base_job_run =
     \<lparr>tab_name = ''job_run'', tab_columns =
       [required ''id'' IntegerType, required ''job_id'' IntegerType, required ''trigger'' (Varchar 16),
        required ''mode'' (Varchar 16), required ''status'' (Varchar 16), nullable ''started_at'' DateTimeType,
        nullable ''finished_at'' DateTimeType, nullable ''exit_code'' IntegerType,
        required ''files_transferred'' IntegerType, required ''files_deleted'' IntegerType,
        required ''files_archived'' IntegerType, required ''bytes_transferred'' BigIntType,
        required ''errors_count'' IntegerType, nullable ''log_path'' TextType, nullable ''summary'' JsonType,
        nullable ''command_redacted'' TextType, nullable ''skip_reason'' TextType],
      tab_key = [''id''], tab_unique = [],
      tab_refs = [(''job_id'', ''job'', Cascade)],
      tab_indexes = []\<rparr>"

definition base_job_run_change :: table where
  "base_job_run_change =
     \<lparr>tab_name = ''job_run_change'', tab_columns =
       [required ''id'' IntegerType, required ''run_id'' IntegerType, required ''action'' (Varchar 16),
        required ''side'' (Varchar 16), required ''path'' TextType, nullable ''size'' BigIntType,
        nullable ''mtime'' DateTimeType, nullable ''message'' TextType],
      tab_key = [''id''], tab_unique = [],
      tab_refs = [(''run_id'', ''job_run'', Cascade)],
      tab_indexes = []\<rparr>"

definition active_index :: index where
  "active_index =
     \<lparr>ix_name = ''uq_job_run_active_per_job'', ix_columns = [''job_id''], ix_unique = True,
      ix_where = Some (''status'', [''queued'', ''running''])\<rparr>"

record revision =
  rev_id :: string
  rev_down :: "string option"
  rev_upgrade :: "migration_op list"
  rev_downgrade :: "migration_op list"

definition baseline :: revision where
  "baseline =
     \<lparr>rev_id = ''0001_baseline'', rev_down = None,
      rev_upgrade =
        map CreateTable [base_credential, base_filter_preset, base_setting, base_user, base_connection, base_job,
          base_job_filter_preset, base_job_run] @
        [BatchAlter ''job_run''
           [CreateIndex (plain_index ''ix_job_run_job_id'' [''job_id'']),
            CreateIndex (plain_index ''ix_job_run_job_started'' [''job_id'', ''started_at'']), CreateIndex active_index],
         CreateTable base_job_run_change,
         BatchAlter ''job_run_change''
           [CreateIndex (plain_index ''ix_job_run_change_run_action'' [''run_id'', ''action'']),
            CreateIndex (plain_index ''ix_job_run_change_run_id'' [''run_id''])]],
      rev_downgrade =
        [BatchAlter ''job_run_change'' [DropIndex ''ix_job_run_change_run_id'', DropIndex ''ix_job_run_change_run_action''],
         DropTable ''job_run_change'',
         BatchAlter ''job_run''
           [DropIndex ''uq_job_run_active_per_job'', DropIndex ''ix_job_run_job_started'', DropIndex ''ix_job_run_job_id'']] @
        map DropTable [''job_run'', ''job_filter_preset'', ''job'', ''connection'', ''user'', ''setting'', ''filter_preset'',
          ''credential'']\<rparr>"

definition credential_is_obscured :: revision where
  "credential_is_obscured =
     \<lparr>rev_id = ''0002_credential_is_obscured'', rev_down = Some ''0001_baseline'',
      rev_upgrade = [BatchAlter ''credential'' [AddColumn (required ''is_obscured'' BooleanType) sql_false]],
      rev_downgrade = [BatchAlter ''credential'' [DropColumn ''is_obscured'']]\<rparr>"

definition host_keys_revision :: revision where
  "host_keys_revision =
     \<lparr>rev_id = ''0003_host_keys'', rev_down = Some ''0002_credential_is_obscured'',
      rev_upgrade =
        [BatchAlter ''connection''
           [AddColumn (nullable ''host_keys'' TextType) Null, AddColumn (required ''host_keys_trusted'' BooleanType) sql_false,
            DropColumn ''host_key_fingerprint'']],
      rev_downgrade =
        [BatchAlter ''connection''
           [AddColumn (nullable ''host_key_fingerprint'' (Varchar 255)) Null, DropColumn ''host_keys_trusted'',
            DropColumn ''host_keys'']]\<rparr>"

definition job_check_access :: revision where
  "job_check_access =
     \<lparr>rev_id = ''0004_job_check_access'', rev_down = Some ''0003_host_keys'',
      rev_upgrade =
        [BatchAlter ''job'' [AddColumn (required ''check_access'' BooleanType) sql_false],
         BatchAlter ''job_run'' [AddColumn (required ''is_resync'' BooleanType) sql_false]],
      rev_downgrade = [BatchAlter ''job_run'' [DropColumn ''is_resync''], BatchAlter ''job'' [DropColumn ''check_access'']]\<rparr>"

definition base_login_attempt :: table where
  "base_login_attempt =
     \<lparr>tab_name = ''login_attempt'', tab_columns =
       [required ''id'' IntegerType, required ''scope'' (Varchar 16), required ''value'' (Varchar 255),
        required ''attempted_at'' DateTimeType],
      tab_key = [''id''], tab_unique = [],
      tab_refs = [],
      tab_indexes = []\<rparr>"

definition login_attempts :: revision where
  "login_attempts =
     \<lparr>rev_id = ''0005_login_attempts'', rev_down = Some ''0004_job_check_access'',
      rev_upgrade =
        [CreateTable base_login_attempt,
         BatchAlter ''login_attempt''
           [CreateIndex (plain_index ''ix_login_attempt_scope_value_time'' [''scope'', ''value'', ''attempted_at''])]],
      rev_downgrade =
        [BatchAlter ''login_attempt'' [DropIndex ''ix_login_attempt_scope_value_time''], DropTable ''login_attempt'']\<rparr>"

definition continuous_mode :: revision where
  "continuous_mode =
     \<lparr>rev_id = ''0006_continuous_mode'', rev_down = Some ''0005_login_attempts'',
      rev_upgrade =
        [BatchAlter ''job''
           [AddColumn (required ''continuous'' BooleanType) sql_false,
            AddColumn (required ''continuous_interval_seconds'' IntegerType) (Num 60),
            AddColumn (required ''continuous_idle_interval_seconds'' IntegerType) (Num 900),
            AddColumn (required ''quiet_period_seconds'' IntegerType) (Num 30),
            AddColumn (nullable ''last_checked_at'' DateTimeType) Null]],
      rev_downgrade =
        [BatchAlter ''job''
           [DropColumn ''last_checked_at'', DropColumn ''quiet_period_seconds'',
            DropColumn ''continuous_idle_interval_seconds'', DropColumn ''continuous_interval_seconds'',
            DropColumn ''continuous'']]\<rparr>"

definition forced_max_delete_revision :: revision where
  "forced_max_delete_revision =
     \<lparr>rev_id = ''0007_forced_max_delete'', rev_down = Some ''0006_continuous_mode'',
      rev_upgrade = [AlterTable ''job_run'' (AddColumn (nullable ''forced_max_delete'' IntegerType) Null)],
      rev_downgrade = [AlterTable ''job_run'' (DropColumn ''forced_max_delete'')]\<rparr>"

definition drop_lftp_engine :: revision where
  "drop_lftp_engine =
     \<lparr>rev_id = ''0008_drop_lftp_engine'', rev_down = Some ''0007_forced_max_delete'',
      rev_upgrade = [UpdateRows ''job'' (''engine'', Str ''lftp'') (''engine'', Str ''rclone'')], rev_downgrade = []\<rparr>"

definition quiet_period_everywhere :: revision where
  "quiet_period_everywhere =
     \<lparr>rev_id = ''0009_quiet_period_everywhere'', rev_down = Some ''0008_drop_lftp_engine'',
      rev_upgrade = [UpdateRows ''job'' (''continuous'', Num 0) (''quiet_period_seconds'', Num 0)], rev_downgrade = []\<rparr>"

definition archive_dirs_revision :: revision where
  "archive_dirs_revision =
     \<lparr>rev_id = ''0010_archive_dirs'', rev_down = Some ''0009_quiet_period_everywhere'',
      rev_upgrade = [AlterTable ''job_run'' (AddColumn (nullable ''archive_dirs'' JsonType) Null)],
      rev_downgrade = [AlterTable ''job_run'' (DropColumn ''archive_dirs'')]\<rparr>"

definition peak_speed_revision :: revision where
  "peak_speed_revision =
     \<lparr>rev_id = ''0011_peak_speed'', rev_down = Some ''0010_archive_dirs'',
      rev_upgrade = [AlterTable ''job_run_change'' (AddColumn (nullable ''peak_speed_bps'' FloatType) Null)],
      rev_downgrade = [AlterTable ''job_run_change'' (DropColumn ''peak_speed_bps'')]\<rparr>"

definition REVISIONS :: "revision list" where
  "REVISIONS =
     [baseline, credential_is_obscured, host_keys_revision, job_check_access, login_attempts, continuous_mode,
      forced_max_delete_revision, drop_lftp_engine, quiet_period_everywhere, archive_dirs_revision, peak_speed_revision]"

text \<open>\<open>alembic upgrade head\<close> on a database the first \<open>k\<close> revisions made, and a downgrade from the head to it.\<close>

definition upgrade_from :: "(alter list \<Rightarrow> bool) \<Rightarrow> nat \<Rightarrow> database \<Rightarrow> database option" where
  "upgrade_from rec k db = run_ops rec (concat (map rev_upgrade (drop k REVISIONS))) db"

definition downgrade_to :: "(alter list \<Rightarrow> bool) \<Rightarrow> nat \<Rightarrow> database \<Rightarrow> database option" where
  "downgrade_to rec k db = run_ops rec (concat (map rev_downgrade (rev (drop k REVISIONS)))) db"

subsection \<open>The tables of the models\<close>

definition CREDENTIAL_TABLE :: table where
  "CREDENTIAL_TABLE =
     \<lparr>tab_name = ''credential'', tab_columns =
       [required ''id'' IntegerType, required ''name'' (Varchar 128), required ''kind'' (Varchar 32),
        required ''secret_ciphertext'' BlobType, nullable ''key_passphrase_ciphertext'' BlobType,
        required ''is_obscured'' BooleanType, required ''created_at'' DateTimeType,
        required ''updated_at'' DateTimeType],
      tab_key = [''id''], tab_unique = [''name''],
      tab_refs = [],
      tab_indexes = []\<rparr>"

definition FILTER_PRESET_TABLE :: table where
  "FILTER_PRESET_TABLE =
     \<lparr>tab_name = ''filter_preset'', tab_columns =
       [required ''id'' IntegerType, required ''name'' (Varchar 128), required ''builtin'' BooleanType,
        required ''rules'' JsonType, required ''created_at'' DateTimeType, required ''updated_at'' DateTimeType],
      tab_key = [''id''], tab_unique = [''name''],
      tab_refs = [],
      tab_indexes = []\<rparr>"

definition SETTING_TABLE :: table where
  "SETTING_TABLE =
     \<lparr>tab_name = ''setting'', tab_columns =
       [required ''key'' (Varchar 128), nullable ''value'' TextType, required ''updated_at'' DateTimeType],
      tab_key = [''key''], tab_unique = [],
      tab_refs = [],
      tab_indexes = []\<rparr>"

definition USER_TABLE :: table where
  "USER_TABLE =
     \<lparr>tab_name = ''user'', tab_columns =
       [required ''id'' IntegerType, required ''username'' (Varchar 128), required ''password_hash'' (Varchar 255),
        required ''role'' (Varchar 16), required ''must_change_password'' BooleanType,
        required ''created_at'' DateTimeType, nullable ''last_login_at'' DateTimeType],
      tab_key = [''id''], tab_unique = [''username''],
      tab_refs = [],
      tab_indexes = []\<rparr>"

definition CONNECTION_TABLE :: table where
  "CONNECTION_TABLE =
     \<lparr>tab_name = ''connection'', tab_columns =
       [required ''id'' IntegerType, required ''name'' (Varchar 128), required ''type'' (Varchar 32),
        nullable ''host'' (Varchar 255), nullable ''port'' IntegerType, nullable ''share'' (Varchar 255),
        required ''base_path'' TextType, nullable ''username'' (Varchar 255), nullable ''credential_id'' IntegerType,
        required ''extra_opts'' JsonType, nullable ''rclone_mode'' (Varchar 16),
        nullable ''rclone_remote_name'' (Varchar 128), nullable ''rclone_backend_type'' (Varchar 64),
        nullable ''capabilities'' JsonType, nullable ''capabilities_probed_at'' DateTimeType,
        nullable ''sentinel_file'' (Varchar 255), nullable ''host_keys'' TextType,
        required ''host_keys_trusted'' BooleanType, nullable ''last_test_at'' DateTimeType,
        nullable ''last_test_ok'' BooleanType, nullable ''last_test_error'' TextType,
        required ''created_at'' DateTimeType, required ''updated_at'' DateTimeType],
      tab_key = [''id''], tab_unique = [''name''],
      tab_refs = [(''credential_id'', ''credential'', Restrict)],
      tab_indexes = []\<rparr>"

definition JOB_TABLE :: table where
  "JOB_TABLE =
     \<lparr>tab_name = ''job'', tab_columns =
       [required ''id'' IntegerType, required ''name'' (Varchar 128), required ''enabled'' BooleanType,
        required ''source_connection_id'' IntegerType, required ''source_path'' TextType,
        required ''dest_connection_id'' IntegerType, required ''dest_path'' TextType,
        required ''engine'' (Varchar 16), required ''direction'' (Varchar 32), required ''delete_mode'' (Varchar 16),
        nullable ''archive_base'' TextType, required ''archive_layout'' (Varchar 32),
        nullable ''archive_retention_days'' IntegerType, required ''filters'' JsonType,
        required ''compare_mode'' (Varchar 32), required ''modify_window'' (Varchar 16),
        nullable ''transfers'' IntegerType, nullable ''checkers'' IntegerType, nullable ''bwlimit'' (Varchar 32),
        required ''max_delete_pct'' IntegerType, required ''conflict_resolve'' (Varchar 16),
        nullable ''schedule_cron'' (Varchar 128), required ''timezone'' (Varchar 64),
        nullable ''timeout_seconds'' IntegerType, required ''continuous'' BooleanType,
        required ''continuous_interval_seconds'' IntegerType,
        required ''continuous_idle_interval_seconds'' IntegerType, required ''quiet_period_seconds'' IntegerType,
        nullable ''last_checked_at'' DateTimeType, required ''notify_on'' (Varchar 16),
        required ''bisync_initialized'' BooleanType, required ''check_access'' BooleanType,
        required ''created_at'' DateTimeType, required ''updated_at'' DateTimeType],
      tab_key = [''id''], tab_unique = [''name''],
      tab_refs = [(''source_connection_id'', ''connection'', Restrict), (''dest_connection_id'', ''connection'', Restrict)],
      tab_indexes = []\<rparr>"

definition JOB_FILTER_PRESET_TABLE :: table where
  "JOB_FILTER_PRESET_TABLE =
     \<lparr>tab_name = ''job_filter_preset'', tab_columns =
       [required ''job_id'' IntegerType, required ''filter_preset_id'' IntegerType],
      tab_key = [''job_id'', ''filter_preset_id''], tab_unique = [],
      tab_refs = [(''job_id'', ''job'', Cascade), (''filter_preset_id'', ''filter_preset'', Restrict)],
      tab_indexes = []\<rparr>"

definition JOB_RUN_TABLE :: table where
  "JOB_RUN_TABLE =
     \<lparr>tab_name = ''job_run'', tab_columns =
       [required ''id'' IntegerType, required ''job_id'' IntegerType, required ''trigger'' (Varchar 16),
        required ''is_resync'' BooleanType, nullable ''forced_max_delete'' IntegerType,
        nullable ''archive_dirs'' JsonType, required ''mode'' (Varchar 16), required ''status'' (Varchar 16),
        nullable ''started_at'' DateTimeType, nullable ''finished_at'' DateTimeType,
        nullable ''exit_code'' IntegerType, required ''files_transferred'' IntegerType,
        required ''files_deleted'' IntegerType, required ''files_archived'' IntegerType,
        required ''bytes_transferred'' BigIntType, required ''errors_count'' IntegerType,
        nullable ''log_path'' TextType, nullable ''summary'' JsonType, nullable ''command_redacted'' TextType,
        nullable ''skip_reason'' TextType],
      tab_key = [''id''], tab_unique = [],
      tab_refs = [(''job_id'', ''job'', Cascade)],
      tab_indexes = 
        [active_index, plain_index ''ix_job_run_job_started'' [''job_id'', ''started_at''],
         plain_index ''ix_job_run_job_id'' [''job_id'']]\<rparr>"

definition JOB_RUN_CHANGE_TABLE :: table where
  "JOB_RUN_CHANGE_TABLE =
     \<lparr>tab_name = ''job_run_change'', tab_columns =
       [required ''id'' IntegerType, required ''run_id'' IntegerType, required ''action'' (Varchar 16),
        required ''side'' (Varchar 16), required ''path'' TextType, nullable ''size'' BigIntType,
        nullable ''peak_speed_bps'' FloatType, nullable ''mtime'' DateTimeType, nullable ''message'' TextType],
      tab_key = [''id''], tab_unique = [],
      tab_refs = [(''run_id'', ''job_run'', Cascade)],
      tab_indexes = 
        [plain_index ''ix_job_run_change_run_action'' [''run_id'', ''action''], plain_index ''ix_job_run_change_run_id'' [''run_id'']]\<rparr>"

definition LOGIN_ATTEMPT_TABLE :: table where
  "LOGIN_ATTEMPT_TABLE =
     \<lparr>tab_name = ''login_attempt'', tab_columns =
       [required ''id'' IntegerType, required ''scope'' (Varchar 16), required ''value'' (Varchar 255),
        required ''attempted_at'' DateTimeType],
      tab_key = [''id''], tab_unique = [],
      tab_refs = [],
      tab_indexes = 
        [plain_index ''ix_login_attempt_scope_value_time'' [''scope'', ''value'', ''attempted_at'']]\<rparr>"

definition MODEL_TABLES :: "table list" where
  "MODEL_TABLES =
     [CREDENTIAL_TABLE, FILTER_PRESET_TABLE, SETTING_TABLE, USER_TABLE, CONNECTION_TABLE, JOB_TABLE, JOB_FILTER_PRESET_TABLE,
      JOB_RUN_TABLE, JOB_RUN_CHANGE_TABLE, LOGIN_ATTEMPT_TABLE]"

text \<open>Two tables with the same columns, keys, references and indexes, in any order.\<close>

definition same_members :: "'a list \<Rightarrow> 'a list \<Rightarrow> bool" where
  "same_members xs ys \<longleftrightarrow> length xs = length ys \<and> list_all (\<lambda>x. x \<in> set ys) xs \<and> list_all (\<lambda>y. y \<in> set xs) ys"

definition same_table :: "table \<Rightarrow> table \<Rightarrow> bool" where
  "same_table t u \<longleftrightarrow>
     (if tab_name t = tab_name u then
        same_members (tab_columns t) (tab_columns u) \<and> tab_key t = tab_key u \<and> tab_unique t = tab_unique u \<and>
        same_members (tab_refs t) (tab_refs u) \<and> same_members (tab_indexes t) (tab_indexes u)
      else False)"

definition same_schema :: "table list \<Rightarrow> table list \<Rightarrow> bool" where
  "same_schema ts us \<longleftrightarrow> length ts = length us \<and> list_all (\<lambda>t. list_ex (same_table t) us) ts"

text \<open>Alembic recreates a table to drop a column.\<close>

definition drops_column :: "alter list \<Rightarrow> bool" where
  "drops_column = list_ex (\<lambda>a. case a of DropColumn n \<Rightarrow> True | _ \<Rightarrow> False)"

subsection \<open>Lemmas: tables without rows\<close>

definition bare :: "database \<Rightarrow> database" where
  "bare db = map (\<lambda>(t, rows). (t, [])) db"

lemma cascade_nothing [simp]: "cascade [] db = Some db"
  by (induction db) (auto simp: refers_def list_ex_iff)

lemma alter_table_bare: "alter_table a (t, []) = Some (t', rows) \<Longrightarrow> rows = []"
  by (cases a) (auto split: if_splits)

lemma alter_all_bare: "alter_all as (t, []) = Some (t', rows) \<Longrightarrow> rows = []"
proof (induction as arbitrary: t)
  case (Cons a as)
  then obtain e where e: "alter_table a (t, []) = Some e" "alter_all as e = Some (t', rows)" by (auto simp: bind_eq_Some_conv)
  then show ?case using alter_table_bare [of a t "fst e" "snd e"] Cons.IH [of "fst e"] by (cases e) simp
qed simp

lemma entry_Some: "entry n db = Some e \<Longrightarrow> e \<in> set db \<and> tab_name (fst e) = n"
  by (auto simp: entry_def find_Some_iff)

lemma entry_None: "entry n db = None \<longleftrightarrow> n \<notin> tab_name ` fst ` set db"
  by (force simp: entry_def find_None_iff)

lemma empty_entry: "list_all (\<lambda>e. snd e = []) db \<Longrightarrow> entry n db = Some (t, rows) \<Longrightarrow> rows = []"
  using entry_Some by (fastforce simp: list_all_iff)

lemma empty_put: "list_all (\<lambda>e. snd e = []) db \<Longrightarrow> snd new = [] \<Longrightarrow> list_all (\<lambda>e. snd e = []) (put_entry n new db)"
  by (auto simp: put_entry_def list_all_iff)

lemma empty_rows: "list_all (\<lambda>e. snd e = []) db \<Longrightarrow> rows_of n db = []"
  using empty_entry by (auto simp: rows_of_def split: option.splits prod.splits)

lemma run_op_empty:
  assumes "list_all (\<lambda>e. snd e = []) db"
  shows "run_op rec op db = run_op (\<lambda>as. False) op db"
    and "run_op rec op db = Some db' \<Longrightarrow> list_all (\<lambda>e. snd e = []) db'"
proof -
  have deletes: "delete_all n db = Some db" for n using empty_rows [OF assms] by (simp add: delete_all_def)
  show "run_op rec op db = run_op (\<lambda>as. False) op db" by (cases op) (simp_all add: deletes)
  assume run: "run_op rec op db = Some db'"
  show "list_all (\<lambda>e. snd e = []) db'"
  proof (cases op)
    case (AlterTable n a)
    then obtain t rows new where "entry n db = Some (t, rows)" "alter_table a (t, rows) = Some new" "db' = put_entry n new db"
      using run by (auto simp: bind_eq_Some_conv)
    then show ?thesis using empty_entry [OF assms] alter_table_bare empty_put [OF assms] by (metis prod.collapse)
  next
    case (BatchAlter n as)
    then obtain t rows new where "entry n db = Some (t, rows)" "alter_all as (t, rows) = Some new" "db' = put_entry n new db"
      using run by (auto simp: bind_eq_Some_conv deletes split: if_splits)
    then show ?thesis using empty_entry [OF assms] alter_all_bare empty_put [OF assms] by (metis prod.collapse)
  next
    case (UpdateRows n test new)
    then obtain t rows where "entry n db = Some (t, rows)"
        "db' = put_entry n (t, map (\<lambda>r. if cell r (fst test) = snd test then set_cell new r else r) rows) db"
      using run by (auto simp: bind_eq_Some_conv)
    then show ?thesis using empty_entry [OF assms] empty_put [OF assms] by fastforce
  qed (use run assms deletes in \<open>auto simp: list_all_iff split: if_splits\<close>)
qed

lemma run_ops_empty:
  "list_all (\<lambda>e. snd e = []) db \<Longrightarrow> run_ops rec ops db = run_ops (\<lambda>as. False) ops db"
proof (induction ops arbitrary: db)
  case (Cons op ops)
  show ?case
  proof (cases "run_op (\<lambda>as. False) op db")
    case (Some db')
    then have "list_all (\<lambda>e. snd e = []) db'" using run_op_empty(2) [OF Cons.prems] by blast
    then show ?thesis using Some Cons.IH run_op_empty(1) [OF Cons.prems, of rec op] by simp
  qed (use run_op_empty(1) [OF Cons.prems, of rec op] in simp)
qed simp

lemma run_ops_append: "run_ops rec (xs @ ys) db = Option.bind (run_ops rec xs db) (run_ops rec ys)"
proof (induction xs arbitrary: db)
  case (Cons x xs)
  then show ?case by (cases "run_op rec x db") simp_all
qed simp

subsection \<open>Lemmas: what an upgrade keeps\<close>

text \<open>How the value of a column may change: the last engine that was removed, and a quiet period nobody asked for.\<close>

definition permitted :: "sql_row \<Rightarrow> string \<Rightarrow> string \<Rightarrow> sql_value \<Rightarrow> sql_value \<Rightarrow> bool" where
  "permitted r n c v w \<longleftrightarrow>
     w = v \<or> (n = ''job'' \<and> c = ''engine'' \<and> v = Str ''lftp'' \<and> w = Str ''rclone'') \<or>
     (n = ''job'' \<and> c = ''quiet_period_seconds'' \<and> map_of r ''continuous'' \<in> {None, Some (Num 0)} \<and> w = Num 0)"

definition kept :: "string \<Rightarrow> sql_row \<Rightarrow> sql_row \<Rightarrow> bool" where
  "kept n r r' \<longleftrightarrow>
     (\<forall>c v. map_of r c = Some v \<longrightarrow>
        (n = ''connection'' \<and> c = ''host_key_fingerprint'') \<or> (\<exists>w. map_of r' c = Some w \<and> permitted r n c v w))"

definition keeps :: "database \<Rightarrow> database \<Rightarrow> bool" where
  "keeps db db' \<longleftrightarrow>
     (\<forall>n t rows. entry n db = Some (t, rows) \<longrightarrow>
        (\<exists>t' rows'. entry n db' = Some (t', rows') \<and> list_all2 (kept n) rows rows'))"

text \<open>A row has the columns of its table, and a value where the column must have one.\<close>

definition fits_table :: "table \<times> sql_row list \<Rightarrow> bool" where
  "fits_table e \<longleftrightarrow>
     distinct (map col_name (tab_columns (fst e))) \<and>
     (\<forall>r \<in> set (snd e). map fst r = map col_name (tab_columns (fst e)) \<and>
        (\<forall>c \<in> set (tab_columns (fst e)). \<not> col_null c \<longrightarrow> cell r (col_name c) \<noteq> Null))"

definition fits :: "database \<Rightarrow> bool" where
  "fits db \<longleftrightarrow> list_all fits_table db"

lemma kept_refl [simp]: "kept n r r"
  by (simp add: kept_def permitted_def)

lemma kept_trans:
  assumes "kept n r r'" "kept n r' r''"
  shows "kept n r r''"
  unfolding kept_def
proof (intro allI impI)
  fix c v assume c: "map_of r c = Some v"
  show "(n = ''connection'' \<and> c = ''host_key_fingerprint'') \<or> (\<exists>w. map_of r'' c = Some w \<and> permitted r n c v w)"
  proof (cases "n = ''connection'' \<and> c = ''host_key_fingerprint''")
    case False
    then obtain w where w: "map_of r' c = Some w" "permitted r n c v w" using assms(1) c by (auto simp: kept_def)
    then obtain u where u: "map_of r'' c = Some u" "permitted r' n c w u" using assms(2) False by (auto simp: kept_def)
    have "map_of r ''continuous'' \<in> {None, Some (Num 0)}" if "n = ''job''" "map_of r' ''continuous'' \<in> {None, Some (Num 0)}"
    proof (cases "map_of r ''continuous''")
      case (Some x)
      then have "map_of r' ''continuous'' = Some x" using assms(1) that(1) by (force simp: kept_def permitted_def)
      then show ?thesis using that(2) Some by simp
    qed simp
    then have "permitted r n c v u" using w(2) u(2) by (auto simp: permitted_def)
    then show ?thesis using u(1) by blast
  qed simp
qed

lemma list_kept_trans: "list_all2 (kept n) xs ys \<Longrightarrow> list_all2 (kept n) ys zs \<Longrightarrow> list_all2 (kept n) xs zs"
  by (rule list_all2_trans [of "kept n" "kept n" "kept n"]) (auto intro: kept_trans)

lemma keeps_refl [simp]: "keeps db db"
  by (simp add: keeps_def list_all2_refl)

lemma keeps_trans:
  assumes "keeps db db'" "keeps db' db''"
  shows "keeps db db''"
  unfolding keeps_def
proof (intro allI impI)
  fix n t rows assume "entry n db = Some (t, rows)"
  then obtain t' rows' where a: "entry n db' = Some (t', rows')" "list_all2 (kept n) rows rows'"
    using assms(1) unfolding keeps_def by blast
  then obtain t'' rows'' where b: "entry n db'' = Some (t'', rows'')" "list_all2 (kept n) rows' rows''"
    using assms(2) unfolding keeps_def by blast
  show "\<exists>t'' rows''. entry n db'' = Some (t'', rows'') \<and> list_all2 (kept n) rows rows''"
    using b(1) list_kept_trans [OF a(2) b(2)] by blast
qed

subsection \<open>Lemmas: the operations of an upgrade\<close>

fun alter_keeps :: "string \<Rightarrow> alter \<Rightarrow> bool" where
  "alter_keeps n (AddColumn c d) = True"
| "alter_keeps n (DropColumn c) = (n = ''connection'' \<and> c = ''host_key_fingerprint'')"
| "alter_keeps n (CreateIndex i) = (\<not> ix_unique i)"
| "alter_keeps n (DropIndex i) = False"

fun op_keeps :: "migration_op \<Rightarrow> bool" where
  "op_keeps (CreateTable t) \<longleftrightarrow> tab_refs t = [] \<and> distinct (map col_name (tab_columns t))"
| "op_keeps (DropTable n) = False"
| "op_keeps (AlterTable n a) = alter_keeps n a"
| "op_keeps (BatchAlter n as) = list_all (alter_keeps n) as"
| "op_keeps (UpdateRows n test new) =
     ((n, test, new) \<in> {(''job'', (''engine'', Str ''lftp''), (''engine'', Str ''rclone'')),
        (''job'', (''continuous'', Num 0), (''quiet_period_seconds'', Num 0))})"

fun op_drops :: "migration_op \<Rightarrow> bool" where
  "op_drops (BatchAlter n as) = drops_column as"
| "op_drops op = False"

lemma map_of_without: "map_of (filter (\<lambda>(c, v). c \<noteq> n) r) c = (if c = n then None else map_of r c)"
  by (induction r) auto

lemma map_of_set_cell: "map_of (set_cell cv r) c = (if c = fst cv then map_option (\<lambda>v. snd cv) (map_of r c) else map_of r c)"
  by (induction r) (auto simp: set_cell_def)

lemma fst_set_cell [simp]: "map fst (set_cell cv r) = map fst r"
  by (induction r) (auto simp: set_cell_def)

lemma cell_without: "cell (filter (\<lambda>(c, v). c \<noteq> n) r) c = (if c = n then Null else cell r c)"
  by (simp add: cell_def map_of_without)

lemma fst_without: "map fst (filter (\<lambda>(c, v). c \<noteq> n) r) = filter (\<lambda>c. c \<noteq> n) (map fst r)"
  by (induction r) auto

lemma map_fst_None: "map_of r c = None \<longleftrightarrow> c \<notin> set (map fst r)"
  by (simp add: map_of_eq_None_iff)

lemma alter_table_keeps:
  assumes "alter_keeps n a" "alter_table a (t, []) = Some (t', z)"
  shows "\<exists>rows'. alter_table a (t, rows) = Some (t', rows') \<and> tab_name t' = tab_name t \<and> tab_refs t' = tab_refs t \<and>
    list_all2 (kept n) rows rows' \<and> (fits_table (t, rows) \<longrightarrow> fits_table (t', rows'))"
proof (cases a)
  case (AddColumn c d)
  have k: "kept n r (r @ [(col_name c, d)])" for r by (auto simp: kept_def permitted_def map_add_def)
  have f: "cell (r @ [(col_name c, d)]) x = (if x \<in> set (map fst r) then cell r x else if x = col_name c then d else Null)" for r x
    using map_fst_None [of r x] by (cases "map_of r x") (simp_all add: cell_def map_add_def)
  have new: "col_name c \<notin> set (map col_name (tab_columns t))" "\<not> col_null c \<longrightarrow> d \<noteq> Null"
      "t' = t\<lparr>tab_columns := tab_columns t @ [c]\<rparr>"
    using assms(2) AddColumn by (auto split: if_splits)
  have "fits_table (t', map (\<lambda>r. r @ [(col_name c, d)]) rows)" if fit: "fits_table (t, rows)"
    unfolding fits_table_def
  proof (intro conjI ballI impI)
    show "distinct (map col_name (tab_columns (fst (t', map (\<lambda>r. r @ [(col_name c, d)]) rows))))"
      using fit new by (simp add: fits_table_def)
    fix r' assume "r' \<in> set (snd (t', map (\<lambda>r. r @ [(col_name c, d)]) rows))"
    then obtain r where r: "r' = r @ [(col_name c, d)]" "map fst r = map col_name (tab_columns t)"
        "\<forall>x \<in> set (tab_columns t). \<not> col_null x \<longrightarrow> cell r (col_name x) \<noteq> Null"
      using fit by (auto simp: fits_table_def)
    show "map fst r' = map col_name (tab_columns (fst (t', map (\<lambda>r. r @ [(col_name c, d)]) rows)))" using r new(3) by simp
    fix x assume x: "x \<in> set (tab_columns (fst (t', map (\<lambda>r. r @ [(col_name c, d)]) rows)))" "\<not> col_null x"
    show "cell r' (col_name x) \<noteq> Null"
    proof (cases "x \<in> set (tab_columns t)")
      case True
      then show ?thesis using x(2) r by (simp add: f)
    next
      case False
      then have "x = c" using x(1) new(3) by simp
      then show ?thesis using x(2) r new(1,2) by (simp add: f)
    qed
  qed
  then show ?thesis using new AddColumn by (auto simp: list_all2_map2 list_all2_same k)
next
  case (DropColumn c)
  then have new: "alter_table a (t, rows) = Some (t', map (filter (\<lambda>(x, v). x \<noteq> c)) rows)" "tab_name t' = tab_name t"
      "tab_refs t' = tab_refs t" "tab_columns t' = filter (\<lambda>x. col_name x \<noteq> c) (tab_columns t)"
    using assms(2) by (auto split: if_splits)
  have "kept n r (filter (\<lambda>(x, v). x \<noteq> c) r)" for r
    using assms(1) DropColumn by (simp add: kept_def permitted_def map_of_without)
  moreover have "filter (\<lambda>x. x \<noteq> c) (map col_name cs) = map col_name (filter (\<lambda>x. col_name x \<noteq> c) cs)" for cs :: "column list"
    by (induction cs) auto
  then have "fits_table (t, rows) \<longrightarrow> fits_table (t', map (filter (\<lambda>(x, v). x \<noteq> c)) rows)"
    by (simp add: fits_table_def new(4) cell_without fst_without distinct_map_filter)
  ultimately show ?thesis using new by (simp add: list_all2_map2 list_all2_same)
next
  case (CreateIndex i)
  then show ?thesis using assms by (auto simp: list_all2_same fits_table_def split: if_splits)
qed (use assms in simp)

lemma alter_all_keeps:
  assumes "list_all (alter_keeps n) as" "alter_all as (t, []) = Some (t', z)"
  shows "\<exists>rows'. alter_all as (t, rows) = Some (t', rows') \<and> tab_name t' = tab_name t \<and> tab_refs t' = tab_refs t \<and>
    list_all2 (kept n) rows rows' \<and> (fits_table (t, rows) \<longrightarrow> fits_table (t', rows'))"
  using assms
proof (induction as arbitrary: t rows)
  case (Cons a as)
  then obtain t1 z1 where one: "alter_table a (t, []) = Some (t1, z1)" "alter_all as (t1, z1) = Some (t', z)"
    by (auto simp: bind_eq_Some_conv)
  then have two: "alter_all as (t1, []) = Some (t', z)" using alter_table_bare by blast
  obtain rows1 where r1: "alter_table a (t, rows) = Some (t1, rows1)" "tab_name t1 = tab_name t" "tab_refs t1 = tab_refs t"
      "list_all2 (kept n) rows rows1" "fits_table (t, rows) \<longrightarrow> fits_table (t1, rows1)"
    using alter_table_keeps [OF _ one(1), of n rows] Cons.prems by auto
  obtain rows2 where r2: "alter_all as (t1, rows1) = Some (t', rows2)" "tab_name t' = tab_name t1" "tab_refs t' = tab_refs t1"
      "list_all2 (kept n) rows1 rows2" "fits_table (t1, rows1) \<longrightarrow> fits_table (t', rows2)"
    using Cons.IH [OF _ two, of rows1] Cons.prems by auto
  show ?case
    using r1 r2 list_kept_trans [OF r1(4) r2(4)] by (intro exI [of _ rows2]) simp
qed (auto simp: list_all2_same)

text \<open>Only jobs refer to connections, and restrict their deletion.\<close>

definition restricts :: "table \<Rightarrow> bool" where
  "restricts t \<longleftrightarrow> list_all (\<lambda>(c, p, a). p = ''connection'' \<longrightarrow> a = Restrict \<and> tab_name t = ''job'') (tab_refs t)"

definition sane :: "database \<Rightarrow> bool" where
  "sane db \<longleftrightarrow> distinct (map (tab_name \<circ> fst) db) \<and> entry ''job'' db \<noteq> None \<and> list_all (\<lambda>e. restricts (fst e)) db"

lemma entry_put:
  "tab_name (fst new) = n \<Longrightarrow> entry m (put_entry n new db) = (if m = n \<and> entry n db \<noteq> None then Some new else entry m db)"
  by (induction db) (auto simp: entry_def put_entry_def)

lemma entry_bare: "entry n (bare db) = map_option (\<lambda>(t, rows). (t, [])) (entry n db)"
  by (induction db) (auto simp: entry_def bare_def)

lemma bare_put: "bare (put_entry n (t, rows) db) = put_entry n (t, []) (bare db)"
  by (induction db) (auto simp: put_entry_def bare_def)

lemma change_entry:
  assumes "entry n db = Some (t, rows)" "tab_name t' = tab_name t" "tab_refs t' = tab_refs t"
    and "list_all2 (kept n) rows rows'" "fits_table (t, rows) \<longrightarrow> fits_table (t', rows')"
  shows "bare (put_entry n (t', rows') db) = put_entry n (t', []) (bare db)" "keeps db (put_entry n (t', rows') db)"
    and "sane db \<Longrightarrow> sane (put_entry n (t', rows') db)" "fits db \<Longrightarrow> fits (put_entry n (t', rows') db)"
proof -
  have t: "(t, rows) \<in> set db" "tab_name t = n" using entry_Some [OF assms(1)] by auto
  show "bare (put_entry n (t', rows') db) = put_entry n (t', []) (bare db)" by (rule bare_put)
  show "keeps db (put_entry n (t', rows') db)"
    unfolding keeps_def
  proof (intro allI impI)
    fix m u us assume m: "entry m db = Some (u, us)"
    show "\<exists>u' us'. entry m (put_entry n (t', rows') db) = Some (u', us') \<and> list_all2 (kept m) us us'"
      using m assms t by (cases "m = n") (auto simp: entry_put list_all2_same)
  qed
  show "fits (put_entry n (t', rows') db)" if "fits db"
    using that assms(5) t by (auto simp: fits_def put_entry_def list_all_iff)
  show "sane (put_entry n (t', rows') db)" if s: "sane db"
  proof -
    have names: "map (tab_name \<circ> fst) (put_entry n (t', rows') db) = map (tab_name \<circ> fst) db"
      using assms(2) t by (auto simp: put_entry_def)
    have "restricts t" using s t(1) by (fastforce simp: sane_def list_all_iff)
    then have "restricts t'" using assms(2,3) by (simp add: restricts_def)
    then have refs: "list_all (\<lambda>e. restricts (fst e)) (put_entry n (t', rows') db)"
      using s by (auto simp: sane_def put_entry_def list_all_iff)
    show ?thesis
      using s names refs assms(2) t by (simp add: sane_def entry_put)
  qed
qed

lemma find_append_Some: "List.find P xs = Some x \<Longrightarrow> List.find P (xs @ ys) = Some x"
  by (induction xs) (auto split: if_splits)

lemma plain_op:
  assumes "op_keeps op" "run_op (\<lambda>as. False) op (bare db) = Some e"
  shows "\<exists>db'. run_op (\<lambda>as. False) op db = Some db' \<and> bare db' = e \<and> keeps db db' \<and> (sane db \<longrightarrow> sane db') \<and>
    (fits db \<longrightarrow> fits db')"
proof (cases op)
  case (CreateTable t)
  then have "tab_name t \<notin> tab_name ` fst ` set db" "e = bare db @ [(t, [])]" "restricts t" "fits_table (t, [])"
      "entry (tab_name t) db = None"
    using assms by (auto simp: entry_bare entry_None restricts_def fits_table_def split: if_splits)
  moreover have "entry m (db @ [(t, [])]) = Some x" if "entry m db = Some x" for m x
    using that by (simp add: entry_def find_append_Some)
  ultimately show ?thesis using CreateTable
    by (auto simp: bare_def keeps_def sane_def fits_def list_all2_same)
next
  case (AlterTable n a)
  then obtain t rows t' z where e: "entry n db = Some (t, rows)" "alter_table a (t, []) = Some (t', z)"
      "e = put_entry n (t', z) (bare db)"
    using assms(2) by (auto simp: entry_bare bind_eq_Some_conv)
  then have z: "z = []" using alter_table_bare by blast
  obtain rows' where r: "alter_table a (t, rows) = Some (t', rows')" "tab_name t' = tab_name t" "tab_refs t' = tab_refs t"
      "list_all2 (kept n) rows rows'" "fits_table (t, rows) \<longrightarrow> fits_table (t', rows')"
    using alter_table_keeps [OF _ e(2), of n rows] assms(1) AlterTable by auto
  show ?thesis using change_entry [OF e(1) r(2-5)] AlterTable e r(1) z by simp
next
  case (BatchAlter n as)
  then obtain t rows t' z where e: "entry n db = Some (t, rows)" "alter_all as (t, []) = Some (t', z)"
      "e = put_entry n (t', z) (bare db)"
    using assms(2) by (auto simp: entry_bare bind_eq_Some_conv)
  then have z: "z = []" using alter_all_bare by blast
  obtain rows' where r: "alter_all as (t, rows) = Some (t', rows')" "tab_name t' = tab_name t" "tab_refs t' = tab_refs t"
      "list_all2 (kept n) rows rows'" "fits_table (t, rows) \<longrightarrow> fits_table (t', rows')"
    using alter_all_keeps [OF _ e(2), of n rows] assms(1) BatchAlter by auto
  show ?thesis using change_entry [OF e(1) r(2-5)] BatchAlter e r(1) z by simp
next
  case (UpdateRows n test new)
  then obtain t rows where e: "entry n db = Some (t, rows)" "e = put_entry n (t, []) (bare db)"
    using assms(2) by (auto simp: entry_bare bind_eq_Some_conv)
  let ?rows = "map (\<lambda>r. if cell r (fst test) = snd test then set_cell new r else r) rows"
  have "list_all2 (kept n) rows ?rows" "fits_table (t, rows) \<longrightarrow> fits_table (t, ?rows)" 
  proof -
    have k: "kept n r (set_cell new r)" if "cell r (fst test) = snd test" for r
      using that assms(1) UpdateRows
      by (auto simp: kept_def permitted_def map_of_set_cell cell_def split: option.splits)
    then show "list_all2 (kept n) rows ?rows" by (auto simp: list_all2_map2 list_all2_same)
    have "snd new \<noteq> Null" using assms(1) UpdateRows by auto
    then have "cell (set_cell new r) c = Null \<Longrightarrow> cell r c = Null" for r c
      by (auto simp: cell_def map_of_set_cell split: option.splits if_splits)
    then show "fits_table (t, rows) \<longrightarrow> fits_table (t, ?rows)" by (auto simp: fits_table_def)
  qed
  then show ?thesis using change_entry [OF e(1) refl refl] UpdateRows e by simp
qed (use assms in simp)

subsection \<open>Lemmas: the whole upgrade\<close>

lemma sane_bare [simp]: "sane (bare db) = sane db"
  by (auto simp: sane_def bare_def list_all_iff entry_None image_image case_prod_beta comp_def)

lemma plain_ops:
  assumes "list_all op_keeps ops" "run_ops (\<lambda>as. False) ops (bare db) = Some e"
  shows "\<exists>db'. run_ops (\<lambda>as. False) ops db = Some db' \<and> bare db' = e \<and> keeps db db' \<and> (sane db \<longrightarrow> sane db') \<and>
    (fits db \<longrightarrow> fits db')"
  using assms
proof (induction ops arbitrary: db)
  case (Cons op ops)
  then obtain e1 where e1: "run_op (\<lambda>as. False) op (bare db) = Some e1" "run_ops (\<lambda>as. False) ops e1 = Some e"
    by (auto simp: bind_eq_Some_conv)
  obtain db1 where one: "run_op (\<lambda>as. False) op db = Some db1" "bare db1 = e1" "keeps db db1" "sane db \<longrightarrow> sane db1"
      "fits db \<longrightarrow> fits db1"
    using plain_op [OF _ e1(1)] Cons.prems by auto
  obtain db2 where two: "run_ops (\<lambda>as. False) ops db1 = Some db2" "bare db2 = e" "keeps db1 db2" "sane db1 \<longrightarrow> sane db2"
      "fits db1 \<longrightarrow> fits db2"
    using Cons.IH [of db1] Cons.prems e1(2) one(2) by auto
  show ?case using one two keeps_trans [OF one(3) two(3)] by (intro exI [of _ db2]) simp
qed simp

lemma cascade_unharmed:
  assumes "\<forall>(t, rows) \<in> set db. \<forall>(c, p, a) \<in> set (tab_refs t). p \<in> fst ` set gone \<longrightarrow> rows = []"
  shows "cascade gone db = Some db"
  using assms
proof (induction db)
  case (Cons e db)
  obtain t rows where e: "e = (t, rows)" by (cases e)
  have refs: "\<forall>(c, p, a) \<in> set (tab_refs t). p \<in> fst ` set gone \<longrightarrow> rows = []" using Cons.prems e by simp
  have "\<not> refers action gone t r" if "r \<in> set rows" for action r
  proof -
    have "rows \<noteq> []" using that by auto
    then have "\<forall>x \<in> set (tab_refs t). \<forall>v. (fst (snd x), v) \<notin> set gone" using refs by (fastforce simp: image_iff)
    then show ?thesis by (fastforce simp: refers_def list_ex_iff)
  qed
  then have "\<not> list_ex (refers Restrict gone t) rows" "filter (refers Cascade gone t) rows = []"
      "filter (\<lambda>r. \<not> refers Cascade gone t r) rows = rows"
    by (auto simp: list_ex_iff filter_empty_conv filter_id_conv)
  moreover have "cascade gone db = Some db" by (rule Cons.IH) (use Cons.prems in simp)
  ultimately show ?case by (simp add: e)
qed simp

lemma connections_unreferenced:
  assumes "sane db" "rows_of ''job'' db = []"
  shows "delete_all ''connection'' db = Some db"
  unfolding delete_all_def
proof (rule cascade_unharmed)
  let ?gone = "map (\<lambda>r. (''connection'', cell r ''id'')) (rows_of ''connection'' db)"
  have "rows = []" if e: "(t, rows) \<in> set db" "(c, p, a) \<in> set (tab_refs t)" "p \<in> fst ` set ?gone" for t rows c p a
  proof -
    from e(3) have "p = ''connection''" by auto
    then have t: "tab_name t = ''job''" using assms(1) e by (fastforce simp: sane_def restricts_def list_all_iff)
    obtain u us where "entry ''job'' db = Some (u, us)" "us = []"
      using assms by (auto simp: sane_def rows_of_def split: option.splits)
    moreover have inj: "inj_on (tab_name \<circ> fst) (set db)" using assms(1) by (simp add: sane_def distinct_map)
    have "(u, us) = (t, rows)" by (rule inj_onD [OF inj]) (use entry_Some [OF calculation(1)] e(1) t in auto)
    ultimately show "rows = []" by simp
  qed
  then show "\<forall>(t, rows) \<in> set db. \<forall>(c, p, a) \<in> set (tab_refs t). p \<in> fst ` set ?gone \<longrightarrow> rows = []" by blast
qed

lemma documented_op:
  assumes "\<And>as. rec as = drops_column as" "op_keeps op" "sane db" "op_drops op \<Longrightarrow> rows_of ''job'' db = []"
  shows "run_op rec op db = run_op (\<lambda>as. False) op db"
proof (cases op)
  case (BatchAlter n as)
  show ?thesis
  proof (cases "drops_column as")
    case True
    then obtain a where "a \<in> set as" "case a of DropColumn m \<Rightarrow> True | _ \<Rightarrow> False" by (auto simp: drops_column_def list_ex_iff)
    then have "\<exists>m. DropColumn m \<in> set as" by - (cases a, auto)
    then obtain m where "DropColumn m \<in> set as" by blast
    then have "n = ''connection''" using assms(2) BatchAlter by (auto simp: list_all_iff)
    then show ?thesis using True BatchAlter assms connections_unreferenced by simp
  qed (use BatchAlter assms(1) in simp)
qed (use assms(2) in simp_all)

lemma documented_ops:
  assumes "\<And>as. rec as = drops_column as" "list_all op_keeps ops" "sane db" "list_ex op_drops ops \<Longrightarrow> rows_of ''job'' db = []"
    and "run_ops (\<lambda>as. False) ops (bare db) \<noteq> None"
  shows "run_ops rec ops db = run_ops (\<lambda>as. False) ops db"
  using assms(2-)
proof (induction ops arbitrary: db)
  case (Cons op ops)
  obtain e1 where e1: "run_op (\<lambda>as. False) op (bare db) = Some e1" "run_ops (\<lambda>as. False) ops e1 \<noteq> None"
    using Cons.prems(4) by (cases "run_op (\<lambda>as. False) op (bare db)") auto
  obtain db1 where one: "run_op (\<lambda>as. False) op db = Some db1" "bare db1 = e1" "keeps db db1" "sane db1"
    using plain_op [OF _ e1(1)] Cons.prems by auto
  have "rows_of ''job'' db1 = []" if "list_ex op_drops ops"
  proof -
    have "rows_of ''job'' db = []" using Cons.prems(3) that by simp
    then obtain t where "entry ''job'' db = Some (t, [])"
      using Cons.prems(2) by (auto simp: sane_def rows_of_def split: option.splits)
    then obtain t' where "entry ''job'' db1 = Some (t', [])" using one(3) by (fastforce simp: keeps_def)
    then show ?thesis by (simp add: rows_of_def)
  qed
  then have "run_ops rec ops db1 = run_ops (\<lambda>as. False) ops db1"
    using Cons.IH [of db1] Cons.prems one(2,4) e1(2) by auto
  moreover have "run_op rec op db = run_op (\<lambda>as. False) op db"
    using documented_op [OF assms(1), of op db] Cons.prems by auto
  ultimately show ?case using one(1) by simp
qed simp

subsection \<open>The schema\<close>

text \<open>Every revision undoes itself, as far as the tables go.\<close>

fun undone :: "(alter list \<Rightarrow> bool) \<Rightarrow> revision list \<Rightarrow> database \<Rightarrow> bool" where
  "undone rec [] db \<longleftrightarrow> True"
| "undone rec (r # rs) db \<longleftrightarrow>
     (case run_ops rec (rev_upgrade r) db of
        None \<Rightarrow> False
      | Some db' \<Rightarrow>
          (case run_ops rec (rev_downgrade r) db' of
             None \<Rightarrow> False
           | Some again \<Rightarrow> same_schema (map fst again) (map fst db)) \<and> undone rec rs db')"

definition schema_at :: "nat \<Rightarrow> table list" where
  "schema_at k =
     (case run_ops (\<lambda>as. False) (concat (map rev_upgrade (take k REVISIONS))) [] of None \<Rightarrow> [] | Some db \<Rightarrow> map fst db)"

lemma run_ops_stays_empty:
  "list_all (\<lambda>e. snd e = []) db \<Longrightarrow> run_ops rec ops db = Some db' \<Longrightarrow> list_all (\<lambda>e. snd e = []) db'"
proof (induction ops arbitrary: db)
  case (Cons op ops)
  then obtain db1 where "run_op rec op db = Some db1" "run_ops rec ops db1 = Some db'" by (auto simp: bind_eq_Some_conv)
  then show ?case using Cons.IH run_op_empty(2) [OF Cons.prems(1)] by blast
qed simp

lemma undone_any: "list_all (\<lambda>e. snd e = []) db \<Longrightarrow> undone (\<lambda>as. False) rs db \<Longrightarrow> undone rec rs db"
proof (induction rs arbitrary: db)
  case (Cons r rs)
  obtain db' again where up: "run_ops (\<lambda>as. False) (rev_upgrade r) db = Some db'"
      "run_ops (\<lambda>as. False) (rev_downgrade r) db' = Some again" "same_schema (map fst again) (map fst db)"
      "undone (\<lambda>as. False) rs db'"
    using Cons.prems(2) by (auto split: option.splits)
  have e: "list_all (\<lambda>e. snd e = []) db'" using run_ops_stays_empty [OF Cons.prems(1) up(1)] .
  show ?case using up run_ops_empty [OF Cons.prems(1), of rec] run_ops_empty [OF e, of rec] Cons.IH [OF e up(4)] by simp
qed simp

lemma same_members_code [code]:
  "same_members xs ys \<longleftrightarrow>
     (if xs = ys then True
      else if length xs = length ys then list_all (\<lambda>x. x \<in> set ys) xs \<and> list_all (\<lambda>y. y \<in> set xs) ys else False)"
  by (auto simp: same_members_def list_all_iff)

lemma built:
  "map_option (\<lambda>db. same_schema (map fst db) MODEL_TABLES) (upgrade_from (\<lambda>as. False) 0 []) = Some True"
  "Option.bind (upgrade_from (\<lambda>as. False) 0 []) (downgrade_to (\<lambda>as. False) 0) = Some []"
  by code_simp+

lemma all_undone: "undone (\<lambda>as. False) REVISIONS []"
  by code_simp

lemma first_revision:
  "map_option (\<lambda>db. sane db \<and> fits db) (run_ops (\<lambda>as. False) (concat (map rev_upgrade (take 1 REVISIONS))) []) = Some True"
  by code_simp

lemma upgrades_keep:
  "list_all op_keeps (concat (map rev_upgrade (drop 1 REVISIONS)))" "\<not> list_ex op_drops (concat (map rev_upgrade (drop 3 REVISIONS)))"
  by code_simp+

lemma concat_split: "concat (map f (take k xs)) @ concat (map f (drop k xs)) = concat (map f xs)"
  by (metis append_take_drop_id concat_append map_append)

lemma bare_at:
  assumes "map fst db = schema_at k" "run_ops (\<lambda>as. False) (concat (map rev_upgrade (take k REVISIONS))) [] = Some e"
  shows "bare db = e"
proof -
  have e: "list_all (\<lambda>x. snd x = []) e" using run_ops_stays_empty [OF _ assms(2)] by simp
  have "bare db = map (\<lambda>t. (t, [])) (map fst db)" by (simp add: bare_def case_prod_beta comp_def)
  also have "map fst db = map fst e" using assms by (simp add: schema_at_def)
  also have "map (\<lambda>t. (t, [])) (map fst e) = e" using e by (auto simp: list_all_iff comp_def intro!: map_idI prod_eqI)
  finally show ?thesis .
qed

text \<open>C32. The migrations make the tables of the models. On an empty database every revision applies, in the one order their
  links give, and the tables at the head have the columns, types, keys, references and indexes \<open>app/models\<close> declares. Each
  revision is undone by its own downgrade, and all of them together leave nothing.\<close>

theorem migrations_match_models:
  "\<exists>db. upgrade_from rec 0 [] = Some db \<and> list_all (\<lambda>e. snd e = []) db \<and> same_schema (map fst db) MODEL_TABLES \<and>
     undone rec REVISIONS [] \<and> downgrade_to rec 0 db = Some [] \<and> distinct (map rev_id REVISIONS) \<and>
     map rev_down REVISIONS = None # map (Some \<circ> rev_id) (butlast REVISIONS)"
proof -
  obtain db where db: "upgrade_from (\<lambda>as. False) 0 [] = Some db" "same_schema (map fst db) MODEL_TABLES"
      "downgrade_to (\<lambda>as. False) 0 db = Some []"
    using built by (auto simp: bind_eq_Some_conv)
  have e: "list_all (\<lambda>e. snd e = []) db" using run_ops_stays_empty [OF _ db(1) [unfolded upgrade_from_def]] by simp
  have "distinct (map rev_id REVISIONS)" "map rev_down REVISIONS = None # map (Some \<circ> rev_id) (butlast REVISIONS)"
    by code_simp+
  then show ?thesis
    using db e run_ops_empty [of "[]" rec] run_ops_empty [OF e, of rec] undone_any [OF _ all_undone, of rec]
    by (intro exI [of _ db]) (simp add: upgrade_from_def downgrade_to_def)
qed

lemma engine_there:
  "Option.bind (run_ops (\<lambda>as. False) (concat (map rev_upgrade (take 8 REVISIONS))) [])
     (\<lambda>db. map_option (\<lambda>e. ''engine'' \<in> set (map col_name (tab_columns (fst e)))) (entry ''job'' db)) = Some True"
  by code_simp

lemma revisions_split: "run_ops rec (concat (map rev_upgrade (drop k REVISIONS))) db =
    Option.bind (run_ops rec (concat (map rev_upgrade (take n (drop k REVISIONS)))) db)
      (run_ops rec (concat (map rev_upgrade (drop (n + k) REVISIONS))))"
proof -
  have "concat (map rev_upgrade (drop k REVISIONS)) =
      concat (map rev_upgrade (take n (drop k REVISIONS))) @ concat (map rev_upgrade (drop (n + k) REVISIONS))"
    using concat_split [of rev_upgrade n "drop k REVISIONS"] by (simp add: add.commute)
  then show ?thesis by (simp add: run_ops_append)
qed

lemma upgrades_keep_from: "1 \<le> k \<Longrightarrow> list_all op_keeps (concat (map rev_upgrade (take n (drop k REVISIONS))))"
  using upgrades_keep(1) set_drop_subset_set_drop [of 1 k REVISIONS] by (fastforce simp: list_all_iff dest: in_set_takeD)

lemma at_revision:
  assumes "1 \<le> k"
  obtains e where "run_ops (\<lambda>as. False) (concat (map rev_upgrade (take k REVISIONS))) [] = Some e" "sane e" "fits e"
    "same_schema (map fst (the (run_ops (\<lambda>as. False) (concat (map rev_upgrade (drop k REVISIONS))) e))) MODEL_TABLES"
    "run_ops (\<lambda>as. False) (concat (map rev_upgrade (drop k REVISIONS))) e \<noteq> None"
proof -
  obtain e1 where e1: "run_ops (\<lambda>as. False) (concat (map rev_upgrade (take 1 REVISIONS))) [] = Some e1" "sane e1" "fits e1"
    using first_revision by auto
  have "list_all (\<lambda>x. snd x = []) e1" using run_ops_stays_empty [OF _ e1(1)] by simp
  then have b: "bare e1 = e1" by (auto simp: bare_def list_all_iff intro!: map_idI prod_eqI)
  have split: "take k REVISIONS = take 1 REVISIONS @ take (k - 1) (drop 1 REVISIONS)"
    using assms take_add [of 1 "k - 1" REVISIONS] by simp
  obtain head where head: "run_ops (\<lambda>as. False) (concat (map rev_upgrade REVISIONS)) [] = Some head"
      "same_schema (map fst head) MODEL_TABLES"
    using built(1) by (auto simp: upgrade_from_def)
  then obtain e where e: "run_ops (\<lambda>as. False) (concat (map rev_upgrade (take k REVISIONS))) [] = Some e"
      "run_ops (\<lambda>as. False) (concat (map rev_upgrade (drop k REVISIONS))) e = Some head"
    using run_ops_append [of "\<lambda>as. False" "concat (map rev_upgrade (take k REVISIONS))" "concat (map rev_upgrade (drop k REVISIONS))" "[]"]
    unfolding concat_split bind_eq_Some_conv [symmetric] by (simp add: bind_eq_Some_conv) blast
  then have "run_ops (\<lambda>as. False) (concat (map rev_upgrade (take (k - 1) (drop 1 REVISIONS)))) (bare e1) = Some e"
    unfolding split b using e1(1) by (simp add: run_ops_append)
  from plain_ops [OF upgrades_keep_from this] this have "sane e" "fits e" using e1(2,3) b by auto
  then show ?thesis by (rule that [OF e(1)]) (simp_all add: e(2) head(2) \<open>sane e\<close> \<open>fits e\<close>)
qed

lemma list_all2_member: "list_all2 P xs ys \<Longrightarrow> y \<in> set ys \<Longrightarrow> \<exists>x \<in> set xs. P x y"
  by (induction xs ys rule: list_all2_induct) auto

lemma after_lftp:
  assumes "fits db" "run_ops (\<lambda>as. False) (rev_upgrade drop_lftp_engine) db = Some db'"
    and "bare db' = the (run_ops (\<lambda>as. False) (concat (map rev_upgrade (take 8 REVISIONS))) [])" "fits db'" "keeps db' db2"
  shows "\<forall>r \<in> set (rows_of ''job'' db2). cell r ''engine'' \<noteq> Str ''lftp''"
proof -
  obtain t rows where e: "entry ''job'' db = Some (t, rows)" "db' = put_entry ''job''
      (t, map (\<lambda>r. if cell r ''engine'' = Str ''lftp'' then set_cell (''engine'', Str ''rclone'') r else r) rows) db"
    using assms(2) by (auto simp: drop_lftp_engine_def bind_eq_Some_conv)
  let ?rows = "map (\<lambda>r. if cell r ''engine'' = Str ''lftp'' then set_cell (''engine'', Str ''rclone'') r else r) rows"
  have t: "entry ''job'' db' = Some (t, ?rows)" using e entry_Some [OF e(1)] by (simp add: entry_put)
  have col: "''engine'' \<in> set (map col_name (tab_columns t))"
    using engine_there assms(3) t entry_bare [of "''job''" db'] by (auto simp: bind_eq_Some_conv)
  have fit: "fits_table (t, ?rows)" using entry_Some [OF t] assms(4) by (auto simp: fits_def list_all_iff)
  have held: "\<exists>v. map_of r ''engine'' = Some v \<and> v \<noteq> Str ''lftp''" if r: "r \<in> set ?rows" for r
  proof -
    obtain r0 where r0: "r = (if cell r0 ''engine'' = Str ''lftp'' then set_cell (''engine'', Str ''rclone'') r0 else r0)"
      using r unfolding set_map image_iff by blast
    have "map fst r = map col_name (tab_columns t)" using fit r by (simp add: fits_table_def)
    then obtain v where v: "map_of r ''engine'' = Some v" using col map_fst_None [of r "''engine''"] by force
    show ?thesis
    proof (cases "cell r0 ''engine'' = Str ''lftp''")
      case True
      then have "v = Str ''rclone''" using v r0 by (auto simp: map_of_set_cell)
      then show ?thesis using v by simp
    next
      case False
      then show ?thesis using v r0 by (simp add: cell_def)
    qed
  qed
  obtain t2 rows2 where two: "entry ''job'' db2 = Some (t2, rows2)" "list_all2 (kept ''job'') ?rows rows2"
    using assms(5) t unfolding keeps_def by blast
  show ?thesis
  proof
    fix r assume "r \<in> set (rows_of ''job'' db2)"
    then have "r \<in> set rows2" using two(1) by (simp add: rows_of_def)
    then obtain r0 where "r0 \<in> set ?rows" "kept ''job'' r0 r" using list_all2_member [OF two(2)] by blast
    then obtain v where v: "map_of r0 ''engine'' = Some v" "v \<noteq> Str ''lftp''" using held by blast
    have "(''job'' = ''connection'' \<and> ''engine'' = ''host_key_fingerprint'') \<or>
        (\<exists>w. map_of r ''engine'' = Some w \<and> permitted r0 ''job'' ''engine'' v w)"
      using \<open>kept ''job'' r0 r\<close> v(1) unfolding kept_def by blast
    then obtain w where "map_of r ''engine'' = Some w" "permitted r0 ''job'' ''engine'' v w" by auto
    then show "cell r ''engine'' \<noteq> Str ''lftp''" using v(2) by (auto simp: cell_def permitted_def)
  qed
qed

lemma engine_gone:
  assumes "1 \<le> k" "k < 8" "bare db = e" "fits db"
    and "run_ops (\<lambda>as. False) (concat (map rev_upgrade (take k REVISIONS))) [] = Some e"
    and "run_ops (\<lambda>as. False) (concat (map rev_upgrade (drop k REVISIONS))) e \<noteq> None"
    and "run_ops (\<lambda>as. False) (concat (map rev_upgrade (drop k REVISIONS))) db = Some db'"
  shows "\<forall>r \<in> set (rows_of ''job'' db'). cell r ''engine'' \<noteq> Str ''lftp''"
proof -
  let ?mid = "concat (map rev_upgrade (take (7 - k) (drop k REVISIONS)))"
  have one: "concat (map rev_upgrade (take 1 (drop 7 REVISIONS))) = rev_upgrade drop_lftp_engine" by (simp add: REVISIONS_def)
  have steps: "run_ops (\<lambda>as. False) (concat (map rev_upgrade (drop k REVISIONS))) x =
      Option.bind (run_ops (\<lambda>as. False) ?mid x) (\<lambda>x.
        Option.bind (run_ops (\<lambda>as. False) (rev_upgrade drop_lftp_engine) x)
          (run_ops (\<lambda>as. False) (concat (map rev_upgrade (drop 8 REVISIONS)))))" for x
    using revisions_split [of _ k x "7 - k"] revisions_split [of _ 7 _ 1] assms(2) one
    by (cases "run_ops (\<lambda>as. False) ?mid x") simp_all
  obtain ea eb where bares: "run_ops (\<lambda>as. False) ?mid (bare db) = Some ea"
      "run_ops (\<lambda>as. False) (rev_upgrade drop_lftp_engine) ea = Some eb"
      "run_ops (\<lambda>as. False) (concat (map rev_upgrade (drop 8 REVISIONS))) eb \<noteq> None"
    using assms(3,6) steps [of e] by (cases "run_ops (\<lambda>as. False) ?mid e"; cases "run_ops (\<lambda>as. False) (rev_upgrade drop_lftp_engine) (the (run_ops (\<lambda>as. False) ?mid e))") auto
  obtain da where da: "run_ops (\<lambda>as. False) ?mid db = Some da" "bare da = ea" "fits da"
    using plain_ops [OF upgrades_keep_from [OF assms(1)] bares(1)] assms(4) by auto
  have "list_all op_keeps (rev_upgrade drop_lftp_engine)" using upgrades_keep_from [of 7 1] one by simp
  then obtain d where d: "run_ops (\<lambda>as. False) (rev_upgrade drop_lftp_engine) da = Some d" "bare d = eb" "fits d"
    using plain_ops [of "rev_upgrade drop_lftp_engine" da eb] bares(2) da by auto
  have "list_all op_keeps (concat (map rev_upgrade (drop 8 REVISIONS)))"
    using upgrades_keep_from [of 8 "length REVISIONS"] by simp
  then have "keeps d db'"
    using plain_ops [of "concat (map rev_upgrade (drop 8 REVISIONS))" d] bares(3) d(1,2) da(1) assms(7) steps [of db] by auto
  moreover have "take 8 REVISIONS = take k REVISIONS @ take (7 - k) (drop k REVISIONS) @ take 1 (drop 7 REVISIONS)"
    using assms(2) take_add [of k "7 - k" REVISIONS] take_add [of 7 1 REVISIONS] by simp
  then have "run_ops (\<lambda>as. False) (concat (map rev_upgrade (take 8 REVISIONS))) [] = Some eb"
    using assms(3,5) bares(1,2) one by (simp add: run_ops_append)
  ultimately show ?thesis using after_lftp [OF da(3) d(1) _ d(3)] d(2) by simp
qed


definition sample_row :: "table \<Rightarrow> sql_row" where
  "sample_row t =
     map (\<lambda>c. (col_name c,
       if col_name c = ''engine'' then Str ''lftp'' else if col_null c then Null else Num 1)) (tab_columns t)"

definition sample_database :: "nat \<Rightarrow> database" where
  "sample_database k = map (\<lambda>t. (t, if tab_name t \<in> {''connection'', ''job'', ''job_run''} then [sample_row t] else [])) (schema_at k)"

lemma cell_sample:
  assumes "distinct (map col_name (tab_columns t))" "c \<in> set (tab_columns t)" "\<not> col_null c"
  shows "cell (sample_row t) (col_name c) \<noteq> Null"
proof -
  have "distinct (map fst (sample_row t))" using assms(1) by (simp add: sample_row_def comp_def)
  moreover have "(col_name c, if col_name c = ''engine'' then Str ''lftp'' else Num 1) \<in> set (sample_row t)"
    unfolding sample_row_def set_map by (rule image_eqI [OF _ assms(2)]) (use assms(3) in simp)
  ultimately have "map_of (sample_row t) (col_name c) = Some (if col_name c = ''engine'' then Str ''lftp'' else Num 1)" by simp
  then show ?thesis by (simp add: cell_def)
qed

lemma fits_sample:
  assumes "1 \<le> k"
  shows "fits (sample_database k)"
proof -
  obtain e where e: "run_ops (\<lambda>as. False) (concat (map rev_upgrade (take k REVISIONS))) [] = Some e" "fits e"
    using at_revision [OF assms] by blast
  have "distinct (map col_name (tab_columns t))" if "t \<in> set (schema_at k)" for t
    using that e by (auto simp: schema_at_def fits_def fits_table_def list_all_iff)
  then show ?thesis
    by (auto simp: fits_def sample_database_def fits_table_def list_all_iff cell_sample) (auto simp: sample_row_def comp_def)
qed

lemma sample_rows:
  "map (\<lambda>r. map_of r ''engine'') (rows_of ''job'' (sample_database 7)) = [Some (Str ''lftp'')] \<and>
   length (rows_of ''job_run'' (sample_database 7)) = 1"
  by code_simp


text \<open>What recreating a table does to the tables that refer to it. A downgrade through the sixth revision drops columns of
  \<open>job\<close>, and all runs go with the old table. The third revision fails where there are jobs. An Alembic that also
  recreates a table to add a column with an expression as its default loses the runs in the upgrade.\<close>

lemma downgrade_erases_history:
  "map_option (\<lambda>db. (length (rows_of ''job'' db), length (rows_of ''job_run'' db))) (downgrade_to drops_column 5 (sample_database 11)) = Some (1, 0)"
  by code_simp

lemma early_upgrade_fails: "upgrade_from drops_column 2 (sample_database 2) = None"
  by code_simp

lemma recreating_upgrade_erases_history:
  "map_option (\<lambda>db. (length (rows_of ''job'' db), length (rows_of ''job_run'' db))) (upgrade_from (\<lambda>as. True) 5 (sample_database 5)) = Some (1, 0)"
  by code_simp

end
