(* ===== verification/Forms.thy ===== *)
theory Forms
  imports Portable Probe
begin

text \<open>
  The forms of \<open>app/web\<close> for connections, their host keys, credentials and runs, with the page
  \<open>templates/connections/form.html\<close> a browser submits. \<open>pint\<close> is \<open>int\<close> of a text. A form answers with a redirect, with a
  page of that status, or with an exception nothing catches, which leaves the tables as they were.
\<close>

datatype page = Redirect string | Rendered nat | Unhandled

subsection \<open>Advanced options\<close>

definition extra_opts_lines :: "ext \<Rightarrow> (string \<times> json) list \<Rightarrow> string list" where
  "extra_opts_lines x opts = map (\<lambda>(key, value). key @ '' = '' @ py_str x value) opts"

definition extra_opts_text :: "ext \<Rightarrow> (string \<times> json) list \<Rightarrow> string" where
  "extra_opts_text x opts = join_with [CHR 0x0A] (extra_opts_lines x opts)"

text \<open>None is the ValueError.\<close>

fun read_options :: "string list \<Rightarrow> (string \<times> string) list \<Rightarrow> (string \<times> string) list option" where
  "read_options [] options = Some options"
| "read_options (line # lines) options =
     (let stripped = py_strip line
      in if stripped = [] \<or> prefix ''#'' stripped then read_options lines options
         else if CHR ''='' \<notin> set stripped then None
         else (let key = takeWhile (\<lambda>c. c \<noteq> CHR ''='') stripped
               in read_options lines (dict_put (py_strip key) (py_strip (drop (Suc (length key)) stripped)) options)))"

definition parse_extra_opts :: "string \<Rightarrow> (string \<times> string) list option" where
  "parse_extra_opts raw = read_options (py_splitlines raw) []"

subsection \<open>Connections\<close>

definition clean :: "form \<Rightarrow> string \<Rightarrow> string option" where
  "clean f k = nonempty (py_strip (given_in f k))"

text \<open>\<open>_connection_payload\<close> before the checks of the schema; None is a ValueError. A number below zero stands for zero,
  which is as little a port or an id.\<close>

definition optional_nat :: "(string \<Rightarrow> int option) \<Rightarrow> string option \<Rightarrow> nat option option" where
  "optional_nat pint v = (case v of None \<Rightarrow> Some None | Some s \<Rightarrow> map_option (\<lambda>n. Some (nat n)) (pint s))"

definition connection_form :: "(string \<Rightarrow> int option) \<Rightarrow> form \<Rightarrow> connection_payload option" where
  "connection_form pint f =
     Option.bind (type_named (given_or f ''type'' ''sftp'')) (\<lambda>type.
     Option.bind (optional_nat pint (clean f ''port'')) (\<lambda>port.
     Option.bind (optional_nat pint (if clean f ''credential_id'' = None then None else map_of f ''credential_id'')) (\<lambda>cred.
     Option.bind (parse_extra_opts (given_in f ''extra_opts'')) (\<lambda>opts.
     Option.bind (if clean f ''rclone_mode'' = None then Some None
                  else map_option Some (rclone_mode_named (given_in f ''rclone_mode''))) (\<lambda>mode.
       Some \<lparr>cp_name = py_strip (given_in f ''name''), cp_type = type, cp_host = clean f ''host'', cp_port = port,
             cp_share = clean f ''share'', cp_base_path = py_strip (given_in f ''base_path''),
             cp_username = clean f ''username'', cp_credential = cred,
             cp_extra_opts = map (\<lambda>(k, v). (k, JStr v)) opts, cp_rclone_mode = mode,
             cp_remote_name = clean f ''rclone_remote_name'', cp_backend_type = clean f ''rclone_backend_type'',
             cp_sentinel = clean f ''sentinel_file''\<rparr>)))))"

definition connection_url :: "nat \<Rightarrow> string" where
  "connection_url i = ''/connections/'' @ str_nat i"

definition create_connection_form ::
  "(string \<Rightarrow> int option) \<Rightarrow> form \<Rightarrow> 'trig catalog \<Rightarrow> page \<times> 'trig catalog" where
  "create_connection_form pint f s =
     (case connection_form pint f of
        None \<Rightarrow> (Rendered 400, s)
      | Some p \<Rightarrow>
          if check_connection p \<noteq> None then (Rendered 400, s)
          else (let i = next_id conn_id (cat_connections s)
                in case credential_named (cat_credentials s) (cp_credential p) of
                     None \<Rightarrow> (Unhandled, s)
                   | Some cr \<Rightarrow>
                       if taken conn_id conn_name (cat_connections s) i (cp_name p) then (Unhandled, s)
                       else (Redirect (connection_url i),
                             with_connections (\<lambda>cs. cs @ [apply_connection p cr (new_connection i)]) s)))"

definition update_connection_form ::
  "(string \<Rightarrow> int option) \<Rightarrow> nat \<Rightarrow> form \<Rightarrow> 'trig catalog \<Rightarrow> page \<times> 'trig catalog" where
  "update_connection_form pint i f s =
     (case row conn_id (cat_connections s) i of
        None \<Rightarrow> (Redirect ''/connections'', s)
      | Some c \<Rightarrow>
          (case connection_form pint f of
             None \<Rightarrow> (Rendered 400, s)
           | Some p \<Rightarrow>
               if check_connection p \<noteq> None then (Rendered 400, s)
               else (case credential_named (cat_credentials s) (cp_credential p) of
                       None \<Rightarrow> (Unhandled, s)
                     | Some cr \<Rightarrow>
                         if taken conn_id conn_name (cat_connections s) i (cp_name p) then (Unhandled, s)
                         else
                           (let c1 = apply_connection p cr c;
                                c2 = (if identity_of c \<noteq> identity_of c1
                                      then c1\<lparr>conn_capabilities := None, capabilities_probed_at := None, last_test_ok := None,
                                              last_test_error := None\<rparr>
                                      else c1)
                            in (Redirect (connection_url i), write_connection c2 s)))))"

text \<open>\<open>urllib.parse.quote\<close>, which leaves a slash alone.\<close>

definition hex_upper :: "nat \<Rightarrow> string" where
  "hex_upper n = [''0123456789ABCDEF'' ! (n div 16 mod 16), ''0123456789ABCDEF'' ! (n mod 16)]"

definition quote_char :: "char \<Rightarrow> string" where
  "quote_char c =
     (let n = (of_char c :: nat)
      in if 48 \<le> n \<and> n \<le> 57 \<or> 65 \<le> n \<and> n \<le> 90 \<or> 97 \<le> n \<and> n \<le> 122 \<or> c \<in> set ''_.-~/'' then [c]
         else if n < 128 then ''%'' @ hex_upper n
         else ''%'' @ hex_upper (192 + n div 64) @ ''%'' @ hex_upper (128 + n mod 64))"

definition url_quote :: "string \<Rightarrow> string" where
  "url_quote s = concat (map quote_char s)"

definition delete_connection_form :: "nat \<Rightarrow> 'trig catalog \<Rightarrow> page \<times> 'trig catalog" where
  "delete_connection_form i s =
     (if row conn_id (cat_connections s) i = None then (Redirect ''/connections'', s)
      else (let users = sort (jobs_on s i)
            in if users \<noteq> [] then
                 (Redirect (''/connections?error=in-use&names='' @ url_quote (join_with '', '' users)), s)
               else (Redirect ''/connections'', with_connections (filter (\<lambda>c. conn_id c \<noteq> i)) s)))"

definition trust_host_key_form ::
  "(string \<Rightarrow> string option) \<Rightarrow> nat \<Rightarrow> form \<Rightarrow> 'trig catalog \<Rightarrow> page \<times> 'trig catalog" where
  "trust_host_key_form sha i f s =
     (case row conn_id (cat_connections s) i of
        None \<Rightarrow> (Redirect ''/connections'', s)
      | Some c \<Rightarrow>
          (case trust_host_key sha (given_in f ''fingerprint'') c of
             Inl e \<Rightarrow> (Rendered 409, s)
           | Inr c' \<Rightarrow> (Redirect (connection_url i), write_connection c' s)))"

definition forget_host_key_form :: "nat \<Rightarrow> 'trig catalog \<Rightarrow> page \<times> 'trig catalog" where
  "forget_host_key_form i s =
     (Redirect (connection_url i),
      case row conn_id (cat_connections s) i of
        None \<Rightarrow> s
      | Some c \<Rightarrow> write_connection (c\<lparr>host_keys := None, host_keys_trusted := False\<rparr>) s)"

text \<open>The same two as endpoints of \<open>app/api/connections.py\<close>.\<close>

definition trust_endpoint ::
  "(string \<Rightarrow> string option) \<Rightarrow> nat \<Rightarrow> string \<Rightarrow> 'trig catalog \<Rightarrow> nat + 'trig catalog" where
  "trust_endpoint sha i fp s =
     (case row conn_id (cat_connections s) i of
        None \<Rightarrow> Inl 404
      | Some c \<Rightarrow> (case trust_host_key sha fp c of Inl e \<Rightarrow> Inl 409 | Inr c' \<Rightarrow> Inr (write_connection c' s)))"

definition forget_endpoint :: "nat \<Rightarrow> 'trig catalog \<Rightarrow> nat + 'trig catalog" where
  "forget_endpoint i s =
     (case row conn_id (cat_connections s) i of
        None \<Rightarrow> Inl 404
      | Some c \<Rightarrow> Inr (write_connection (forget_host_key c) s))"

text \<open>The directory that is shown and the one above it, and the path of an entry.\<close>

definition browse_current :: "string option \<Rightarrow> string" where
  "browse_current path = strip_slash (case path of None \<Rightarrow> [] | Some p \<Rightarrow> p)"

definition browse_parent :: "string \<Rightarrow> string option" where
  "browse_parent current =
     (if current = [] then None else Some (join_with ''/'' (butlast (split_on (CHR ''/'') current))))"

definition browse_entry_path :: "string \<Rightarrow> string \<Rightarrow> string" where
  "browse_entry_path current name = (if current = [] then name else current @ ''/'' @ name)"

subsection \<open>Credentials\<close>

definition kind_named :: "string \<Rightarrow> credential_kind option" where
  "kind_named s = List.find (\<lambda>k. kind_value k = s) [CkPassword, CkSshKey, CkSmbNtlm, CkBackendSecret]"

definition credential_form :: "form \<Rightarrow> credential_create option" where
  "credential_form f =
     map_option (\<lambda>kind.
       \<lparr>cc_name = py_strip (given_in f ''name''), cc_kind = kind, cc_secret = given_in f ''secret'',
        cc_passphrase = nonempty (given_in f ''key_passphrase''), cc_obscured = (given_in f ''is_obscured'' = ''true'')\<rparr>)
       (kind_named (given_or f ''kind'' ''password''))"

definition create_credential_form ::
  "(string \<Rightarrow> string) \<Rightarrow> (string \<Rightarrow> json option) \<Rightarrow> form \<Rightarrow> 'trig catalog \<Rightarrow> page \<times> 'trig catalog" where
  "create_credential_form enc loads f s =
     (case credential_form f of
        None \<Rightarrow> (Redirect ''/credentials?error=invalid'', s)
      | Some p \<Rightarrow>
          if \<not> valid_credential loads p then (Redirect ''/credentials?error=invalid'', s)
          else (let i = next_id cred_id (cat_credentials s)
                in if taken cred_id cred_name (cat_credentials s) i (cc_name p) then (Unhandled, s)
                   else (Redirect ''/credentials'',
                         s\<lparr>cat_credentials := cat_credentials s @
                           [\<lparr>cred_id = i, cred_name = cc_name p, cred_kind = cc_kind p,
                             secret_ciphertext = enc (cc_secret p),
                             key_passphrase_ciphertext = encrypted enc (cc_passphrase p),
                             is_obscured = cc_obscured p\<rparr>]\<rparr>)))"

definition delete_credential_form :: "nat \<Rightarrow> 'trig catalog \<Rightarrow> page \<times> 'trig catalog" where
  "delete_credential_form i s =
     (if row cred_id (cat_credentials s) i = None then (Redirect ''/credentials'', s)
      else if users_of s i \<noteq> [] then (Redirect ''/credentials?error=invalid'', s)
      else (Redirect ''/credentials'', s\<lparr>cat_credentials := filter (\<lambda>cr. cred_id cr \<noteq> i) (cat_credentials s)\<rparr>))"

subsection \<open>Runs\<close>

definition run_url :: "nat \<Rightarrow> string" where "run_url i = ''/runs/'' @ str_nat i"

text \<open>Where a conflict leads: the newest run of the job.\<close>

definition in_flight :: "nat \<Rightarrow> store \<Rightarrow> page" where
  "in_flight j st =
     Redirect (case latest_runs 1 j st of [] \<Rightarrow> ''/jobs/'' @ str_nat j | r # _ \<Rightarrow> run_url (run_id r))"

definition run_job_form :: "nat \<Rightarrow> world \<Rightarrow> page \<times> world" where
  "run_job_form j w =
     (if find_job (db w) j = None then (Redirect ''/jobs'', w)
      else (case create_run j TrigManual DryRun (db w) of
              None \<Rightarrow> (in_flight j (db w), w)
            | Some (i, st) \<Rightarrow> (Redirect (run_url i), w\<lparr>db := st, plan_queue := plan_queue w @ [i]\<rparr>)))"

definition run_job_live_form :: "nat \<Rightarrow> world \<Rightarrow> page \<times> world" where
  "run_job_live_form j w =
     (if find_job (db w) j = None then (Redirect ''/jobs'', w)
      else (case create_run j TrigManual Live (db w) of
              None \<Rightarrow> (in_flight j (db w), w)
            | Some (i, st) \<Rightarrow> (Redirect (run_url i), w\<lparr>db := st, live_queue := live_queue w @ [i]\<rparr>)))"

definition resync_job_form :: "nat \<Rightarrow> world \<Rightarrow> page \<times> world" where
  "resync_job_form j w =
     (case find_job (db w) j of
        None \<Rightarrow> (Redirect ''/jobs'', w)
      | Some job \<Rightarrow>
          if job_direction job \<noteq> Bidirectional then (Redirect ''/jobs'', w)
          else (case create_run j TrigManual Live (db w) of
                  None \<Rightarrow> (in_flight j (db w), w)
                | Some (i, st) \<Rightarrow>
                    (Redirect (run_url i),
                     w\<lparr>db := amend_run i (\<lambda>r. r\<lparr>is_resync := True\<rparr>) st, live_queue := live_queue w @ [i]\<rparr>)))"

definition cancel_run_form :: "nat \<Rightarrow> world \<Rightarrow> page \<times> world" where
  "cancel_run_form i w =
     (case find_run (db w) i of
        None \<Rightarrow> (Redirect ''/jobs'', w)
      | Some r \<Rightarrow>
          (Redirect (run_url i),
           if run_status_of r \<in> {Queued, Running} then
             snd (cancel_process i (w\<lparr>db := amend_run i (\<lambda>r. r\<lparr>run_status_of := Cancelled\<rparr>) (db w)\<rparr>))
           else w))"

subsection \<open>The page of a connection\<close>

text \<open>What a browser submits for the page as it was rendered: a field that does not apply to the protocol is not in the
  document, a single line drops its line breaks, a text area sends them as two characters, and a select with no matching
  option sends its first. \<open>remotes\<close> is what the mounted configuration offers.\<close>

definition line_value :: "string \<Rightarrow> string" where
  "line_value v = filter (\<lambda>c. c \<noteq> CHR 0x0A \<and> c \<noteq> CHR 0x0D) v"

fun text_area :: "string \<Rightarrow> string" where
  "text_area [] = []"
| "text_area (c # cs) =
     (if c = CHR 0x0D \<and> cs \<noteq> [] \<and> hd cs = CHR 0x0A then CHR 0x0D # CHR 0x0A # text_area (tl cs)
      else if c = CHR 0x0D \<or> c = CHR 0x0A then CHR 0x0D # CHR 0x0A # text_area cs
      else c # text_area cs)"

definition line_field :: "bool \<Rightarrow> string \<Rightarrow> string option \<Rightarrow> form" where
  "line_field shown name v = (if shown then [(name, line_value (case v of None \<Rightarrow> [] | Some t \<Rightarrow> t))] else [])"

definition rendered_connection :: "ext \<Rightarrow> string list \<Rightarrow> credential list \<Rightarrow> connection \<Rightarrow> form" where
  "rendered_connection x remotes crs c =
     (let t = conn_type c; host = t \<notin> {CtLocal, CtRcloneRemote};
          mode = (case conn_rclone_mode c of None \<Rightarrow> RmInline | Some m \<Rightarrow> m);
          remote = (case rclone_remote_name c of None \<Rightarrow> [] | Some r \<Rightarrow> r)
      in [(''name'', line_value (conn_name c)), (''type'', type_value t)] @
         line_field host ''host'' (conn_host c) @
         line_field host ''port'' (case conn_port c of None \<Rightarrow> None | Some n \<Rightarrow> if n = 0 then None else Some (str_nat n)) @
         line_field host ''username'' (conn_username c) @
         line_field (t = CtSmb) ''share'' (conn_share c) @
         (if t = CtRcloneRemote then [(''rclone_mode'', rclone_mode_value mode)] else []) @
         line_field (t = CtRcloneRemote \<and> mode = RmInline) ''rclone_backend_type'' (rclone_backend_type c) @
         (if t = CtRcloneRemote \<and> mode = RmImported
          then [(''rclone_remote_name'', if remote \<in> set remotes then remote else [])] else []) @
         [(''base_path'', line_value (base_path c)),
          (''credential_id'', case conn_credential c of None \<Rightarrow> []
             | Some cr \<Rightarrow> if cred_id cr \<in> cred_id ` set crs then str_nat (cred_id cr) else [])] @
         line_field (t = CtLocal) ''sentinel_file'' (sentinel_file c) @
         [(''extra_opts'', text_area (extra_opts_text x (extra_opts c)))])"

subsection \<open>Lemmas: advanced options\<close>

lemma text_area_append: "\<forall>c \<in> set l. \<not> line_break c \<Longrightarrow> text_area (l @ rest) = l @ text_area rest"
  by (induction l) (auto simp: line_break_def)

lemma text_area_lines:
  "\<forall>l \<in> set ls. \<forall>c \<in> set l. \<not> line_break c \<Longrightarrow> text_area (join_with [CHR 0x0A] ls) = join_with [CHR 0x0D, CHR 0x0A] ls"
proof (induction ls)
  case (Cons l ls)
  show ?case
  proof (cases ls)
    case Nil
    then show ?thesis using Cons.prems text_area_append [of l "[]"] by simp
  next
    case (Cons m ms)
    then show ?thesis using Cons.prems Cons.IH text_area_append [of l "CHR 0x0A # join_with [CHR 0x0A] ls"] by simp
  qed
qed simp

lemma splitlines_crlf:
  "\<forall>l \<in> set ls. l \<noteq> [] \<and> (\<forall>c \<in> set l. \<not> line_break c) \<Longrightarrow> py_splitlines (join_with [CHR 0x0D, CHR 0x0A] ls) = ls"
proof (induction ls)
  case (Cons l ls)
  show ?case
  proof (cases ls)
    case Nil
    then show ?thesis using Cons.prems splitlines_acc_append [of l "[]" "[]"] by (simp add: py_splitlines_def)
  next
    case (Cons m ms)
    then have "py_splitlines (join_with [CHR 0x0D, CHR 0x0A] (l # ls)) =
        splitlines_acc [] (l @ CHR 0x0D # CHR 0x0A # join_with [CHR 0x0D, CHR 0x0A] ls)"
      by (simp add: py_splitlines_def)
    also have "\<dots> = l # py_splitlines (join_with [CHR 0x0D, CHR 0x0A] ls)"
      using Cons.prems splitlines_acc_append [of l "[]"] by (simp add: py_splitlines_def)
    finally show ?thesis using Cons.prems Cons.IH by simp
  qed
qed (simp add: py_splitlines_def)

text \<open>A text a form gives back as it is.\<close>

definition neat_text :: "string \<Rightarrow> bool" where
  "neat_text v \<longleftrightarrow> py_strip v = v \<and> list_all (\<lambda>c. \<not> line_break c) v"

definition neat_option :: "string \<times> json \<Rightarrow> bool" where
  "neat_option kv \<longleftrightarrow>
     fst kv \<noteq> [] \<and> neat_text (fst kv) \<and> \<not> prefix ''#'' (fst kv) \<and> CHR ''='' \<notin> set (fst kv) \<and>
     (case snd kv of JStr v \<Rightarrow> neat_text v | _ \<Rightarrow> False)"

lemma strip_if_snoc:
  assumes "P c"
  shows "strip_if P (s @ [c]) = strip_if P s"
proof (cases "\<forall>x \<in> set s. P x")
  case True
  then have "\<forall>x \<in> set (s @ [c]). P x" using assms by simp
  then show ?thesis using True by (simp only: strip_if_all)
next
  case False
  then obtain x where x: "x \<in> set s" "\<not> P x" by blast
  then have "dropWhile P (s @ [c]) = dropWhile P s @ [c]" by (rule dropWhile_append1)
  then show ?thesis using assms by (simp add: strip_if_def rstrip_if_def)
qed

lemma blank_space: "py_space CHR '' ''" "\<not> py_space CHR ''=''"
  by (simp_all add: py_space_def)

lemma strip_space_after: "py_strip (s @ '' '') = py_strip s"
  unfolding py_strip_def by (rule strip_if_snoc) (rule blank_space)

lemma strip_space_before: "py_strip (CHR '' '' # s) = py_strip s"
  by (simp add: py_strip_def strip_if_def blank_space)

lemma strip_option_line:
  assumes "k \<noteq> []" "py_strip k = k" "py_strip v = v"
  shows "py_strip (k @ '' = '' @ v) = k @ '' ='' @ (if v = [] then [] else CHR '' '' # v)"
proof -
  have hd: "\<not> py_space (hd k)" using strip_if_hd [of py_space k] assms(1,2) by (simp add: py_strip_def)
  show ?thesis
  proof (cases "v = []")
    case True
    have "py_strip (k @ '' = '') = py_strip (k @ '' ='')" using strip_space_after [of "k @ '' =''"] by simp
    also have "\<dots> = k @ '' =''"
      unfolding py_strip_def by (rule strip_if_id) (use hd assms(1) blank_space in simp)
    finally show ?thesis using True by simp
  next
    case False
    then have "\<not> py_space (last v)" using strip_if_last [of py_space v] assms(3) by (simp add: py_strip_def)
    then have "py_strip (k @ '' = '' @ v) = k @ '' = '' @ v"
      unfolding py_strip_def using hd assms(1) False by (intro strip_if_id) simp
    then show ?thesis using False by simp
  qed
qed

lemma dict_put_fresh: "k \<notin> fst ` set d \<Longrightarrow> dict_put k v d = d @ [(k, v)]"
  by (induction d) auto

lemma read_options_back:
  assumes "list_all neat_option opts" "distinct (map fst opts)" "fst ` set opts \<inter> fst ` set acc = {}"
  shows "read_options (extra_opts_lines x opts) acc = Some (acc @ map (\<lambda>(k, v). (k, py_str x v)) opts)"
  using assms
proof (induction opts arbitrary: acc)
  case (Cons kv opts)
  obtain k v where kv: "kv = (k, JStr v)" "k \<noteq> []" "py_strip k = k" "py_strip v = v" "\<not> prefix ''#'' k" "CHR ''='' \<notin> set k"
    using Cons.prems(1) by (cases kv; cases "snd kv") (auto simp: neat_option_def neat_text_def)
  have line: "py_strip (k @ '' = '' @ v) = k @ '' ='' @ (if v = [] then [] else CHR '' '' # v)"
    using strip_option_line kv by blast
  let ?line = "k @ '' ='' @ (if v = [] then [] else CHR '' '' # v)"
  have key: "takeWhile (\<lambda>c. c \<noteq> CHR ''='') ?line = k @ '' ''"
    using kv(6) by (induction k) auto
  have k: "py_strip (k @ '' '') = k"
    using strip_space_after [of k] kv(2,3) by simp
  have v: "py_strip (drop (Suc (length (k @ '' ''))) ?line) = v"
    using strip_space_before [of v] kv(4) by (cases "v = []") simp_all
  have "?line \<noteq> []" "\<not> prefix ''#'' ?line" "CHR ''='' \<in> set ?line" using kv(2,5) by (cases k; simp)+
  then have "read_options ((k @ '' = '' @ v) # ls) acc = read_options ls (dict_put k v acc)" for ls
    using k v by (simp only: read_options.simps line Let_def key if_False if_True de_Morgan_disj not_not simp_thms)
  moreover have "dict_put k v acc = acc @ [(k, v)]" using Cons.prems(3) kv(1) by (intro dict_put_fresh) auto
  moreover have "read_options (extra_opts_lines x opts) (acc @ [(k, v)]) =
      Some ((acc @ [(k, v)]) @ map (\<lambda>(k, v). (k, py_str x v)) opts)"
    using Cons.prems kv(1) by (intro Cons.IH) auto
  ultimately show ?case using kv(1) by (simp add: extra_opts_lines_def py_str_def)
qed (simp add: extra_opts_lines_def)

subsection \<open>The pages and the API\<close>

definition left_by :: "'s \<Rightarrow> nat + 's \<Rightarrow> 's" where
  "left_by s r = (case r of Inl e \<Rightarrow> s | Inr s' \<Rightarrow> s')"

definition when_parsed :: "'p option \<Rightarrow> ('p \<Rightarrow> nat + 's) \<Rightarrow> nat + 's" where
  "when_parsed p f = (case p of None \<Rightarrow> Inl 400 | Some v \<Rightarrow> f v)"

definition by_hand :: "nat + (nat \<times> world) \<Rightarrow> nat + world" where
  "by_hand = map_sum id (\<lambda>(i, w). w\<lparr>db := amend_run i (\<lambda>r. r\<lparr>run_trigger_of := TrigManual\<rparr>) (db w)\<rparr>)"

lemma left_by_simps [simp]: "left_by s (Inl e) = s" "left_by s (Inr s') = s'"
  by (simp_all add: left_by_def)

lemma create_connection_page:
  "snd (create_connection_form pint f s) = left_by s (when_parsed (connection_form pint f) (\<lambda>p. create_connection p s))"
  "fst (create_connection_form pint f s) = Unhandled \<longleftrightarrow>
     when_parsed (connection_form pint f) (\<lambda>p. create_connection p s) = Inl 409"
  by (simp_all add: create_connection_form_def create_connection_def when_parsed_def Let_def split: option.splits)

lemma edit_by_page:
  "(let c1 = apply_connection p cr c
    in if identity_of c \<noteq> identity_of c1
       then c1\<lparr>conn_capabilities := None, capabilities_probed_at := None, last_test_ok := None, last_test_error := None\<rparr>
       else c1) = edit_connection p cr c"
  by (cases "identity_of c = identity_of (apply_connection p cr c)") (simp_all add: edit_connection_def)

lemma update_connection_page:
  "snd (update_connection_form pint i f s) = left_by s (when_parsed (connection_form pint f) (\<lambda>p. update_connection i p s))"
  "fst (update_connection_form pint i f s) = Unhandled \<longleftrightarrow>
     when_parsed (connection_form pint f) (\<lambda>p. update_connection i p s) = Inl 409"
  by (simp_all add: update_connection_form_def update_connection_def when_parsed_def edit_by_page [unfolded Let_def]
      Let_def split: option.splits)

lemma create_credential_page:
  "snd (create_credential_form enc loads f s) =
     left_by s (when_parsed (credential_form f) (\<lambda>p. create_credential enc loads p s))"
  "fst (create_credential_form enc loads f s) = Unhandled \<longleftrightarrow>
     when_parsed (credential_form f) (\<lambda>p. create_credential enc loads p s) = Inl 409"
  by (simp_all add: create_credential_form_def create_credential_def when_parsed_def Let_def split: option.splits)

lemma sort_Nil: "sort xs = [] \<longleftrightarrow> xs = []"
  by (metis set_empty set_sort)

lemma delete_pages:
  "snd (delete_connection_form i s) = left_by s (delete_connection i s)"
  "snd (delete_credential_form i s) = left_by s (delete_credential i s)"
  by (simp_all add: delete_connection_form_def delete_connection_def delete_credential_form_def delete_credential_def Let_def
      sort_Nil)

lemma host_key_pages:
  "snd (trust_host_key_form sha i f s) = left_by s (trust_endpoint sha i (given_in f ''fingerprint'') s)"
  "snd (forget_host_key_form i s) = left_by s (forget_endpoint i s)"
  by (simp_all add: trust_host_key_form_def trust_endpoint_def forget_host_key_form_def forget_endpoint_def
      forget_host_key_def split: option.splits sum.splits)

text \<open>A run that was just created, with another trigger.\<close>

lemma fresh_run: "r \<in> set (db_runs st) \<Longrightarrow> run_id r < next_run_id st"
proof -
  have "r \<in> set rs \<Longrightarrow> run_id r \<le> foldr (\<lambda>r m. max (run_id r) m) rs 0" for rs :: "job_run list"
    by (induction rs) auto
  then show "r \<in> set (db_runs st) \<Longrightarrow> run_id r < next_run_id st" by (auto simp: next_run_id_def le_imp_less_Suc)
qed

lemma create_run_manual:
  "create_run j TrigManual m st =
     map_option (\<lambda>(i, st'). (i, amend_run i (\<lambda>r. r\<lparr>run_trigger_of := TrigManual\<rparr>) st')) (create_run j TrigApi m st)"
proof -
  have "map (\<lambda>r. if run_id r = next_run_id st then r\<lparr>run_trigger_of := TrigManual\<rparr> else r) (db_runs st) = db_runs st"
    by (rule map_idI) (use fresh_run in fastforce)
  then show ?thesis by (simp add: create_run_def insert_run_def new_run_def amend_run_def)
qed

lemma amend_resync_trigger:
  "amend_run i (\<lambda>r. r\<lparr>run_trigger_of := t\<rparr>) (amend_run i (\<lambda>r. r\<lparr>is_resync := b\<rparr>) st) =
   amend_run i (\<lambda>r. r\<lparr>is_resync := b\<rparr>) (amend_run i (\<lambda>r. r\<lparr>run_trigger_of := t\<rparr>) st)"
  by (simp add: amend_run_def)

lemma run_pages:
  "snd (run_job_form j w) = left_by w (by_hand (run_job j DryRun w))"
  "snd (run_job_live_form j w) = left_by w (by_hand (run_job j Live w))"
  "snd (resync_job_form j w) = left_by w (by_hand (resync_job j w))"
  "snd (cancel_run_form i w) = left_by w (cancel_run i w)"
  by (auto simp: run_job_form_def run_job_live_form_def resync_job_form_def cancel_run_form_def run_job_def resync_job_def
      cancel_run_def by_hand_def create_run_manual amend_resync_trigger split: option.splits)


subsection \<open>A page saved as it was rendered\<close>

definition stored_payload :: "connection \<Rightarrow> connection_payload" where
  "stored_payload c =
     \<lparr>cp_name = conn_name c, cp_type = conn_type c, cp_host = conn_host c, cp_port = conn_port c, cp_share = conn_share c,
      cp_base_path = base_path c, cp_username = conn_username c, cp_credential = map_option cred_id (conn_credential c),
      cp_extra_opts = extra_opts c, cp_rclone_mode = conn_rclone_mode c, cp_remote_name = rclone_remote_name c,
      cp_backend_type = rclone_backend_type c, cp_sentinel = sentinel_file c\<rparr>"

definition neat_field :: "string option \<Rightarrow> bool" where
  "neat_field v \<longleftrightarrow> (case v of None \<Rightarrow> True | Some t \<Rightarrow> t \<noteq> [] \<and> neat_text t)"

text \<open>A row whose texts a form gives back and whose fields are all on its page.\<close>

definition on_page :: "string list \<Rightarrow> connection \<Rightarrow> bool" where
  "on_page remotes c \<longleftrightarrow>
     neat_text (conn_name c) \<and> neat_text (base_path c) \<and>
     list_all neat_field [conn_host c, conn_share c, conn_username c, rclone_remote_name c, rclone_backend_type c, sentinel_file c] \<and>
     list_all neat_option (extra_opts c) \<and> distinct (map fst (extra_opts c)) \<and>
     (if conn_type c \<in> {CtLocal, CtRcloneRemote} then conn_host c = None \<and> conn_port c = None \<and> conn_username c = None else True) \<and>
     (if conn_type c = CtRcloneRemote \<and> conn_rclone_mode c = Some RmInline then rclone_remote_name c = None
      else rclone_backend_type c = None) \<and>
     (case rclone_remote_name c of None \<Rightarrow> True | Some r \<Rightarrow> conn_rclone_mode c = Some RmImported \<and> r \<in> set remotes)"

lemma map_of_line_field:
  "map_of (line_field b n v) k = (if b \<and> k = n then Some (line_value (case v of None \<Rightarrow> [] | Some t \<Rightarrow> t)) else None)"
  by (simp add: line_field_def)

lemma map_of_shown: "map_of (if b then [(n, v)] else []) k = (if b \<and> k = n then Some v else None)"
  by simp

lemma line_value_neat: "neat_text v \<Longrightarrow> line_value v = v"
  by (auto simp: neat_text_def line_value_def line_break_def list_all_iff intro!: filter_True)

lemma line_value_Nil: "line_value [] = []"
  by (simp add: line_value_def)

lemma not_inline: "m \<noteq> RmInline \<longleftrightarrow> m = RmImported"
  by (cases m) simp_all

lemma clean_back:
  assumes "map_of f k = (if b then Some (line_value (case v of None \<Rightarrow> [] | Some t \<Rightarrow> t)) else None)"
    and "neat_field v" "b \<or> v = None"
  shows "clean f k = v"
proof -
  have e: "py_strip [] = []" by (simp add: py_strip_def strip_if_def)
  show ?thesis
    using assms line_value_neat by (cases v) (auto simp: clean_def given_in_def neat_field_def nonempty_def neat_text_def
        line_value_Nil e)
qed

lemma rendered_fields:
  assumes "f = rendered_connection x remotes crs c"
  shows "map_of f ''name'' = Some (line_value (conn_name c))" "map_of f ''type'' = Some (type_value (conn_type c))"
    "map_of f ''base_path'' = Some (line_value (base_path c))"
    "map_of f ''extra_opts'' = Some (text_area (extra_opts_text x (extra_opts c)))"
    "map_of f ''host'' = (if conn_type c \<notin> {CtLocal, CtRcloneRemote}
       then Some (line_value (case conn_host c of None \<Rightarrow> [] | Some t \<Rightarrow> t)) else None)"
    "map_of f ''username'' = (if conn_type c \<notin> {CtLocal, CtRcloneRemote}
       then Some (line_value (case conn_username c of None \<Rightarrow> [] | Some t \<Rightarrow> t)) else None)"
    "map_of f ''share'' = (if conn_type c = CtSmb
       then Some (line_value (case conn_share c of None \<Rightarrow> [] | Some t \<Rightarrow> t)) else None)"
    "map_of f ''sentinel_file'' = (if conn_type c = CtLocal
       then Some (line_value (case sentinel_file c of None \<Rightarrow> [] | Some t \<Rightarrow> t)) else None)"
    "map_of f ''port'' = (if conn_type c \<notin> {CtLocal, CtRcloneRemote}
       then Some (line_value (case conn_port c of None \<Rightarrow> [] | Some n \<Rightarrow> if n = 0 then [] else str_nat n)) else None)"
    "map_of f ''credential_id'' = Some (case conn_credential c of None \<Rightarrow> []
       | Some cr \<Rightarrow> if cred_id cr \<in> cred_id ` set crs then str_nat (cred_id cr) else [])"
    "map_of f ''rclone_mode'' = (if conn_type c = CtRcloneRemote
       then Some (rclone_mode_value (case conn_rclone_mode c of None \<Rightarrow> RmInline | Some m \<Rightarrow> m)) else None)"
    "map_of f ''rclone_backend_type'' = (if conn_type c = CtRcloneRemote \<and> conn_rclone_mode c \<noteq> Some RmImported
       then Some (line_value (case rclone_backend_type c of None \<Rightarrow> [] | Some t \<Rightarrow> t)) else None)"
    "map_of f ''rclone_remote_name'' = (if conn_type c = CtRcloneRemote \<and> conn_rclone_mode c = Some RmImported
       then Some (case rclone_remote_name c of None \<Rightarrow> [] | Some r \<Rightarrow> if r \<in> set remotes then r else []) else None)"
  unfolding assms rendered_connection_def Let_def map_of_append map_add_def map_of_line_field map_of_shown
  by (simp_all add: option.case_eq_if) (auto simp: not_inline)

text \<open>What such a form parses to.\<close>

lemma extra_opts_back:
  assumes "list_all neat_option opts" "distinct (map fst opts)"
  shows "map_option (map (\<lambda>(k, v). (k, JStr v))) (parse_extra_opts (text_area (extra_opts_text x opts))) = Some opts"
proof -
  let ?ls = "extra_opts_lines x opts"
  have neat: "l \<noteq> [] \<and> (\<forall>c \<in> set l. \<not> line_break c)" if l: "l \<in> set ?ls" for l
  proof -
    obtain kv where kv: "kv \<in> set opts" "l = fst kv @ '' = '' @ py_str x (snd kv)"
      using l by (auto simp: extra_opts_lines_def)
    then have "neat_option kv" using assms(1) by (simp add: list_all_iff)
    then show ?thesis
      using kv(2) by (auto simp: neat_option_def neat_text_def list_all_iff line_break_def py_str_def split: json.splits)
  qed
  then have "text_area (extra_opts_text x opts) = join_with [CHR 0x0D, CHR 0x0A] ?ls"
    unfolding extra_opts_text_def by (intro text_area_lines) blast
  then have "parse_extra_opts (text_area (extra_opts_text x opts)) = Some (map (\<lambda>(k, v). (k, py_str x v)) opts)"
    using splitlines_crlf [of ?ls] neat read_options_back [OF assms, of "[]" x] by (simp add: parse_extra_opts_def)
  moreover have "map (\<lambda>(k, v). (k, JStr v)) (map (\<lambda>(k, v). (k, py_str x v)) opts) = opts"
    unfolding map_map
  proof (rule map_idI)
    fix kv assume "kv \<in> set opts"
    then have "neat_option kv" using assms(1) by (simp add: list_all_iff)
    then show "((\<lambda>(k, v). (k, JStr v)) \<circ> (\<lambda>(k, v). (k, py_str x v))) kv = kv"
      by (cases kv; cases "snd kv") (auto simp: neat_option_def py_str_def)
  qed
  ultimately show ?thesis by simp
qed

lemma str_nat_neat: "neat_text (str_nat n)"
proof -
  have "\<not> py_space c \<and> \<not> line_break c" if "c \<in> set (str_nat n)" for c
    using str_nat_char [OF that] by (auto simp: ascii_digit_def py_space_def line_break_def)
  then show ?thesis
    by (auto simp: neat_text_def py_strip_def list_all_iff intro!: strip_if_id)
qed

lemma type_back: "type_named (type_value t) = Some t" "type_value t \<noteq> []"
  by (cases t; simp add: type_named_def)+

lemma mode_text: "py_strip (rclone_mode_value m) = rclone_mode_value m" "rclone_mode_value m \<noteq> []"
  unfolding py_strip_def by (rule strip_if_id, cases m; simp add: py_space_def) (cases m; simp)

lemma mode_error_type: "check_connection (stored_payload c) = None \<Longrightarrow> conn_type c = CtRcloneRemote \<longleftrightarrow> conn_rclone_mode c \<noteq> None"
  by (auto simp: check_connection_def mode_error_def stored_payload_def split: if_splits option.splits)

lemma rendered_parses:
  assumes f: "f = rendered_connection x remotes crs c"
    and page: "on_page remotes c" and ok: "check_connection (stored_payload c) = None"
    and cred: "\<And>cr. conn_credential c = Some cr \<Longrightarrow> cred_id cr \<in> cred_id ` set crs"
    and pint: "\<And>n. pint (str_nat n) = Some (int n)"
  shows "connection_form pint f = Some (stored_payload c)"
proof -
  note fields = rendered_fields [OF f]
  have neat: "neat_text (conn_name c)" "neat_text (base_path c)" "neat_field (conn_host c)" "neat_field (conn_share c)"
      "neat_field (conn_username c)" "neat_field (rclone_remote_name c)" "neat_field (rclone_backend_type c)"
      "neat_field (sentinel_file c)" "list_all neat_option (extra_opts c)" "distinct (map fst (extra_opts c))"
    using page by (simp_all add: on_page_def)
  have type: "type_named (given_or f ''type'' ''sftp'') = Some (conn_type c)"
    using fields(2) type_back by (simp add: given_or_def given_in_def)
  have texts: "py_strip (given_in f ''name'') = conn_name c" "py_strip (given_in f ''base_path'') = base_path c"
    using fields(1,3) neat(1,2) line_value_neat by (simp_all add: given_in_def neat_text_def)
  have host: "clean f ''host'' = conn_host c"
    by (rule clean_back [OF fields(5) neat(3)]) (use page in \<open>auto simp: on_page_def split: if_splits\<close>)
  have user: "clean f ''username'' = conn_username c"
    by (rule clean_back [OF fields(6) neat(5)]) (use page in \<open>auto simp: on_page_def split: if_splits\<close>)
  have share: "clean f ''share'' = conn_share c"
    by (rule clean_back [OF fields(7) neat(4)])
      (use ok neat(4) in \<open>auto simp: check_connection_def stored_payload_def holds_some_def neat_field_def split: if_splits option.splits\<close>)
  have sentinel: "clean f ''sentinel_file'' = sentinel_file c"
    by (rule clean_back [OF fields(8) neat(8)])
      (use ok neat(8) in \<open>auto simp: check_connection_def stored_payload_def holds_some_def neat_field_def split: if_splits option.splits\<close>)
  have backend: "clean f ''rclone_backend_type'' = rclone_backend_type c"
    by (rule clean_back [OF fields(12) neat(7)]) (use page in \<open>auto simp: on_page_def split: if_splits\<close>)
  have remote: "clean f ''rclone_remote_name'' = rclone_remote_name c"
  proof (rule clean_back [OF _ neat(6)])
    show "map_of f ''rclone_remote_name'' =
        (if conn_type c = CtRcloneRemote \<and> conn_rclone_mode c = Some RmImported
         then Some (line_value (case rclone_remote_name c of None \<Rightarrow> [] | Some t \<Rightarrow> t)) else None)"
      using fields(13) page neat(6) line_value_neat line_value_Nil
      by (cases "rclone_remote_name c") (auto simp: on_page_def neat_field_def)
    show "(conn_type c = CtRcloneRemote \<and> conn_rclone_mode c = Some RmImported) \<or> rclone_remote_name c = None"
      using page mode_error_type [OF ok] by (auto simp: on_page_def split: option.splits)
  qed
  have port: "optional_nat pint (clean f ''port'') = Some (conn_port c)"
  proof (cases "conn_port c")
    case None
    then have "clean f ''port'' = None"
      using fields(9) by (simp add: clean_def given_in_def nonempty_def line_value_Nil py_strip_def strip_if_def)
    then show ?thesis using None by (simp add: optional_nat_def)
  next
    case (Some n)
    have "n \<noteq> 0"
      using ok Some by (auto simp: check_connection_def connection_fields_fit_def stored_payload_def between_def split: if_splits)
    moreover have "conn_type c \<notin> {CtLocal, CtRcloneRemote}" using page Some by (auto simp: on_page_def split: if_splits)
    ultimately have "clean f ''port'' = Some (str_nat n)"
      using fields(9) Some str_nat_neat [of n] line_value_neat [OF str_nat_neat]
      by (simp add: clean_def given_in_def nonempty_def neat_text_def)
    then show ?thesis using Some pint by (simp add: optional_nat_def)
  qed
  have cred_id: "optional_nat pint (if clean f ''credential_id'' = None then None else map_of f ''credential_id'') =
      Some (map_option cred_id (conn_credential c))"
  proof (cases "conn_credential c")
    case None
    then show ?thesis
      using fields(10) by (simp add: clean_def given_in_def nonempty_def optional_nat_def py_strip_def strip_if_def)
  next
    case (Some cr)
    then show ?thesis
      using fields(10) cred [OF Some] str_nat_neat [of "cred_id cr"] pint
      by (simp add: clean_def given_in_def nonempty_def optional_nat_def neat_text_def)
  qed
  obtain opts where opts: "parse_extra_opts (given_in f ''extra_opts'') = Some opts" "map (\<lambda>(k, v). (k, JStr v)) opts = extra_opts c"
    using extra_opts_back [OF neat(9,10), of x] fields(4) by (auto simp: given_in_def)
  have mode: "(if clean f ''rclone_mode'' = None then Some None
      else map_option Some (rclone_mode_named (given_in f ''rclone_mode''))) = Some (conn_rclone_mode c)"
  proof (cases "conn_rclone_mode c")
    case None
    then have "map_of f ''rclone_mode'' = None" using fields(11) mode_error_type [OF ok] by auto
    then show ?thesis using None by (simp add: clean_def given_in_def nonempty_def py_strip_def strip_if_def)
  next
    case (Some m)
    then have "map_of f ''rclone_mode'' = Some (rclone_mode_value m)" using fields(11) mode_error_type [OF ok] by auto
    then show ?thesis using Some mode_text [of m] by (simp add: clean_def given_in_def nonempty_def)
  qed
  show ?thesis
    unfolding connection_form_def type texts host user share sentinel backend remote port cred_id mode opts(1) bind.simps
    by (simp add: stored_payload_def opts(2) case_prod_beta)
qed

lemma row_mem: "distinct (map key xs) \<Longrightarrow> x \<in> set xs \<Longrightarrow> row key xs (key x) = Some x"
  unfolding row_def by (induction xs) auto

lemma row_replaced:
  assumes "distinct (map key xs)" "x \<in> set xs" "y \<in> set xs"
  shows "replace_by key x y = y"
  using assms by (auto simp: replace_by_def distinct_map inj_on_def)

lemma write_same_connection:
  assumes "coherent s" "c \<in> set (cat_connections s)"
  shows "write_connection c s = s"
proof -
  have keys: "distinct (map conn_id (cat_connections s))" using assms(1) by (simp add: coherent_def keyed_def)
  have "map (replace_by conn_id c) (cat_connections s) = cat_connections s"
    by (rule map_idI) (rule row_replaced [OF keys assms(2)])
  moreover have "map (map_endpoints (replace_by conn_id c)) (cat_jobs s) = cat_jobs s"
  proof (rule map_idI)
    fix j assume "j \<in> set (cat_jobs s)"
    then have "source_connection j \<in> set (cat_connections s)" "dest_connection j \<in> set (cat_connections s)"
      using assms(1) by (auto simp: coherent_def job_refs_ok_def)
    then show "map_endpoints (replace_by conn_id c) j = j"
      using row_replaced [OF keys assms(2)] by (simp add: map_endpoints_def)
  qed
  ultimately show ?thesis by (simp add: write_connection_def with_connections_def with_jobs_def cat_connections_def cat_jobs_def)
qed

text \<open>A connection whose page is opened and saved unchanged stays as it was. Where what a form carries is all there is
  (texts without surrounding blanks or line breaks, options that are such texts, fields that apply to the protocol), the
  page of any connection of a coherent catalog submits a payload that leaves every table alone, the probe of the
  connection, its host keys and the endpoints of the jobs included.\<close>

theorem resaved_connection:
  assumes "coherent s" "row conn_id (cat_connections s) i = Some c"
    and "check_connection (stored_payload c) = None" "on_page remotes c" "\<And>n. pint (str_nat n) = Some (int n)"
  shows "update_connection_form pint i (rendered_connection x remotes (cat_credentials s) c) s = (Redirect (connection_url i), s)"
proof -
  have c: "c \<in> set (cat_connections s)" "conn_id c = i" using row_Some [OF assms(2)] by simp_all
  have cred: "cr \<in> set (cat_credentials s)" if "conn_credential c = Some cr" for cr
    using assms(1) c(1) that by (auto simp: coherent_def credential_ok_def)
  have "credential_named (cat_credentials s) (map_option cred_id (conn_credential c)) = Some (conn_credential c)"
  proof (cases "conn_credential c")
    case (Some cr)
    have "distinct (map cred_id (cat_credentials s))" using assms(1) by (simp add: coherent_def keyed_def)
    then have "row cred_id (cat_credentials s) (cred_id cr) = Some cr" by (rule row_mem) (rule cred [OF Some])
    then show ?thesis using Some by (simp add: credential_named_def)
  qed (simp add: credential_named_def)
  moreover have "connection_form pint (rendered_connection x remotes (cat_credentials s) c) = Some (stored_payload c)"
    by (rule rendered_parses [OF refl assms(4,3) _ assms(5)]) (use cred in blast)
  moreover have "\<not> taken conn_id conn_name (cat_connections s) i (conn_name c)"
    using assms(1) c keyed_same_name [of conn_id conn_name "cat_connections s"]
    by (auto simp: taken_def list_ex_iff coherent_def)
  moreover have "apply_connection (stored_payload c) (conn_credential c) c = c"
    by (simp add: apply_connection_def stored_payload_def)
  ultimately show ?thesis
    using assms(2,3) write_same_connection [OF assms(1) c(1)]
    by (simp add: update_connection_form_def stored_payload_def [of c] Let_def)
qed

definition sample_saved :: connection where
  "sample_saved =
     sample_connection\<lparr>extra_opts := [(''shell_type'', JStr ''unix''), (''idle'', JStr [])], last_test_ok := Some True,
       conn_capabilities := Some (JObj []), host_keys := Some ''nas.lan ssh-rsa A'', host_keys_trusted := True\<rparr>"

definition sample_saved_catalog :: "string catalog" where
  "sample_saved_catalog = with_connections (\<lambda>cs. [sample_saved]) empty_catalog"

theorem resaved_connection_witness:
  "update_connection_form sample_pint 1 (rendered_connection sample_ext [] [] sample_saved) sample_saved_catalog =
     (Redirect ''/connections/1'', sample_saved_catalog)"
proof -
  have "coherent sample_saved_catalog"
    by (simp add: sample_saved_catalog_def coherent_def with_connections_def empty_catalog_def cat_connections_def cat_presets_def
        cat_jobs_def keyed_def credential_ok_def sample_saved_def sample_connection_def)
  moreover have "row conn_id (cat_connections sample_saved_catalog) 1 = Some sample_saved"
    by (simp add: sample_saved_catalog_def row_def with_connections_def cat_connections_def sample_saved_def sample_connection_def)
  moreover have "check_connection (stored_payload sample_saved) = None" "on_page [] sample_saved"
    unfolding sample_saved_def sample_connection_def by code_simp+
  moreover have "connection_url 1 = ''/connections/1''" by code_simp
  ultimately show ?thesis
    using resaved_connection [of sample_saved_catalog 1 sample_saved "[]" sample_pint sample_ext] sample_pint_nat
    by (simp add: sample_saved_catalog_def with_connections_def empty_catalog_def)
qed

text \<open>What is not on the page is lost when it is saved: the API takes a user name for a local connection.\<close>

lemma hidden_field_dropped:
  "map_option cp_username (connection_form sample_pint (rendered_connection sample_ext [] []
     (sample_connection\<lparr>conn_type := CtLocal\<rparr>))) = Some None"
  unfolding sample_connection_def by code_simp

text \<open>The run a second start is led to is the newest row of the job, which a skipped fire may have become.\<close>

lemma conflict_shows_skipped:
  "fst (run_job_form 1 (fire 5 1 (fire 0 1 sample_world))) = Redirect ''/runs/2''"
  "map (\<lambda>r. (run_id r, run_status_of r)) (db_runs (db (fire 5 1 (fire 0 1 sample_world)))) = [(1, Queued), (2, Skipped)]"
  unfolding sample_world_def by code_simp+

end
