(* ===== verification/Pools.thy ===== *)
theory Pools
  imports HS_Prelude "HOL-Library.Multiset"
begin

text \<open>
  The thread pools of \<open>jobs/runner.py\<close> and \<open>jobs/planner.py\<close>, which are written alike. An executor of
  \<open>concurrent.futures\<close> takes its queue in order, with so many threads; one that is shut down refuses new work and runs what it
  holds, unless the queue is cancelled. \<open>submit\<close> reads \<open>_pool\<close> without the lock, so what it puts work into is an executor that
  was current when it was read: a number of the list.
\<close>

subsection \<open>Executors\<close>

record executor =
  ex_workers :: nat
  ex_queue :: "nat list"
  ex_running :: "nat list"
  ex_shut :: bool

definition new_executor :: "nat \<Rightarrow> executor" where
  "new_executor n = \<lparr>ex_workers = n, ex_queue = [], ex_running = [], ex_shut = False\<rparr>"

definition held :: "executor \<Rightarrow> nat list" where
  "held e = ex_queue e @ ex_running e"

text \<open>A run leaves the queue for a thread, and a thread.\<close>

definition take_next :: "executor \<Rightarrow> executor option" where
  "take_next e =
     (case ex_queue e of
        [] \<Rightarrow> None
      | i # rest \<Rightarrow>
          if length (ex_running e) < ex_workers e then Some (e\<lparr>ex_queue := rest, ex_running := ex_running e @ [i]\<rparr>)
          else None)"

definition end_run :: "nat \<Rightarrow> executor \<Rightarrow> executor option" where
  "end_run i e = (if i \<in> set (ex_running e) then Some (e\<lparr>ex_running := remove1 i (ex_running e)\<rparr>) else None)"

subsection \<open>A runner\<close>

text \<open>\<open>_pool\<close> is the last executor made; \<open>taken\<close>, \<open>ended\<close> and \<open>dropped\<close> say what became of the runs.\<close>

record pool =
  max_workers :: nat
  executors :: "executor list"
  taken :: "nat list"
  ended :: "nat list"
  dropped :: "nat list"

definition current :: "pool \<Rightarrow> nat" where
  "current p = length (executors p) - 1"

text \<open>None is the ValueError of an executor without a thread.\<close>

definition make_pool :: "int \<Rightarrow> pool option" where
  "make_pool n =
     (if n \<le> 0 then None
      else Some \<lparr>max_workers = nat n, executors = [new_executor (nat n)], taken = [], ended = [], dropped = []\<rparr>)"

text \<open>\<open>submit\<close> into the executor it read; None is the RuntimeError of one that is shut down.\<close>

definition submit_to :: "nat \<Rightarrow> nat \<Rightarrow> pool \<Rightarrow> pool option" where
  "submit_to k i p =
     (let e = executors p ! k
      in if ex_shut e then None
         else Some (p\<lparr>executors := (executors p)[k := e\<lparr>ex_queue := ex_queue e @ [i]\<rparr>], taken := taken p @ [i]\<rparr>))"

definition resize :: "int \<Rightarrow> pool \<Rightarrow> pool" where
  "resize n p =
     (if n < 1 \<or> nat n = max_workers p then p
      else p\<lparr>executors := (executors p)[current p := (executors p ! current p)\<lparr>ex_shut := True\<rparr>] @ [new_executor (nat n)],
             max_workers := nat n\<rparr>)"

text \<open>\<open>shutdown\<close>, with \<open>cancel_futures\<close>; that the live runner ends its processes first is in \<open>Runner\<close>.\<close>

definition shutdown :: "pool \<Rightarrow> pool" where
  "shutdown p =
     (let e = executors p ! current p
      in p\<lparr>executors := (executors p)[current p := e\<lparr>ex_shut := True, ex_queue := []\<rparr>], dropped := dropped p @ ex_queue e\<rparr>)"

definition start_in :: "nat \<Rightarrow> pool \<Rightarrow> pool option" where
  "start_in k p = map_option (\<lambda>e. p\<lparr>executors := (executors p)[k := e]\<rparr>) (take_next (executors p ! k))"

definition end_in :: "nat \<Rightarrow> nat \<Rightarrow> pool \<Rightarrow> pool option" where
  "end_in k i p =
     map_option (\<lambda>e. p\<lparr>executors := (executors p)[k := e], ended := ended p @ [i]\<rparr>) (end_run i (executors p ! k))"

text \<open>What the threads do on their own.\<close>

inductive works :: "pool \<Rightarrow> pool \<Rightarrow> bool" where
  starts: "works p p'" if "k < length (executors p)" "start_in k p = Some p'"
| ends: "works p p'" if "k < length (executors p)" "end_in k i p = Some p'"

text \<open>The states of a pool that is in use, and of one that may be shut down.\<close>

inductive pool_reachable :: "bool \<Rightarrow> pool \<Rightarrow> bool" where
  made: "pool_reachable down p" if "make_pool n = Some p"
| submitted: "pool_reachable down p'" if "pool_reachable down p" "k < length (executors p)" "submit_to k i p = Some p'"
| resized: "pool_reachable down (resize n p)" if "pool_reachable down p"
| worked: "pool_reachable down p'" if "pool_reachable down p" "works p p'"
| stopped: "pool_reachable True (shutdown p)" if "pool_reachable True p"

subsection \<open>Lemmas\<close>

definition all_held :: "executor list \<Rightarrow> nat multiset" where
  "all_held es = sum_list (map (\<lambda>e. mset (held e)) es)"

lemma all_held_append [simp]: "all_held (xs @ ys) = all_held xs + all_held ys"
  by (simp add: all_held_def)

lemma all_held_update:
  assumes "k < length es"
  shows "all_held (es[k := e]) + mset (held (es ! k)) = all_held es + mset (held e)"
proof -
  have "es = take k es @ es ! k # drop (Suc k) es" using assms by (rule id_take_nth_drop)
  then have "all_held es = all_held (take k es) + mset (held (es ! k)) + all_held (drop (Suc k) es)"
    by (metis (no_types, lifting) all_held_def add.assoc list.simps(9) map_append sum_list.Cons sum_list_append)
  moreover have "all_held (es[k := e]) = all_held (take k es) + mset (held e) + all_held (drop (Suc k) es)"
    using assms by (simp add: upd_conv_take_nth_drop all_held_def)
  ultimately show ?thesis by (simp add: ac_simps)
qed

text \<open>What every operation keeps.\<close>

definition fit :: "executor \<Rightarrow> bool" where
  "fit e \<longleftrightarrow> 1 \<le> ex_workers e \<and> length (ex_running e) \<le> ex_workers e"

definition pool_ok :: "pool \<Rightarrow> bool" where
  "pool_ok p \<longleftrightarrow>
     executors p \<noteq> [] \<and> ex_workers (last (executors p)) = max_workers p \<and> list_all fit (executors p) \<and>
     list_all ex_shut (butlast (executors p)) \<and> mset (taken p) = mset (ended p) + mset (dropped p) + all_held (executors p)"

lemma fit_step: "fit e \<Longrightarrow> take_next e = Some e' \<Longrightarrow> fit e'" "fit e \<Longrightarrow> end_run i e = Some e' \<Longrightarrow> fit e'"
  by (auto simp: fit_def take_next_def end_run_def length_remove1 split: list.splits if_splits)

lemma held_step:
  "take_next e = Some e' \<Longrightarrow> mset (held e') = mset (held e)"
  "end_run i e = Some e' \<Longrightarrow> mset (held e) = add_mset i (mset (held e'))"
  by (auto simp: held_def take_next_def end_run_def split: list.splits if_splits)

lemma same_step:
  "take_next e = Some e' \<Longrightarrow> ex_workers e' = ex_workers e \<and> ex_shut e' = ex_shut e"
  "end_run i e = Some e' \<Longrightarrow> ex_workers e' = ex_workers e \<and> ex_shut e' = ex_shut e"
  by (auto simp: take_next_def end_run_def split: list.splits if_splits)

lemma pool_ok_update:
  assumes ok: "pool_ok p" and k: "k < length (executors p)" and e: "fit e" "ex_workers e = ex_workers (executors p ! k)"
      "ex_shut (executors p ! k) \<Longrightarrow> ex_shut e"
    and p': "executors p' = (executors p)[k := e]" "max_workers p' = max_workers p"
    and account: "mset (taken p') + (mset (held (executors p ! k)) + mset (ended p) + mset (dropped p)) =
      mset (taken p) + (mset (held e) + mset (ended p') + mset (dropped p'))"
  shows "pool_ok p'"
proof -
  let ?es = "executors p"
  have "list_all ex_shut (butlast (?es[k := e]))"
  proof (cases "k = length ?es - 1")
    case False
    then have b: "k < length (butlast ?es)" using k by simp
    then have "ex_shut (butlast ?es ! k)" using ok by (auto simp: pool_ok_def list_all_length)
    then have "ex_shut e" using e(3) b by (simp add: nth_butlast)
    moreover have "\<forall>x \<in> set (butlast ?es). ex_shut x" using ok by (simp add: pool_ok_def list_all_iff)
    ultimately have "\<forall>x \<in> set ((butlast ?es)[k := e]). ex_shut x" using set_update_subset_insert by fastforce
    then show ?thesis using False by (simp add: butlast_list_update list_all_iff)
  qed (use ok in \<open>simp add: butlast_list_update pool_ok_def\<close>)
  moreover have "list_all fit (?es[k := e])"
    using ok e(1) set_update_subset_insert [of ?es k e] by (auto simp: pool_ok_def list_all_iff)
  moreover have "?es[k := e] \<noteq> []" "ex_workers (last (?es[k := e])) = max_workers p"
    using ok e(2) by (auto simp: pool_ok_def last_list_update last_conv_nth [of ?es])
  moreover have "mset (taken p') = mset (ended p') + mset (dropped p') + all_held (?es[k := e])"
  proof -
    let ?gone = "mset (held (?es ! k)) + mset (ended p) + mset (dropped p)"
    have "mset (taken p') + ?gone = mset (taken p) + (mset (held e) + mset (ended p') + mset (dropped p'))" by (rule account)
    also have "\<dots> = mset (ended p) + mset (dropped p) + (all_held ?es + mset (held e)) + mset (ended p') + mset (dropped p')"
      using ok by (simp add: pool_ok_def ac_simps)
    also have "\<dots> = mset (ended p') + mset (dropped p') + all_held (?es[k := e]) + ?gone"
      unfolding all_held_update [OF k, of e, symmetric] by (simp add: ac_simps)
    finally show ?thesis by simp
  qed
  ultimately show ?thesis using p' by (simp add: pool_ok_def)
qed

lemma pool_ok_works:
  assumes "works p p'" "pool_ok p"
  shows "pool_ok p'" "dropped p' = dropped p" "taken p' = taken p"
proof -
  have fit: "fit (executors p ! k)" if "k < length (executors p)" for k
    using assms(2) that by (simp add: pool_ok_def list_all_length)
  show "pool_ok p'"
    using assms(1)
  proof cases
    case (starts k)
    then obtain e where e: "take_next (executors p ! k) = Some e" "p' = p\<lparr>executors := (executors p)[k := e]\<rparr>"
      by (auto simp: start_in_def)
    then show ?thesis
      by (intro pool_ok_update [OF assms(2) starts(1), of e])
        (simp_all add: fit_step(1) [OF fit [OF starts(1)]] held_step same_step)
  next
    case (ends k i)
    then obtain e where e: "end_run i (executors p ! k) = Some e"
        "p' = p\<lparr>executors := (executors p)[k := e], ended := ended p @ [i]\<rparr>"
      by (auto simp: end_in_def)
    then show ?thesis
      by (intro pool_ok_update [OF assms(2) ends(1), of e])
        (simp_all add: fit_step(2) [OF fit [OF ends(1)]] held_step same_step)
  qed
  show "dropped p' = dropped p" "taken p' = taken p"
    using assms(1) by (auto elim!: works.cases simp: start_in_def end_in_def)
qed

lemma pool_ok_resize: "pool_ok p \<Longrightarrow> pool_ok (resize n p)"
proof -
  assume ok: "pool_ok p"
  then have k: "current p < length (executors p)" by (simp add: current_def pool_ok_def)
  let ?e = "(executors p ! current p)\<lparr>ex_shut := True\<rparr>" and ?es = "executors p"
  have "pool_ok (p\<lparr>executors := ?es[current p := ?e]\<rparr>)"
    using ok k by (intro pool_ok_update [OF ok k, of ?e]) (auto simp: fit_def held_def pool_ok_def list_all_length)
  moreover have "list_all ex_shut (?es[current p := ?e])"
    using ok by (cases ?es rule: rev_cases) (auto simp: pool_ok_def current_def list_all_iff)
  moreover have "all_held [new_executor m] = {#}" "fit (new_executor m) \<longleftrightarrow> 1 \<le> m" "ex_workers (new_executor m) = m" for m
    by (simp_all add: all_held_def held_def new_executor_def fit_def)
  ultimately show "pool_ok (resize n p)"
    using ok by (cases "n < 1 \<or> nat n = max_workers p") (simp add: resize_def, simp add: resize_def pool_ok_def, linarith)
qed

lemma pool_ok_shutdown: "pool_ok p \<Longrightarrow> pool_ok (shutdown p)"
proof -
  assume ok: "pool_ok p"
  then have k: "current p < length (executors p)" by (simp add: current_def pool_ok_def)
  show "pool_ok (shutdown p)"
    by (rule pool_ok_update [OF ok k, of "(executors p ! current p)\<lparr>ex_shut := True, ex_queue := []\<rparr>"])
      (use ok k in \<open>auto simp: shutdown_def Let_def fit_def held_def pool_ok_def list_all_length ac_simps\<close>)
qed

lemma pool_ok_submit:
  assumes "pool_ok p" "k < length (executors p)" "submit_to k i p = Some p'"
  shows "pool_ok p'" "dropped p' = dropped p"
proof -
  let ?e = "(executors p ! k)\<lparr>ex_queue := ex_queue (executors p ! k) @ [i]\<rparr>"
  have p': "p' = p\<lparr>executors := (executors p)[k := ?e], taken := taken p @ [i]\<rparr>"
    using assms(3) by (simp add: submit_to_def Let_def split: if_splits)
  have "fit (executors p ! k)" using assms(1,2) by (simp add: pool_ok_def list_all_length)
  then show "pool_ok p'"
    unfolding p' by (intro pool_ok_update [OF assms(1,2), of ?e]) (simp_all add: fit_def held_def)
  show "dropped p' = dropped p" by (simp add: p')
qed

lemma pool_reachable_ok: "pool_reachable down p \<Longrightarrow> pool_ok p \<and> (dropped p = [] \<or> down)"
proof (induction rule: pool_reachable.induct)
  case (made n p down)
  then show ?case
    by (auto simp: make_pool_def pool_ok_def new_executor_def fit_def all_held_def held_def split: if_splits)
next
  case (submitted down p k i p')
  then show ?case using pool_ok_submit [of p k i p'] by simp
next
  case (resized down p n)
  then show ?case using pool_ok_resize by (simp add: resize_def)
next
  case (worked down p p')
  then show ?case using pool_ok_works [of p p'] by simp
next
  case (stopped p)
  then show ?case using pool_ok_shutdown by simp
qed

text \<open>Work goes on while anything is held.\<close>

definition load :: "executor \<Rightarrow> nat" where
  "load e = 2 * length (ex_queue e) + length (ex_running e)"

definition effort :: "pool \<Rightarrow> nat" where
  "effort p = sum_list (map load (executors p))"

lemma effort_update: "k < length es \<Longrightarrow> load e < load (es ! k) \<Longrightarrow> sum_list (map load (es[k := e])) < sum_list (map load es)"
proof (induction es arbitrary: k)
  case (Cons x xs)
  then show ?case by (cases k) auto
qed simp

lemma load_step: "take_next e = Some e' \<Longrightarrow> load e' < load e" "end_run i e = Some e' \<Longrightarrow> load e' < load e"
proof -
  show "take_next e = Some e' \<Longrightarrow> load e' < load e"
    by (auto simp: take_next_def load_def split: list.splits if_splits)
  assume "end_run i e = Some e'"
  then have "i \<in> set (ex_running e)" "e' = e\<lparr>ex_running := remove1 i (ex_running e)\<rparr>" by (auto simp: end_run_def split: if_splits)
  then show "load e' < load e"
    using length_pos_if_in_set [of i "ex_running e"] by (simp add: load_def length_remove1)
qed

lemma works_effort: "works p p' \<Longrightarrow> effort p' < effort p"
  by (induction rule: works.induct) (auto simp: effort_def start_in_def end_in_def effort_update load_step)

lemma all_held_empty: "all_held es = {#} \<longleftrightarrow> (\<forall>e \<in> set es. held e = [])"
  by (induction es) (auto simp: all_held_def)

lemma works_on:
  assumes "pool_ok p" "all_held (executors p) \<noteq> {#}"
  shows "\<exists>p'. works p p'"
proof -
  obtain e where "e \<in> set (executors p)" "held e \<noteq> []"
    using assms(2) by (auto simp: all_held_empty)
  then obtain k where k: "k < length (executors p)" "held (executors p ! k) \<noteq> []" by (metis in_set_conv_nth)
  have fit: "fit (executors p ! k)" using assms(1) k(1) by (simp add: pool_ok_def list_all_length)
  show ?thesis
  proof (cases "ex_running (executors p ! k)")
    case Nil
    then obtain i rest where "ex_queue (executors p ! k) = i # rest" using k(2) by (cases "ex_queue (executors p ! k)") (auto simp: held_def)
    then have "start_in k p \<noteq> None" using Nil fit by (simp add: start_in_def take_next_def fit_def)
    then show ?thesis using starts [OF k(1)] by blast
  next
    case (Cons i rest)
    then have "end_in k i p \<noteq> None" by (simp add: end_in_def end_run_def)
    then show ?thesis using ends [OF k(1)] by blast
  qed
qed

lemma all_ended:
  assumes "pool_ok p"
  shows "\<exists>p'. works\<^sup>*\<^sup>* p p' \<and> mset (taken p') = mset (ended p') + mset (dropped p') \<and> taken p' = taken p \<and> dropped p' = dropped p"
  using assms
proof (induction "effort p" arbitrary: p rule: less_induct)
  case less
  show ?case
  proof (cases "all_held (executors p) = {#}")
    case True
    then show ?thesis using less.prems by (intro exI [of _ p]) (simp add: pool_ok_def)
  next
    case False
    then obtain q where q: "works p q" using works_on [OF less.prems] by blast
    then obtain p' where p': "works\<^sup>*\<^sup>* q p'" "mset (taken p') = mset (ended p') + mset (dropped p')" "taken p' = taken q" "dropped p' = dropped q"
      using less.hyps [OF works_effort [OF q]] pool_ok_works(1) [OF q less.prems] by blast
    then show ?thesis
      using q pool_ok_works(2,3) [OF q less.prems] by (intro exI [of _ p']) (simp add: converse_rtranclp_into_rtranclp)
  qed
qed

definition running :: "pool \<Rightarrow> nat list" where
  "running p = concat (map ex_running (executors p))"

text \<open>C27. A pool loses no run. However submissions, the threads and changes of the limit interleave, and whichever executor a
  submission still reaches, the threads can end every run that was accepted, but for those a shutdown dropped, and without
  a shutdown none is. No executor runs more than its threads, the current one has as many as the limit says, and once those
  it replaced hold nothing no more runs go at once than that.\<close>

theorem accepted_runs_end:
  assumes "pool_reachable down p"
  shows "(\<exists>p'. works\<^sup>*\<^sup>* p p' \<and> mset (taken p) = mset (ended p') + mset (dropped p)) \<and>
    (dropped p = [] \<or> down) \<and> list_all fit (executors p) \<and> ex_workers (last (executors p)) = max_workers p \<and>
    (list_all (\<lambda>e. held e = []) (butlast (executors p)) \<longrightarrow> length (running p) \<le> max_workers p)"
proof -
  have ok: "pool_ok p" "dropped p = [] \<or> down" using pool_reachable_ok [OF assms] by simp_all
  have es: "executors p = butlast (executors p) @ [last (executors p)]" using ok(1) by (simp add: pool_ok_def)
  have "length (running p) \<le> max_workers p" if "list_all (\<lambda>e. held e = []) (butlast (executors p))"
  proof -
    have "concat (map ex_running (butlast (executors p))) = []" using that by (auto simp: list_all_iff held_def)
    then have "running p = ex_running (last (executors p))" unfolding running_def by (subst es) simp
    moreover have "fit (last (executors p))" using ok(1) by (simp add: pool_ok_def list_all_iff)
    ultimately show ?thesis using ok(1) by (simp add: pool_ok_def fit_def)
  qed
  then show ?thesis using ok all_ended [OF ok(1)] by (force simp: pool_ok_def)
qed

definition sample_pool :: pool where
  "sample_pool = the (Option.bind (Option.bind (Option.bind (make_pool 1) (submit_to 0 7)) (submit_to 0 8)) (start_in 0))"

lemma sample_pool_reachable: "pool_reachable down sample_pool"
proof -
  obtain p0 p1 p2 where p: "make_pool 1 = Some p0" "submit_to 0 7 p0 = Some p1" "submit_to 0 8 p1 = Some p2"
      "0 < length (executors p0)" "0 < length (executors p1)" "0 < length (executors p2)" "start_in 0 p2 = Some sample_pool"
    by (simp add: make_pool_def submit_to_def new_executor_def sample_pool_def start_in_def take_next_def)
  show ?thesis
    by (rule worked [OF submitted [OF submitted [OF made [OF p(1)] p(4,2)] p(5,3)]], rule starts [OF p(6,7)])
qed

theorem accepted_runs_end_witness:
  "\<exists>p'. works\<^sup>*\<^sup>* (resize 2 sample_pool) p' \<and> {#7, 8#} = mset (ended p')"
proof -
  have "taken (resize 2 sample_pool) = [7, 8]" "dropped (resize 2 sample_pool) = []" by code_simp+
  then show ?thesis using accepted_runs_end [OF resized [OF sample_pool_reachable [of False], of 2]] by simp
qed

text \<open>A change of the limit leaves what is queued in an executor nothing refers to, so a shutdown does not cancel it: the
  second run starts although the program is ending.\<close>

lemma shutdown_forgets_old_pool:
  "map_option running (Option.bind (end_in 0 7 (shutdown (resize 2 sample_pool))) (start_in 0)) = Some [8]"
  "map_option running (Option.bind (end_in 0 7 (shutdown sample_pool)) (start_in 0)) = None"
  by code_simp+

text \<open>A submission that read the executor before the limit changed raises, after its row was committed.\<close>

lemma submission_meets_resize: "submit_to (current sample_pool) 9 (resize 2 sample_pool) = None"
  by code_simp

end
