(* ===== verification/Settings.thy ===== *)
theory Settings
  imports Forms Pools Notify Retention
begin

text \<open>
  \<open>app/api/settings.py\<close> and the settings form of \<open>app/web\<close>, with \<open>templates/settings.html\<close>: a patch folded into the
  preferences, what is read back of them, and the limit of concurrent runs, which the environment gives and a preference
  overrides. \<open>zone\<close> is whether a time zone is known, \<open>pint\<close> is \<open>int\<close> of a text.
\<close>

subsection \<open>A patch\<close>

record settings_update =
  su_target :: "notify_target option"
  su_webhook :: "string option"
  su_clear_webhook :: bool
  su_ntfy_server :: "string option"
  su_ntfy_topic :: "string option"
  su_timeout :: "int option"
  su_base_url :: "string option"
  su_archive_days :: "int option"
  su_clear_archive :: bool
  su_keep :: "int option"
  su_log_days :: "int option"
  su_log_mb :: "int option"
  su_timezone :: "string option"
  su_clock :: "clock option"
  su_runs :: "int option"

definition update_fits :: "settings_update \<Rightarrow> bool" where
  "update_fits u \<longleftrightarrow>
     between 1 60 (su_timeout u) \<and> at_least 1 (su_archive_days u) \<and> between 10 10000 (su_keep u) \<and>
     between 1 3650 (su_log_days u) \<and> between 16 102400 (su_log_mb u) \<and> between 0 32 (su_runs u)"

definition over :: "'a option \<Rightarrow> 'a \<Rightarrow> 'a" where
  "over new old = (case new of None \<Rightarrow> old | Some v \<Rightarrow> v)"

text \<open>\<open>Preferences.model_validate\<close> of values that already have their types; None is the ValidationError.\<close>

definition checked_preferences :: "(string \<Rightarrow> bool) \<Rightarrow> preferences \<Rightarrow> preferences option" where
  "checked_preferences zone p =
     Option.bind (zone_field zone (Some (display_timezone p)))
       (\<lambda>z. let q = p\<lparr>display_timezone := z\<rparr> in if valid_preferences zone q then Some q else None)"

definition folded :: "preferences \<Rightarrow> settings_update \<Rightarrow> preferences" where
  "folded cur u =
     \<lparr>notify_target_of = over (su_target u) (notify_target_of cur),
      notify_webhook_url =
        (if su_clear_webhook u then []
         else if over (su_webhook u) [] = [] then notify_webhook_url cur else over (su_webhook u) []),
      notify_ntfy_server = over (su_ntfy_server u) (notify_ntfy_server cur),
      notify_ntfy_topic = over (su_ntfy_topic u) (notify_ntfy_topic cur),
      notify_timeout_seconds = over (su_timeout u) (notify_timeout_seconds cur),
      pref_base_url = over (su_base_url u) (pref_base_url cur),
      pref_archive_retention_days =
        (if su_clear_archive u then None
         else case su_archive_days u of None \<Rightarrow> pref_archive_retention_days cur | Some d \<Rightarrow> Some d),
      run_history_keep = over (su_keep u) (run_history_keep cur),
      log_retention_days = over (su_log_days u) (log_retention_days cur),
      log_max_total_mb = over (su_log_mb u) (log_max_total_mb cur),
      max_concurrent_runs = over (su_runs u) (max_concurrent_runs cur),
      display_timezone = over (su_timezone u) (display_timezone cur),
      clock_of = over (su_clock u) (clock_of cur)\<rparr>"

definition apply_update :: "(string \<Rightarrow> bool) \<Rightarrow> preferences \<Rightarrow> settings_update \<Rightarrow> preferences option" where
  "apply_update zone cur u = checked_preferences zone (folded cur u)"

subsection \<open>Reading and writing\<close>

text \<open>What the environment sets.\<close>

record environment =
  env_auth_mode :: string
  env_runs :: int
  env_timezone :: string

record settings_read =
  sr_target :: notify_target
  sr_webhook_configured :: bool
  sr_ntfy_server :: string
  sr_ntfy_topic :: string
  sr_timeout :: int
  sr_base_url :: string
  sr_archive_days :: "int option"
  sr_keep :: int
  sr_log_days :: int
  sr_log_mb :: int
  sr_timezone :: string
  sr_clock :: clock
  sr_runs_override :: int
  sr_effective_timezone :: string
  sr_auth_mode :: string
  sr_runs :: int

definition effective_runs :: "environment \<Rightarrow> preferences \<Rightarrow> int" where
  "effective_runs env p = (if max_concurrent_runs p \<noteq> 0 then max_concurrent_runs p else env_runs env)"

definition settings_to_read :: "environment \<Rightarrow> preferences \<Rightarrow> settings_read" where
  "settings_to_read env p =
     \<lparr>sr_target = notify_target_of p, sr_webhook_configured = (notify_webhook_url p \<noteq> []),
      sr_ntfy_server = notify_ntfy_server p, sr_ntfy_topic = notify_ntfy_topic p, sr_timeout = notify_timeout_seconds p,
      sr_base_url = pref_base_url p, sr_archive_days = pref_archive_retention_days p, sr_keep = run_history_keep p,
      sr_log_days = log_retention_days p, sr_log_mb = log_max_total_mb p, sr_timezone = display_timezone p,
      sr_clock = clock_of p, sr_runs_override = max_concurrent_runs p,
      sr_effective_timezone = (if display_timezone p = [] then env_timezone env else display_timezone p),
      sr_auth_mode = env_auth_mode env, sr_runs = effective_runs env p\<rparr>"

definition read_settings ::
  "(string \<Rightarrow> int option) \<Rightarrow> (string \<Rightarrow> bool) \<Rightarrow> environment \<Rightarrow> settings \<Rightarrow> settings_read" where
  "read_settings pint zone env rows = settings_to_read env (load_preferences pint zone rows)"

text \<open>The endpoint: 422 is FastAPI's answer, 500 that to the ValidationError of \<open>apply_update\<close>, which nothing catches.\<close>

definition update_settings ::
  "(string \<Rightarrow> int option) \<Rightarrow> (string \<Rightarrow> bool) \<Rightarrow> environment \<Rightarrow> settings_update \<Rightarrow> settings
     \<Rightarrow> (nat + settings_read) \<times> settings" where
  "update_settings pint zone env u rows =
     (if \<not> update_fits u then (Inl 422, rows)
      else (case apply_update zone (load_preferences pint zone rows) u of
              None \<Rightarrow> (Inl 500, rows)
            | Some p \<Rightarrow> (Inr (settings_to_read env p), save_preferences p rows)))"

text \<open>The other endpoints of the screen; the pass is the one of \<open>Retention\<close>, None what it raises.\<close>

definition test_notification ::
  "ext \<Rightarrow> (http_request \<Rightarrow> http_outcome) \<Rightarrow> (string \<Rightarrow> int option) \<Rightarrow> (string \<Rightarrow> bool) \<Rightarrow> settings \<Rightarrow> delivery" where
  "test_notification x post pint zone rows = send x post (load_preferences pint zone rows) sample_payload"

definition retention_preview ::
  "file_system \<Rightarrow> (string \<Rightarrow> int option) \<Rightarrow> (string \<Rightarrow> bool) \<Rightarrow> settings \<Rightarrow> datetime \<Rightarrow> store \<Rightarrow> archive_prune list option" where
  "retention_preview fs pint zone rows now st =
     map_option rp_archives (plan_maintenance fs (load_preferences pint zone rows) now st)"

definition maintenance_now ::
  "file_system \<Rightarrow> (string \<Rightarrow> int option) \<Rightarrow> (string \<Rightarrow> bool) \<Rightarrow> settings \<Rightarrow> datetime \<Rightarrow> store \<Rightarrow> (store \<times> report) option" where
  "maintenance_now fs pint zone rows now st = run_maintenance fs (load_preferences pint zone rows) now st"

text \<open>\<open>_maintain\<close> of the scheduler, which swallows what the pass raises.\<close>

definition nightly_maintenance ::
  "file_system \<Rightarrow> (string \<Rightarrow> int option) \<Rightarrow> (string \<Rightarrow> bool) \<Rightarrow> settings \<Rightarrow> datetime \<Rightarrow> store \<Rightarrow> store" where
  "nightly_maintenance fs pint zone rows now st =
     (case maintenance_now fs pint zone rows now st of None \<Rightarrow> st | Some (st', rp) \<Rightarrow> st')"

subsection \<open>The form\<close>

record runners =
  live_runner :: pool
  plan_runner :: pool

definition apply_concurrency :: "environment \<Rightarrow> preferences \<Rightarrow> runners \<Rightarrow> runners" where
  "apply_concurrency env p rs =
     (let workers = effective_runs env p
      in rs\<lparr>live_runner := resize workers (live_runner rs), plan_runner := resize workers (plan_runner rs)\<rparr>)"

text \<open>What \<open>create_app\<close> makes.\<close>

definition runners_at_start :: "environment \<Rightarrow> runners option" where
  "runners_at_start env =
     Option.bind (make_pool (env_runs env)) (\<lambda>live. map_option (\<lambda>plan. \<lparr>live_runner = live, plan_runner = plan\<rparr>)
       (make_pool (env_runs env)))"

text \<open>A number of the form: the outer None is the ValueError of \<open>int\<close> on a digit it does not read.\<close>

definition settings_number :: "(string \<Rightarrow> int option) \<Rightarrow> form \<Rightarrow> string \<Rightarrow> int option option" where
  "settings_number pint f k =
     (let raw = py_strip (given_in f k) in if isdigit raw then map_option Some (pint raw) else Some None)"

datatype form_trouble = NotAnInt | NotValid

definition or_trouble :: "form_trouble \<Rightarrow> 'a option \<Rightarrow> form_trouble + 'a" where
  "or_trouble e v = (case v of None \<Rightarrow> Inl e | Some a \<Rightarrow> Inr a)"

definition settings_form :: "(string \<Rightarrow> int option) \<Rightarrow> form \<Rightarrow> form_trouble + settings_update" where
  "settings_form pint f =
     bind_res (or_trouble NotAnInt (settings_number pint f ''notify_timeout_seconds'')) (\<lambda>timeout.
     bind_res (or_trouble NotAnInt (settings_number pint f ''archive_retention_days'')) (\<lambda>days.
     bind_res (or_trouble NotAnInt (settings_number pint f ''run_history_keep'')) (\<lambda>keep.
     bind_res (or_trouble NotAnInt (settings_number pint f ''log_retention_days'')) (\<lambda>logs.
     bind_res (or_trouble NotAnInt (settings_number pint f ''log_max_total_mb'')) (\<lambda>mb.
     bind_res (or_trouble NotAnInt (settings_number pint f ''max_concurrent_runs'')) (\<lambda>runs.
     bind_res (or_trouble NotValid (target_of (given_or f ''notify_target'' ''none''))) (\<lambda>target.
     bind_res (or_trouble NotValid (clock_named (given_or f ''clock'' ''24h''))) (\<lambda>clk.
     let u = \<lparr>su_target = Some target, su_webhook = clean f ''notify_webhook_url'',
              su_clear_webhook = (given_in f ''clear_webhook_url'' = ''true''), su_ntfy_server = clean f ''notify_ntfy_server'',
              su_ntfy_topic = clean f ''notify_ntfy_topic'', su_timeout = timeout, su_base_url = clean f ''base_url'',
              su_archive_days = days, su_clear_archive = (clean f ''archive_retention_days'' = None), su_keep = keep,
              su_log_days = logs, su_log_mb = mb, su_timezone = Some (py_strip (given_in f ''display_timezone'')),
              su_clock = Some clk, su_runs = Some (over runs 0)\<rparr>
     in if update_fits u then Inr u else Inl NotValid))))))))"

definition save_settings_form ::
  "(string \<Rightarrow> int option) \<Rightarrow> (string \<Rightarrow> bool) \<Rightarrow> environment \<Rightarrow> form \<Rightarrow> settings \<times> runners \<Rightarrow> page \<times> (settings \<times> runners)" where
  "save_settings_form pint zone env f s =
     (case settings_form pint f of
        Inl NotAnInt \<Rightarrow> (Unhandled, s)
      | Inl NotValid \<Rightarrow> (Rendered 400, s)
      | Inr u \<Rightarrow>
          (case apply_update zone (load_preferences pint zone (fst s)) u of
             None \<Rightarrow> (Rendered 400, s)
           | Some p \<Rightarrow> (Redirect ''/settings?saved=1'', (save_preferences p (fst s), apply_concurrency env p (snd s)))))"

text \<open>The page as a browser submits it: every field is in the document whatever the target is, the address never.\<close>

definition rendered_settings :: "preferences \<Rightarrow> form" where
  "rendered_settings p =
     [(''notify_target'', target_value (notify_target_of p)), (''base_url'', line_value (pref_base_url p)),
      (''notify_webhook_url'', []), (''notify_ntfy_server'', line_value (notify_ntfy_server p)),
      (''notify_ntfy_topic'', line_value (notify_ntfy_topic p)), (''notify_timeout_seconds'', str_int (notify_timeout_seconds p)),
      (''max_concurrent_runs'', if max_concurrent_runs p = 0 then [] else str_int (max_concurrent_runs p)),
      (''display_timezone'', line_value (display_timezone p)), (''clock'', clock_value (clock_of p)),
      (''archive_retention_days'', (case pref_archive_retention_days p of None \<Rightarrow> [] | Some d \<Rightarrow> if d = 0 then [] else str_int d)),
      (''run_history_keep'', str_int (run_history_keep p)), (''log_retention_days'', str_int (log_retention_days p)),
      (''log_max_total_mb'', str_int (log_max_total_mb p))]"

subsection \<open>Lemmas\<close>

lemma checked_valid: "checked_preferences zone p = Some q \<Longrightarrow> valid_preferences zone q"
  by (auto simp: checked_preferences_def Let_def bind_eq_Some_conv split: if_splits)

lemma checked_id:
  assumes "valid_preferences zone p"
  shows "checked_preferences zone p = Some p"
proof -
  have "zone_field zone (Some (display_timezone p)) = Some (display_timezone p)"
    using assms by (auto simp: zone_field_def valid_preferences_def)
  then show ?thesis using assms by (simp add: checked_preferences_def)
qed

lemma default_valid: "valid_preferences zone default_preferences"
  by (simp add: valid_preferences_def default_preferences_def py_strip_def strip_if_def)

lemma load_valid: "valid_preferences zone (load_preferences pint zone rows)"
proof (cases "any_stored rows \<and> validate_preferences pint zone (stored rows) \<noteq> None")
  case True
  then obtain p where p: "validate_preferences pint zone (stored rows) = Some p" by blast
  have strip: "py_strip (py_strip t) = py_strip t" "py_strip [] = []" for t
    by (simp add: py_strip_def) (simp add: py_strip_def strip_if_def)
  have z: "py_strip z = z \<and> (z = [] \<or> zone z)" if "zone_field zone v = Some z" for z v
    using that by (auto simp: zone_field_def strip split: option.splits if_splits)
  have i: "lo \<le> n \<and> n \<le> hi" if "int_field pint lo hi d v = Some n" "lo \<le> d" "d \<le> hi" for lo hi d v n
    using that by (auto simp: int_field_def bind_eq_Some_conv split: option.splits if_splits)
  have l: "lo \<le> n \<and> n \<le> hi" if "days_field pint lo hi d v = Some n" "lo \<le> d" "d \<le> hi" for lo hi d v n
    using that i by (auto simp: days_field_def split: if_splits)
  have o: "case ds of None \<Rightarrow> True | Some d \<Rightarrow> 1 \<le> d" if "optional_days_field pint 1 v = Some ds" for v ds
    using that by (auto simp: optional_days_field_def bind_eq_Some_conv split: option.splits if_splits)
  obtain timeout days keep logs mb runs tz where parts:
      "int_field pint 1 60 10 (stored rows ''notify_timeout_seconds'') = Some timeout"
      "optional_days_field pint 1 (stored rows ''archive_retention_days'') = Some days"
      "int_field pint 10 10000 200 (stored rows ''run_history_keep'') = Some keep"
      "days_field pint 1 3650 90 (stored rows ''log_retention_days'') = Some logs"
      "int_field pint 16 102400 512 (stored rows ''log_max_total_mb'') = Some mb"
      "int_field pint 0 32 0 (stored rows ''max_concurrent_runs'') = Some runs"
      "zone_field zone (stored rows ''display_timezone'') = Some tz"
      "notify_timeout_seconds p = timeout" "pref_archive_retention_days p = days" "run_history_keep p = keep"
      "log_retention_days p = logs" "log_max_total_mb p = mb" "max_concurrent_runs p = runs" "display_timezone p = tz"
    using p unfolding validate_preferences_def bind_eq_Some_conv by force
  have "valid_preferences zone p"
    using i [OF parts(1)] o [OF parts(2)] i [OF parts(3)] l [OF parts(4)] i [OF parts(5)] i [OF parts(6)] z [OF parts(7)]
    by (auto simp: valid_preferences_def parts(8-14))
  then show ?thesis using True p by (simp add: load_preferences_def)
qed (use default_valid in \<open>auto simp: load_preferences_def split: option.splits\<close>)

lemma resized: "1 \<le> n \<Longrightarrow> max_workers (resize n p) = nat n"
  by (auto simp: resize_def)

lemma effective_positive: "1 \<le> env_runs env \<Longrightarrow> valid_preferences zone p \<Longrightarrow> 1 \<le> effective_runs env p"
  by (auto simp: effective_runs_def valid_preferences_def)

text \<open>C28. What is saved is in force. The form of the settings page either leaves preferences and runners alone, or folds what
  it parses to into the preferences, so that every later read sees exactly that, with the rows that are no preferences as
  they were, and both runners take as many runs at once as the page then shows. The endpoint answers with what a read
  afterwards answers, or changes nothing.\<close>

theorem settings_applied:
  assumes "\<And>n. pint (str_int n) = Some n" "1 \<le> env_runs env"
  shows "(case save_settings_form pint zone env f (rows, rs) of (answer, rows', rs') \<Rightarrow>
      (case answer of
         Redirect url \<Rightarrow>
           (\<exists>u. settings_form pint f = Inr u \<and>
              apply_update zone (load_preferences pint zone rows) u = Some (load_preferences pint zone rows')) \<and>
           (prefix PREFIX key \<or> map_of rows' key = map_of rows key) \<and>
           max_workers (live_runner rs') = nat (sr_runs (read_settings pint zone env rows')) \<and>
           max_workers (plan_runner rs') = nat (sr_runs (read_settings pint zone env rows'))
       | _ \<Rightarrow> rows' = rows \<and> rs' = rs)) \<and>
    (case update_settings pint zone env u rows of
       (Inl e, rows') \<Rightarrow> rows' = rows
     | (Inr r, rows') \<Rightarrow>
         apply_update zone (load_preferences pint zone rows) u = Some (load_preferences pint zone rows') \<and>
         r = read_settings pint zone env rows' \<and> (prefix PREFIX key \<or> map_of rows' key = map_of rows key))"
proof
  have saved: "load_preferences pint zone (save_preferences p rows) = p"
      "prefix PREFIX key \<or> map_of (save_preferences p rows) key = map_of rows key"
    if "apply_update zone cur u = Some p" for cur u p
    using preferences_roundtrip [of pint zone p rows key] assms(1) checked_valid that by (auto simp: apply_update_def)
  show "case save_settings_form pint zone env f (rows, rs) of (answer, rows', rs') \<Rightarrow>
      (case answer of
         Redirect url \<Rightarrow>
           (\<exists>u. settings_form pint f = Inr u \<and>
              apply_update zone (load_preferences pint zone rows) u = Some (load_preferences pint zone rows')) \<and>
           (prefix PREFIX key \<or> map_of rows' key = map_of rows key) \<and>
           max_workers (live_runner rs') = nat (sr_runs (read_settings pint zone env rows')) \<and>
           max_workers (plan_runner rs') = nat (sr_runs (read_settings pint zone env rows'))
       | _ \<Rightarrow> rows' = rows \<and> rs' = rs)"
  proof (cases "settings_form pint f")
    case (Inr v)
    show ?thesis
    proof (cases "apply_update zone (load_preferences pint zone rows) v")
      case (Some p)
      then have "1 \<le> effective_runs env p"
        using effective_positive [OF assms(2)] checked_valid unfolding apply_update_def by blast
      then show ?thesis
        using Inr Some saved [OF Some]
        by (simp add: save_settings_form_def apply_concurrency_def Let_def resized read_settings_def settings_to_read_def)
    qed (simp add: save_settings_form_def Inr)
  next
    case (Inl e)
    then show ?thesis by (cases e) (simp_all add: save_settings_form_def)
  qed
  show "case update_settings pint zone env u rows of
       (Inl e, rows') \<Rightarrow> rows' = rows
     | (Inr r, rows') \<Rightarrow>
         apply_update zone (load_preferences pint zone rows) u = Some (load_preferences pint zone rows') \<and>
         r = read_settings pint zone env rows' \<and> (prefix PREFIX key \<or> map_of rows' key = map_of rows key)"
    using saved by (auto simp: update_settings_def read_settings_def split: option.splits)
qed

definition sample_env :: environment where
  "sample_env = \<lparr>env_auth_mode = ''local'', env_runs = 3, env_timezone = ''UTC''\<rparr>"

definition sample_rows :: settings where
  "sample_rows = [(''secret_key_fingerprint'', Some ''k''), (''pref.max_concurrent_runs'', Some ''8''), (''pref.base_url'', Some ''http://nas'')]"

definition sample_runners :: runners where
  "sample_runners = the (runners_at_start sample_env)"

definition sample_settings_form :: form where
  "sample_settings_form = [(''run_history_keep'', ''50''), (''max_concurrent_runs'', ''5'')]"

lemma sample_saved_settings: "fst (save_settings_form sample_pint (\<lambda>z. False) sample_env sample_settings_form (sample_rows, rs)) =
    Redirect ''/settings?saved=1'' \<and>
  map_of sample_rows ''secret_key_fingerprint'' = Some (Some ''k'') \<and> \<not> prefix PREFIX ''secret_key_fingerprint''"
  by code_simp

theorem settings_applied_witness:
  "\<exists>rows' rs'. save_settings_form sample_pint (\<lambda>z. False) sample_env sample_settings_form (sample_rows, sample_runners) =
       (Redirect ''/settings?saved=1'', rows', rs') \<and>
     map_of rows' ''secret_key_fingerprint'' = Some (Some ''k'') \<and>
     max_workers (live_runner rs') = nat (sr_runs (read_settings sample_pint (\<lambda>z. False) sample_env rows'))"
proof -
  obtain rows' rs' where r: "save_settings_form sample_pint (\<lambda>z. False) sample_env sample_settings_form (sample_rows, sample_runners) =
      (Redirect ''/settings?saved=1'', rows', rs')"
    using sample_saved_settings [of sample_runners] by (metis prod.collapse)
  have "1 \<le> env_runs sample_env" by (simp add: sample_env_def)
  from settings_applied [where zone = "\<lambda>z. False" and f = sample_settings_form and rows = sample_rows and
      rs = sample_runners and key = "''secret_key_fingerprint''", OF sample_pint_str this] r sample_saved_settings
  have "map_of rows' ''secret_key_fingerprint'' = Some (Some ''k'')"
    "max_workers (live_runner rs') = nat (sr_runs (read_settings sample_pint (\<lambda>z. False) sample_env rows'))"
    by simp_all
  then show ?thesis using r by blast
qed

text \<open>A stored limit is shown as the one in force, but a start makes the runners with the limit of the environment.\<close>

lemma restart_forgets_limit:
  "map_option (max_workers \<circ> live_runner) (runners_at_start sample_env) = Some 3"
  "sr_runs (read_settings sample_pint (\<lambda>z. False) sample_env sample_rows) = 8"
  by code_simp+

text \<open>A patch with a time zone nobody knows is no 422, and the address of the instance cannot be taken back on the page.\<close>

definition no_update :: settings_update where
  "no_update =
     \<lparr>su_target = None, su_webhook = None, su_clear_webhook = False, su_ntfy_server = None, su_ntfy_topic = None,
      su_timeout = None, su_base_url = None, su_archive_days = None, su_clear_archive = False, su_keep = None,
      su_log_days = None, su_log_mb = None, su_timezone = None, su_clock = None, su_runs = None\<rparr>"

lemma unknown_zone_unhandled:
  "fst (update_settings sample_pint (\<lambda>z. False) sample_env (no_update\<lparr>su_timezone := Some ''Mars''\<rparr>) sample_rows) = Inl 500"
  by code_simp

lemma blank_keeps_address:
  "pref_base_url (load_preferences sample_pint (\<lambda>z. False)
     (fst (snd (save_settings_form sample_pint (\<lambda>z. False) sample_env [(''base_url'', [])] (sample_rows, sample_runners))))) = ''http://nas''"
  by code_simp

lemma superscript_unhandled: "settings_form sample_pint [(''run_history_keep'', [char_of (178 :: nat)])] = Inl NotAnInt"
  by code_simp

text \<open>What is read never depends on the address notifications go to.\<close>

lemma read_hides_webhook:
  "settings_to_read env (p\<lparr>notify_webhook_url := c # cs\<rparr>) = settings_to_read env (p\<lparr>notify_webhook_url := d # ds\<rparr>)"
  by (simp add: settings_to_read_def effective_runs_def)

text \<open>The page saved as it was rendered folds the preferences into themselves.\<close>

lemma str_int_digits: "0 \<le> n \<Longrightarrow> isdigit (str_int n) \<and> py_strip (str_int n) = str_int n"
  using str_nat_neat [of "nat n"] str_nat_char [of _ "nat n"]
  by (auto simp: str_int_def isdigit_def neat_text_def py_digit_def ascii_digit_def list_all_iff)

lemma number_back:
  assumes "\<And>n. pint (str_int n) = Some n" "given_in f k = str_int n" "0 \<le> n"
  shows "settings_number pint f k = Some (Some n)"
  using assms str_int_digits by (simp add: settings_number_def)

lemma number_blank: "given_in f k = [] \<Longrightarrow> settings_number pint f k = Some None"
  by (simp add: settings_number_def isdigit_def py_strip_def strip_if_def)

lemma resaved_settings:
  assumes "\<And>n. pint (str_int n) = Some n" "p = load_preferences pint zone rows"
    and "neat_text (pref_base_url p)" "neat_text (notify_ntfy_server p)" "neat_text (notify_ntfy_topic p)" "neat_text (display_timezone p)"
  shows "save_settings_form pint zone env (rendered_settings p) (rows, rs) =
    (Redirect ''/settings?saved=1'', save_preferences p rows, apply_concurrency env p rs)"
proof -
  have valid: "valid_preferences zone p" using load_valid assms(2) by simp
  let ?f = "rendered_settings p"
  have fields: "given_in ?f ''notify_target'' = target_value (notify_target_of p)" "given_in ?f ''base_url'' = pref_base_url p"
      "given_in ?f ''notify_webhook_url'' = []" "given_in ?f ''notify_ntfy_server'' = notify_ntfy_server p"
      "given_in ?f ''notify_ntfy_topic'' = notify_ntfy_topic p"
      "given_in ?f ''notify_timeout_seconds'' = str_int (notify_timeout_seconds p)"
      "given_in ?f ''max_concurrent_runs'' = (if max_concurrent_runs p = 0 then [] else str_int (max_concurrent_runs p))"
      "given_in ?f ''display_timezone'' = display_timezone p" "given_in ?f ''clock'' = clock_value (clock_of p)"
      "given_in ?f ''archive_retention_days'' =
        (case pref_archive_retention_days p of None \<Rightarrow> [] | Some d \<Rightarrow> if d = 0 then [] else str_int d)"
      "given_in ?f ''run_history_keep'' = str_int (run_history_keep p)"
      "given_in ?f ''log_retention_days'' = str_int (log_retention_days p)"
      "given_in ?f ''log_max_total_mb'' = str_int (log_max_total_mb p)" "given_in ?f ''clear_webhook_url'' = []"
    using assms(3-6) line_value_neat by (simp_all add: given_in_def rendered_settings_def)
  have numbers: "settings_number pint ?f ''notify_timeout_seconds'' = Some (Some (notify_timeout_seconds p))"
      "settings_number pint ?f ''run_history_keep'' = Some (Some (run_history_keep p))"
      "settings_number pint ?f ''log_retention_days'' = Some (Some (log_retention_days p))"
      "settings_number pint ?f ''log_max_total_mb'' = Some (Some (log_max_total_mb p))"
    using valid fields(6,11-13) number_back [OF assms(1)] by (simp_all add: valid_preferences_def)
  have days: "settings_number pint ?f ''archive_retention_days'' = Some (pref_archive_retention_days p)"
      "clean ?f ''archive_retention_days'' = None \<longleftrightarrow> pref_archive_retention_days p = None"
    using valid fields(10) number_back [OF assms(1)] number_blank str_int_digits
    by (auto simp: valid_preferences_def clean_def nonempty_def py_strip_def strip_if_def split: option.splits)
  obtain runs where runs: "settings_number pint ?f ''max_concurrent_runs'' = Some runs" "over runs 0 = max_concurrent_runs p"
    using valid fields(7) number_back [OF assms(1)] number_blank
    by (cases "max_concurrent_runs p = 0") (auto simp: valid_preferences_def over_def)
  have texts: "over (clean ?f ''base_url'') (pref_base_url p) = pref_base_url p"
      "over (clean ?f ''notify_ntfy_server'') (notify_ntfy_server p) = notify_ntfy_server p"
      "over (clean ?f ''notify_ntfy_topic'') (notify_ntfy_topic p) = notify_ntfy_topic p"
      "clean ?f ''notify_webhook_url'' = None" "py_strip (given_in ?f ''display_timezone'') = display_timezone p"
    using assms(3-6) by (simp_all add: clean_def fields nonempty_def over_def neat_text_def py_strip_def strip_if_def)
  have choices: "target_of (given_or ?f ''notify_target'' ''none'') = Some (notify_target_of p)"
      "clock_named (given_or ?f ''clock'' ''24h'') = Some (clock_of p)"
    by (cases "notify_target_of p"; simp add: given_or_def fields target_of_def) (cases "clock_of p"; simp add: given_or_def fields clock_named_def)
  obtain u where u: "settings_form pint ?f = Inr u" "folded p u = p"
  proof
    let ?u = "\<lparr>su_target = Some (notify_target_of p), su_webhook = None, su_clear_webhook = False,
        su_ntfy_server = clean ?f ''notify_ntfy_server'', su_ntfy_topic = clean ?f ''notify_ntfy_topic'',
        su_timeout = Some (notify_timeout_seconds p), su_base_url = clean ?f ''base_url'',
        su_archive_days = pref_archive_retention_days p, su_clear_archive = (pref_archive_retention_days p = None),
        su_keep = Some (run_history_keep p), su_log_days = Some (log_retention_days p), su_log_mb = Some (log_max_total_mb p),
        su_timezone = Some (display_timezone p), su_clock = Some (clock_of p), su_runs = Some (over runs 0)\<rparr>"
    have "update_fits ?u"
      using valid runs(2) by (auto simp: update_fits_def valid_preferences_def between_def at_least_def split: option.splits)
    then show "settings_form pint ?f = Inr ?u"
      by (simp add: settings_form_def or_trouble_def numbers days runs texts choices fields(14))
    show "folded p ?u = p"
      by (cases p; cases "pref_archive_retention_days p") (use texts runs(2) in \<open>simp_all add: folded_def over_def\<close>)
  qed
  then show ?thesis
    using checked_id [OF valid] assms(2) by (simp add: save_settings_form_def apply_update_def)
qed

end
