(* ===== verification/Remotes.thy ===== *)
theory Remotes
  imports Forms
begin

text \<open>
  \<open>app/api/rclone.py\<close>, with \<open>parse_stanza\<close> of \<open>app/engines/rcloneconf.py\<close> and the \<open>ConfigParser\<close> of the standard library
  it reads a pasted section with: sections, a default section, options before an equals sign or a colon, comments, indented
  continuations, no interpolation, duplicates overriding. The \<open>rc\<close> of \<open>Probe\<close> runs \<open>rclone config providers\<close>.
\<close>

subsection \<open>ConfigParser\<close>

text \<open>The options of a section with the lines of their values. \<open>None\<close> as the section being read is before any.\<close>

type_synonym ini_options = "(string \<times> string list) list"

record ini =
  ini_defaults :: ini_options
  ini_sections :: "(string \<times> ini_options) list"
  ini_section :: "string option"
  ini_option :: "string option"
  ini_indent :: nat
  ini_odd :: bool

definition DEFAULT_SECTION :: string where "DEFAULT_SECTION = ''DEFAULT''"

definition empty_ini :: ini where
  "empty_ini =
     \<lparr>ini_defaults = [], ini_sections = [], ini_section = None, ini_option = None, ini_indent = 0, ini_odd = False\<rparr>"

definition options_of :: "string \<Rightarrow> ini \<Rightarrow> ini_options" where
  "options_of sec s =
     (if sec = DEFAULT_SECTION then ini_defaults s
      else case map_of (ini_sections s) sec of None \<Rightarrow> [] | Some os \<Rightarrow> os)"

definition put_options :: "string \<Rightarrow> ini_options \<Rightarrow> ini \<Rightarrow> ini" where
  "put_options sec os s =
     (if sec = DEFAULT_SECTION then s\<lparr>ini_defaults := os\<rparr> else s\<lparr>ini_sections := dict_put sec os (ini_sections s)\<rparr>)"

definition add_line :: "string \<Rightarrow> ini \<Rightarrow> ini" where
  "add_line v s =
     (case (ini_section s, ini_option s) of
        (Some sec, Some opt) \<Rightarrow>
          put_options sec
            (dict_put opt ((case map_of (options_of sec s) opt of None \<Rightarrow> [] | Some vs \<Rightarrow> vs) @ [v]) (options_of sec s)) s
      | _ \<Rightarrow> s)"

definition comment_line :: "string \<Rightarrow> bool" where
  "comment_line line \<longleftrightarrow> (let t = py_strip line in prefix ''#'' t \<or> prefix '';'' t)"

text \<open>\<open>SECTCRE\<close> takes what is up to the last bracket; \<open>OPTCRE\<close> splits at the first delimiter.\<close>

definition section_header :: "string \<Rightarrow> string option" where
  "section_header v =
     (if \<not> prefix ''['' v then None
      else (let rest = rev (dropWhile (\<lambda>c. c \<noteq> CHR '']'') (rev (tl v)))
            in if length rest < 2 then None else Some (butlast rest)))"

definition delimiter :: "char \<Rightarrow> bool" where
  "delimiter c \<longleftrightarrow> c = CHR ''='' \<or> c = CHR '':''"

definition option_line :: "string \<Rightarrow> (string \<times> string) option" where
  "option_line v =
     (if list_ex delimiter v
      then Some (rstrip_if py_space (takeWhile (Not \<circ> delimiter) v), py_strip (tl (dropWhile (Not \<circ> delimiter) v)))
      else None)"

definition indent_of :: "string \<Rightarrow> nat" where
  "indent_of line = length (takeWhile py_space line)"

text \<open>None is the MissingSectionHeaderError; a line that is no option makes the whole text fail at its end.\<close>

definition ini_line :: "string \<Rightarrow> ini \<Rightarrow> ini option" where
  "ini_line line s =
     (if comment_line line then Some s
      else if py_strip line = [] then Some (add_line [] s)
      else
        (let v = py_strip line
         in if ini_section s \<noteq> None \<and> ini_option s \<noteq> None \<and> ini_indent s < indent_of line then Some (add_line v s)
            else
              (let s1 = s\<lparr>ini_indent := indent_of line\<rparr>
               in case section_header v of
                    Some h \<Rightarrow>
                      Some ((if h = DEFAULT_SECTION \<or> h \<in> set (map fst (ini_sections s)) then s1 else put_options h [] s1)
                              \<lparr>ini_section := Some h, ini_option := None\<rparr>)
                  | None \<Rightarrow>
                      (case ini_section s of
                         None \<Rightarrow> None
                       | Some sec \<Rightarrow>
                           (case option_line v of
                              None \<Rightarrow> Some (s1\<lparr>ini_odd := True\<rparr>)
                            | Some (name, value) \<Rightarrow>
                                (let opt = py_lower name
                                 in Some ((put_options sec (dict_put opt [value] (options_of sec s1)) s1)
                                      \<lparr>ini_option := Some opt, ini_odd := ini_odd s \<or> name = []\<rparr>)))))))"

fun ini_lines :: "string list \<Rightarrow> ini \<Rightarrow> ini option" where
  "ini_lines [] s = Some s"
| "ini_lines (line # lines) s = Option.bind (ini_line line s) (ini_lines lines)"

text \<open>\<open>read_string\<close>: None is a configparser.Error.\<close>

definition read_ini :: "string \<Rightarrow> ini option" where
  "read_ini text =
     Option.bind (ini_lines (split_on (CHR 0x0A) text) empty_ini) (\<lambda>s. if ini_odd s then None else Some s)"

definition joined_value :: "string list \<Rightarrow> string" where
  "joined_value vs = rstrip_if py_space (join_with [CHR 0x0A] vs)"

text \<open>\<open>items\<close>: the defaults, then the section over them.\<close>

definition ini_items :: "string \<Rightarrow> ini \<Rightarrow> (string \<times> string) list" where
  "ini_items sec s =
     fold (\<lambda>(k, vs). dict_put k (joined_value vs)) (options_of sec s) (map (\<lambda>(k, vs). (k, joined_value vs)) (ini_defaults s))"

subsection \<open>A pasted stanza\<close>

record parsed_stanza =
  ps_name :: string
  ps_backend :: string
  ps_options :: "(string \<times> string) list"
  ps_secrets :: "string list"

datatype stanza_error = NotAConfig | NoSection | NoType string

definition stanza_values :: "(string \<times> string) list \<Rightarrow> (string \<times> string) list" where
  "stanza_values items = fold (\<lambda>(k, v). dict_put (py_strip k) (py_strip v)) items []"

definition parse_stanza :: "string list \<Rightarrow> string \<Rightarrow> stanza_error + parsed_stanza" where
  "parse_stanza passwords text =
     (case read_ini text of
        None \<Rightarrow> Inl NotAConfig
      | Some s \<Rightarrow>
          (case ini_sections s of
             [] \<Rightarrow> Inl NoSection
           | (name, os) # rest \<Rightarrow>
               (let vals = stanza_values (ini_items name s);
                    backend = (case map_of vals ''type'' of None \<Rightarrow> [] | Some b \<Rightarrow> b);
                    opts = filter (\<lambda>(k, v). k \<noteq> ''type'') vals;
                    known = map py_lower passwords
                in if backend = [] then Inl (NoType name)
                   else Inr \<lparr>ps_name = name, ps_backend = backend, ps_options = opts,
                             ps_secrets = filter (\<lambda>k. py_lower k \<in> set known) (map fst opts)\<rparr>)))"

subsection \<open>What rclone says of its backends\<close>

text \<open>None is an exception: an entry that is no object, options that cannot be gone through, an option without a name.\<close>

definition entries_under :: "string \<Rightarrow> (string \<times> json) list \<Rightarrow> json list option" where
  "entries_under k d =
     (case jget d k of
        None \<Rightarrow> Some []
      | Some (JArr xs) \<Rightarrow> Some xs
      | Some v \<Rightarrow> if v \<in> {JStr [], JObj []} then Some [] else None)"

fun flagged_names :: "ext \<Rightarrow> string \<Rightarrow> json list \<Rightarrow> string list option" where
  "flagged_names x flag [] = Some []"
| "flagged_names x flag (JObj d # os) =
     (if falsy_get d flag = None then flagged_names x flag os
      else Option.bind (jget d ''Name'') (\<lambda>n. map_option ((#) (py_str x n)) (flagged_names x flag os)))"
| "flagged_names x flag (v # os) = None"

fun option_names :: "ext \<Rightarrow> string \<Rightarrow> json list \<Rightarrow> string \<Rightarrow> string list option" where
  "option_names x flag [] backend = Some []"
| "option_names x flag (JObj d # ps) backend =
     (if jget d ''Name'' = Some (JStr backend) then Option.bind (entries_under ''Options'' d) (flagged_names x flag)
      else option_names x flag ps backend)"
| "option_names x flag (v # ps) backend = None"

definition password_option_names :: "ext \<Rightarrow> json list \<Rightarrow> string \<Rightarrow> string list option" where
  "password_option_names x = option_names x ''IsPassword''"

definition sensitive_option_names :: "ext \<Rightarrow> json list \<Rightarrow> string \<Rightarrow> string list option" where
  "sensitive_option_names x = option_names x ''Sensitive''"

subsection \<open>The endpoints\<close>

record backend_option =
  bo_name :: string
  bo_help :: string
  bo_type :: string
  bo_required :: bool
  bo_is_password :: bool
  bo_sensitive :: bool
  bo_advanced :: bool
  bo_default :: json

record backend_summary =
  bs_name :: string
  bs_description :: string
  bs_options :: "backend_option list"

definition text_of :: "ext \<Rightarrow> string \<Rightarrow> (string \<times> json) list \<Rightarrow> string \<Rightarrow> string" where
  "text_of x k d absent = (case jget d k of None \<Rightarrow> absent | Some v \<Rightarrow> py_str x v)"

fun backend_option_of :: "ext \<Rightarrow> json \<Rightarrow> backend_option option" where
  "backend_option_of x (JObj d) =
     Some \<lparr>bo_name = text_of x ''Name'' d [], bo_help = text_of x ''Help'' d [], bo_type = text_of x ''Type'' d ''string'',
           bo_required = (falsy_get d ''Required'' \<noteq> None), bo_is_password = (falsy_get d ''IsPassword'' \<noteq> None),
           bo_sensitive = (falsy_get d ''Sensitive'' \<noteq> None), bo_advanced = (falsy_get d ''Advanced'' \<noteq> None),
           bo_default = (case jget d ''Default'' of None \<Rightarrow> JNull | Some v \<Rightarrow> v)\<rparr>"
| "backend_option_of x v = None"

fun backend_summary_of :: "ext \<Rightarrow> json \<Rightarrow> backend_summary option" where
  "backend_summary_of x (JObj d) =
     Option.bind (entries_under ''Options'' d) (\<lambda>os. map_option
       (\<lambda>opts. \<lparr>bs_name = text_of x ''Name'' d [], bs_description = text_of x ''Description'' d [], bs_options = opts\<rparr>)
       (those (map (backend_option_of x) os)))"
| "backend_summary_of x v = None"

text \<open>A left is the status; 500 is an exception nothing catches.\<close>

definition backends_endpoint :: "ext \<Rightarrow> rc \<Rightarrow> nat + backend_summary list" where
  "backends_endpoint x rc =
     (case list_backends x rc of
        Inl e \<Rightarrow> Inl 502
      | Inr ps \<Rightarrow> (case those (map (backend_summary_of x) ps) of None \<Rightarrow> Inl 500 | Some bs \<Rightarrow> Inr (sort_key bs_name bs)))"

definition remotes_endpoint :: "ext \<Rightarrow> rc \<Rightarrow> nat + string list" where
  "remotes_endpoint x rc = (case list_imported_remotes x rc of Inl e \<Rightarrow> Inl 400 | Inr rs \<Rightarrow> Inr rs)"

record parsed_option =
  po_key :: string
  po_value :: string
  po_is_secret :: bool
  po_already_obscured :: bool

record stanza_response =
  st_name :: string
  st_backend :: string
  st_options :: "parsed_option list"

definition MAX_STANZA :: nat where "MAX_STANZA = 65536"

definition parse_stanza_endpoint :: "ext \<Rightarrow> rc \<Rightarrow> string \<Rightarrow> nat + stanza_response" where
  "parse_stanza_endpoint x rc text =
     (if text = [] \<or> MAX_STANZA < length text then Inl 422
      else
        (case parse_stanza [] text of
           Inl e \<Rightarrow> Inl 400
         | Inr preliminary \<Rightarrow>
             (case (case list_backends x rc of
                      Inl e \<Rightarrow> Some []
                    | Inr ps \<Rightarrow> password_option_names x ps (ps_backend preliminary)) of
                None \<Rightarrow> Inl 500
              | Some passwords \<Rightarrow>
                  (case parse_stanza passwords text of
                     Inl e \<Rightarrow> Inl 400
                   | Inr p \<Rightarrow>
                       Inr \<lparr>st_name = ps_name p, st_backend = ps_backend p,
                            st_options = map (\<lambda>(k, v). \<lparr>po_key = k, po_value = v, po_is_secret = (k \<in> set (ps_secrets p)),
                              po_already_obscured = (k \<in> set (ps_secrets p))\<rparr>) (ps_options p)\<rparr>))))"

record capability_digest =
  cd_probed :: bool
  cd_probed_at :: "datetime option"
  cd_stale :: bool
  cd_hashes :: "string list"
  cd_can_set_modtime :: bool
  cd_supports_move :: bool
  cd_supports_empty_dirs :: bool
  cd_case_insensitive :: bool
  cd_bucket_based :: bool

definition capability_summary :: "ext \<Rightarrow> datetime \<Rightarrow> connection \<Rightarrow> capability_digest option" where
  "capability_summary x now c =
     map_option (\<lambda>a.
       \<lparr>cd_probed = probed a, cd_probed_at = probed_at a, cd_stale = is_stale now a, cd_hashes = sorted_list_of_set (hashes a),
        cd_can_set_modtime = can_set_modtime a, cd_supports_move = supports_move a,
        cd_supports_empty_dirs = supports_empty_dirs a, cd_case_insensitive = case_insensitive a,
        cd_bucket_based = is_bucket_based a\<rparr>) (for_connection x c)"

record compatibility =
  cm_source :: string
  cm_dest :: string
  cm_source_caps :: capability_digest
  cm_dest_caps :: capability_digest
  cm_checksum :: availability
  cm_bidirectional :: availability
  cm_archive :: availability
  cm_empty_dirs :: availability
  cm_shared_hashes :: "string list"
  cm_warnings :: "cap_warning list"
  cm_stale :: bool

definition compatibility_of :: "ext \<Rightarrow> datetime \<Rightarrow> connection \<Rightarrow> connection \<Rightarrow> nat + compatibility" where
  "compatibility_of x now source dest =
     (case (intersect x now source dest None None, capability_summary x now source, capability_summary x now dest) of
        (Some r, Some a, Some b) \<Rightarrow>
          Inr \<lparr>cm_source = conn_name source, cm_dest = conn_name dest, cm_source_caps = a, cm_dest_caps = b,
               cm_checksum = opt_checksum r, cm_bidirectional = opt_bidirectional r, cm_archive = opt_archive r,
               cm_empty_dirs = opt_empty_dirs r, cm_shared_hashes = sorted_list_of_set (shared_hashes r),
               cm_warnings = cap_warnings r, cm_stale = any_stale r\<rparr>
      | _ \<Rightarrow> Inl 500)"

definition compatibility_endpoint ::
  "ext \<Rightarrow> datetime \<Rightarrow> nat \<Rightarrow> nat \<Rightarrow> 'trig catalog \<Rightarrow> nat + compatibility" where
  "compatibility_endpoint x now i j s =
     (case (row conn_id (cat_connections s) i, row conn_id (cat_connections s) j) of
        (Some source, Some dest) \<Rightarrow> compatibility_of x now source dest
      | _ \<Rightarrow> Inl 404)"

subsection \<open>Lemmas: a stanza as rclone writes it\<close>

definition written :: "string \<times> string \<Rightarrow> string" where
  "written kv = fst kv @ '' = '' @ snd kv"

text \<open>The section of a remote in \<open>rclone.conf\<close>, and the empty lines behind it.\<close>

definition stanza_text :: "string \<Rightarrow> (string \<times> string) list \<Rightarrow> nat \<Rightarrow> string" where
  "stanza_text name opts n =
     join_with [CHR 0x0A] (([CHR ''[''] @ name @ [CHR '']'']) # map written opts @ replicate n [])"

definition ini_key :: "string \<Rightarrow> bool" where
  "ini_key k \<longleftrightarrow>
     k \<noteq> [] \<and> py_strip k = k \<and> py_lower k = k \<and> list_all (\<lambda>c. \<not> delimiter c \<and> c \<noteq> CHR 0x0A) k \<and>
     hd k \<notin> {CHR ''#'', CHR '';'', CHR ''[''}"

definition ini_value :: "string \<Rightarrow> bool" where
  "ini_value v \<longleftrightarrow> py_strip v = v \<and> CHR 0x0A \<notin> set v"

definition reading :: "string \<Rightarrow> ini_options \<Rightarrow> string option \<Rightarrow> ini" where
  "reading name os opt =
     \<lparr>ini_defaults = [], ini_sections = [(name, os)], ini_section = Some name, ini_option = opt, ini_indent = 0, ini_odd = False\<rparr>"

lemma options_reading [simp]: "name \<noteq> DEFAULT_SECTION \<Longrightarrow> options_of name (reading name os opt) = os"
  by (simp add: options_of_def reading_def)

lemma key_start:
  assumes "ini_key k"
  obtains c cs where "k = c # cs" "\<not> py_space c" "c \<notin> {CHR ''#'', CHR '';'', CHR ''[''}"
proof (cases k)
  case (Cons c cs)
  have "\<not> py_space (hd k)" using strip_if_hd [of py_space k] assms by (simp add: ini_key_def py_strip_def)
  then show thesis using that [of c cs] Cons assms by (simp add: ini_key_def)
qed (use assms in \<open>simp add: ini_key_def\<close>)

lemma option_written:
  assumes "ini_key k" "ini_value v"
  shows "option_line (py_strip (written (k, v))) = Some (k, v)"
proof -
  let ?line = "k @ '' ='' @ (if v = [] then [] else CHR '' '' # v)"
  have line: "py_strip (written (k, v)) = ?line"
    using strip_option_line [of k v] assms by (simp add: written_def ini_key_def ini_value_def)
  have none: "\<forall>c \<in> set (k @ '' ''). (Not \<circ> delimiter) c" using assms(1) by (auto simp: ini_key_def list_all_iff delimiter_def)
  have split: "?line = (k @ '' '') @ CHR ''='' # (if v = [] then [] else CHR '' '' # v)" by simp
  have "takeWhile (Not \<circ> delimiter) ((k @ '' '') @ CHR ''='' # r) = k @ '' ''" for r
    by (subst takeWhile_append2) (use none in \<open>auto simp: delimiter_def\<close>)
  then have "takeWhile (Not \<circ> delimiter) ?line = k @ '' ''" unfolding split by blast
  moreover have "dropWhile (Not \<circ> delimiter) ((k @ '' '') @ CHR ''='' # r) = CHR ''='' # r" for r
    by (subst dropWhile_append2) (use none in \<open>auto simp: delimiter_def\<close>)
  then have "dropWhile (Not \<circ> delimiter) ?line = CHR ''='' # (if v = [] then [] else CHR '' '' # v)" unfolding split by blast
  moreover have "rstrip_if py_space (k @ '' '') = k"
  proof -
    have "\<not> py_space (last k)" using strip_if_last [of py_space k] assms(1) by (simp add: ini_key_def py_strip_def)
    then show ?thesis using rstrip_if_id [of k py_space] blank_space(1) by (simp add: rstrip_if_def)
  qed
  moreover have "py_strip (if v = [] then [] else CHR '' '' # v) = v"
    using assms(2) strip_space_before [of v] by (cases "v = []") (simp_all add: ini_value_def)
  moreover have "list_ex delimiter ?line" by (simp add: delimiter_def)
  ultimately show ?thesis unfolding line by (simp add: option_line_def)
qed

lemma line_written:
  assumes "ini_key k" "ini_value v" "k \<notin> fst ` set os" "name \<noteq> DEFAULT_SECTION"
  shows "ini_line (written (k, v)) (reading name os opt) = Some (reading name (os @ [(k, [v])]) (Some k))"
proof -
  obtain c cs where c: "k = c # cs" "\<not> py_space c" "c \<notin> {CHR ''#'', CHR '';'', CHR ''[''}" using key_start [OF assms(1)] .
  have strip: "py_strip (written (k, v)) = k @ '' ='' @ (if v = [] then [] else CHR '' '' # v)"
    using strip_option_line [of k v] assms(1,2) by (simp add: written_def ini_key_def ini_value_def)
  then have start: "\<exists>rest. py_strip (written (k, v)) = c # rest" using c(1) by simp
  have "\<not> comment_line (written (k, v))" "section_header (py_strip (written (k, v))) = None" "py_strip (written (k, v)) \<noteq> []"
    using start c(3) by (auto simp: comment_line_def section_header_def Let_def)
  moreover have "indent_of (written (k, v)) = 0" using c(1,2) by (simp add: indent_of_def written_def)
  moreover have "py_lower k = k" "k \<noteq> []" using assms(1) by (simp_all add: ini_key_def)
  ultimately show ?thesis
    using assms(4) dict_put_fresh [OF assms(3)] option_written [OF assms(1,2)]
    by (simp add: ini_line_def Let_def reading_def put_options_def options_of_def)
qed

lemma lines_written:
  assumes "\<forall>(k, v) \<in> set opts. ini_key k \<and> ini_value v" "distinct (map fst opts)" "fst ` set opts \<inter> fst ` set os = {}"
    and "name \<noteq> DEFAULT_SECTION"
  shows "ini_lines (map written opts @ ls) (reading name os opt) =
    ini_lines ls (reading name (os @ map (\<lambda>(k, v). (k, [v])) opts) (if opts = [] then opt else Some (fst (last opts))))"
  using assms(1-3)
proof (induction opts arbitrary: os opt)
  case (Cons kv opts)
  obtain k v where kv: "kv = (k, v)" by (cases kv)
  have "ini_line (written (k, v)) (reading name os opt) = Some (reading name (os @ [(k, [v])]) (Some k))"
    using Cons.prems kv assms(4) by (intro line_written) auto
  moreover have "ini_lines (map written opts @ ls) (reading name (os @ [(k, [v])]) (Some k)) =
      ini_lines ls (reading name ((os @ [(k, [v])]) @ map (\<lambda>(k, v). (k, [v])) opts)
        (if opts = [] then Some k else Some (fst (last opts))))"
    by (rule Cons.IH) (use Cons.prems kv in auto)
  ultimately show ?case using kv by simp
qed simp

lemma lines_blank:
  assumes "name \<noteq> DEFAULT_SECTION" "k \<notin> fst ` set os"
  shows "ini_lines (replicate n []) (reading name (os @ [(k, vs)]) (Some k)) =
    Some (reading name (os @ [(k, vs @ replicate n [])]) (Some k))"
proof (induction n arbitrary: vs)
  case (Suc n)
  have put: "dict_put k w (os @ [(k, vs)]) = os @ [(k, w)]" for w
    using assms(2) by (induction os) auto
  have get: "map_of (os @ [(k, vs)]) k = Some vs"
    using assms(2) map_of_eq_None_iff [of os k] by (simp add: map_add_def)
  have "ini_line [] (reading name (os @ [(k, vs)]) (Some k)) = Some (reading name (os @ [(k, vs @ [[]])]) (Some k))"
    using assms(1) put get
    by (simp add: ini_line_def comment_line_def py_strip_def strip_if_def add_line_def put_options_def options_of_def reading_def)
  then show ?case using Suc [of "vs @ [[]]"] by (simp add: replicate_app_Cons_same)
qed simp

lemma fold_put_fresh:
  "distinct (map fst kvs) \<Longrightarrow> fst ` set kvs \<inter> fst ` set acc = {} \<Longrightarrow>
     fold (\<lambda>(k, v). dict_put (g k) (f v)) kvs acc = acc @ map (\<lambda>(k, v). (k, f v)) kvs"
  if "\<And>k v. (k, v) \<in> set kvs \<Longrightarrow> g k = k"
  using that
proof (induction kvs arbitrary: acc)
  case (Cons kv kvs)
  obtain k v where kv: "kv = (k, v)" by (cases kv)
  have "g k = k" using Cons.prems kv by auto
  moreover have "k \<notin> fst ` set acc" using Cons.prems kv by auto
  ultimately have "dict_put (g k) (f v) acc = acc @ [(k, f v)]" by (simp add: dict_put_fresh)
  moreover have "fold (\<lambda>(k, v). dict_put (g k) (f v)) kvs (acc @ [(k, f v)]) = (acc @ [(k, f v)]) @ map (\<lambda>(k, v). (k, f v)) kvs"
    by (rule Cons.IH) (use Cons.prems kv in auto)
  ultimately show ?case using kv by simp
qed simp

text \<open>What reading such a text leaves.\<close>

definition stanza_ok :: "string \<Rightarrow> (string \<times> string) list \<Rightarrow> bool" where
  "stanza_ok name kvs \<longleftrightarrow>
     name \<notin> {[], DEFAULT_SECTION} \<and> CHR 0x0A \<notin> set name \<and> kvs \<noteq> [] \<and> distinct (map fst kvs) \<and>
     list_all (\<lambda>(k, v). ini_key k \<and> ini_value v) kvs"

lemma header_line:
  assumes "name \<notin> {[], DEFAULT_SECTION}"
  shows "ini_line ([CHR ''[''] @ name @ [CHR '']'']) empty_ini = Some (reading name [] None)"
proof -
  let ?h = "[CHR ''[''] @ name @ [CHR '']'']"
  have "py_strip ?h = ?h"
    unfolding py_strip_def by (rule strip_if_id) (simp add: py_space_def)
  moreover have "section_header ?h = Some name" using assms by (cases name) (simp_all add: section_header_def)
  moreover have "indent_of ?h = 0" by (simp add: indent_of_def py_space_def)
  ultimately show ?thesis
    using assms by (simp add: ini_line_def comment_line_def empty_ini_def reading_def put_options_def)
qed

lemma joined_blank: "py_strip v = v \<Longrightarrow> joined_value (v # replicate n []) = v"
proof (induction n)
  case 0
  then have "v = [] \<or> \<not> py_space (last v)" using strip_if_last [of py_space v] by (auto simp: py_strip_def)
  then show ?case by (simp add: joined_value_def rstrip_if_id)
next
  case (Suc n)
  have "join_with [CHR 0x0A] (v # replicate (Suc n) []) = join_with [CHR 0x0A] (v # replicate n []) @ [CHR 0x0A]"
  proof -
    have "join_with [CHR 0x0A] (replicate (Suc m) []) = replicate m (CHR 0x0A)" for m
      by (induction m) simp_all
    then show ?thesis by (cases n) (simp_all add: replicate_append_same)
  qed
  moreover have "rstrip_if py_space (s @ [CHR 0x0A]) = rstrip_if py_space s" for s
    by (simp add: rstrip_if_def py_space_def)
  ultimately show ?case using Suc by (simp only: joined_value_def)
qed

lemma stanza_lines:
  assumes "stanza_ok name kvs"
  shows "split_on (CHR 0x0A) (stanza_text name kvs n) = ([CHR ''[''] @ name @ [CHR '']'']) # map written kvs @ replicate n []"
proof -
  have "CHR 0x0A \<notin> set (written kv)" if kv: "kv \<in> set kvs" for kv
  proof -
    obtain k v where "kv = (k, v)" "ini_key k" "ini_value v"
      using assms kv by (cases kv) (auto simp: stanza_ok_def list_all_iff)
    then show ?thesis by (auto simp: written_def ini_key_def ini_value_def list_all_iff)
  qed
  then have "\<forall>l \<in> set (([CHR ''[''] @ name @ [CHR '']'']) # map written kvs @ replicate n []). CHR 0x0A \<notin> set l"
    using assms by (auto simp: stanza_ok_def)
  then show ?thesis unfolding stanza_text_def by (intro split_join_with) auto
qed

lemma read_stanza:
  assumes "stanza_ok name kvs"
  shows "\<exists>os opt. read_ini (stanza_text name kvs n) = Some (reading name os opt) \<and>
    map (\<lambda>(k, vs). (k, joined_value vs)) os = kvs"
proof -
  have ok: "name \<notin> {[], DEFAULT_SECTION}" "\<forall>(k, v) \<in> set kvs. ini_key k \<and> ini_value v" "distinct (map fst kvs)"
    using assms by (simp_all add: stanza_ok_def list_all_iff)
  obtain front k v where kvs: "kvs = front @ [(k, v)]"
    using assms by (cases kvs rule: rev_cases) (auto simp: stanza_ok_def)
  have k: "k \<notin> fst ` set (map (\<lambda>(k, v). (k, [v])) front)" using ok(3) kvs by force
  let ?os = "map (\<lambda>(k, v). (k, [v])) front @ [(k, [v] @ replicate n [])]"
  have "ini_lines (map written kvs @ replicate n []) (reading name [] None) =
      ini_lines (replicate n []) (reading name (map (\<lambda>(k, v). (k, [v])) front @ [(k, [v])]) (Some k))"
    using lines_written [OF ok(2,3), of "[]" name "replicate n []" None] ok(1) kvs by simp
  also have "\<dots> = Some (reading name ?os (Some k))"
    by (rule lines_blank [OF _ k]) (use ok(1) in simp)
  finally have "ini_lines (split_on (CHR 0x0A) (stanza_text name kvs n)) empty_ini = Some (reading name ?os (Some k))"
    unfolding stanza_lines [OF assms] ini_lines.simps header_line [OF ok(1)] bind.simps .
  then have "read_ini (stanza_text name kvs n) = Some (reading name ?os (Some k))"
    by (simp add: read_ini_def reading_def)
  moreover have "map (\<lambda>(k, vs). (k, joined_value vs)) ?os = kvs"
  proof -
    have strip: "py_strip w = w" if "(l, w) \<in> set kvs" for l w using ok(2) that by (auto simp: ini_value_def)
    have "map (\<lambda>(k, vs). (k, joined_value vs)) (map (\<lambda>(k, v). (k, [v])) front) = front"
      unfolding map_map by (rule map_idI) (use strip joined_blank [of _ 0] kvs in auto)
    moreover have "joined_value ([v] @ replicate n []) = v" using joined_blank [of v n] strip [of k v] kvs by simp
    ultimately show ?thesis using kvs by simp
  qed
  ultimately show ?thesis by blast
qed

lemma parse_written:
  assumes "stanza_ok name ((''type'', backend) # opts)" "backend \<noteq> []"
  shows "parse_stanza passwords (stanza_text name ((''type'', backend) # opts) n) =
    Inr \<lparr>ps_name = name, ps_backend = backend, ps_options = opts,
         ps_secrets = filter (\<lambda>k. k \<in> set (map py_lower passwords)) (map fst opts)\<rparr>"
proof -
  let ?kvs = "(''type'', backend) # opts"
  obtain os opt where os: "read_ini (stanza_text name ?kvs n) = Some (reading name os opt)"
      "map (\<lambda>(k, vs). (k, joined_value vs)) os = ?kvs"
    using read_stanza [OF assms(1), of n] by (elim exE conjE) (rule that)
  have name: "name \<noteq> DEFAULT_SECTION" using assms(1) by (simp add: stanza_ok_def)
  have "map fst os = map fst ?kvs" using arg_cong [OF os(2), of "map fst"] by (simp add: comp_def case_prod_beta)
  then have "distinct (map fst os)" using assms(1) by (simp add: stanza_ok_def)
  then have "ini_items name (reading name os opt) = ?kvs"
    using fold_put_fresh [where kvs = os and g = id and f = joined_value and acc = "[]"] os(2) name by (simp add: ini_items_def) (simp add: reading_def)
  moreover have "stanza_values ?kvs = ?kvs"
  proof -
    have "py_strip k = k" "py_strip v = v" if "(k, v) \<in> set ?kvs" for k v
      using assms(1) that unfolding stanza_ok_def list_all_iff ini_key_def ini_value_def by blast+
    moreover from this have "map (\<lambda>(k, v). (k, py_strip v)) ?kvs = ?kvs" by (intro map_idI) auto
    moreover have "distinct (map fst ?kvs)" using assms(1) by (simp add: stanza_ok_def)
    ultimately show ?thesis
      unfolding stanza_values_def using fold_put_fresh [where kvs = ?kvs and g = py_strip and f = py_strip and acc = "[]"] by simp
  qed
  moreover have "ini_sections (reading name os opt) = [(name, os)]" by (simp add: reading_def)
  moreover have "filter (\<lambda>(k, v). k \<noteq> ''type'') ?kvs = opts"
    using assms(1) by (auto simp: stanza_ok_def filter_id_conv image_iff)
  moreover have "filter (\<lambda>k. py_lower k \<in> A) (map fst opts) = filter (\<lambda>k. k \<in> A) (map fst opts)" for A
    by (rule filter_cong) (use assms(1) in \<open>auto simp: stanza_ok_def list_all_iff ini_key_def\<close>)
  ultimately show ?thesis using os(1) assms(2) by (simp add: parse_stanza_def Let_def)
qed

text \<open>C29. A pasted section becomes the rows it was written from. For the text rclone itself writes for a remote, with any number
  of empty lines behind it, the endpoint answers with its name, its backend and its options in order, each with its value,
  and marks as secret, and as obscured already, exactly those rclone says are passwords of that backend, or none where
  rclone could not be asked.\<close>

theorem pasted_stanza_rows:
  assumes "stanza_ok name ((''type'', backend) # opts)" "backend \<noteq> []"
    and "length (stanza_text name ((''type'', backend) # opts) n) \<le> MAX_STANZA"
    and "(case list_backends x rc of Inl e \<Rightarrow> Some [] | Inr ps \<Rightarrow> password_option_names x ps backend) = Some passwords"
  shows "parse_stanza_endpoint x rc (stanza_text name ((''type'', backend) # opts) n) =
    Inr \<lparr>st_name = name, st_backend = backend,
         st_options = map (\<lambda>(k, v). \<lparr>po_key = k, po_value = v, po_is_secret = (k \<in> py_lower ` set passwords),
           po_already_obscured = (k \<in> py_lower ` set passwords)\<rparr>) opts\<rparr>"
proof -
  let ?text = "stanza_text name ((''type'', backend) # opts) n"
  let ?p = "\<lambda>ws. \<lparr>ps_name = name, ps_backend = backend, ps_options = opts,
      ps_secrets = filter (\<lambda>k. k \<in> set (map py_lower ws)) (map fst opts)\<rparr>"
  have asked: "(case list_backends x rc of Inl e \<Rightarrow> Some [] | Inr ps \<Rightarrow> password_option_names x ps (ps_backend (?p []))) = Some passwords"
    unfolding parsed_stanza.select_convs by (rule assms(4))
  have rows: "map (\<lambda>(k, v). \<lparr>po_key = k, po_value = v, po_is_secret = (k \<in> set (ps_secrets (?p passwords))),
        po_already_obscured = (k \<in> set (ps_secrets (?p passwords)))\<rparr>) opts =
      map (\<lambda>(k, v). \<lparr>po_key = k, po_value = v, po_is_secret = (k \<in> py_lower ` set passwords),
        po_already_obscured = (k \<in> py_lower ` set passwords)\<rparr>) opts"
    by (rule map_cong [OF refl]) force
  have size: "\<not> (?text = [] \<or> MAX_STANZA < length ?text)" using assms(3) by (auto simp: stanza_text_def)
  have "parse_stanza_endpoint x rc ?text =
      Inr \<lparr>st_name = ps_name (?p passwords), st_backend = ps_backend (?p passwords),
           st_options = map (\<lambda>(k, v). \<lparr>po_key = k, po_value = v, po_is_secret = (k \<in> set (ps_secrets (?p passwords))),
             po_already_obscured = (k \<in> set (ps_secrets (?p passwords)))\<rparr>) (ps_options (?p passwords))\<rparr>"
    unfolding parse_stanza_endpoint_def if_not_P [OF size] parse_written [OF assms(1,2)] sum.case asked option.case ..
  then show ?thesis using rows by simp
qed

definition sample_providers :: json where
  "sample_providers =
     JArr [JObj [(''Name'', JStr ''s3''), (''Options'', JArr
       [JObj [(''Name'', JStr ''region'')], JObj [(''Name'', JStr ''Secret''), (''IsPassword'', JBool True)]])]]"

definition sample_backends_ext :: ext where
  "sample_backends_ext = sample_ext\<lparr>ext_loads := (\<lambda>s. Some sample_providers)\<rparr>"

definition sample_listing :: rc where
  "sample_listing argv = Completed 0 [] []"

theorem pasted_stanza_rows_witness:
  "parse_stanza_endpoint sample_backends_ext sample_listing
     (stanza_text ''mine'' [(''type'', ''s3''), (''region'', ''eu''), (''secret'', ''x y'')] 2) =
   Inr \<lparr>st_name = ''mine'', st_backend = ''s3'', st_options =
     [\<lparr>po_key = ''region'', po_value = ''eu'', po_is_secret = False, po_already_obscured = False\<rparr>,
      \<lparr>po_key = ''secret'', po_value = ''x y'', po_is_secret = True, po_already_obscured = True\<rparr>]\<rparr>"
proof -
  have ok: "stanza_ok ''mine'' [(''type'', ''s3''), (''region'', ''eu''), (''secret'', ''x y'')]"
    "length (stanza_text ''mine'' [(''type'', ''s3''), (''region'', ''eu''), (''secret'', ''x y'')] 2) \<le> MAX_STANZA"
    by code_simp (simp add: stanza_text_def written_def MAX_STANZA_def numeral_2_eq_2)
  have listed: "list_backends sample_backends_ext sample_listing =
      Inr [JObj [(''Name'', JStr ''s3''), (''Options'', JArr
        [JObj [(''Name'', JStr ''region'')], JObj [(''Name'', JStr ''Secret''), (''IsPassword'', JBool True)]])]]"
    by (simp add: list_backends_def sample_listing_def run_command_def result_ok_def parse_json_def sample_backends_ext_def
        sample_providers_def)
  have names: "(case list_backends sample_backends_ext sample_listing of Inl e \<Rightarrow> Some []
      | Inr ps \<Rightarrow> password_option_names sample_backends_ext ps ''s3'') = Some [''Secret'']"
    unfolding listed
    by (simp add: password_option_names_def entries_under_def jget_def falsy_get_def py_str_def)
  have lower: "py_lower ''Secret'' = ''secret''" by code_simp
  show ?thesis
    using pasted_stanza_rows [of "''mine''" "''s3''" "[(''region'', ''eu''), (''secret'', ''x y'')]" 2, OF ok(1) _ ok(2) names]
    by (simp add: lower)
qed

text \<open>A section called \<open>DEFAULT\<close>, which rclone takes as a remote like any other, is not found.\<close>

lemma default_remote_not_found: "parse_stanza [] (stanza_text ''DEFAULT'' [(''type'', ''s3'')] 0) = Inl NoSection"
  by code_simp

text \<open>What rclone prints is cut before it is decoded, so an answer that is too long is none: \<open>ext_loads\<close> refuses what ends in
  the note of the cut.\<close>

lemma long_listing_unread:
  assumes "MAX_CAPTURE_CHARS < length out" "\<And>s. ext_loads x (s @ truncation_note) = None"
  shows "list_backends x (\<lambda>argv. Completed 0 out []) = Inl (NotJson ''the backend list'')"
proof -
  have "redact [] s = s" for s by (simp add: redact_def redactor_values_def py_fromkeys_def)
  then show ?thesis
    using assms(1) assms(2) [of "take MAX_CAPTURE_CHARS out"]
    by (simp add: list_backends_def run_command_def result_ok_def parse_json_def truncate_output_def)
qed

end
