(* ===== verification/Activity.thy ===== *)
theory Activity
  imports Runs
begin

text \<open>
  \<open>app/api/activity.py\<close>: what the dashboard polls. The rows a statement without an order returns come in the order of their
  numbers; \<open>now\<close> is the clock, in microseconds.
\<close>

datatype heading = HeadUp | HeadDown | HeadBoth | HeadLocal

definition direction_of :: "job \<Rightarrow> heading" where
  "direction_of j =
     (let swap = (job_direction j = DestToSource);
          src = (if swap then dest_connection j else source_connection j);
          dst = (if swap then source_connection j else dest_connection j);
          source_remote = (conn_type src \<noteq> CtLocal); dest_remote = (conn_type dst \<noteq> CtLocal)
      in if dest_remote \<and> \<not> source_remote then HeadUp
         else if source_remote \<and> \<not> dest_remote then HeadDown
         else if source_remote \<and> dest_remote then HeadBoth
         else HeadLocal)"

record active_run =
  ar_run :: nat
  ar_job :: nat
  ar_name :: string
  ar_mode :: run_mode
  ar_percentage :: int
  ar_bytes_done :: int
  ar_total_bytes :: int
  ar_speed :: rat
  ar_eta :: "int option"
  ar_file :: "string option"
  ar_heading :: heading

record activity_response =
  rs_running :: "active_run list"
  rs_total_speed :: rat
  rs_up_speed :: rat
  rs_down_speed :: rat
  rs_samples :: "rat list"
  rs_sample_seconds :: nat
  rs_session_bytes :: int
  rs_session_max_speed :: rat
  rs_lifetime_bytes :: int
  rs_last_synced :: "datetime option"

definition window_seconds :: "string \<Rightarrow> nat" where
  "window_seconds w = (if w = ''10m'' then 600 else if w = ''1h'' then 3600 else 60)"

text \<open>\<open>max\<close> with a key keeps the first of the largest.\<close>

fun busiest :: "file_progress list \<Rightarrow> file_progress option" where
  "busiest [] = None"
| "busiest (f # fs) = (case busiest fs of None \<Rightarrow> Some f | Some g \<Rightarrow> Some (if fp_speed f < fp_speed g then g else f))"

definition active_run_of :: "job_run \<Rightarrow> job \<Rightarrow> transfer_stats \<Rightarrow> active_run" where
  "active_run_of r j s =
     \<lparr>ar_run = run_id r, ar_job = job_id j, ar_name = job_name j, ar_mode = run_mode_of r, ar_percentage = percentage s,
      ar_bytes_done = bytes_done s, ar_total_bytes = total_bytes s, ar_speed = speed s, ar_eta = eta_seconds s,
      ar_file = map_option fp_name (busiest (transferring s)), ar_heading = direction_of j\<rparr>"

definition running_rows :: "activity \<Rightarrow> store \<Rightarrow> active_run list" where
  "running_rows a st =
     concat (map (\<lambda>r. case (find_job st (run_job_id r), map_of (act_latest a) (run_id r)) of
         (Some j, Some s) \<Rightarrow> [active_run_of r j s]
       | _ \<Rightarrow> []) (db_runs st))"

definition speed_towards :: "heading set \<Rightarrow> active_run list \<Rightarrow> rat" where
  "speed_towards hs rs = sum_list (map ar_speed (filter (\<lambda>r. ar_heading r \<in> hs) rs))"

definition lifetime_bytes :: "store \<Rightarrow> int" where
  "lifetime_bytes st = sum_list (map bytes_transferred (filter (\<lambda>r. run_mode_of r = Live) (db_runs st)))"

definition last_synced :: "store \<Rightarrow> datetime option" where
  "last_synced st =
     fold (\<lambda>t best. case best of None \<Rightarrow> Some t | Some b \<Rightarrow> Some (max b t))
       (concat (map (\<lambda>r. case finished_at r of Some t \<Rightarrow> [t] | None \<Rightarrow> [])
          (filter (\<lambda>r. run_status_of r = Success) (db_runs st)))) None"

definition read_activity :: "activity \<Rightarrow> store \<Rightarrow> string \<Rightarrow> datetime \<Rightarrow> activity_response" where
  "read_activity a st window now =
     (let runs = running_rows a st
      in \<lparr>rs_running = sort_key ar_name runs, rs_total_speed = sum_list (map ar_speed runs),
          rs_up_speed = speed_towards {HeadUp, HeadBoth} runs, rs_down_speed = speed_towards {HeadDown, HeadBoth} runs,
          rs_samples = map snd (samples_since (now - int (window_seconds window) * 1000000) a),
          rs_sample_seconds = window_seconds window, rs_session_bytes = session_bytes a,
          rs_session_max_speed = session_max_speed a, rs_lifetime_bytes = lifetime_bytes st,
          rs_last_synced = last_synced st\<rparr>)"

definition reset_session_endpoint :: "activity \<Rightarrow> activity" where
  "reset_session_endpoint a = reset_session a"

subsection \<open>The recorder and the dashboard\<close>

datatype activity_event = Recorded datetime nat transfer_stats | Forgotten datetime nat | SessionReset

fun on_event :: "activity_event \<Rightarrow> activity \<Rightarrow> activity" where
  "on_event (Recorded t r s) a = record_stats t r s a"
| "on_event (Forgotten t r) a = forget t r a"
| "on_event SessionReset a = reset_session_endpoint a"

definition recorder_ok :: "activity \<Rightarrow> bool" where
  "recorder_ok a \<longleftrightarrow>
     distinct (map fst (act_latest a)) \<and> length (act_samples a) \<le> SAMPLE_MEMORY \<and>
     (if act_samples a = [] then act_latest a = [] else snd (last (act_samples a)) = total_speed (act_latest a)) \<and>
     (act_latest a = [] \<longrightarrow> session_bytes a = 0 \<and> session_max_speed a = 0)"

lemma deque_last: "deque_append SAMPLE_MEMORY e q \<noteq> []" "last (deque_append SAMPLE_MEMORY e q) = e"
  by (auto simp: deque_append_def SAMPLE_MEMORY_def)

lemma deque_bound: "length q \<le> SAMPLE_MEMORY \<Longrightarrow> length (deque_append SAMPLE_MEMORY e q) \<le> SAMPLE_MEMORY"
  by (auto simp: deque_append_def SAMPLE_MEMORY_def)

lemma put_not_Nil: "dict_put k v d \<noteq> []"
  using keys_dict_put [of k v d] by auto

lemma recorder_step: "recorder_ok a \<Longrightarrow> recorder_ok (on_event ev a)"
proof (cases ev)
  case (Recorded t r s)
  assume "recorder_ok a"
  then show ?thesis
    using Recorded deque_bound [of "act_samples a"]
    by (simp add: recorder_ok_def record_stats_def Let_def deque_last put_not_Nil distinct_dict_put)
next
  case (Forgotten t r)
  assume "recorder_ok a"
  then show ?thesis
    using Forgotten deque_bound [of "act_samples a"]
    by (simp add: recorder_ok_def forget_def Let_def deque_last distinct_dict_del)
next
  case SessionReset
  assume "recorder_ok a"
  then show ?thesis using SessionReset by (auto simp: recorder_ok_def reset_session_endpoint_def reset_session_def)
qed

lemma recorder_run: "recorder_ok a \<Longrightarrow> recorder_ok (fold on_event evs a)"
  by (induction evs arbitrary: a) (simp_all add: recorder_step)

lemma recorder_empty: "recorder_ok empty_activity"
  by (simp add: recorder_ok_def empty_activity_def)

text \<open>Looking up each of some keys once gives what is under them.\<close>

lemma sum_by_key:
  fixes f :: "'b \<Rightarrow> rat"
  assumes "distinct (map fst d)" "distinct ks" "fst ` set d \<subseteq> set ks"
  shows "sum_list (map (\<lambda>k. case map_of d k of None \<Rightarrow> 0 | Some v \<Rightarrow> f v) ks) = sum_list (map (\<lambda>e. f (snd e)) d)"
proof -
  let ?g = "\<lambda>k. case map_of d k of None \<Rightarrow> 0 | Some v \<Rightarrow> f v"
  have "sum_list (map ?g ks) = sum ?g (set ks)" using assms(2) by (simp add: sum_list_distinct_conv_sum_set)
  also have "\<dots> = sum ?g (fst ` set d)"
  proof (rule sum.mono_neutral_right)
    show "\<forall>k \<in> set ks - fst ` set d. ?g k = 0"
    proof
      fix k assume "k \<in> set ks - fst ` set d"
      then have "map_of d k = None" by (simp add: map_of_eq_None_iff)
      then show "?g k = 0" by simp
    qed
  qed (use assms(3) in simp_all)
  also have "\<dots> = sum_list (map ?g (map fst d))" by (simp only: sum_list_distinct_conv_sum_set [OF assms(1)] set_map)
  also have "map ?g (map fst d) = map (\<lambda>e. f (snd e)) d"
    using assms(1) by (auto intro!: map_cong)
  finally show ?thesis .
qed

lemma rows_sum:
  assumes "\<And>r. r \<in> set rs \<Longrightarrow> run_id r \<in> fst ` set d \<Longrightarrow> find_job st (run_job_id r) \<noteq> None"
  shows "sum_list (map ar_speed (concat (map (\<lambda>r. case (find_job st (run_job_id r), map_of d (run_id r)) of
         (Some j, Some s) \<Rightarrow> [active_run_of r j s] | _ \<Rightarrow> []) rs))) =
    sum_list (map (\<lambda>k. case map_of d k of None \<Rightarrow> 0 | Some s \<Rightarrow> speed s) (map run_id rs))"
  using assms
proof (induction rs)
  case (Cons r rs)
  show ?case
  proof (cases "map_of d (run_id r)")
    case (Some s)
    then have "run_id r \<in> fst ` set d" by (force dest: map_of_SomeD)
    then obtain j where "find_job st (run_job_id r) = Some j" using Cons.prems [of r] by auto
    then show ?thesis using Cons Some by (simp add: active_run_of_def)
  qed (use Cons in \<open>simp split: option.split\<close>)
qed simp

lemma headings_sum:
  "speed_towards {HeadUp, HeadBoth} rs + speed_towards {HeadDown, HeadBoth} rs + speed_towards {HeadLocal} rs =
     sum_list (map ar_speed rs) + speed_towards {HeadBoth} rs"
proof (induction rs)
  case (Cons r rs)
  then show ?case by (cases "ar_heading r") (simp_all add: speed_towards_def)
qed (simp add: speed_towards_def)

lemma sum_sorted: "sum_list (map (g :: 'a \<Rightarrow> rat) (sort_key f xs)) = sum_list (map g xs)"
proof (induction xs)
  case (Cons x xs)
  have "sum_list (map g (insort_key f y ys)) = g y + sum_list (map g ys)" for y ys
    by (induction ys) auto
  then show ?case using Cons by simp
qed simp

text \<open>The dashboard adds up. After any records, ends and resets, where every run being recorded is a row whose job is
  there, the total is the sum over the recorded runs, each counted once, and where the chart ends; up and down together make
  it once more for what is between two remotes and without what is local; the window holds no sample older than it says; and
  where nothing runs the session is empty.\<close>

theorem dashboard_adds_up:
  assumes "a = fold on_event evs empty_activity" "distinct (map run_id (db_runs st))"
    and "\<And>k. k \<in> fst ` set (act_latest a) \<Longrightarrow> k \<in> run_id ` set (db_runs st)"
    and "\<And>r. r \<in> set (db_runs st) \<Longrightarrow> find_job st (run_job_id r) \<noteq> None"
    and "v = read_activity a st window now"
  shows "rs_total_speed v = sum_list (map (\<lambda>e. speed (snd e)) (act_latest a)) \<and>
    (act_samples a = [] \<or> snd (last (act_samples a)) = rs_total_speed v) \<and>
    rs_up_speed v + rs_down_speed v + speed_towards {HeadLocal} (rs_running v) =
      rs_total_speed v + speed_towards {HeadBoth} (rs_running v) \<and>
    (act_latest a \<noteq> [] \<or> rs_running v = [] \<and> rs_session_bytes v = 0 \<and> rs_session_max_speed v = 0)"
proof -
  have ok: "recorder_ok a" using recorder_run [OF recorder_empty] assms(1) by simp
  have v: "rs_running v = sort_key ar_name (running_rows a st)" "rs_total_speed v = sum_list (map ar_speed (running_rows a st))"
      "rs_up_speed v = speed_towards {HeadUp, HeadBoth} (running_rows a st)"
      "rs_down_speed v = speed_towards {HeadDown, HeadBoth} (running_rows a st)"
      "rs_session_bytes v = session_bytes a" "rs_session_max_speed v = session_max_speed a"
    by (simp_all add: assms(5) read_activity_def Let_def)
  have "rs_total_speed v = sum_list (map (\<lambda>k. case map_of (act_latest a) k of None \<Rightarrow> 0 | Some s \<Rightarrow> speed s) (map run_id (db_runs st)))"
    unfolding v(2) running_rows_def by (rule rows_sum) (rule assms(4))
  also have "\<dots> = sum_list (map (\<lambda>e. speed (snd e)) (act_latest a))"
    by (rule sum_by_key) (use ok assms(2,3) in \<open>auto simp: recorder_ok_def\<close>)
  finally have total: "rs_total_speed v = sum_list (map (\<lambda>e. speed (snd e)) (act_latest a))" .
  have sorted: "speed_towards hs (sort_key ar_name rs) = speed_towards hs rs" for hs rs
    by (simp add: speed_towards_def filter_sort sum_sorted)
  have idle: "running_rows a st = []" if "act_latest a = []"
    using that by (auto simp: running_rows_def split: option.splits)
  have "act_samples a = [] \<or> snd (last (act_samples a)) = rs_total_speed v"
    using ok total by (auto simp: recorder_ok_def total_speed_def split: if_splits)
  moreover have "act_latest a \<noteq> [] \<or> rs_running v = [] \<and> rs_session_bytes v = 0 \<and> rs_session_max_speed v = 0"
    using ok idle v(1,5,6) by (auto simp: recorder_ok_def)
  moreover have "rs_up_speed v + rs_down_speed v + speed_towards {HeadLocal} (rs_running v) =
      rs_total_speed v + speed_towards {HeadBoth} (rs_running v)"
    using headings_sum [of "running_rows a st"] sorted v(1-4) by simp
  ultimately show ?thesis using total by simp
qed

text \<open>What the figures from the table count: the lifetime falls when a run is pruned, and a dry run is a sync.\<close>

lemma pruned_run_lowers_lifetime:
  "run_mode_of r = Live \<Longrightarrow> 0 < bytes_transferred r \<Longrightarrow> distinct (map run_id rs) \<Longrightarrow> r \<in> set rs \<Longrightarrow>
     lifetime_bytes (st\<lparr>db_runs := remove1 r rs\<rparr>) < lifetime_bytes (st\<lparr>db_runs := rs\<rparr>)"
  by (induction rs) (auto simp: lifetime_bytes_def)

lemma dry_run_is_last_sync:
  "last_synced \<lparr>db_jobs = [sample_job], db_runs = [(new_run 1 TrigManual DryRun Success)\<lparr>finished_at := Some 5\<rparr>], db_changes = []\<rparr> =
     Some 5"
  by code_simp

end
