(* ===== verification/JobPage.thy ===== *)
theory JobPage
  imports Remotes Runner Restore
begin

text \<open>
  The page of a job: \<open>_job_form_context\<close> and \<open>_archive_preview\<close> of \<open>app/web\<close> with \<open>templates/jobs/form.html\<close>, what a
  browser submits for the page as it was rendered, and what saving that does. The archive the page shows is related to the
  one a run computes for itself.
\<close>

subsection \<open>Which options the page offers\<close>

text \<open>The intersection the options of the page depend on: of the endpoints of the job, or of the first two connections
  by name while there is none. The outer None is the exception \<open>for_connection\<close> leaves uncaught.\<close>

definition by_name :: "connection list \<Rightarrow> connection list" where
  "by_name cs = sort_key conn_name cs"

definition page_compat :: "ext \<Rightarrow> datetime \<Rightarrow> connection list \<Rightarrow> job option \<Rightarrow> intersection option option" where
  "page_compat x now cs job =
     (case job of
        Some j \<Rightarrow> map_option Some (intersect x now (source_connection j) (dest_connection j) None None)
      | None \<Rightarrow>
          (case by_name cs of
             a # b # r \<Rightarrow> map_option Some (intersect x now a b None None)
           | _ \<Rightarrow> Some None))"

definition offers :: "intersection option \<Rightarrow> (intersection \<Rightarrow> availability) \<Rightarrow> bool" where
  "offers cmp opt \<longleftrightarrow> (case cmp of None \<Rightarrow> True | Some i \<Rightarrow> available (opt i))"

subsection \<open>The form as it is rendered\<close>

text \<open>A selected option that is disabled is not submitted, a select without a selected option sends its first.\<close>

definition select_field :: "bool \<Rightarrow> string \<Rightarrow> string \<Rightarrow> form" where
  "select_field enabled name v = (if enabled then [(name, v)] else [])"

definition endpoint_option :: "connection list \<Rightarrow> nat \<Rightarrow> string" where
  "endpoint_option cs i =
     (if i \<in> conn_id ` set cs then str_nat i else case by_name cs of [] \<Rightarrow> [] | c # r \<Rightarrow> str_nat (conn_id c))"

definition text_line :: "string option \<Rightarrow> string" where
  "text_line v = line_value (case v of None \<Rightarrow> [] | Some t \<Rightarrow> t)"

definition count_line :: "nat option \<Rightarrow> string" where
  "count_line v = (case v of None \<Rightarrow> [] | Some n \<Rightarrow> if n = 0 then [] else str_nat n)"

definition rendered_job :: "intersection option \<Rightarrow> connection list \<Rightarrow> job \<Rightarrow> form" where
  "rendered_job cmp cs j =
     [(''name'', line_value (job_name j)),
      (''source_connection_id'', endpoint_option cs (conn_id (source_connection j))),
      (''source_path'', line_value (source_path j)),
      (''dest_connection_id'', endpoint_option cs (conn_id (dest_connection j))),
      (''dest_path'', line_value (dest_path j))] @
     select_field (job_direction j \<noteq> Bidirectional \<or> offers cmp opt_bidirectional) ''direction''
       (direction_value (job_direction j)) @
     [(''conflict_resolve'', conflict_value (if job_conflict_resolve j = CRNone then CRNewer else job_conflict_resolve j))] @
     select_field (check_access j) ''check_access'' ''true'' @
     select_field (job_compare_mode j \<noteq> CompareChecksum \<or> offers cmp opt_checksum) ''compare_mode''
       (compare_mode_value (job_compare_mode j)) @
     [(''modify_window'', line_value (modify_window j)),
      (''quiet_period_seconds'', str_int (quiet_period_seconds j))] @
     select_field (job_delete_mode j \<noteq> DelArchive \<or> offers cmp opt_archive) ''delete_mode''
       (delete_mode_value (job_delete_mode j)) @
     [(''archive_base'', text_line (job_archive_base j)),
      (''archive_layout'', layout_value (job_archive_layout j)),
      (''max_delete_pct'', str_int (max_delete_pct j)),
      (''filters_exclude'', text_area (join_with [CHR 0x0A] (flt_exclude (job_filters_of j)))),
      (''schedule_cron'', text_line (schedule_cron j)),
      (''timezone'', line_value (job_timezone j))] @
     select_field (continuous j) ''continuous'' ''true'' @
     [(''continuous_interval_seconds'', str_int (continuous_interval_seconds j)),
      (''continuous_idle_interval_seconds'', str_int (continuous_idle_interval_seconds j))] @
     select_field (job_enabled j) ''enabled'' ''true'' @
     [(''notify_on'', notify_value (job_notify_on j)),
      (''transfers'', count_line (job_transfers j)),
      (''checkers'', count_line (job_checkers j)),
      (''bwlimit'', text_line (job_bwlimit j))]"

text \<open>The boxes that are ticked, in the order the presets are listed.\<close>

definition ticked_presets :: "filter_preset list \<Rightarrow> job \<Rightarrow> nat list" where
  "ticked_presets ps j =
     filter (\<lambda>i. i \<in> preset_id ` set (job_filter_presets j)) (map preset_id (sort_key preset_name ps))"

text \<open>The page of a job saved unchanged: None where it has no form, which is with fewer than two connections, or where
  rendering it fails.\<close>

definition resave_job ::
  "ext \<Rightarrow> datetime \<Rightarrow> 'trig scheduler_ext \<Rightarrow> (string \<Rightarrow> int option) \<Rightarrow> job \<Rightarrow> 'trig admin \<Rightarrow> (nat + 'trig admin) option" where
  "resave_job x now sx pint j a =
     (if length (adm_connections a) < 2 then None
      else map_option (\<lambda>cmp.
        save_job_form sx pint (rendered_job cmp (adm_connections a) j) (ticked_presets (adm_presets a) j) (Some j) a)
        (page_compat x now (adm_connections a) (Some j)))"

subsection \<open>The archive the page shows\<close>

datatype preview_error = PreviewArchive archive_reason | PreviewPath remote_reason

datatype archive_shown = NothingShown | PlanShown archive_plan | ErrorShown preview_error

text \<open>Nothing, too, for a job that is not there yet.\<close>

definition archive_preview :: "job \<Rightarrow> datetime \<Rightarrow> archive_shown" where
  "archive_preview j now =
     (if job_delete_mode j \<noteq> DelArchive then NothingShown
      else
        (let (s, d, read_path, write_path) = endpoints_and_paths j
         in case display_path d (if write_path = [] then None else Some write_path) of
              Inl e \<Rightarrow> ErrorShown (PreviewPath e)
            | Inr path \<Rightarrow>
                (case plan_for j path now of
                   Inl e \<Rightarrow> ErrorShown (PreviewArchive e)
                 | Inr p \<Rightarrow> PlanShown p)))"

subsection \<open>The whole page\<close>

record job_view =
  jv_connections :: "connection list"
  jv_presets :: "filter_preset list"
  jv_selected :: "nat list"
  jv_exclude :: string
  jv_description :: "string option"
  jv_preview :: "schedule_preview option"
  jv_next_run :: "datetime option"
  jv_runs :: "job_run list"
  jv_compat :: "intersection option"
  jv_archive :: archive_shown

definition job_form_context ::
  "ext \<Rightarrow> 'trig scheduler_ext \<Rightarrow> (nat \<Rightarrow> datetime option) \<Rightarrow> datetime \<Rightarrow> job option \<Rightarrow> 'trig admin \<Rightarrow> job_view option" where
  "job_form_context x sx next_run now job a =
     map_option (\<lambda>cmp.
       \<lparr>jv_connections = by_name (adm_connections a), jv_presets = sort_key preset_name (adm_presets a),
        jv_selected = (case job of None \<Rightarrow> [] | Some j \<Rightarrow> map preset_id (job_filter_presets j)),
        jv_exclude = (case job of None \<Rightarrow> [] | Some j \<Rightarrow> join_with [CHR 0x0A] (flt_exclude (job_filters_of j))),
        jv_description = map_option describe_job job,
        jv_preview = map_option (\<lambda>j. preview sx (schedule_cron j) (job_timezone j) now) job,
        jv_next_run = (case job of None \<Rightarrow> None | Some j \<Rightarrow> if adm_running a then next_run (job_id j) else None),
        jv_runs = (case job of None \<Rightarrow> [] | Some j \<Rightarrow> latest_runs 20 (job_id j) (adm_db a)),
        jv_compat = cmp,
        jv_archive = (case job of None \<Rightarrow> NothingShown | Some j \<Rightarrow> archive_preview j now)\<rparr>)
       (page_compat x now (adm_connections a) job)"

subsection \<open>Lemmas: the form read back\<close>

text \<open>The payload that says what the row says.\<close>

definition stored_job :: "nat list \<Rightarrow> job \<Rightarrow> job_payload" where
  "stored_job ids j =
     \<lparr>pl_name = job_name j, pl_enabled = job_enabled j, pl_source = conn_id (source_connection j), pl_source_path = source_path j,
      pl_dest = conn_id (dest_connection j), pl_dest_path = dest_path j, pl_engine = job_engine j,
      pl_direction = job_direction j, pl_delete_mode = job_delete_mode j, pl_archive_base = job_archive_base j,
      pl_archive_layout = job_archive_layout j, pl_retention_days = archive_retention_days j, pl_continuous = continuous j,
      pl_interval = continuous_interval_seconds j, pl_idle_interval = continuous_idle_interval_seconds j,
      pl_quiet_period = quiet_period_seconds j, pl_filters = job_filters_of j, pl_presets = ids,
      pl_compare_mode = job_compare_mode j, pl_modify_window = modify_window j, pl_transfers = job_transfers j,
      pl_checkers = job_checkers j, pl_bwlimit = job_bwlimit j, pl_max_delete_pct = max_delete_pct j,
      pl_conflict_resolve = job_conflict_resolve j, pl_check_access = check_access j, pl_schedule = schedule_cron j,
      pl_timezone = job_timezone j, pl_timeout = timeout_seconds j, pl_notify_on = job_notify_on j\<rparr>"

text \<open>A row that is all on its page: its options are offered, its texts come back as they are, and what only the API can
  set is unset.\<close>

definition job_on_page :: "intersection option \<Rightarrow> job \<Rightarrow> bool" where
  "job_on_page cmp j \<longleftrightarrow>
     list_all neat_text [job_name j, source_path j, dest_path j, modify_window j, job_timezone j] \<and>
     modify_window j \<noteq> [] \<and> job_timezone j \<noteq> [] \<and>
     list_all neat_field [job_archive_base j, schedule_cron j, job_bwlimit j] \<and>
     list_all (\<lambda>e. e \<noteq> [] \<and> neat_text e) (flt_exclude (job_filters_of j)) \<and>
     (job_direction j = Bidirectional \<longrightarrow> offers cmp opt_bidirectional) \<and>
     (job_compare_mode j = CompareChecksum \<longrightarrow> offers cmp opt_checksum) \<and>
     (job_delete_mode j = DelArchive \<longrightarrow> offers cmp opt_archive) \<and>
     job_conflict_resolve j \<noteq> CRNone \<and> archive_retention_days j = None \<and> timeout_seconds j = None \<and>
     flt_include (job_filters_of j) = [] \<and> flt_min_size (job_filters_of j) = None \<and> flt_max_age (job_filters_of j) = None"

lemma map_of_select: "map_of (select_field b n v) k = (if b \<and> k = n then Some v else None)"
  by (simp add: select_field_def)

lemma rendered_job_fields:
  assumes "f = rendered_job cmp cs j"
  shows "map_of f ''name'' = Some (line_value (job_name j))"
    "map_of f ''source_connection_id'' = Some (endpoint_option cs (conn_id (source_connection j)))"
    "map_of f ''source_path'' = Some (line_value (source_path j))"
    "map_of f ''dest_connection_id'' = Some (endpoint_option cs (conn_id (dest_connection j)))"
    "map_of f ''dest_path'' = Some (line_value (dest_path j))"
    "map_of f ''direction'' = (if job_direction j \<noteq> Bidirectional \<or> offers cmp opt_bidirectional
       then Some (direction_value (job_direction j)) else None)"
    "map_of f ''conflict_resolve'' =
       Some (conflict_value (if job_conflict_resolve j = CRNone then CRNewer else job_conflict_resolve j))"
    "map_of f ''check_access'' = (if check_access j then Some ''true'' else None)"
    "map_of f ''compare_mode'' = (if job_compare_mode j \<noteq> CompareChecksum \<or> offers cmp opt_checksum
       then Some (compare_mode_value (job_compare_mode j)) else None)"
    "map_of f ''modify_window'' = Some (line_value (modify_window j))"
    "map_of f ''quiet_period_seconds'' = Some (str_int (quiet_period_seconds j))"
    "map_of f ''delete_mode'' = (if job_delete_mode j \<noteq> DelArchive \<or> offers cmp opt_archive
       then Some (delete_mode_value (job_delete_mode j)) else None)"
    "map_of f ''archive_base'' = Some (text_line (job_archive_base j))"
    "map_of f ''archive_layout'' = Some (layout_value (job_archive_layout j))"
    "map_of f ''max_delete_pct'' = Some (str_int (max_delete_pct j))"
    "map_of f ''filters_exclude'' = Some (text_area (join_with [CHR 0x0A] (flt_exclude (job_filters_of j))))"
    "map_of f ''schedule_cron'' = Some (text_line (schedule_cron j))"
    "map_of f ''timezone'' = Some (line_value (job_timezone j))"
    "map_of f ''continuous'' = (if continuous j then Some ''true'' else None)"
    "map_of f ''continuous_interval_seconds'' = Some (str_int (continuous_interval_seconds j))"
    "map_of f ''continuous_idle_interval_seconds'' = Some (str_int (continuous_idle_interval_seconds j))"
    "map_of f ''enabled'' = (if job_enabled j then Some ''true'' else None)"
    "map_of f ''notify_on'' = Some (notify_value (job_notify_on j))"
    "map_of f ''transfers'' = Some (count_line (job_transfers j))"
    "map_of f ''checkers'' = Some (count_line (job_checkers j))"
    "map_of f ''bwlimit'' = Some (text_line (job_bwlimit j))"
  unfolding assms rendered_job_def map_of_append map_add_def map_of_select by simp_all

lemma strip_Nil: "py_strip [] = []"
  by (simp add: py_strip_def strip_if_def)

lemma enum_back:
  "direction_named (direction_value d) = Some d \<and> direction_value d \<noteq> []"
  "delete_mode_named (delete_mode_value m) = Some m \<and> delete_mode_value m \<noteq> []"
  "compare_mode_named (compare_mode_value c) = Some c \<and> compare_mode_value c \<noteq> []"
  "layout_named (layout_value l) = Some l \<and> layout_value l \<noteq> []"
  "notify_named (notify_value n) = Some n \<and> notify_value n \<noteq> []"
  "resolve_named (conflict_value r) = Some r \<and> conflict_value r \<noteq> []"
  apply (cases d; simp add: direction_named_def)
  apply (cases m; simp add: delete_mode_named_def)
  apply (cases c; simp add: compare_mode_named_def)
  apply (cases l; simp add: layout_named_def)
  apply (cases n; simp add: notify_named_def)
  apply (cases r; simp add: resolve_named_def)
  done

lemma line_back: "map_of f k = Some (line_value v) \<Longrightarrow> neat_text v \<Longrightarrow> py_strip (given_in f k) = v"
  by (simp add: given_in_def line_value_neat) (simp add: neat_text_def)

lemma line_or_back:
  "map_of f k = Some (line_value v) \<Longrightarrow> neat_text v \<Longrightarrow> v \<noteq> [] \<Longrightarrow> py_strip (given_or f k d) = v"
  using line_back [of f k v] by (auto simp: given_or_def strip_Nil)

lemma optional_back:
  "map_of f k = Some (text_line v) \<Longrightarrow> neat_field v \<Longrightarrow> nonempty (py_strip (given_in f k)) = v"
  using line_back [of f k "the v"]
  by (cases v) (auto simp: text_line_def neat_field_def nonempty_def given_in_def line_value_Nil strip_Nil)

lemma enum_or_back: "map_of f k = Some v \<Longrightarrow> v \<noteq> [] \<Longrightarrow> given_or f k d = v"
  by (simp add: given_or_def given_in_def)

lemma digits_neat: "0 \<le> n \<Longrightarrow> py_strip (str_int n) = str_int n \<and> str_int n \<noteq> []"
  using str_nat_neat [of "nat n"] by (simp add: str_int_def neat_text_def)

lemma form_number_back:
  assumes "map_of f k = Some (str_int n)" "0 \<le> n" "\<And>m. pint (str_nat m) = Some (int m)"
  shows "form_number pint f k = Some (Some n)"
  using assms digits_neat [OF assms(2)] by (simp add: form_number_def given_in_def str_int_def)

lemma count_back:
  assumes "map_of f k = Some (count_line v)" "between 1 hi (map_option int v)" "\<And>m. pint (str_nat m) = Some (int m)"
  shows "form_number pint f k = Some (map_option int v)"
  using assms str_nat_neat
  by (cases v) (auto simp: form_number_def given_in_def count_line_def between_def strip_Nil neat_text_def)

lemma excludes_back:
  assumes "list_all (\<lambda>e. e \<noteq> [] \<and> neat_text e) es"
  shows "filter (\<lambda>l. l \<noteq> []) (map py_strip (py_splitlines (text_area (join_with [CHR 0x0A] es)))) = es"
proof -
  have n: "e \<noteq> [] \<and> py_strip e = e \<and> (\<forall>c \<in> set e. \<not> line_break c)" if "e \<in> set es" for e
    using assms that by (auto simp: list_all_iff neat_text_def)
  then have "py_splitlines (text_area (join_with [CHR 0x0A] es)) = es"
    by (simp add: text_area_lines splitlines_crlf)
  moreover have "map py_strip es = es" using n by (intro map_idI) blast
  ultimately show ?thesis using n by (simp add: filter_id_conv)
qed

lemma job_page_parses:
  assumes f: "f = rendered_job cmp cs j" and page: "job_on_page cmp j" and ok: "validate_job sx (stored_job ids j) = None"
    and cs: "conn_id (source_connection j) \<in> conn_id ` set cs" "conn_id (dest_connection j) \<in> conn_id ` set cs"
    and pint: "\<And>n. pint (str_nat n) = Some (int n)"
  shows "form_payload pint f ids = Some (stored_job ids j)"
proof -
  note fields = rendered_job_fields [OF f]
  have rng: "fields_in_range (stored_job ids j)" and chk: "check_consistency sx (stored_job ids j) = None"
    using ok by (auto simp: validate_job_def split: if_splits)
  have texts: "neat_text (job_name j)" "neat_text (source_path j)" "neat_text (dest_path j)" "neat_text (modify_window j)"
      "neat_text (job_timezone j)" "modify_window j \<noteq> []" "job_timezone j \<noteq> []" "neat_field (job_archive_base j)"
      "neat_field (schedule_cron j)" "neat_field (job_bwlimit j)"
      "list_all (\<lambda>e. e \<noteq> [] \<and> neat_text e) (flt_exclude (job_filters_of j))"
    using page by (simp_all add: job_on_page_def)
  have enums: "given_or f ''delete_mode'' ''none'' = delete_mode_value (job_delete_mode j)"
      "given_or f ''direction'' ''source_to_dest'' = direction_value (job_direction j)"
      "given_or f ''compare_mode'' ''mtime_size'' = compare_mode_value (job_compare_mode j)"
      "given_or f ''archive_layout'' ''timestamped_dir'' = layout_value (job_archive_layout j)"
      "given_or f ''conflict_resolve'' ''newer'' = conflict_value (job_conflict_resolve j)"
      "given_or f ''notify_on'' ''failure'' = notify_value (job_notify_on j)"
    using page fields(12,6,9,14,7,23) by (auto simp: job_on_page_def enum_back intro!: enum_or_back)
  have ends: "map_of f ''source_connection_id'' = Some (str_nat (conn_id (source_connection j)))"
      "map_of f ''dest_connection_id'' = Some (str_nat (conn_id (dest_connection j)))"
    using fields(2,4) cs by (simp_all add: endpoint_option_def)
  have r: "0 \<le> continuous_interval_seconds j" "0 \<le> continuous_idle_interval_seconds j" "0 \<le> quiet_period_seconds j"
      "0 \<le> max_delete_pct j" "between 1 64 (map_option int (job_transfers j))" "between 1 256 (map_option int (job_checkers j))"
      "continuous_interval_seconds j \<noteq> 0" "continuous_idle_interval_seconds j \<noteq> 0"
    using rng by (auto simp: fields_in_range_def stored_job_def)
  note numbers = form_number_back [OF fields(20) r(1) pint] form_number_back [OF fields(21) r(2) pint]
    form_number_back [OF fields(11) r(3) pint] form_number_back [OF fields(15) r(4) pint]
    count_back [OF fields(24) r(5) pint] count_back [OF fields(25) r(6) pint]
  have base: "(if job_delete_mode j \<noteq> DelArchive then None else nonempty (py_strip (given_in f ''archive_base''))) = job_archive_base j"
    using chk optional_back [OF fields(13) texts(8)] texts(8)
    by (auto simp: check_consistency_def stored_job_def neat_field_def split: if_splits option.splits)
  have zone: "py_strip (given_or f ''timezone'' ''UTC'') = job_timezone j"
    by (rule line_or_back [OF fields(18) texts(5,7)])
  have filters: "\<lparr>flt_include = [], flt_exclude = filter (\<lambda>l. l \<noteq> []) (map py_strip (py_splitlines (given_in f ''filters_exclude''))),
      flt_min_size = None, flt_max_age = None\<rparr> = job_filters_of j"
    using excludes_back [OF texts(11)] fields(16) page
    by (cases "job_filters_of j") (simp add: job_on_page_def given_in_def)
  have engine: "job_engine j = EngRclone" by (cases "job_engine j") simp
  have ticks: "map_of f ''enabled'' = Some ''true'' \<longleftrightarrow> job_enabled j" "map_of f ''continuous'' = Some ''true'' \<longleftrightarrow> continuous j"
      "map_of f ''check_access'' = Some ''true'' \<longleftrightarrow> check_access j"
    using fields(22,19,8) by simp_all
  have counts: "map_option nat (map_option int v) = v" for v :: "nat option" by (cases v) simp_all
  show ?thesis
    unfolding form_payload_def enums ends enum_back [THEN conjunct1] numbers bind.simps pint filters base zone ticks Let_def
    using page texts(7) r(7,8) engine
    by (simp add: stored_job_def line_back [OF fields(1) texts(1)] line_back [OF fields(3) texts(2)]
        line_back [OF fields(5) texts(3)] line_or_back [OF fields(10) texts(4,6)] optional_back [OF fields(17) texts(9)]
        optional_back [OF fields(26) texts(10)] or_default_def job_on_page_def counts)
qed

lemma set_ticked: "set (ticked_presets ps j) = preset_id ` set ps \<inter> preset_id ` set (job_filter_presets j)"
  by (auto simp: ticked_presets_def)

text \<open>The presets of a row are rows of the table, in its order.\<close>

definition presets_in_order :: "filter_preset list \<Rightarrow> job \<Rightarrow> bool" where
  "presets_in_order ps j \<longleftrightarrow>
     job_filter_presets j = filter (\<lambda>f. preset_id f \<in> preset_id ` set (job_filter_presets j)) ps"

lemma apply_stored:
  assumes "distinct (map preset_id (adm_presets a))" "presets_in_order (adm_presets a) j"
    and "find_connection (adm_connections a) (conn_id (source_connection j)) = Some (source_connection j)"
    and "find_connection (adm_connections a) (conn_id (dest_connection j)) = Some (dest_connection j)"
  shows "apply_payload a (stored_job (ticked_presets (adm_presets a) j) j) j = Some j"
proof -
  let ?ids = "ticked_presets (adm_presets a) j" and ?own = "job_filter_presets j"
  have own: "?own = filter (\<lambda>f. preset_id f \<in> preset_id ` set ?own) (adm_presets a)"
    using assms(2) by (simp add: presets_in_order_def)
  then have sub: "set ?own \<subseteq> set (adm_presets a)" by (metis filter_is_subset)
  then have ids: "set ?ids = preset_id ` set ?own" unfolding set_ticked by blast
  then have found: "filter (\<lambda>f. preset_id f \<in> set ?ids) (adm_presets a) = ?own" using own by simp
  have "distinct (map preset_id ?own)"
    using assms(1) own distinct_map_filter by metis
  then have "length ?own = card (set ?ids)" unfolding ids using distinct_card [of "map preset_id ?own"] by simp
  moreover have "?ids = [] \<longleftrightarrow> ?own = []" using ids by (metis image_is_empty set_empty)
  ultimately show ?thesis
    unfolding apply_payload_def Let_def by (simp add: stored_job_def found assms(3,4))
qed

lemma find_connection_id: "find_connection cs i = Some c \<Longrightarrow> i \<in> conn_id ` set cs"
  by (auto simp: find_connection_def find_Some_iff)

lemma write_same_job:
  assumes "distinct (map job_id (db_jobs st))" "j \<in> set (db_jobs st)"
  shows "write_job j st = st"
proof -
  have "map (\<lambda>k. if job_id k = job_id j then j else k) (db_jobs st) = db_jobs st"
    by (rule map_idI) (use assms eq_key_imp_eq_value [of "map (\<lambda>k. (job_id k, k)) (db_jobs st)"] in \<open>auto simp: comp_def\<close>)
  then show ?thesis by (simp add: write_job_def)
qed

lemma own_name_free:
  assumes "distinct (map job_name (db_jobs st))" "j \<in> set (db_jobs st)"
  shows "\<not> name_taken st (job_id j) (job_name j)"
proof -
  have "k = j" if "k \<in> set (db_jobs st)" "job_name k = job_name j" for k
    using assms that eq_key_imp_eq_value [of "map (\<lambda>k. (job_name k, k)) (db_jobs st)"] by (auto simp: comp_def)
  then show ?thesis by (auto simp: name_taken_def list_ex_iff)
qed


definition sample_page_job :: job where
  "sample_page_job =
     sample_job\<lparr>job_name := ''nightly'', job_delete_mode := DelDelete, schedule_cron := Some ''30 2 * * *'',
       job_filters_of := \<lparr>flt_include = [], flt_exclude = [''*.part'', ''my notes/**''], flt_min_size = None, flt_max_age = None\<rparr>,
       job_filter_presets := [\<lparr>preset_id = 3, preset_name = ''synology'', preset_builtin = True, preset_exclude = [''@eaDir/**''],
                                preset_include = []\<rparr>],
       job_transfers := Some 4, job_bwlimit := Some ''10M'', max_delete_pct := 5, check_access := True\<rparr>"

definition sample_other :: connection where
  "sample_other = sample_connection\<lparr>conn_id := 2, conn_name := ''cloud''\<rparr>"

definition sample_page_admin :: "string admin" where
  "sample_page_admin =
     sample_admin\<lparr>adm_db := \<lparr>db_jobs = [sample_page_job], db_runs = [], db_changes = []\<rparr>,
       adm_connections := [sample_connection, sample_other],
       adm_presets := \<lparr>preset_id = 2, preset_name = ''windows'', preset_builtin = True, preset_exclude = [], preset_include = []\<rparr> #
         job_filter_presets sample_page_job\<rparr>"

lemma sample_page_checks:
  "validate_job sample_cron (stored_job (ticked_presets (adm_presets sample_page_admin) sample_page_job) sample_page_job) = None"
  "presets_in_order (adm_presets sample_page_admin) sample_page_job"
  "page_compat sample_ext 0 (adm_connections sample_page_admin) (Some sample_page_job) =
     Some (Some (intersect_caps 0 sample_connection empty_caps sample_connection empty_caps))"
  by code_simp+

lemma sample_page_whole: "job_on_page cmp sample_page_job"
proof -
  have "list_all neat_text [job_name sample_page_job, source_path sample_page_job, dest_path sample_page_job,
      modify_window sample_page_job, job_timezone sample_page_job]" by code_simp
  moreover have "list_all neat_field [job_archive_base sample_page_job, schedule_cron sample_page_job, job_bwlimit sample_page_job]"
    by code_simp
  moreover have "list_all (\<lambda>e. e \<noteq> [] \<and> neat_text e) (flt_exclude (job_filters_of sample_page_job))" by code_simp
  ultimately show ?thesis by (simp add: job_on_page_def) (simp add: sample_page_job_def sample_job_def)
qed


text \<open>An option that is selected and disabled is not submitted, and the form stores what is missing as its first choice. An
  edit of the host of a connection forgets its probe; until it is tested again, saving the page of a job unchanged turns a
  bidirectional job into a one way job, an archiving job into one that keeps what the source lost, and a comparison of
  checksums into one of times.\<close>

lemma disabled_option_reset:
  "map_option (\<lambda>cmp. map_option (\<lambda>p. (pl_direction p, pl_delete_mode p, pl_compare_mode p))
       (form_payload sample_pint (rendered_job cmp [sample_connection, sample_other]
          (sample_job\<lparr>job_direction := Bidirectional, job_delete_mode := DelNone, job_compare_mode := CompareChecksum\<rparr>)) []))
     (page_compat sample_ext 0 [sample_connection, sample_other] (Some sample_job)) =
   Some (Some (SourceToDest, DelNone, MtimeSize))"
  "map_option (\<lambda>cmp. map_option pl_delete_mode (form_payload sample_pint (rendered_job cmp [sample_connection, sample_other] sample_job) []))
     (page_compat sample_ext 0 [sample_connection, sample_other] (Some sample_job)) = Some (Some DelNone)"
  "job_delete_mode sample_job = DelArchive"
  by code_simp+

text \<open>A job between two directories of the one connection there is has a page without a form.\<close>

lemma single_connection_no_form:
  "list_all (job_consistent sample_cron) [sample_job]"
  "resave_job sample_ext 0 sample_cron sample_pint sample_job (sample_admin\<lparr>adm_connections := [sample_connection]\<rparr>) = None"
  by code_simp (simp add: resave_job_def)

text \<open>The page of a new job offers what its first two connections allow, whichever two are then chosen.\<close>

lemma new_page_ignores_choice:
  assumes "by_name cs = a # b # r" "by_name cs' = a # b # r'"
  shows "page_compat x now cs None = page_compat x now cs' None"
  by (simp add: page_compat_def assms)

subsection \<open>The archive the page shows is the one a run uses\<close>

definition plain_path :: "string \<Rightarrow> bool" where
  "plain_path p \<longleftrightarrow> split_remote p = ([], p) \<and> CHR 0x0A \<notin> set p"

lemma plain_pathI: "prefix ''/'' p \<Longrightarrow> CHR 0x0A \<notin> set p \<Longrightarrow> plain_path p"
  by (cases p) (auto simp: plain_path_def split_remote_def remote_char_def ascii_alnum_def)

lemma plain_path_iff:
  "CHR 0x0A \<notin> set p \<Longrightarrow> plain_path p \<longleftrightarrow>
     \<not> (2 \<le> length (takeWhile remote_char p) \<and> dropWhile remote_char p \<noteq> [] \<and> hd (dropWhile remote_char p) = CHR '':'')"
proof -
  assume nl: "CHR 0x0A \<notin> set p"
  have "CHR 0x0A \<notin> set (tl (dropWhile remote_char p))"
    using nl by (metis list.set_sel(2) set_dropWhileD tl_Nil)
  then show ?thesis using nl by (auto simp: plain_path_def split_remote_def Let_def)
qed

text \<open>The default stays without a remote where the path is.\<close>

lemma strip_slash_prefix: "\<not> prefix ''/'' p \<Longrightarrow> \<exists>z. p = strip_slash p @ z"
proof -
  assume "\<not> prefix ''/'' p"
  then have "dropWhile (\<lambda>c. c = CHR ''/'') p = p" by (cases p) auto
  then have "prefix (strip_slash p) p"
    using rstrip_if_prefix [of "\<lambda>c. c = CHR ''/''" p] by (simp add: strip_slash_def strip_if_def)
  then show ?thesis by (auto simp: prefix_def)
qed

lemma remote_part_append:
  assumes "\<not> list_all remote_char t"
  shows "takeWhile remote_char (t @ z) = takeWhile remote_char t" "dropWhile remote_char (t @ z) = dropWhile remote_char t @ z"
    "dropWhile remote_char t \<noteq> []"
  using assms by (auto simp: list_all_iff takeWhile_append dropWhile_append dropWhile_eq_Nil_conv)

lemma plain_default:
  assumes "plain_path p"
  shows "plain_path (default_path p)"
proof -
  let ?t = "strip_slash p"
  have nl: "CHR 0x0A \<notin> set p" "CHR 0x0A \<notin> set (default_path p)"
    using assms default_path_nl by (simp_all add: plain_path_def)
  have slash: "\<not> remote_char (CHR ''/'')" by (simp add: remote_char_def ascii_alnum_def)
  show ?thesis
  proof (cases "prefix ''/'' p")
    case True
    then have "prefix ''/'' (default_path p)" by (simp add: default_path_def Let_def)
    then show ?thesis using nl(2) by (rule plain_pathI)
  next
    case rel: False
    show ?thesis
    proof (cases "list_all remote_char ?t")
      case True
      then have "CHR ''/'' \<notin> set ?t" using slash by (auto simp: list_all_iff)
      then have d: "default_path p = (if ?t = [] then CHILD_ARCHIVE_NAME else ?t @ ''/'' @ CHILD_ARCHIVE_NAME)"
        using rel by (simp add: default_path_def)
      have "dropWhile remote_char (?t @ CHR ''/'' # s) = CHR ''/'' # s" for s
        using True slash by (simp add: list_all_iff dropWhile_append)
      then show ?thesis
        unfolding plain_path_iff [OF nl(2)] unfolding d by (auto simp: CHILD_ARCHIVE_NAME_def remote_char_def ascii_alnum_def)
    next
      case False
      obtain z where z: "p = ?t @ z" using strip_slash_prefix [OF rel] by blast
      have "prefix ?t (default_path p)" using rel by (simp add: default_path_def Let_def)
      then obtain y where y: "default_path p = ?t @ y" by (auto simp: prefix_def)
      have "takeWhile remote_char p = takeWhile remote_char ?t" "dropWhile remote_char p = dropWhile remote_char ?t @ z"
        using remote_part_append(1,2) [OF False, of z] z by simp_all
      then show ?thesis
        using assms remote_part_append(1,2) [OF False, of y] remote_part_append(3) [OF False] unfolding plain_path_iff [OF nl(1)] plain_path_iff [OF nl(2)] unfolding y
        by auto
    qed
  qed
qed

lemma plain_default_base: "plain_path p \<Longrightarrow> default_base p = default_path p"
  by (simp add: plain_path_def default_base_def default_path_def remote_prefix_def length_split_on Let_def split: prod.splits)

text \<open>The checks of an archive path see the same with the alias of a run in front of both paths, but for the share.\<close>

lemma checks_without_alias:
  assumes "remote_name r" "plain_path p" "plain_path q"
  shows "is_inside (r @ CHR '':'' # q) (r @ CHR '':'' # p) = is_inside q p"
    "exclude_for (r @ CHR '':'' # q) (r @ CHR '':'' # p) = exclude_for q p"
    "validate (r @ CHR '':'' # p) (r @ CHR '':'' # q) = Inr () \<Longrightarrow> validate p q = Inr ()"
proof -
  have s: "split_remote (r @ CHR '':'' # q) = (r, q)" "split_remote (r @ CHR '':'' # p) = (r, p)"
      "split_remote q = ([], q)" "split_remote p = ([], p)"
    using assms split_remote_join by (simp_all add: plain_path_def)
  show i: "is_inside (r @ CHR '':'' # q) (r @ CHR '':'' # p) = is_inside q p" by (simp add: is_inside_def s)
  show e: "exclude_for (r @ CHR '':'' # q) (r @ CHR '':'' # p) = exclude_for q p" by (simp add: exclude_for_def s i)
  show "validate (r @ CHR '':'' # p) (r @ CHR '':'' # q) = Inr () \<Longrightarrow> validate p q = Inr ()"
    unfolding validate_def s by (simp add: i e split: if_splits)
qed

lemma rstrip_alias: "rstrip_slash (r @ CHR '':'' # q) = r @ CHR '':'' # rstrip_slash q"
proof -
  have "dropWhile (\<lambda>c. c = CHR ''/'') (xs @ CHR '':'' # ys) = dropWhile (\<lambda>c. c = CHR ''/'') xs @ CHR '':'' # ys" for xs ys
    by (induction xs) auto
  then show ?thesis by (simp add: rstrip_slash_def rstrip_if_def)
qed

lemma stamp_no_newline: "CHR 0x0A \<notin> set (stamp_of t)"
proof -
  have "CHR 0x0A \<notin> set (str_nat n)" for n
    using str_nat_char [of "CHR 0x0A" n] by (auto simp: ascii_digit_def)
  then show ?thesis by (auto simp: stamp_of_def pad2_def pad4_def Let_def split: prod.splits)
qed

lemma slug_no_newline: "CHR 0x0A \<notin> set (slugify s)"
  using slug_safe_slugify [of s]
  by (auto simp: slug_safe_def list_all_iff slug_out_def slug_char_def ascii_alnum_def)

definition typed_base :: "job \<Rightarrow> string" where
  "typed_base j = py_strip (case job_archive_base j of None \<Rightarrow> [] | Some b \<Rightarrow> b)"

lemma plan_without_alias:
  assumes r: "remote_name r" and p: "plain_path p" "plain_path (typed_base j)" and plan: "plan_for j (r @ CHR '':'' # p) now = Inr a"
  shows "\<exists>b. plan_for j p now = Inr b \<and> backup_dir a = r @ CHR '':'' # backup_dir b \<and> CHR 0x0A \<notin> set (backup_dir b) \<and>
    plan_exclude b = plan_exclude a \<and> plan_suffix b = plan_suffix a"
proof -
  define q where "q = (if typed_base j \<noteq> [] then typed_base j else default_path p)"
  have nlp: "CHR 0x0A \<notin> set p" using p(1) by (simp add: plain_path_def)
  have q: "plain_path q" using p plain_default by (simp add: q_def)
  have base_run: "(if typed_base j \<noteq> [] then qualify (typed_base j) (r @ CHR '':'' # p) else default_base (r @ CHR '':'' # p)) =
      r @ CHR '':'' # q"
    using p(2) r default_base_remote [OF r nlp] split_remote_join [OF r nlp]
    by (auto simp: q_def qualify_def plain_path_def remote_name_def)
  have base_page: "(if typed_base j \<noteq> [] then qualify (typed_base j) p else default_base p) = q"
    using p plain_default_base [OF p(1)] by (simp add: q_def qualify_def plain_path_def)
  note checks = checks_without_alias [OF r p(1) q]
  obtain e where e: "exclude_for q p = Inr e" "validate (r @ CHR '':'' # p) (r @ CHR '':'' # q) = Inr ()"
    using plan unfolding plan_for_def Let_def typed_base_def [symmetric] base_run
    by (auto simp: bind_res_Inr checks(2))
  have nlq: "CHR 0x0A \<notin> set q" using q by (simp add: plain_path_def)
  then have "CHR 0x0A \<notin> set (rstrip_slash q)"
    using rstrip_if_prefix [of "\<lambda>c. c = CHR ''/''" q] set_mono_prefix by (auto simp: rstrip_slash_def)
  then have "CHR 0x0A \<notin> set (rstrip_slash q @ ''/'' @ slugify (job_name j) @ ''/'' @ stamp_of now)"
    using stamp_no_newline slug_no_newline by simp
  then show ?thesis
    using plan nlq unfolding plan_for_def Let_def typed_base_def [symmetric] base_run base_page
    by (auto simp: bind_res_Inr checks(2) e(1) checks(3) [OF e(2)] e(2) rstrip_alias split: if_splits)
qed

lemma resolved_alias:
  assumes "resolve x c alias = Inr e" "conn_rclone_mode c \<noteq> Some RmImported"
  shows "ep_alias e = alias \<and> base_path_for c = Inr (ep_path e)"
proof (cases "conn_type c = CtRcloneRemote")
  case True
  then have "ep_alias e = alias \<and> ep_path e = strip_slash (base_path c)"
    using assms by (auto simp: resolve_def resolve_rclone_remote_def Let_def bind_res_Inr split: if_splits)
  then show ?thesis using True by (simp add: base_path_for_def absolute_path_type_def Let_def)
next
  case False
  then show ?thesis
    using assms(1) by (cases "base_path_for c") (auto simp: resolve_def resolve_native_def bind_res_Inr)
qed

lemma dest_spec:
  assumes "prepare x [(ALIAS_SOURCE, s), (ALIAS_DEST, d)] = Inr p" "prep_spec p ALIAS_DEST w = Inr destination"
    and "conn_rclone_mode d \<noteq> Some RmImported"
  shows "\<exists>path. display_path d (if w = [] then None else Some w) = Inr path \<and> destination = ALIAS_DEST @ CHR '':'' # path"
proof -
  have names: "ALIAS_SOURCE \<noteq> ALIAS_DEST" by (simp add: ALIAS_SOURCE_def ALIAS_DEST_def)
  obtain es ed where e: "resolve x d ALIAS_DEST = Inr ed"
      "endpoints p = [(ALIAS_SOURCE, es), (ALIAS_DEST, pin_host_keys x d ALIAS_DEST ed)]"
    using assms(1) by (auto simp: prepare_def bind_res_Inr Let_def split: if_splits)
  have "ep_alias ed = ALIAS_DEST" "base_path_for d = Inr (ep_path ed)" using resolved_alias [OF e(1) assms(3)] by simp_all
  moreover have "ep_alias (pin_host_keys x d ALIAS_DEST ed) = ep_alias ed" "ep_path (pin_host_keys x d ALIAS_DEST ed) = ep_path ed"
    by (simp_all add: pin_host_keys_def)
  ultimately show ?thesis
    using assms(2) e(2) names by (auto simp: prep_spec_def spec_of_def display_path_def bind_res_Inr map_err_Inr)
qed


definition sample_archiving :: live_ext where
  "sample_archiving =
     \<lparr>lx_ext = sample_ext, lx_rc = quiet_rclone, lx_say = (\<lambda>m. []), lx_stream = (\<lambda>env argv. Some ([], 0)),
      lx_exists = (\<lambda>d f. True), lx_log_dir = ''/config/logs'', lx_bisync_dir = ''/config/bisync''\<rparr>"

definition sample_archive_step :: "(live_error + string list) \<times> job_run \<times> world" where
  "sample_archive_step =
     one_way_archive sample_archiving 0 sample_job ''hs_dst:/srv/media/out''
       (let r = (new_run 1 TrigManual Live Running)\<lparr>run_id := 1\<rparr>
        in (r, sample_world\<lparr>db := \<lparr>db_jobs = [sample_job], db_runs = [r], db_changes = []\<rparr>\<rparr>))"


text \<open>The other way round the page says too little: without an alias it never compares the shares, so it shows an archive where
  the run refuses. A destination that is a top level directory is one, with the default archive, and an archive the operator
  typed on another share of the same server is another.\<close>

definition sample_top :: job where
  "sample_top = sample_job\<lparr>dest_connection := sample_connection\<lparr>base_path := ''/data''\<rparr>, dest_path := []\<rparr>"

definition sample_shares :: job where
  "sample_shares =
     sample_job\<lparr>dest_connection := sample_connection\<lparr>conn_type := CtSmb, conn_share := Some ''media'', base_path := []\<rparr>,
                job_archive_base := Some ''backup/old''\<rparr>"

lemma preview_misses_share:
  "archive_preview sample_top 0 = PlanShown \<lparr>plan_base = ''/data.hivesync-archive'',
     backup_dir = ''/data.hivesync-archive/media-backup/1970-01-01T00-00-00Z'', plan_exclude = None, plan_suffix = None,
     inside_destination = False\<rparr>"
  "plan_for sample_top ''hs_dst:/data'' 0 = Inl (DifferentShare ''data'' ''data.hivesync-archive'')"
  "archive_preview sample_shares 0 = PlanShown \<lparr>plan_base = ''backup/old'',
     backup_dir = ''backup/old/media-backup/1970-01-01T00-00-00Z'', plan_exclude = None, plan_suffix = None,
     inside_destination = False\<rparr>"
  "plan_for sample_shares ''hs_dst:media/out'' 0 = Inl (DifferentShare ''media'' ''backup'')"
  by code_simp+

end
