(* ===== verification/Pages.thy ===== *)
theory Pages
  imports JobPage History
begin

text \<open>
  What the other pages of \<open>app/web\<close> show, and the browsing of a connection in both places: \<open>browse_partial\<close> and
  \<open>browse_connection\<close> of \<open>app/api/connections.py\<close>, \<open>_run_context\<close> with the restore form on it, \<open>compatibility_page\<close>, the
  dashboard and the list of jobs. A page is the context its template is rendered from.
\<close>

subsection \<open>Browsing a connection\<close>

record browse_entry =
  be_name :: string
  be_is_dir :: bool
  be_path :: string

record browse_result =
  br_path :: string
  br_parent :: "string option"
  br_entries :: "browse_entry list"

fun entries_at :: "string \<Rightarrow> dir_entry list \<Rightarrow> remote_reason + browse_entry list" where
  "entries_at current [] = Inr []"
| "entries_at current (e # es) =
     bind_res (join_subpath current (Some (de_name e))) (\<lambda>path.
     bind_res (entries_at current es) (\<lambda>bs.
       Inr (\<lparr>be_name = de_name e, be_is_dir = de_is_dir e, be_path = path\<rparr> # bs)))"

definition browse_endpoint :: "ext \<Rightarrow> rc \<Rightarrow> nat \<Rightarrow> string option \<Rightarrow> 'trig catalog \<Rightarrow> nat + browse_result" where
  "browse_endpoint x rc i path s =
     (case row conn_id (cat_connections s) i of
        None \<Rightarrow> Inl 404
      | Some c \<Rightarrow>
          (case browse x rc c path of
             Inl (FailedPrepare (RemoteConfigError r)) \<Rightarrow> Inl 400
           | Inl (FailedInspect e) \<Rightarrow> Inl 502
           | Inl e \<Rightarrow> Inl 500
           | Inr entries \<Rightarrow>
               (let current = browse_current path
                in case entries_at current entries of
                     Inl e \<Rightarrow> Inl 500
                   | Inr bs \<Rightarrow> Inr \<lparr>br_path = current, br_parent = browse_parent current, br_entries = bs\<rparr>)))"

text \<open>The page shows the error instead of the entries; Inl 500 is an exception it does not catch.\<close>

definition browse_page ::
  "ext \<Rightarrow> rc \<Rightarrow> nat \<Rightarrow> string option \<Rightarrow> 'trig catalog \<Rightarrow> nat + (browse_result \<times> failure option)" where
  "browse_page x rc i path s =
     (case row conn_id (cat_connections s) i of
        None \<Rightarrow> Inl 404
      | Some c \<Rightarrow>
          (let current = browse_current path;
               shown = (\<lambda>entries. \<lparr>br_path = current, br_parent = browse_parent current,
                 br_entries = map (\<lambda>e. \<lparr>be_name = de_name e, be_is_dir = de_is_dir e,
                                         be_path = browse_entry_path current (de_name e)\<rparr>) entries\<rparr>)
           in case browse x rc c path of
                Inr entries \<Rightarrow> Inr (shown entries, None)
              | Inl (FailedPrepare (RemoteConfigError r)) \<Rightarrow> Inr (shown [], Some (FailedPrepare (RemoteConfigError r)))
              | Inl (FailedInspect e) \<Rightarrow> Inr (shown [], Some (FailedInspect e))
              | Inl e \<Rightarrow> Inl 500))"

subsection \<open>The page of a run\<close>

definition endpoint_label :: "connection option \<Rightarrow> string option \<Rightarrow> string" where
  "endpoint_label conn subpath =
     (case conn of
        None \<Rightarrow> ''unknown''
      | Some c \<Rightarrow>
          (case display_path c (if subpath = Some [] then None else subpath) of
             Inl e \<Rightarrow> conn_name c
           | Inr resolved \<Rightarrow>
               if resolved \<noteq> [] \<and> resolved \<noteq> conn_name c then conn_name c @ '':'' @ resolved else conn_name c))"

record run_view =
  rp_labels :: "(string \<times> string) option"
  rp_changes :: "job_run_change list"
  rp_counts :: "(string \<times> nat) list"
  rp_total :: nat
  rp_active :: string
  rp_report :: "restore_report option"
  rp_error :: "restore_failure option"
  rp_archived :: "archived_file list"
  rp_blocked :: "restore_reason option"

definition run_context ::
  "ext \<Rightarrow> proc \<Rightarrow> job_run \<Rightarrow> job option \<Rightarrow> string option \<Rightarrow> restore_report option \<Rightarrow> restore_failure option \<Rightarrow> store \<Rightarrow> run_view" where
  "run_context x run r job action report err st =
     (let counts = change_counts (run_id r) st;
          archived = (case job of
            None \<Rightarrow> (None, [])
          | Some j \<Rightarrow>
              if files_archived r = 0 then (None, [])
              else (case why_not j r of
                      Some why \<Rightarrow> (Some why, [])
                    | None \<Rightarrow>
                        (None, if report \<noteq> None then []
                               else (case snd (list_archived x run j r []) of Inl e \<Rightarrow> [] | Inr fls \<Rightarrow> fls))))
      in \<lparr>rp_labels = map_option (\<lambda>j. (endpoint_label (Some (source_connection j)) (Some (source_path j)),
                                      endpoint_label (Some (dest_connection j)) (Some (dest_path j)))) job,
          rp_changes = run_page_changes (run_id r) action st, rp_counts = counts, rp_total = sum_list (map snd counts),
          rp_active = (case action of None \<Rightarrow> [] | Some a \<Rightarrow> a), rp_report = report, rp_error = err,
          rp_archived = snd archived, rp_blocked = fst archived\<rparr>)"

text \<open>None is the redirect to the list of jobs.\<close>

definition run_detail_page :: "ext \<Rightarrow> proc \<Rightarrow> nat \<Rightarrow> string option \<Rightarrow> store \<Rightarrow> run_view option" where
  "run_detail_page x run i action st =
     map_option (\<lambda>r. run_context x run r (find_job st (run_job_id r)) action None None st) (find_run st i)"

text \<open>The outer None is that redirect too, the inner an exception the form does not catch.\<close>

definition restored_run_page :: "ext \<Rightarrow> proc \<Rightarrow> nat \<Rightarrow> bool \<Rightarrow> string list \<Rightarrow> store \<Rightarrow> run_view option option" where
  "restored_run_page x run i everything wanted st =
     Option.bind (find_run st i) (\<lambda>r.
     map_option (\<lambda>j.
       case restore_run_form x run j r everything wanted of
         (h, Inr report) \<Rightarrow> Some (run_context x (\<lambda>h'. run (h @ h')) r (Some j) None (Some report) None st)
       | (h, Inl (RestorePrep SecretDecryptError)) \<Rightarrow> None
       | (h, Inl (RestorePrep (KeyError k))) \<Rightarrow> None
       | (h, Inl e) \<Rightarrow> Some (run_context x (\<lambda>h'. run (h @ h')) r (Some j) None None (Some e) st))
       (find_job st (run_job_id r)))"

subsection \<open>Compatibility, dashboard, jobs\<close>

definition compatibility_page ::
  "ext \<Rightarrow> datetime \<Rightarrow> nat option \<Rightarrow> nat option \<Rightarrow> 'trig catalog \<Rightarrow> nat + compatibility option" where
  "compatibility_page x now i j s =
     (case by_name (cat_connections s) of
        a # b # r \<Rightarrow>
          (let chosen = (\<lambda>d i. case i of None \<Rightarrow> Some d | Some n \<Rightarrow> if n = 0 then Some d else row conn_id (cat_connections s) n)
           in case (chosen a i, chosen b j) of
                (Some source, Some dest) \<Rightarrow> map_sum id Some (compatibility_of x now source dest)
              | _ \<Rightarrow> Inr None)
      | _ \<Rightarrow> Inr None)"

definition next_of_latest :: "job_run list \<Rightarrow> job_run option" where
  "next_of_latest rs = (case rs of [] \<Rightarrow> None | r # _ \<Rightarrow> Some r)"

record job_card =
  jc_job :: job
  jc_last_run :: "job_run option"
  jc_next_run :: "datetime option"

record dashboard_view =
  dv_cards :: "job_card list"
  dv_running :: "(job_run \<times> job) list"

text \<open>\<open>next_run\<close> is what the scheduler has queued for a job; the flag says whether it is running.\<close>

definition dashboard :: "bool \<Rightarrow> (nat \<Rightarrow> datetime option) \<Rightarrow> store \<Rightarrow> dashboard_view" where
  "dashboard scheduler_runs next_run st =
     (let jobs = sort_key job_name (db_jobs st)
      in \<lparr>dv_cards = map (\<lambda>j. \<lparr>jc_job = j, jc_last_run = next_of_latest (latest_runs 1 (job_id j) st),
                               jc_next_run = (if scheduler_runs then next_run (job_id j) else None)\<rparr>) jobs,
          dv_running = concat (map (\<lambda>r. case find (\<lambda>j. job_id j = run_job_id r) jobs of None \<Rightarrow> [] | Some j \<Rightarrow> [(r, j)])
                         (sort_key started_at (filter (\<lambda>r. run_status_of r = Running) (db_runs st))))\<rparr>)"

definition jobs_page :: "store \<Rightarrow> (job \<times> string \<times> job_run option) list" where
  "jobs_page st =
     map (\<lambda>j. (j, describe_job j, next_of_latest (latest_runs 1 (job_id j) st))) (sort_key job_name (db_jobs st))"

datatype run_log = NotCaptured | NoLongerOnDisk | LogText string

text \<open>\<open>get_run_log\<close>, with what is at a path: None where there is no file.\<close>

definition get_run_log :: "(string \<Rightarrow> string option) \<Rightarrow> nat \<Rightarrow> store \<Rightarrow> nat + run_log" where
  "get_run_log file_at i st =
     (case find_run st i of
        None \<Rightarrow> Inl 404
      | Some r \<Rightarrow>
          if log_path r \<in> {None, Some []} then Inr NotCaptured
          else (case file_at (the (log_path r)) of None \<Rightarrow> Inr NoLongerOnDisk | Some t \<Rightarrow> Inr (LogText t)))"

subsection \<open>Lemmas: browsing\<close>

text \<open>A name that is one component of a path, as it is written.\<close>

definition component_name :: "string \<Rightarrow> bool" where
  "component_name n \<longleftrightarrow> n \<notin> {[], ''.'', ''..''} \<and> CHR ''/'' \<notin> set n \<and> CHR 0x5C \<notin> set n"

lemma strip_slash_whole: "CHR ''/'' \<notin> set n \<Longrightarrow> strip_slash n = n"
  by (intro strip_slash_id) (metis hd_in_set last_in_set)

lemma unbackslash_id: "CHR 0x5C \<notin> set n \<Longrightarrow> unbackslash n = n"
  by (auto simp: unbackslash_def intro!: map_idI)

lemma current_ends: "c = browse_current p \<Longrightarrow> c \<noteq> [] \<Longrightarrow> hd c \<noteq> CHR ''/'' \<and> last c \<noteq> CHR ''/''"
  using strip_slash_ends by (simp add: browse_current_def)

lemma rstrip_current: "c = browse_current p \<Longrightarrow> rstrip_slash c = c"
proof (cases "c = []")
  case False
  assume "c = browse_current p"
  then have "last c \<noteq> CHR ''/''" using current_ends False by blast
  then show ?thesis using False by (cases c rule: rev_cases) (auto simp: rstrip_slash_def rstrip_if_def)
qed (simp add: rstrip_slash_def rstrip_if_def)

lemma entry_path:
  assumes "component_name n" "c = browse_current p"
  shows "join_subpath c (Some n) = Inr (browse_entry_path c n)"
  using assms rstrip_current [OF assms(2)]
  by (auto simp: component_name_def join_subpath_def strip_slash_whole unbackslash_id split_on_single browse_entry_path_def Let_def)

lemma entries_shown:
  assumes "list_all (component_name \<circ> de_name) es" "c = browse_current p"
  shows "entries_at c es = Inr (map (\<lambda>e. \<lparr>be_name = de_name e, be_is_dir = de_is_dir e, be_path = browse_entry_path c (de_name e)\<rparr>) es)"
  using assms(1) by (induction es) (simp_all add: entry_path [OF _ assms(2)])

text \<open>Opening a directory and going up again leads back.\<close>

theorem browsed_back:
  assumes "component_name n" "c = browse_current p"
  shows "browse_current (Some (browse_entry_path c n)) = browse_entry_path c n \<and> browse_parent (browse_entry_path c n) = Some c"
proof -
  let ?e = "browse_entry_path c n"
  have n: "n \<noteq> []" "CHR ''/'' \<notin> set n" using assms(1) by (auto simp: component_name_def)
  have "hd ?e \<noteq> CHR ''/''" "last ?e \<noteq> CHR ''/''"
    using n current_ends [OF assms(2)] by (auto simp: browse_entry_path_def dest: hd_in_set last_in_set)
  then have "strip_slash ?e = ?e" by (intro strip_slash_id) blast
  moreover have "butlast (split_on (CHR ''/'') ?e) = (if c = [] then [] else split_on (CHR ''/'') c)"
    using n by (simp add: browse_entry_path_def split_on_single split_on_join_append)
  ultimately show ?thesis
    using n by (simp add: browse_current_def browse_parent_def join_split_on) (simp add: browse_entry_path_def)
qed

text \<open>The page of a directory shows what the API answers for it.\<close>

theorem browse_page_agrees:
  assumes "\<And>c entries. row conn_id (cat_connections s) i = Some c \<Longrightarrow> browse x rc c path = Inr entries \<Longrightarrow>
             list_all (component_name \<circ> de_name) entries"
  shows "browse_endpoint x rc i path s = Inr v \<longleftrightarrow> browse_page x rc i path s = Inr (v, None)"
proof (cases "row conn_id (cat_connections s) i")
  case (Some c)
  show ?thesis
  proof (cases "browse x rc c path")
    case (Inr entries)
    then show ?thesis
      using Some entries_shown [OF assms [OF Some Inr] refl, of path] by (simp add: browse_endpoint_def browse_page_def Let_def)
  next
    case (Inl e)
    then show ?thesis
      using Some by (cases e) (auto simp: browse_endpoint_def browse_page_def Let_def split: prep_error.splits)
  qed
qed (simp add: browse_endpoint_def browse_page_def)

subsection \<open>Lemmas: the page of a run\<close>

lemma sum_of_counts:
  assumes "finite A" "g ` set xs \<subseteq> A"
  shows "(\<Sum>a\<in>A. length (filter (\<lambda>c. g c = a) xs)) = length xs"
  using assms(2)
proof (induction xs)
  case (Cons y ys)
  have "(\<Sum>a\<in>A. length (filter (\<lambda>c. g c = a) (y # ys))) = (\<Sum>a\<in>A. (if g y = a then 1 else 0) + length (filter (\<lambda>c. g c = a) ys))"
    by (intro sum.cong) auto
  also have "\<dots> = 1 + length ys" using Cons assms(1) by (simp add: sum.distrib)
  finally show ?case by simp
qed simp

lemma counted_changes:
  "a \<noteq> [] \<Longrightarrow> changes_of i (Some a) st = filter (\<lambda>c. action_value (chg_action c) = a) (changes_of i None st)"
  by (simp add: changes_of_def conj_commute)

lemma action_value_Cons: "action_value a \<noteq> []"
  by (cases a) simp_all

text \<open>The counts of the filter bar are those of the whole run whatever is filtered, and add up to its changes.\<close>

theorem run_page_counts:
  assumes "v = run_context x run r job action report err st"
  shows "rp_counts v = change_counts (run_id r) st \<and> rp_total v = length (changes_of (run_id r) None st)"
proof -
  let ?all = "changes_of (run_id r) None st" and ?g = "\<lambda>c. action_value (chg_action c)"
  have "sum_list (map snd (change_counts (run_id r) st)) =
      (\<Sum>a\<in>?g ` set ?all. length (changes_of (run_id r) (Some a) st))"
    by (simp add: change_counts_def comp_def sum_list_distinct_conv_sum_set)
  also have "\<dots> = (\<Sum>a\<in>?g ` set ?all. length (filter (\<lambda>c. ?g c = a) ?all))"
    by (intro sum.cong refl) (auto simp: counted_changes action_value_Cons)
  also have "\<dots> = length ?all" by (rule sum_of_counts) simp_all
  finally show ?thesis by (simp add: assms run_context_def Let_def)
qed

text \<open>What the page offers to restore is what restoring everything asks for, while the archive does not change.\<close>

theorem offered_is_restored:
  assumes "v = run_context x run r (Some j) action None err st" "rp_archived v \<noteq> []"
  shows "restore_run_form x run j r True wanted = restore x run j r (rp_archived v) (fst (list_archived x run j r []))"
  using assms by (auto simp: run_context_def restore_run_form_def Let_def split: if_splits option.splits sum.splits prod.splits)

text \<open>A run that cannot be restored says why, and the form on its page does nothing.\<close>

theorem blocked_page_refuses:
  assumes "v = run_context x run r (Some j) action report err st" "rp_blocked v = Some why"
  shows "rp_archived v = [] \<and> restore_run_form x run j r everything wanted = ([], Inl (RestoreError why))"
  using assms by (auto simp: run_context_def restore_run_form_def list_archived_def Let_def split: if_splits option.splits)

subsection \<open>Lemmas: compatibility and dashboard\<close>

text \<open>The page asked for two connections shows what the API answers for them.\<close>

theorem compatibility_page_agrees:
  assumes "i \<noteq> 0" "j \<noteq> 0" "2 \<le> length (cat_connections s)"
  shows "compatibility_page x now (Some i) (Some j) s =
    (case compatibility_endpoint x now i j s of Inl e \<Rightarrow> if e = 404 then Inr None else Inl e | Inr c \<Rightarrow> Inr (Some c))"
proof -
  have "length (by_name (cat_connections s)) \<ge> 2" using assms(3) by (simp add: by_name_def)
  then obtain a b r where "by_name (cat_connections s) = a # b # r"
    by (cases "by_name (cat_connections s)" rule: list.exhaust; cases "tl (by_name (cat_connections s))") auto
  moreover have "compatibility_of x now c d \<noteq> Inl 404" for c d by (simp add: compatibility_of_def split: option.splits)
  ultimately show ?thesis
    using assms(1,2)
    by (auto simp: compatibility_page_def compatibility_endpoint_def Let_def split: option.splits sum.splits)
qed

text \<open>Every run that is running, of a job that is there, is on the dashboard once, and every job has a card.\<close>

theorem dashboard_complete:
  assumes "v = dashboard running next_run st" "\<And>r. r \<in> set (db_runs st) \<Longrightarrow> run_job_id r \<in> job_id ` set (db_jobs st)"
  shows "mset (map fst (dv_running v)) = mset (filter (\<lambda>r. run_status_of r = Running) (db_runs st)) \<and>
         mset (map jc_job (dv_cards v)) = mset (db_jobs st)"
proof -
  let ?jobs = "sort_key job_name (db_jobs st)"
  have "map fst (concat (map (\<lambda>r. case find (\<lambda>j. job_id j = run_job_id r) ?jobs of None \<Rightarrow> [] | Some j \<Rightarrow> [(r, j)]) rs)) = rs"
    if "set rs \<subseteq> set (db_runs st)" for rs
    using that
  proof (induction rs)
    case (Cons r rs)
    then have "find (\<lambda>j. job_id j = run_job_id r) ?jobs \<noteq> None" using assms(2) [of r] by (auto simp: find_None_iff)
    then show ?case using Cons by auto
  qed simp
  from this [of "sort_key started_at (filter (\<lambda>r. run_status_of r = Running) (db_runs st))"]
  show ?thesis by (auto simp: assms(1) dashboard_def Let_def comp_def)
qed

end
